(* ===== verification/Prelude.thy ===== *)
theory Prelude
  imports Main "HOL-Library.Char_ord" "HOL-Library.List_Lexorder" "HOL-Library.Sublist"
    "HOL-Library.Word"
begin

text \<open>
  What the components share: Rust's \<open>Result\<close> as a sum, \<open>BTreeMap\<close> and \<open>BTreeSet\<close> as
  strictly sorted lists, the string and character functions of the standard library that the
  sources call, saturating machine arithmetic, and three interfaces (locales) that several
  components provide: a finite enumeration with its wire names (\<open>wire_enum\<close>), an ordered map
  (\<open>ordered_map\<close>) and a transition system with an invariant (\<open>guarded_machine\<close>).

  Strings are \<^typ>\<open>string\<close>, one HOL character per Rust \<open>char\<close>. HOL characters are the
  code points U+0000 to U+00FF; the byte length of the UTF-8 form is \<open>utf8_len\<close>.
\<close>

named_theorems result_simps \<open>computing with results and their binds\<close>
named_theorems char_simps \<open>definitions of the character classes\<close>
named_theorems machine_simps \<open>reading saturating word operations as natural numbers\<close>

section \<open>Results\<close>

type_synonym ('e, 'a) result = "'e + 'a"

abbreviation Ok :: "'a \<Rightarrow> ('e, 'a) result" where
  "Ok \<equiv> Inr"

abbreviation Err :: "'e \<Rightarrow> ('e, 'a) result" where
  "Err \<equiv> Inl"

text \<open>The \<open>?\<close> operator: go on with the value, or return the error.\<close>

fun bind :: "('e, 'a) result \<Rightarrow> ('a \<Rightarrow> ('e, 'b) result) \<Rightarrow> ('e, 'b) result" where
  "bind (Inl e) f = Inl e"
| "bind (Inr a) f = f a"

fun map_err :: "('e \<Rightarrow> 'f) \<Rightarrow> ('e, 'a) result \<Rightarrow> ('f, 'a) result" where
  "map_err f (Inl e) = Inl (f e)"
| "map_err f (Inr a) = Inr a"

fun map_ok :: "('a \<Rightarrow> 'b) \<Rightarrow> ('e, 'a) result \<Rightarrow> ('e, 'b) result" where
  "map_ok f (Inl e) = Inl e"
| "map_ok f (Inr a) = Inr (f a)"

fun ok_or :: "'a option \<Rightarrow> 'e \<Rightarrow> ('e, 'a) result" where
  "ok_or None e = Inl e"
| "ok_or (Some a) e = Inr a"

fun is_ok :: "('e, 'a) result \<Rightarrow> bool" where
  "is_ok (Inl e) = False"
| "is_ok (Inr a) = True"

text \<open>\<open>.map(f).collect::<Result<Vec<_>, _>>()\<close>: stops at the first error.\<close>

fun try_map :: "('a \<Rightarrow> ('e, 'b) result) \<Rightarrow> 'a list \<Rightarrow> ('e, 'b list) result" where
  "try_map f [] = Inr []"
| "try_map f (x # xs) = bind (f x) (\<lambda>y. bind (try_map f xs) (\<lambda>ys. Inr (y # ys)))"

text \<open>\<open>.map(f).collect::<Option<Vec<_>>>()\<close>.\<close>

fun opt_map :: "('a \<Rightarrow> 'b option) \<Rightarrow> 'a list \<Rightarrow> 'b list option" where
  "opt_map f [] = Some []"
| "opt_map f (x # xs) =
     (case f x of None \<Rightarrow> None | Some y \<Rightarrow> map_option (\<lambda>ys. y # ys) (opt_map f xs))"

text \<open>\<open>Option::filter\<close> and \<open>Option::is_some_and\<close>.\<close>

definition opt_filter :: "('a \<Rightarrow> bool) \<Rightarrow> 'a option \<Rightarrow> 'a option" where
  "opt_filter P x = (case x of None \<Rightarrow> None | Some a \<Rightarrow> if P a then Some a else None)"

definition is_some_and :: "('a \<Rightarrow> bool) \<Rightarrow> 'a option \<Rightarrow> bool" where
  "is_some_and P x = (case x of None \<Rightarrow> False | Some a \<Rightarrow> P a)"

definition is_none_or :: "('a \<Rightarrow> bool) \<Rightarrow> 'a option \<Rightarrow> bool" where
  "is_none_or P x = (case x of None \<Rightarrow> True | Some a \<Rightarrow> P a)"

lemma bind_Ok_iff [result_simps]: "(bind r f = Inr b) = (\<exists>a. r = Inr a \<and> f a = Inr b)"
  by (cases r) auto

lemma map_err_Ok_iff [result_simps]: "(map_err f r = Inr a) = (r = Inr a)"
  by (cases r) auto

lemma map_ok_Ok_iff [result_simps]: "(map_ok f r = Inr b) = (\<exists>a. r = Inr a \<and> b = f a)"
  by (cases r) auto

lemma ok_or_Ok_iff [result_simps]: "(ok_or x e = Inr a) = (x = Some a)"
  by (cases x) auto

lemma is_ok_iff [result_simps]: "is_ok r = (\<exists>a. r = Inr a)"
  by (cases r) auto

lemma opt_filter_simps [simp]:
  "opt_filter P None = None"
  "opt_filter P (Some a) = (if P a then Some a else None)"
  by (simp_all add: opt_filter_def)

lemma opt_filter_Some_iff: "(opt_filter P x = Some a) = (x = Some a \<and> P a)"
  by (cases x) auto

lemma is_some_and_simps [simp]:
  "is_some_and P None = False"
  "is_some_and P (Some a) = P a"
  by (simp_all add: is_some_and_def)

lemma is_none_or_simps [simp]:
  "is_none_or P None = True"
  "is_none_or P (Some a) = P a"
  by (simp_all add: is_none_or_def)

lemma try_map_Ok_map [simp]: "(\<And>x. x \<in> set xs \<Longrightarrow> f x = Inr (g x)) \<Longrightarrow> try_map f xs = Inr (map g xs)"
  by (induction xs) auto

lemma try_map_Ok_set: "try_map f xs = Inr ys \<Longrightarrow> y \<in> set ys \<Longrightarrow> \<exists>x \<in> set xs. f x = Inr y"
  by (induction xs arbitrary: ys) (auto simp: result_simps)

lemma try_map_Ok_length: "try_map f xs = Inr ys \<Longrightarrow> length ys = length xs"
  by (induction xs arbitrary: ys) (auto simp: result_simps)

lemma opt_map_length: "opt_map f xs = Some ys \<Longrightarrow> length ys = length xs"
  by (induction xs arbitrary: ys) (auto split: option.splits)

lemma opt_map_Some_map [simp]: "(\<And>x. x \<in> set xs \<Longrightarrow> f x = Some (g x)) \<Longrightarrow> opt_map f xs = Some (map g xs)"
  by (induction xs) auto

section \<open>Enumerations and their wire names\<close>

text \<open>
  Many enums have \<open>ALL\<close>, \<open>as_str\<close> and a \<open>parse\<close> that searches \<open>ALL\<close> for the name.
  The names are distinct and \<open>ALL\<close> is complete, so \<open>parse\<close> is the inverse of \<open>as_str\<close>.
\<close>

locale wire_enum =
  fixes all :: "'a list"
    and as_str :: "'a \<Rightarrow> string"
  assumes complete: "set all = UNIV"
    and names_distinct: "distinct (map as_str all)"
begin

lemma as_str_inj: "as_str x = as_str y \<Longrightarrow> x = y"
  using complete names_distinct by (auto simp: distinct_map inj_on_def)

lemma parse_iff: "(find (\<lambda>x. as_str x = s) all = Some x) = (as_str x = s)"
proof
  assume "find (\<lambda>x. as_str x = s) all = Some x"
  then show "as_str x = s" by (auto simp: find_Some_iff)
next
  assume eq: "as_str x = s"
  have "x \<in> set all" using complete by simp
  with eq obtain y where y: "find (\<lambda>x. as_str x = s) all = Some y"
    by (cases "find (\<lambda>x. as_str x = s) all") (auto simp: find_None_iff)
  then have "as_str y = s" by (auto simp: find_Some_iff)
  with eq have "x = y" using as_str_inj by simp
  with y show "find (\<lambda>x. as_str x = s) all = Some x" by simp
qed

lemma round_trip [simp]: "find (\<lambda>y. as_str y = as_str x) all = Some x"
  by (simp add: parse_iff)

lemma parse_None: "(find (\<lambda>x. as_str x = s) all = None) = (\<forall>x. as_str x \<noteq> s)"
  using complete by (auto simp: find_None_iff)

end

section \<open>Canonical forms\<close>

text \<open>
  A component that reads a value from a loose form and writes it in one canonical form: what it
  writes, it reads back. Then normalising twice is normalising once, and two values with the
  same canonical form are the same.
\<close>

locale canonical_form =
  fixes parse :: "'j \<Rightarrow> ('e, 'a) result"
    and print :: "'a \<Rightarrow> 'j"
    and valid :: "'a \<Rightarrow> bool"
  assumes parse_valid: "parse j = Ok x \<Longrightarrow> valid x"
    and parse_print: "valid x \<Longrightarrow> parse (print x) = Ok x"
begin

lemma normalise_idem: "parse j = Ok x \<Longrightarrow> parse (print x) = Ok x"
  by (simp add: parse_valid parse_print)

lemma print_inj: "valid x \<Longrightarrow> valid y \<Longrightarrow> print x = print y \<Longrightarrow> x = y"
  by (metis parse_print sum.inject(2))

end

section \<open>Ordered maps and sets\<close>

text \<open>
  A \<open>BTreeMap\<close> (and a \<open>serde_json::Map\<close>, which is one) is the list of its entries in
  strictly increasing key order: iteration is the list, equality is list equality.
\<close>

type_synonym ('k, 'v) bmap = "('k \<times> 'v) list"

abbreviation bget :: "('k, 'v) bmap \<Rightarrow> 'k \<Rightarrow> 'v option" where
  "bget \<equiv> map_of"

abbreviation bkeys :: "('k, 'v) bmap \<Rightarrow> 'k list" where
  "bkeys m \<equiv> map fst m"

fun binsert :: "'k::linorder \<Rightarrow> 'v \<Rightarrow> ('k, 'v) bmap \<Rightarrow> ('k, 'v) bmap" where
  "binsert k v [] = [(k, v)]"
| "binsert k v ((a, b) # m) =
     (if k < a then (k, v) # (a, b) # m
      else if k = a then (k, v) # m
      else (a, b) # binsert k v m)"

fun bremove :: "'k::linorder \<Rightarrow> ('k, 'v) bmap \<Rightarrow> ('k, 'v) bmap" where
  "bremove k [] = []"
| "bremove k ((a, b) # m) = (if k = a then m else (a, b) # bremove k m)"

text \<open>\<open>collect::<BTreeMap<_, _>>()\<close>: entries are inserted in order, the last of a key wins.\<close>

definition bcollect :: "('k::linorder \<times> 'v) list \<Rightarrow> ('k, 'v) bmap" where
  "bcollect kvs = fold (\<lambda>(k, v) m. binsert k v m) kvs []"

definition bmap_ok :: "('k::linorder, 'v) bmap \<Rightarrow> bool" where
  "bmap_ok m = sorted_wrt (<) (bkeys m)"

locale ordered_map =
  fixes empty :: "'m"
    and insert_kv :: "'k \<Rightarrow> 'v \<Rightarrow> 'm \<Rightarrow> 'm"
    and remove_k :: "'k \<Rightarrow> 'm \<Rightarrow> 'm"
    and get_v :: "'m \<Rightarrow> 'k \<Rightarrow> 'v option"
    and valid :: "'m \<Rightarrow> bool"
  assumes get_empty: "get_v empty k = None"
    and get_insert: "valid m \<Longrightarrow> get_v (insert_kv k v m) k' = (if k' = k then Some v else get_v m k')"
    and get_remove: "valid m \<Longrightarrow> get_v (remove_k k m) k' = (if k' = k then None else get_v m k')"
    and valid_empty: "valid empty"
    and valid_insert: "valid m \<Longrightarrow> valid (insert_kv k v m)"
    and valid_remove: "valid m \<Longrightarrow> valid (remove_k k m)"
    and extensional: "valid m \<Longrightarrow> valid m' \<Longrightarrow> (\<And>k. get_v m k = get_v m' k) \<Longrightarrow> m = m'"
begin

lemma insert_twice: "valid m \<Longrightarrow> insert_kv k v (insert_kv k w m) = insert_kv k v m"
  by (rule extensional) (auto simp: get_insert valid_insert)

lemma insert_commute:
  "valid m \<Longrightarrow> k \<noteq> k' \<Longrightarrow> insert_kv k v (insert_kv k' w m) = insert_kv k' w (insert_kv k v m)"
  by (rule extensional) (auto simp: get_insert valid_insert)

lemma remove_insert: "valid m \<Longrightarrow> get_v m k = None \<Longrightarrow> remove_k k (insert_kv k v m) = m"
  by (rule extensional) (auto simp: get_insert get_remove valid_insert valid_remove)

lemma insert_present: "valid m \<Longrightarrow> get_v m k = Some v \<Longrightarrow> insert_kv k v m = m"
  by (rule extensional) (auto simp: get_insert valid_insert)

lemma remove_idem: "valid m \<Longrightarrow> remove_k k (remove_k k m) = remove_k k m"
  by (rule extensional) (auto simp: get_remove valid_remove)

end

lemma bmap_ok_Nil [simp]: "bmap_ok []"
  by (simp add: bmap_ok_def)

lemma bmap_ok_Cons [simp]: "bmap_ok ((a, b) # m) = ((\<forall>k v. (k, v) \<in> set m \<longrightarrow> a < k) \<and> bmap_ok m)"
  by (auto simp: bmap_ok_def)

lemma keys_binsert [simp]: "set (bkeys (binsert k v m)) = insert k (set (bkeys m))"
  by (induction k v m rule: binsert.induct) auto

lemma bget_binsert [simp]: "bget (binsert k v m) k' = (if k' = k then Some v else bget m k')"
  by (induction k v m rule: binsert.induct) auto

lemma binsert_entries: "(k', v') \<in> set (binsert k v m) \<Longrightarrow> (k' = k \<and> v' = v) \<or> (k', v') \<in> set m"
  by (induction k v m rule: binsert.induct) (auto split: if_splits)

lemma bmap_ok_binsert [simp]: "bmap_ok m \<Longrightarrow> bmap_ok (binsert k v m)"
  by (induction k v m rule: binsert.induct) (fastforce dest: binsert_entries)+

lemma bremove_entries: "kv \<in> set (bremove k m) \<Longrightarrow> kv \<in> set m"
  by (induction k m rule: bremove.induct) (auto split: if_splits)

lemma bmap_ok_bremove [simp]: "bmap_ok m \<Longrightarrow> bmap_ok (bremove k m)"
  by (induction k m rule: bremove.induct) (auto dest: bremove_entries)

lemma bget_below: "\<forall>k v. (k, v) \<in> set m \<longrightarrow> a < (k :: 'k::linorder) \<Longrightarrow> bget m a = None"
  by (auto simp: map_of_eq_None_iff)

lemma bget_bremove: "bmap_ok m \<Longrightarrow> bget (bremove k m) k' = (if k' = k then None else bget m k')"
  by (induction k m rule: bremove.induct) (auto simp: bget_below)

lemma bmap_ok_entry: "bmap_ok m \<Longrightarrow> (k, v) \<in> set m \<Longrightarrow> bget m k = Some v"
  by (induction m) (auto, metis less_irrefl)

lemma bget_iff: "bmap_ok m \<Longrightarrow> (bget m k = Some v) = ((k, v) \<in> set m)"
  by (auto dest: map_of_SomeD bmap_ok_entry)

lemma bmap_ok_sorted_distinct: "bmap_ok m \<Longrightarrow> sorted (map fst m) \<and> distinct (map fst m)"
  by (simp add: bmap_ok_def strict_sorted_iff)

lemma bmap_ext:
  assumes "bmap_ok m" "bmap_ok m'" "\<And>k. bget m k = bget m' k"
  shows "m = m'"
proof (rule map_sorted_distinct_set_unique)
  show "inj_on fst (set m \<union> set m')"
    using assms by (auto simp: inj_on_def simp flip: bget_iff)
  show "set m = set m'"
    using assms by (auto simp flip: bget_iff)
qed (use assms bmap_ok_sorted_distinct in auto)

interpretation btree: ordered_map "[]" "binsert :: 'k::linorder \<Rightarrow> 'v \<Rightarrow> _" bremove bget bmap_ok
  by unfold_locales (auto simp: bget_bremove intro: bmap_ext)

lemma bmap_ok_bcollect [simp]: "bmap_ok (bcollect kvs)"
proof -
  have "bmap_ok m \<Longrightarrow> bmap_ok (fold (\<lambda>(k, v) m. binsert k v m) kvs m)" for m
    by (induction kvs arbitrary: m) auto
  then show ?thesis by (simp add: bcollect_def)
qed

lemma fold_binsert_snoc:
  "bmap_ok (m @ kvs) \<Longrightarrow> fold (\<lambda>(k, v) m. binsert k v m) kvs m = m @ kvs"
proof (induction kvs arbitrary: m)
  case (Cons kv kvs)
  obtain k v where kv: "kv = (k, v)" by (cases kv)
  have "bmap_ok (m @ (k, v) # n) \<Longrightarrow> binsert k v m = m @ [(k, v)]" for n
    by (induction m) (auto simp: bmap_ok_def)
  with Cons kv show ?case by simp
qed simp

lemma bcollect_ok_id [simp]: "bmap_ok kvs \<Longrightarrow> bcollect kvs = kvs"
  using fold_binsert_snoc[of "[]" kvs] by (simp add: bcollect_def)

lemma bcollect_entries: "kv \<in> set (bcollect kvs) \<Longrightarrow> kv \<in> set kvs"
proof -
  have "kv \<in> set (fold (\<lambda>(k, v) m. binsert k v m) kvs m) \<Longrightarrow> kv \<in> set kvs \<union> set m" for m
  proof (induction kvs arbitrary: m)
    case (Cons x kvs)
    obtain k v where x: "x = (k, v)" by (cases x)
    have "kv \<in> set kvs \<union> set (binsert k v m)" using Cons x by auto
    then show ?case using binsert_entries[of "fst kv" "snd kv" k v m] x by (cases kv) auto
  qed simp
  from this[of "[]"] show "kv \<in> set (bcollect kvs) \<Longrightarrow> kv \<in> set kvs" by (simp add: bcollect_def)
qed

lemma length_binsert: "length (binsert k v m) \<le> Suc (length m)"
  by (induction k v m rule: binsert.induct) auto

lemma length_bcollect: "length (bcollect kvs) \<le> length kvs"
proof -
  have "length (fold (\<lambda>(k, v) m. binsert k v m) kvs m) \<le> length kvs + length m" for m
  proof (induction kvs arbitrary: m)
    case (Cons x kvs)
    obtain k v where x: "x = (k, v)" by (cases x)
    show ?case using Cons[of "binsert k v m"] length_binsert[of k v m] by (simp add: x)
  qed simp
  from this[of "[]"] show ?thesis by (simp add: bcollect_def)
qed

lemma bget_bcollect [simp]: "bget (bcollect kvs) k = map_of (rev kvs) k"
proof -
  have "bget (fold (\<lambda>(k, v) m. binsert k v m) kvs m) k =
      (case map_of (rev kvs) k of None \<Rightarrow> bget m k | Some v \<Rightarrow> Some v)" for m
    by (induction kvs arbitrary: m) (auto simp: map_add_def split: option.splits)
  from this[of "[]"] show ?thesis by (simp add: bcollect_def split: option.splits)
qed

lemma keys_bcollect [simp]: "set (bkeys (bcollect kvs)) = fst ` set kvs"
proof -
  have "set (bkeys (bcollect kvs)) = dom (bget (bcollect kvs))"
    by (simp only: dom_map_of_conv_image_fst set_map)
  also have "bget (bcollect kvs) = map_of (rev kvs)" by (rule ext) simp
  also have "dom \<dots> = fst ` set kvs" by (simp only: dom_map_of_conv_image_fst set_rev)
  finally show ?thesis .
qed

lemma bmap_ok_map_values [simp]: "bmap_ok (map (\<lambda>(k, v). (k, f k v)) m) = bmap_ok m"
proof -
  have "map fst (map (\<lambda>(k, v). (k, f k v)) m) = map fst m" by (induction m) auto
  then show ?thesis by (simp only: bmap_ok_def)
qed

text \<open>A \<open>BTreeSet\<close> is the strictly increasing list of its elements.\<close>

type_synonym 'a bset = "'a list"

definition bset_ok :: "'a::linorder bset \<Rightarrow> bool" where
  "bset_ok s = sorted_wrt (<) s"

definition bset_of :: "'a::linorder list \<Rightarrow> 'a bset" where
  "bset_of xs = sorted_list_of_set (set xs)"

lemma set_bset_of [simp]: "set (bset_of xs) = set xs"
  by (simp add: bset_of_def)

lemma bset_ok_bset_of [simp]: "bset_ok (bset_of xs)"
  by (simp add: bset_of_def bset_ok_def)

lemma bset_of_ok_id [simp]: "bset_ok s \<Longrightarrow> bset_of s = s"
  by (simp add: bset_of_def bset_ok_def sorted_list_of_set.idem_if_sorted_distinct
      strict_sorted_iff)


lemma bset_of_eq_iff: "(bset_of xs = bset_of ys) = (set xs = set ys)"
proof
  assume "bset_of xs = bset_of ys"
  then have "set (bset_of xs) = set (bset_of ys)" by simp
  then show "set xs = set ys" by simp
qed (simp add: bset_of_def)

lemma bset_of_code_simp: "bset_of xs = sort (remdups xs)"
  by (simp add: bset_of_def sorted_list_of_set_sort_remdups)

section \<open>Characters and strings of the standard library\<close>

definition is_ascii_lowercase :: "char \<Rightarrow> bool" where
  [char_simps]: "is_ascii_lowercase c = (CHR ''a'' \<le> c \<and> c \<le> CHR ''z'')"

definition is_ascii_uppercase :: "char \<Rightarrow> bool" where
  [char_simps]: "is_ascii_uppercase c = (CHR ''A'' \<le> c \<and> c \<le> CHR ''Z'')"

definition is_ascii_digit :: "char \<Rightarrow> bool" where
  [char_simps]: "is_ascii_digit c = (CHR ''0'' \<le> c \<and> c \<le> CHR ''9'')"

definition is_ascii_alphanumeric :: "char \<Rightarrow> bool" where
  [char_simps]: "is_ascii_alphanumeric c =
     (is_ascii_lowercase c \<or> is_ascii_uppercase c \<or> is_ascii_digit c)"

definition is_ascii_hexdigit :: "char \<Rightarrow> bool" where
  [char_simps]: "is_ascii_hexdigit c =
     (is_ascii_digit c \<or> (CHR ''a'' \<le> c \<and> c \<le> CHR ''f'') \<or> (CHR ''A'' \<le> c \<and> c \<le> CHR ''F''))"

text \<open>\<open>char::is_control\<close>: the general category Cc, U+0000..U+001F and U+007F..U+009F.\<close>

definition is_control :: "char \<Rightarrow> bool" where
  [char_simps]: "is_control c = (let n = of_char c :: nat in n < 32 \<or> (127 \<le> n \<and> n < 160))"

text \<open>\<open>char::is_whitespace\<close>, for the code points a HOL character has.\<close>

definition is_whitespace :: "char \<Rightarrow> bool" where
  [char_simps]: "is_whitespace c =
     (let n = of_char c :: nat in (9 \<le> n \<and> n \<le> 13) \<or> n = 32 \<or> n = 133 \<or> n = 160)"

text \<open>\<open>to_lowercase\<close>: ASCII letters, and U+00C0..U+00DE without the multiplication sign.\<close>

definition to_lower_char :: "char \<Rightarrow> char" where
  "to_lower_char c =
     (let n = of_char c :: nat in
      if (65 \<le> n \<and> n \<le> 90) \<or> (192 \<le> n \<and> n \<le> 222 \<and> n \<noteq> 215) then char_of (n + 32) else c)"

definition to_lowercase :: "string \<Rightarrow> string" where
  "to_lowercase = map to_lower_char"

text \<open>\<open>str::len\<close>: bytes of the UTF-8 form, one below U+0080 and two up to U+00FF.\<close>

definition utf8_len :: "string \<Rightarrow> nat" where
  "utf8_len s = sum_list (map (\<lambda>c. if (of_char c :: nat) < 128 then 1 else 2) s)"

definition trim :: "string \<Rightarrow> string" where
  "trim s = rev (dropWhile is_whitespace (rev (dropWhile is_whitespace s)))"

text \<open>\<open>strip_prefix\<close>, \<open>strip_suffix\<close>, \<open>split\<close>, \<open>split_once\<close>, \<open>rsplit_once\<close> and \<open>join\<close>.\<close>

fun strip_prefix :: "string \<Rightarrow> string \<Rightarrow> string option" where
  "strip_prefix [] s = Some s"
| "strip_prefix (p # ps) [] = None"
| "strip_prefix (p # ps) (c # cs) = (if p = c then strip_prefix ps cs else None)"

definition strip_suffix :: "string \<Rightarrow> string \<Rightarrow> string option" where
  "strip_suffix p s = map_option rev (strip_prefix (rev p) (rev s))"

fun split_once :: "char \<Rightarrow> string \<Rightarrow> (string \<times> string) option" where
  "split_once c [] = None"
| "split_once c (x # xs) =
     (if x = c then Some ([], xs)
      else map_option (\<lambda>(a, b). (x # a, b)) (split_once c xs))"

definition rsplit_once :: "char \<Rightarrow> string \<Rightarrow> (string \<times> string) option" where
  "rsplit_once c s = map_option (\<lambda>(a, b). (rev b, rev a)) (split_once c (rev s))"

fun split_char :: "char \<Rightarrow> string \<Rightarrow> string list" where
  "split_char c [] = [[]]"
| "split_char c (x # xs) =
     (if x = c then [] # split_char c xs
      else case split_char c xs of [] \<Rightarrow> [[x]] | w # ws \<Rightarrow> (x # w) # ws)"

fun join :: "string \<Rightarrow> string list \<Rightarrow> string" where
  "join sep [] = []"
| "join sep [x] = x"
| "join sep (x # y # xs) = x @ sep @ join sep (y # xs)"

text \<open>Decimal digits of an unsigned integer, and reading them back.\<close>

definition digit_char :: "nat \<Rightarrow> char" where
  "digit_char d = char_of (48 + d)"

definition digit_val :: "char \<Rightarrow> nat" where
  "digit_val c = of_char c - 48"

fun show_nat :: "nat \<Rightarrow> string" where
  "show_nat n = (if n < 10 then [digit_char n] else show_nat (n div 10) @ [digit_char (n mod 10)])"

declare show_nat.simps [simp del]

definition read_nat :: "string \<Rightarrow> nat" where
  "read_nat s = foldl (\<lambda>n c. 10 * n + digit_val c) 0 s"

lemma strip_prefix_iff: "(strip_prefix p s = Some r) = (s = p @ r)"
  by (induction p s rule: strip_prefix.induct) auto

lemma strip_prefix_append [simp]: "strip_prefix p (p @ r) = Some r"
  by (simp add: strip_prefix_iff)

lemma strip_suffix_iff: "(strip_suffix p s = Some r) = (s = r @ p)"
proof -
  have "(strip_suffix p s = Some r) = (strip_prefix (rev p) (rev s) = Some (rev r))"
    by (auto simp: strip_suffix_def)
  also have "\<dots> = (rev s = rev (r @ p))" by (simp add: strip_prefix_iff)
  also have "\<dots> = (s = r @ p)" by (simp only: rev_is_rev_conv)
  finally show ?thesis .
qed

lemma split_once_iff: "(split_once c s = Some (a, b)) = (s = a @ c # b \<and> c \<notin> set a)"
proof (induction s arbitrary: a)
  case (Cons x xs)
  show ?case by (cases a) (auto simp: Cons)
qed simp

lemma split_once_None [simp]: "(split_once c s = None) = (c \<notin> set s)"
  by (induction s) auto

lemma rsplit_once_iff: "(rsplit_once c s = Some (a, b)) = (s = a @ c # b \<and> c \<notin> set b)"
proof -
  have "(rsplit_once c s = Some (a, b)) = (split_once c (rev s) = Some (rev b, rev a))"
    by (auto simp: rsplit_once_def)
  also have "\<dots> = (rev s = rev (a @ c # b) \<and> c \<notin> set b)" by (simp add: split_once_iff)
  also have "\<dots> = (s = a @ c # b \<and> c \<notin> set b)" by (simp only: rev_is_rev_conv)
  finally show ?thesis .
qed

lemma rsplit_once_None [simp]: "(rsplit_once c s = None) = (c \<notin> set s)"
  by (simp add: rsplit_once_def)

lemma split_char_not_Nil [simp]: "split_char c s \<noteq> []"
  by (induction s) (auto split: list.splits)

lemma join_split_char [simp]: "join [c] (split_char c s) = s"
proof (induction s)
  case (Cons x xs)
  then show ?case by (cases "split_char c xs") (auto, (metis append_Cons join.simps(2,3) neq_Nil_conv)+)
qed simp

lemma split_char_pieces: "w \<in> set (split_char c s) \<Longrightarrow> c \<notin> set w"
  by (induction s arbitrary: w) (auto split: list.splits if_splits)

lemma split_char_no_sep [simp]: "c \<notin> set w \<Longrightarrow> split_char c w = [w]"
  by (induction w) auto

lemma split_char_Cons_sep: "c \<notin> set w \<Longrightarrow> split_char c (w @ c # s) = w # split_char c s"
  by (induction w) auto

lemma split_char_join:
  "ws \<noteq> [] \<Longrightarrow> (\<And>w. w \<in> set ws \<Longrightarrow> c \<notin> set w) \<Longrightarrow> split_char c (join [c] ws) = ws"
  by (induction "[c]" ws rule: join.induct) (auto simp: split_char_Cons_sep)

lemma digit_val_char [simp]: "d < 10 \<Longrightarrow> digit_val (digit_char d) = d"
  by (simp add: digit_val_def digit_char_def)

lemma digit_char_is_digit [simp]: "d < 10 \<Longrightarrow> is_ascii_digit (digit_char d)"
  by (simp add: digit_char_def is_ascii_digit_def less_eq_char_def)

lemma show_nat_digits: "list_all is_ascii_digit (show_nat n)"
  by (induction n rule: show_nat.induct) (subst show_nat.simps, auto)

lemma show_nat_not_Nil [simp]: "show_nat n \<noteq> []"
  by (subst show_nat.simps) auto

lemma read_show_nat [simp]: "read_nat (show_nat n) = n"
proof (induction n rule: show_nat.induct)
  case (1 n)
  then show ?case by (subst show_nat.simps) (auto simp: read_nat_def)
qed

lemma utf8_len_simps [simp]:
  "utf8_len [] = 0"
  "utf8_len (s @ t) = utf8_len s + utf8_len t"
  by (simp_all add: utf8_len_def)

lemma length_le_utf8_len: "length s \<le> utf8_len s"
  by (induction s) (auto simp: utf8_len_def)

section \<open>Saturating machine arithmetic\<close>

type_synonym u64 = "64 word"
type_synonym u32 = "32 word"
type_synonym byte = "8 word"

definition sat_add :: "'w::len word \<Rightarrow> 'w word \<Rightarrow> 'w word" where
  "sat_add a b = (if a + b < a then - 1 else a + b)"

definition sat_sub :: "'w::len word \<Rightarrow> 'w word \<Rightarrow> 'w word" where
  "sat_sub a b = (if b \<le> a then a - b else 0)"

definition sat_mul :: "'w::len word \<Rightarrow> 'w word \<Rightarrow> 'w word" where
  "sat_mul a b = (if 2 ^ LENGTH('w) \<le> unat a * unat b then - 1 else a * b)"

lemma unat_max: "unat (- 1 :: 'w::len word) = 2 ^ LENGTH('w) - 1"
  by (simp add: unsigned_minus_1_eq_mask mask_eq_exp_minus_1)

lemma unat_sat_add [machine_simps]:
  "unat (sat_add a b) = min (unat a + unat b) (2 ^ LENGTH('w) - 1)" for a b :: "'w::len word"
proof (cases "unat a + unat b < 2 ^ LENGTH('w)")
  case True
  then have "unat (a + b) = unat a + unat b" by (simp add: unat_add_lem)
  with True show ?thesis by (auto simp: sat_add_def word_less_nat_alt)
next
  case False
  have lt: "unat a < 2 ^ LENGTH('w)" "unat b < 2 ^ LENGTH('w)" by simp_all
  have "unat (a + b) = (unat a + unat b) mod 2 ^ LENGTH('w)" by (simp add: unat_word_ariths)
  also have "\<dots> = (unat a + unat b - 2 ^ LENGTH('w)) mod 2 ^ LENGTH('w)"
    using False by (simp add: le_mod_geq)
  also have "\<dots> = unat a + unat b - 2 ^ LENGTH('w)"
    using lt by (intro mod_less) linarith
  finally have "unat (a + b) < unat a" using False lt by linarith
  with False show ?thesis by (simp add: sat_add_def word_less_nat_alt unat_max)
qed

lemma unat_sat_sub [machine_simps]: "unat (sat_sub a b) = unat a - unat b"
  by (auto simp: sat_sub_def word_le_nat_alt unat_sub)

lemma unat_sat_mul [machine_simps]:
  "unat (sat_mul a b) = min (unat a * unat b) (2 ^ LENGTH('w) - 1)" for a b :: "'w::len word"
  using unat_mult_lem[of a b] by (auto simp: sat_mul_def unat_max not_le)

section \<open>Machines with an invariant\<close>

text \<open>
  A component that takes one event at a time. The invariant holds along every sequence of
  events, and what a step never undoes (a preorder) no sequence undoes.
\<close>

locale guarded_machine =
  fixes step :: "'e \<Rightarrow> 's \<Rightarrow> 's"
    and inv :: "'s \<Rightarrow> bool"
    and below :: "'s \<Rightarrow> 's \<Rightarrow> bool"
  assumes inv_step: "inv s \<Longrightarrow> inv (step e s)"
    and below_refl: "below s s"
    and below_trans: "below s t \<Longrightarrow> below t u \<Longrightarrow> below s u"
    and below_step: "inv s \<Longrightarrow> below s (step e s)"
begin

lemma run_inv: "inv s \<Longrightarrow> inv (fold step es s)"
  by (induction es arbitrary: s) (auto simp: inv_step)

lemma run_below: "inv s \<Longrightarrow> below s (fold step es s)"
proof (induction es arbitrary: s)
  case (Cons e es)
  then have "below (step e s) (fold step es (step e s))" by (simp add: inv_step)
  with Cons.prems show ?case using below_trans below_step by fastforce
qed (simp add: below_refl)

lemma run_between: "inv s \<Longrightarrow> below (fold step es s) (fold step (es @ es') s)"
  using run_below[OF run_inv] by simp

end

end
