(* ===== verification/Glob.thy ===== *)
theory Glob
  imports Prelude
begin

text \<open>
  Shell-style globs (\<open>core/src/glob.rs\<close>), the matching language of every policy pattern.
  A pattern is compiled to tokens by \<open>compile\<close> and \<open>parse_class\<close>; the matcher
  \<open>match_tokens\<close> walks tokens and text with two indices and one backtrack point.
  \<open>denotes\<close> is the reference meaning of a token list. The lemmas show that the matcher
  decides \<open>denotes\<close>, how many iterations it needs, and that \<open>escape\<close>, \<open>literal_text\<close> and
  \<open>matches_every_nonempty_over\<close> say what they promise.
\<close>

section \<open>Tokens\<close>

datatype class_item = Char1 char | Range1 char char

datatype token = Literal char | AnyOne | Star | Class bool "class_item list"

fun item_contains :: "class_item \<Rightarrow> char \<Rightarrow> bool" where
  "item_contains (Char1 x) c = (x = c)"
| "item_contains (Range1 lo hi) c = (lo \<le> c \<and> c \<le> hi)"

fun token_matches_one :: "token \<Rightarrow> char \<Rightarrow> bool" where
  "token_matches_one (Literal x) c = (x = c)"
| "token_matches_one AnyOne c = True"
| "token_matches_one (Class negated items) c = (list_ex (\<lambda>i. item_contains i c) items \<noteq> negated)"
| "token_matches_one Star c = False"

section \<open>Compiling a pattern\<close>

text \<open>The items of a class body: \<open>lo-hi\<close> is a range unless the dash is the last character.\<close>

fun class_items :: "string \<Rightarrow> class_item list" where
  "class_items [] = []"
| "class_items [lo] = [Char1 lo]"
| "class_items [lo, x] = [Char1 lo, Char1 x]"
| "class_items (lo # d # hi # rest) =
     (if d = CHR ''-'' then Range1 lo hi # class_items rest
      else Char1 lo # class_items (d # hi # rest))"

text \<open>
  The body of a class and the text after its closing bracket, or \<open>None\<close> when the class is
  unclosed. A closing bracket first in the set is a member, not the end.
\<close>

definition class_body :: "string \<Rightarrow> (string \<times> string) option" where
  "class_body cs =
     (let first = (if cs \<noteq> [] \<and> hd cs = CHR '']'' then [CHR '']''] else []);
          scanned = drop (length first) cs;
          rest = dropWhile (\<lambda>c. c \<noteq> CHR '']'') scanned
      in if rest = [] then None
         else Some (first @ takeWhile (\<lambda>c. c \<noteq> CHR '']'') scanned, tl rest))"

text \<open>The text after the opening bracket: the token and the text after the closing one.\<close>

definition parse_class :: "string \<Rightarrow> (token \<times> string) option" where
  "parse_class cs =
     (let negated = (cs \<noteq> [] \<and> hd cs = CHR ''!'');
          body_start = (if negated then tl cs else cs)
      in map_option (\<lambda>(body, rest). (Class negated (class_items body), rest)) (class_body body_start))"

lemma class_body_shorter: "class_body cs = Some (body, rest) \<Longrightarrow> length rest < length cs"
proof -
  assume a: "class_body cs = Some (body, rest)"
  obtain n where "rest = tl (dropWhile (\<lambda>c. c \<noteq> CHR '']'') (drop n cs))"
    and "dropWhile (\<lambda>c. c \<noteq> CHR '']'') (drop n cs) \<noteq> []"
    using a unfolding class_body_def Let_def by (metis option.distinct(1) option.inject prod.inject)
  then have "length rest < length (dropWhile (\<lambda>c. c \<noteq> CHR '']'') (drop n cs))" by simp
  also have "\<dots> \<le> length (drop n cs)" by (rule length_dropWhile_le)
  finally show ?thesis by simp
qed

lemma parse_class_shorter: "parse_class cs = Some (tok, rest) \<Longrightarrow> length rest < length cs"
  by (auto simp: parse_class_def Let_def dest!: class_body_shorter split: if_splits)

text \<open>The loop of \<open>compile\<close>: the tokens so far and the text still to read.\<close>

function compile_loop :: "token list \<Rightarrow> string \<Rightarrow> token list" where
  "compile_loop tokens [] = tokens"
| "compile_loop tokens (c # cs) =
     (if c = CHR ''*'' then
        compile_loop (if tokens \<noteq> [] \<and> last tokens = Star then tokens else tokens @ [Star]) cs
      else if c = CHR ''?'' then compile_loop (tokens @ [AnyOne]) cs
      else if c = CHR ''['' then
        (case parse_class cs of
           Some (token, next) \<Rightarrow> compile_loop (tokens @ [token]) next
         | None \<Rightarrow> compile_loop (tokens @ [Literal CHR ''['']) cs)
      else compile_loop (tokens @ [Literal c]) cs)"
  by pat_completeness auto
termination
  by (relation "measure (length \<circ> snd)") (auto dest: parse_class_shorter)

definition compile :: "string \<Rightarrow> token list" where
  "compile pattern = compile_loop [] pattern"

section \<open>The matcher\<close>

text \<open>\<open>slice::get\<close>.\<close>

definition get :: "'a list \<Rightarrow> nat \<Rightarrow> 'a option" where
  "get xs i = (if i < length xs then Some (xs ! i) else None)"

datatype match_next = Done bool | Next nat nat "(nat \<times> nat) option"

definition backtrack_step :: "string \<Rightarrow> (nat \<times> nat) option \<Rightarrow> match_next" where
  "backtrack_step text backtrack =
     (case backtrack of
        Some (bt, bs) \<Rightarrow>
          if bs < length text then Next bt (bs + 1) (Some (bt, bs + 1)) else Done False
      | None \<Rightarrow> Done False)"

definition match_step ::
  "token list \<Rightarrow> string \<Rightarrow> nat \<Rightarrow> nat \<Rightarrow> (nat \<times> nat) option \<Rightarrow> match_next" where
  "match_step tokens text t s backtrack =
     (case (get tokens t, get text s) of
        (Some token, Some c) \<Rightarrow>
          if token = Star then Next (t + 1) s (Some (t + 1, s))
          else if token_matches_one token c then Next (t + 1) (s + 1) backtrack
          else backtrack_step text backtrack
      | (Some token, None) \<Rightarrow>
          if token = Star then Next (t + 1) s (Some (t + 1, s))
          else backtrack_step text backtrack
      | (None, Some c) \<Rightarrow> backtrack_step text backtrack
      | (None, None) \<Rightarrow> Done True)"

definition loop_rank :: "token list \<Rightarrow> nat \<Rightarrow> (nat \<times> nat) option \<Rightarrow> nat" where
  "loop_rank tokens t backtrack =
     (case backtrack of
        Some (bt, bs) \<Rightarrow> if bt \<le> t then length tokens - bt else length tokens + 1
      | None \<Rightarrow> length tokens + 1)"

definition star_pos :: "(nat \<times> nat) option \<Rightarrow> nat" where
  "star_pos backtrack = (case backtrack of Some (bt, bs) \<Rightarrow> bs | None \<Rightarrow> 0)"

lemma get_Some [simp]: "(get xs i = Some x) = (i < length xs \<and> xs ! i = x)"
  by (auto simp: get_def)

lemma get_None [simp]: "(get xs i = None) = (length xs \<le> i)"
  by (auto simp: get_def)

lemma match_step_cases:
  "match_step tokens text t s b = r \<Longrightarrow>
   (t < length tokens \<and> tokens ! t = Star \<and> r = Next (t + 1) s (Some (t + 1, s)))
   \<or> (t < length tokens \<and> tokens ! t \<noteq> Star \<and> s < length text
      \<and> token_matches_one (tokens ! t) (text ! s) \<and> r = Next (t + 1) (s + 1) b)
   \<or> (length tokens \<le> t \<and> length text \<le> s \<and> r = Done True)
   \<or> ((t < length tokens \<longrightarrow> tokens ! t \<noteq> Star
         \<and> (s < length text \<longrightarrow> \<not> token_matches_one (tokens ! t) (text ! s)))
      \<and> (length tokens \<le> t \<longrightarrow> s < length text) \<and> r = backtrack_step text b)"
  by (auto simp: match_step_def split: option.splits if_splits)

function match_loop ::
  "token list \<Rightarrow> string \<Rightarrow> nat \<Rightarrow> nat \<Rightarrow> (nat \<times> nat) option \<Rightarrow> bool" where
  "match_loop tokens text t s backtrack =
     (case match_step tokens text t s backtrack of
        Done b \<Rightarrow> b
      | Next t' s' backtrack' \<Rightarrow> match_loop tokens text t' s' backtrack')"
  by pat_completeness auto
termination
  apply (relation "measures [\<lambda>(tokens, text, t, s, b). loop_rank tokens t b,
      \<lambda>(tokens, text, t, s, b). length text - star_pos b,
      \<lambda>(tokens, text, t, s, b). length tokens - t]")
   apply simp
  apply (drule match_step_cases)
  apply (auto simp: loop_rank_def star_pos_def backtrack_step_def split: option.splits if_splits)
  done

declare match_loop.simps [simp del]

definition match_tokens :: "token list \<Rightarrow> string \<Rightarrow> bool" where
  "match_tokens tokens text = match_loop tokens text 0 0 None"

text \<open>The same loop cut off after a number of iterations.\<close>

fun match_run ::
  "nat \<Rightarrow> token list \<Rightarrow> string \<Rightarrow> nat \<Rightarrow> nat \<Rightarrow> (nat \<times> nat) option \<Rightarrow> bool option" where
  "match_run 0 tokens text t s backtrack = None"
| "match_run (Suc n) tokens text t s backtrack =
     (case match_step tokens text t s backtrack of
        Done b \<Rightarrow> Some b
      | Next t' s' backtrack' \<Rightarrow> match_run n tokens text t' s' backtrack')"

section \<open>Glob values\<close>

text \<open>The struct keeps the source and its compiled form; equality compares the source.\<close>

datatype glob = Glob (source: string)

definition glob_tokens :: "glob \<Rightarrow> token list" where
  "glob_tokens g = compile (source g)"

definition any :: glob where
  "any = Glob ''*''"

fun is_literal_token :: "token \<Rightarrow> bool" where
  "is_literal_token (Literal c) = True"
| "is_literal_token tok = False"

definition is_literal :: "glob \<Rightarrow> bool" where
  "is_literal g = list_all is_literal_token (glob_tokens g)"

fun token_text :: "token \<Rightarrow> char option" where
  "token_text (Literal c) = Some c"
| "token_text (Class False [Char1 c]) = Some c"
| "token_text (Class False [Range1 lo hi]) = (if lo = hi then Some lo else None)"
| "token_text tok = None"

definition literal_text :: "glob \<Rightarrow> string option" where
  "literal_text g = opt_map token_text (glob_tokens g)"

definition glob_matches :: "glob \<Rightarrow> string \<Rightarrow> bool" where
  "glob_matches g text = match_tokens (glob_tokens g) text"

fun count_over :: "char list \<Rightarrow> token list \<Rightarrow> nat \<Rightarrow> nat \<Rightarrow> bool" where
  "count_over alphabet [] stars singles = (stars > 0 \<and> singles \<le> 1)"
| "count_over alphabet (token # rest) stars singles =
     (if token = Star then count_over alphabet rest (stars + 1) singles
      else if list_all (token_matches_one token) alphabet
           then count_over alphabet rest stars (singles + 1)
      else False)"

definition matches_every_nonempty_over :: "glob \<Rightarrow> char list \<Rightarrow> bool" where
  "matches_every_nonempty_over g alphabet =
     (if alphabet = [] then False else count_over alphabet (glob_tokens g) 0 0)"

definition escape :: "string \<Rightarrow> string" where
  "escape text = concat (map (\<lambda>c.
     if c = CHR ''*'' \<or> c = CHR ''?'' \<or> c = CHR ''['' then [CHR ''['', c, CHR '']''] else [c]) text)"

definition fnmatch :: "string \<Rightarrow> string \<Rightarrow> bool" where
  "fnmatch text pattern = glob_matches (Glob pattern) text"

section \<open>What a token list denotes\<close>

function denotes :: "token list \<Rightarrow> string \<Rightarrow> bool" where
  "denotes [] s = (s = [])"
| "denotes (tok # ts) s =
     (if tok = Star then denotes ts s \<or> (case s of [] \<Rightarrow> False | c # s' \<Rightarrow> denotes (tok # ts) s')
      else case s of [] \<Rightarrow> False | c # s' \<Rightarrow> token_matches_one tok c \<and> denotes ts s')"
  by pat_completeness auto
termination
  by (relation "measures [length \<circ> snd, length \<circ> fst]") auto

declare denotes.simps(2) [simp del]


lemma denotes_Nil2: "denotes (tok # ts) [] = (tok = Star \<and> denotes ts [])"
  by (simp add: denotes.simps(2))

lemma denotes_Star: "denotes (Star # ts) s = (\<exists>k \<le> length s. denotes ts (drop k s))"
proof (induction s)
  case (Cons c s)
  have "denotes (Star # ts) (c # s) = (denotes ts (c # s) \<or> denotes (Star # ts) s)"
    by (simp add: denotes.simps(2))
  also have "\<dots> = (denotes ts (drop 0 (c # s)) \<or> (\<exists>k \<le> length s. denotes ts (drop (Suc k) (c # s))))"
    by (simp add: Cons)
  also have "\<dots> = (\<exists>k \<le> length (c # s). denotes ts (drop k (c # s)))"
    by (metis Suc_le_mono length_Cons le0 not0_implies_Suc)
  finally show ?case .
qed (simp add: denotes_Nil2)

lemma denotes_single:
  "tok \<noteq> Star \<Longrightarrow> denotes (tok # ts) s = (\<exists>c s'. s = c # s' \<and> token_matches_one tok c \<and> denotes ts s')"
  by (cases s) (auto simp: denotes.simps(2))

lemma denotes_no_star_prefix:
  "Star \<notin> set xs \<Longrightarrow> denotes (xs @ ts) w \<Longrightarrow> length xs \<le> length w \<and> denotes ts (drop (length xs) w)"
  by (induction xs arbitrary: w) (auto simp: denotes_single)

section \<open>The matcher decides the meaning\<close>

definition match_inv :: "token list \<Rightarrow> string \<Rightarrow> nat \<Rightarrow> nat \<Rightarrow> (nat \<times> nat) option \<Rightarrow> bool" where
  "match_inv tokens text t s b = (t \<le> length tokens \<and> s \<le> length text \<and>
     (case b of None \<Rightarrow> True
      | Some (bt, bs) \<Rightarrow> bt \<le> t \<and> bs \<le> s \<and> t - bt = s - bs \<and> Star \<notin> set (take (t - bt) (drop bt tokens))))"

definition match_spec :: "token list \<Rightarrow> string \<Rightarrow> nat \<Rightarrow> nat \<Rightarrow> (nat \<times> nat) option \<Rightarrow> bool" where
  "match_spec tokens text t s b = (denotes (drop t tokens) (drop s text) \<or>
     (case b of None \<Rightarrow> False
      | Some (bt, bs) \<Rightarrow> \<exists>k > bs. k \<le> length text \<and> denotes (drop bt tokens) (drop k text)))"

lemma match_inv_step:
  assumes "match_inv tokens text t s b" "match_step tokens text t s b = Next t' s' b'"
  shows "match_inv tokens text t' s' b'"
  using match_step_cases[OF assms(2)] assms(1)
proof (elim disjE conjE)
  assume t: "t < length tokens" "tokens ! t \<noteq> Star" "s < length text" "Next t' s' b' = Next (t + 1) (s + 1) b"
    and inv: "match_inv tokens text t s b"
  have "take (t + 1 - bt) (drop bt tokens) = take (t - bt) (drop bt tokens) @ [tokens ! t]" if "bt \<le> t" for bt
    using that t by (simp add: Suc_diff_le take_Suc_conv_app_nth)
  with t inv show ?thesis
    by (auto simp: match_inv_def split: option.splits)
qed (auto simp: match_inv_def backtrack_step_def split: option.splits if_splits)

lemma drop_nth_Cons: "i < length xs \<Longrightarrow> drop i xs = xs ! i # drop (Suc i) xs"
  by (simp add: Cons_nth_drop_Suc)

lemma earlier_star_subsumed:
  assumes inv: "match_inv tokens text t s (Some (bt, bs))" and t: "t < length tokens" "tokens ! t = Star"
    and k: "bs < k" "k \<le> length text" "denotes (drop bt tokens) (drop k text)"
  shows "\<exists>j > s. j \<le> length text \<and> denotes (drop (t + 1) tokens) (drop j text)"
proof -
  let ?pre = "take (t - bt) (drop bt tokens)"
  have le: "bt \<le> t" "bs \<le> s" "t - bt = s - bs" and ns: "Star \<notin> set ?pre"
    using inv by (auto simp: match_inv_def)
  have split: "drop bt tokens = ?pre @ drop t tokens"
    using le by (metis append_take_drop_id drop_drop le_add_diff_inverse2)
  have len: "length ?pre = t - bt" using t by simp
  have "t - bt \<le> length (drop k text) \<and> denotes (drop t tokens) (drop (t - bt) (drop k text))"
    using denotes_no_star_prefix[OF ns, of "drop t tokens" "drop k text"] k(3) split len by metis
  then have fits: "k + (t - bt) \<le> length text" and "denotes (drop t tokens) (drop (k + (t - bt)) text)"
    using k(2) by (auto simp: add.commute)
  then have "denotes (Star # drop (t + 1) tokens) (drop (k + (t - bt)) text)"
    using t by (simp add: drop_nth_Cons)
  then obtain i where i: "i \<le> length (drop (k + (t - bt)) text)"
    "denotes (drop (t + 1) tokens) (drop (i + (k + (t - bt))) text)"
    by (auto simp: denotes_Star)
  have "s < i + (k + (t - bt))" using le k(1) by linarith
  moreover have "i + (k + (t - bt)) \<le> length text" using i(1) fits by simp
  ultimately show ?thesis using i(2) by blast
qed

lemma denotes_star_position:
  assumes "t < length tokens" "tokens ! t = Star" "s \<le> length text"
  shows "denotes (drop t tokens) (drop s text)
    = (\<exists>k \<ge> s. k \<le> length text \<and> denotes (drop (t + 1) tokens) (drop k text))" (is "?L = ?R")
proof -
  have "?L = (\<exists>i \<le> length text - s. denotes (drop (t + 1) tokens) (drop (i + s) text))"
    using assms by (simp add: drop_nth_Cons denotes_Star)
  also have "\<dots> = ?R"
  proof
    assume ?R
    then obtain k where k: "k \<ge> s" "k \<le> length text" "denotes (drop (t + 1) tokens) (drop k text)"
      by blast
    then show "\<exists>i \<le> length text - s. denotes (drop (t + 1) tokens) (drop (i + s) text)"
      by (intro exI[of _ "k - s"]) (simp add: diff_le_mono)
  next
    assume "\<exists>i \<le> length text - s. denotes (drop (t + 1) tokens) (drop (i + s) text)"
    then obtain i where "i \<le> length text - s" "denotes (drop (t + 1) tokens) (drop (i + s) text)"
      by blast
    with assms(3) show ?R by (intro exI[of _ "i + s"]) simp
  qed
  finally show ?thesis .
qed

lemma match_spec_star:
  assumes inv: "match_inv tokens text t s b" and t: "t < length tokens" "tokens ! t = Star"
  shows "match_spec tokens text (t + 1) s (Some (t + 1, s)) = match_spec tokens text t s b"
proof -
  have "s \<le> length text" using inv by (simp add: match_inv_def)
  then have "match_spec tokens text (t + 1) s (Some (t + 1, s)) = denotes (drop t tokens) (drop s text)"
    unfolding denotes_star_position[OF t \<open>s \<le> length text\<close>] match_spec_def
    by (auto simp: le_less)
  moreover have "match_spec tokens text t s b \<Longrightarrow> denotes (drop t tokens) (drop s text)"
    using earlier_star_subsumed[of tokens "text" t s] inv t
    unfolding denotes_star_position[OF t \<open>s \<le> length text\<close>] match_spec_def
    by (fastforce split: option.splits simp: le_less)
  ultimately show ?thesis by (auto simp: match_spec_def)
qed

lemma match_spec_step:
  assumes inv: "match_inv tokens text t s b"
  shows "match_spec tokens text t s b =
    (case match_step tokens text t s b of
       Done r \<Rightarrow> r
     | Next t' s' b' \<Rightarrow> match_spec tokens text t' s' b')"
proof -
  have le: "t \<le> length tokens" "s \<le> length text" using inv by (auto simp: match_inv_def)
  have bt: "match_spec tokens text t s b = (case backtrack_step text b of
      Done r \<Rightarrow> r | Next t' s' b' \<Rightarrow> match_spec tokens text t' s' b')"
    if no: "\<not> denotes (drop t tokens) (drop s text)"
  proof -
    have "(\<exists>k > bs. k \<le> n \<and> P k) = (P (bs + 1) \<or> (\<exists>k > bs + 1. k \<le> n \<and> P k))"
      if "bs < n" for bs n and P :: "nat \<Rightarrow> bool"
      using that by (metis Suc_eq_plus1 Suc_leI Suc_lessI lessI less_SucI not_less_eq)
    then show ?thesis
      using no by (auto simp: match_spec_def backtrack_step_def split: option.splits)
  qed
  show ?thesis
    using match_step_cases[of tokens "text" t s b, OF refl]
  proof (elim disjE conjE)
    assume "t < length tokens" "tokens ! t = Star"
      "match_step tokens text t s b = Next (t + 1) s (Some (t + 1, s))"
    then show ?thesis using match_spec_star[OF inv] by simp
  next
    assume *: "t < length tokens" "tokens ! t \<noteq> Star" "s < length text"
      "token_matches_one (tokens ! t) (text ! s)" "match_step tokens text t s b = Next (t + 1) (s + 1) b"
    then have "denotes (drop t tokens) (drop s text) = denotes (drop (t + 1) tokens) (drop (s + 1) text)"
      by (simp add: drop_nth_Cons denotes_single)
    with * show ?thesis by (simp add: match_spec_def)
  next
    assume "length tokens \<le> t" "length text \<le> s" "match_step tokens text t s b = Done True"
    then show ?thesis by (simp add: match_spec_def)
  next
    assume *: "t < length tokens \<longrightarrow> tokens ! t \<noteq> Star \<and>
        (s < length text \<longrightarrow> \<not> token_matches_one (tokens ! t) (text ! s))"
      "length tokens \<le> t \<longrightarrow> s < length text" "match_step tokens text t s b = backtrack_step text b"
    have "\<not> denotes (drop t tokens) (drop s text)"
    proof (cases "t < length tokens")
      case True
      with * show ?thesis
        by (cases "s < length text") (auto simp: drop_nth_Cons denotes_single)
    next
      case False
      with * show ?thesis by (simp add: le)
    qed
    with bt * show ?thesis by simp
  qed
qed

lemma match_loop_spec: "match_inv tokens text t s b \<Longrightarrow> match_loop tokens text t s b = match_spec tokens text t s b"
proof (induction tokens "text" t s b rule: match_loop.induct)
  case (1 tokens w t s b)
  show ?case
    using 1 match_spec_step[OF 1(2)] match_inv_step[OF 1(2)]
    by (subst match_loop.simps) (auto split: match_next.splits)
qed

lemma match_tokens_denotes: "match_tokens tokens text = denotes tokens text"
  by (simp add: match_tokens_def match_loop_spec match_inv_def match_spec_def)


section \<open>How long the matcher runs\<close>

definition loop_budget :: "token list \<Rightarrow> string \<Rightarrow> nat \<Rightarrow> (nat \<times> nat) option \<Rightarrow> nat" where
  "loop_budget tokens text t b =
     (length text - star_pos b) * (length tokens + 1) + (length tokens - t) + 1"

lemma loop_budget_step:
  assumes inv: "match_inv tokens text t s b" and step: "match_step tokens text t s b = Next t' s' b'"
  shows "loop_budget tokens text t' b' < loop_budget tokens text t b"
  using match_step_cases[OF step]
proof (elim disjE conjE)
  assume "t < length tokens" "Next t' s' b' = Next (t + 1) s (Some (t + 1, s))"
  moreover have "star_pos b \<le> s"
    using inv by (auto simp: match_inv_def star_pos_def split: option.splits)
  then have "(length text - s) * (length tokens + 1) \<le> (length text - star_pos b) * (length tokens + 1)"
    by (intro mult_le_mono1) simp
  moreover have "star_pos (Some (t + 1, s)) = s" by (simp add: star_pos_def)
  ultimately show ?thesis unfolding loop_budget_def by simp linarith
next
  assume "t < length tokens" "Next t' s' b' = Next (t + 1) (s + 1) b"
  then show ?thesis by (simp add: loop_budget_def)
next
  assume "Next t' s' b' = backtrack_step text b"
  then obtain bt bs where b: "b = Some (bt, bs)" "bs < length text" "t' = bt" "b' = Some (bt, bs + 1)"
    by (auto simp: backtrack_step_def split: option.splits if_splits)
  then have "length text - bs = Suc (length text - (bs + 1))" by simp
  with b show ?thesis by (simp add: loop_budget_def star_pos_def)
qed simp

lemma match_run_enough:
  "match_inv tokens text t s b \<Longrightarrow> loop_budget tokens text t b \<le> n \<Longrightarrow>
   match_run n tokens text t s b = Some (match_loop tokens text t s b)"
proof (induction n arbitrary: t s b)
  case 0
  then show ?case by (simp add: loop_budget_def)
next
  case (Suc n)
  show ?case
  proof (cases "match_step tokens text t s b")
    case (Next t' s' b')
    with Suc show ?thesis
      using loop_budget_step[OF Suc.prems(1) Next] match_inv_step[OF Suc.prems(1) Next]
      by (simp add: match_loop.simps[of _ _ t])
  qed (simp add: match_loop.simps[of _ _ t])
qed

section \<open>Literal patterns\<close>

lemma compile_loop_star_free:
  "c \<notin> {CHR ''*'', CHR ''?'', CHR ''[''} \<Longrightarrow>
   compile_loop tokens (c # cs) = compile_loop (tokens @ [Literal c]) cs"
  by simp

lemma parse_class_escaped:
  "c \<in> {CHR ''*'', CHR ''?'', CHR ''[''} \<Longrightarrow>
   parse_class (c # CHR '']'' # cs) = Some (Class False [Char1 c], cs)"
  by (auto simp: parse_class_def class_body_def)

definition escaped_token :: "char \<Rightarrow> token" where
  "escaped_token c =
     (if c = CHR ''*'' \<or> c = CHR ''?'' \<or> c = CHR ''['' then Class False [Char1 c] else Literal c)"

lemma compile_loop_escape: "compile_loop tokens (escape t) = tokens @ map escaped_token t"
proof (induction t arbitrary: tokens)
  case (Cons c t)
  show ?case
  proof (cases "c = CHR ''*'' \<or> c = CHR ''?'' \<or> c = CHR ''[''")
    case True
    then have "escape (c # t) = CHR ''['' # c # CHR '']'' # escape t" by (simp add: escape_def)
    moreover have "parse_class (c # CHR '']'' # escape t) = Some (Class False [Char1 c], escape t)"
      using True by (intro parse_class_escaped) auto
    ultimately have "compile_loop tokens (escape (c # t))
        = compile_loop (tokens @ [Class False [Char1 c]]) (escape t)"
      by simp
    with True Cons show ?thesis by (simp add: escaped_token_def)
  next
    case False
    then have "escape (c # t) = c # escape t" by (simp add: escape_def)
    with False Cons show ?thesis by (simp add: escaped_token_def)
  qed
qed (simp add: escape_def)

lemma token_text_matches: "token_text tok = Some c \<Longrightarrow> tok \<noteq> Star \<and> token_matches_one tok x = (x = c)"
  by (cases tok rule: token_text.cases) (auto split: if_splits)

lemma denotes_token_text: "opt_map token_text ts = Some w \<Longrightarrow> denotes ts s = (s = w)"
proof (induction ts arbitrary: w s)
  case (Cons tok ts)
  then obtain c w' where tok: "token_text tok = Some c" and w': "opt_map token_text ts = Some w'"
    and w: "w = c # w'"
    by (auto split: option.splits)
  have "denotes (tok # ts) s = (\<exists>x s'. s = x # s' \<and> token_matches_one tok x \<and> denotes ts s')"
    using token_text_matches[OF tok] by (simp add: denotes_single)
  also have "\<dots> = (s = w)"
    using token_text_matches[OF tok] Cons.IH[OF w'] w by auto
  finally show ?case .
qed simp

lemma token_text_escaped [simp]: "token_text (escaped_token c) = Some c"
  by (simp add: escaped_token_def)

lemma opt_map_escaped [simp]: "opt_map token_text (map escaped_token t) = Some t"
  by (induction t) auto

lemma glob_matches_denotes: "glob_matches g s = denotes (glob_tokens g) s"
  by (simp add: glob_matches_def match_tokens_denotes)

section \<open>A literal tail\<close>

lemma denotes_append: "denotes (xs @ ys) s = (\<exists>a b. s = a @ b \<and> denotes xs a \<and> denotes ys b)"
proof (induction xs arbitrary: s)
  case (Cons tok xs)
  show ?case
  proof (cases "tok = Star")
    case True
    have "denotes ((tok # xs) @ ys) s = (\<exists>k \<le> length s. \<exists>a b. drop k s = a @ b \<and> denotes xs a \<and> denotes ys b)"
      using True by (simp add: denotes_Star Cons)
    also have "\<dots> = (\<exists>a b. s = a @ b \<and> (\<exists>k \<le> length a. denotes xs (drop k a)) \<and> denotes ys b)"
    proof
      assume "\<exists>k \<le> length s. \<exists>a b. drop k s = a @ b \<and> denotes xs a \<and> denotes ys b"
      then obtain k a b where "k \<le> length s" "drop k s = a @ b" "denotes xs a" "denotes ys b" by blast
      then have "s = (take k s @ a) @ b" "k \<le> length (take k s @ a)" "denotes xs (drop k (take k s @ a))"
        by (simp_all add: min_def) (metis append_take_drop_id)
      with \<open>denotes ys b\<close> show "\<exists>a b. s = a @ b \<and> (\<exists>k \<le> length a. denotes xs (drop k a)) \<and> denotes ys b"
        by blast
    next
      assume "\<exists>a b. s = a @ b \<and> (\<exists>k \<le> length a. denotes xs (drop k a)) \<and> denotes ys b"
      then obtain a b k where "s = a @ b" "k \<le> length a" "denotes xs (drop k a)" "denotes ys b" by blast
      then show "\<exists>k \<le> length s. \<exists>a b. drop k s = a @ b \<and> denotes xs a \<and> denotes ys b"
        by (intro exI[of _ k]) auto
    qed
    finally show ?thesis using True by (simp add: denotes_Star)
  next
    case False
    then show ?thesis
      by (auto simp: denotes_single Cons) (metis append_Cons)+
  qed
qed simp

lemma denotes_literals: "denotes (map Literal w) s = (s = w)"
  by (rule denotes_token_text) (induction w, auto)

lemma class_body_tail:
  assumes "class_body (cs @ d) = Some (body, rest)" "CHR '']'' \<notin> set d"
  shows "\<exists>r. rest = r @ d \<and> length r < length cs"
proof -
  let ?p = "\<lambda>c. c \<noteq> CHR '']''"
  obtain n where n: "rest = tl (dropWhile ?p (drop n (cs @ d)))" "dropWhile ?p (drop n (cs @ d)) \<noteq> []"
    using assms(1) unfolding class_body_def Let_def by (metis option.distinct(1) option.inject prod.inject)
  have "\<exists>x \<in> set (drop n cs). \<not> ?p x"
    using n(2) assms(2) by (fastforce simp: dropWhile_eq_Nil_conv dest: in_set_dropD)
  then have ne: "dropWhile ?p (drop n cs) \<noteq> []" by (auto simp: dropWhile_eq_Nil_conv)
  have len: "n \<le> length cs" using ne by (cases "n \<le> length cs") auto
  have "dropWhile ?p (drop n (cs @ d)) = dropWhile ?p (drop n cs) @ d"
    using ne len by (simp add: dropWhile_append1 dropWhile_eq_Nil_conv)
  then have "rest = tl (dropWhile ?p (drop n cs)) @ d" using n(1) ne by simp
  moreover have "length (tl (dropWhile ?p (drop n cs))) < length cs"
    using ne length_dropWhile_le[of ?p "drop n cs"]
    by (cases "dropWhile ?p (drop n cs)") auto
  ultimately show ?thesis by blast
qed

lemma parse_class_tail:
  assumes "parse_class (cs @ d) = Some (tok, rest)" "CHR '']'' \<notin> set d" "d \<noteq> []" "hd d \<noteq> CHR ''!''"
  shows "\<exists>r. rest = r @ d \<and> length r < length cs"
proof (cases "cs \<noteq> [] \<and> hd cs = CHR ''!''")
  case True
  then obtain cs' where cs: "cs = CHR ''!'' # cs'" by (cases cs) auto
  from assms(1) obtain body where "class_body (cs' @ d) = Some (body, rest)"
    by (auto simp: parse_class_def cs)
  from class_body_tail[OF this assms(2)] show ?thesis by (auto simp: cs less_Suc_eq)
next
  case False
  then have "\<not> (cs @ d \<noteq> [] \<and> hd (cs @ d) = CHR ''!'')" using assms(3,4) by (cases cs) auto
  with assms(1) obtain body where "class_body (cs @ d) = Some (body, rest)"
    by (auto simp: parse_class_def)
  from class_body_tail[OF this assms(2)] show ?thesis .
qed

lemma compile_loop_literals:
  "set d \<inter> {CHR ''*'', CHR ''?'', CHR ''[''} = {} \<Longrightarrow> compile_loop tokens d = tokens @ map Literal d"
  by (induction d arbitrary: tokens) auto

text \<open>Compiling a pattern whose tail is literal leaves the tail as literal tokens.\<close>

lemma compile_loop_tail:
  assumes "set d \<inter> {CHR ''*'', CHR ''?'', CHR ''['', CHR '']''} = {}" "d \<noteq> []" "hd d \<noteq> CHR ''!''"
  shows "\<exists>tokens'. compile_loop tokens (l @ d) = tokens' @ map Literal d"
proof (induction "length l" arbitrary: l tokens rule: less_induct)
  case less
  show ?case
  proof (cases l)
    case Nil
    then show ?thesis using compile_loop_literals[of d] assms(1) by auto
  next
    case (Cons c cs)
    have IH: "\<exists>tokens'. compile_loop ts (k @ d) = tokens' @ map Literal d" if "length k \<le> length cs" for k ts
      using less[of k] that Cons by simp
    show ?thesis
    proof (cases "c = CHR ''[''")
      case True
      show ?thesis
      proof (cases "parse_class (cs @ d)")
        case None
        then show ?thesis using IH[of cs] Cons True by simp
      next
        case (Some tr)
        obtain tok rest where tr: "tr = (tok, rest)" by (cases tr)
        obtain r where "rest = r @ d" "length r < length cs"
          using parse_class_tail[of cs d tok rest] Some tr assms by auto
        then show ?thesis using IH[of r] Cons True Some tr by simp
      qed
    next
      case False
      then show ?thesis using IH[of cs] Cons by simp
    qed
  qed
qed

lemma glob_literal_tail:
  assumes "set d \<inter> {CHR ''*'', CHR ''?'', CHR ''['', CHR '']''} = {}" "d \<noteq> []" "hd d \<noteq> CHR ''!''"
    and "fnmatch s (l @ d)"
  shows "\<exists>a. s = a @ d"
proof -
  obtain ts where "compile (l @ d) = ts @ map Literal d"
    using compile_loop_tail[OF assms(1-3)] by (metis compile_def)
  with assms(4) show ?thesis
    by (auto simp: fnmatch_def glob_matches_denotes glob_tokens_def denotes_append denotes_literals)
qed

section \<open>Patterns that match everything over an alphabet\<close>

lemma count_over_iff:
  "count_over alphabet ts m n =
     (list_all (\<lambda>tok. tok = Star \<or> list_all (token_matches_one tok) alphabet) ts
      \<and> m + length (filter (\<lambda>tok. tok = Star) ts) > 0
      \<and> n + length (filter (\<lambda>tok. tok \<noteq> Star) ts) \<le> 1)"
  by (induction ts arbitrary: m n) auto

lemma denotes_length: "denotes ts s \<Longrightarrow> length (filter (\<lambda>tok. tok \<noteq> Star) ts) \<le> length s"
proof (induction ts arbitrary: s)
  case (Cons tok ts)
  show ?case
  proof (cases "tok = Star")
    case True
    with Cons.prems obtain k where "denotes ts (drop k s)" by (auto simp: denotes_Star)
    from Cons.IH[OF this] True show ?thesis by simp
  next
    case False
    with Cons.prems obtain c s' where s: "s = c # s'" and d: "denotes ts s'"
      by (auto simp: denotes_single)
    from Cons.IH[OF d] s False show ?thesis by simp
  qed
qed simp

lemma denotes_length_no_star:
  "denotes ts s \<Longrightarrow> filter (\<lambda>tok. tok = Star) ts = [] \<Longrightarrow> length s = length ts"
  by (induction ts arbitrary: s) (auto simp: denotes_single split: if_splits)

lemma denotes_needs_each:
  "denotes ts s \<Longrightarrow> tok \<in> set ts \<Longrightarrow> tok \<noteq> Star \<Longrightarrow> \<exists>c \<in> set s. token_matches_one tok c"
proof (induction ts arbitrary: s)
  case (Cons t ts)
  show ?case
  proof (cases "t = Star")
    case True
    with Cons.prems(1) obtain k where d: "denotes ts (drop k s)" by (auto simp: denotes_Star)
    have "tok \<in> set ts" using Cons.prems True by auto
    from Cons.IH[OF d this Cons.prems(3)] show ?thesis by (meson in_set_dropD)
  next
    case False
    with Cons.prems obtain c s' where s: "s = c # s'" "token_matches_one t c" and d: "denotes ts s'"
      by (auto simp: denotes_single)
    then show ?thesis using Cons.prems Cons.IH[OF d] by auto
  qed
qed simp

lemma denotes_all_stars: "list_all (\<lambda>tok. tok = Star) ts \<Longrightarrow> denotes ts []"
  by (induction ts) (auto simp: denotes_Nil2)

lemma denotes_stars_tail: "list_all (\<lambda>tok. tok = Star) ts \<Longrightarrow> ts \<noteq> [] \<Longrightarrow> denotes ts s"
proof (cases ts)
  case (Cons t rest)
  assume "list_all (\<lambda>tok. tok = Star) ts"
  with Cons have "t = Star" "denotes rest (drop (length s) s)" by (auto simp: denotes_all_stars)
  with Cons show ?thesis by (auto simp: denotes_Star)
qed simp

lemma stars_if_no_single: "length (filter (\<lambda>tok. tok \<noteq> Star) ts) = 0 \<Longrightarrow> list_all (\<lambda>tok. tok = Star) ts"
  by (induction ts) (auto split: if_splits)

text \<open>A star and at most one covering token match every non-empty text.\<close>

lemma denotes_star_and_one:
  assumes "list_all (\<lambda>tok. tok = Star \<or> list_all (token_matches_one tok) alphabet) ts"
    and "Star \<in> set ts" "length (filter (\<lambda>tok. tok \<noteq> Star) ts) \<le> 1"
    and "s \<noteq> []" "set s \<subseteq> set alphabet"
  shows "denotes ts s"
  using assms
proof (induction ts)
  case (Cons tok ts)
  show ?case
  proof (cases "tok = Star")
    case True
    show ?thesis
    proof (cases "length (filter (\<lambda>tok. tok \<noteq> Star) ts) = 0")
      case none: True
      then have "denotes ts (drop (length s) s)" using stars_if_no_single denotes_all_stars by simp
      with True show ?thesis by (auto simp: denotes_Star)
    next
      case False
      show ?thesis
      proof (cases "Star \<in> set ts")
        case True
        with Cons \<open>tok = Star\<close> have "denotes ts (drop 0 s)" by simp
        then show ?thesis unfolding \<open>tok = Star\<close> denotes_Star by blast
      next
        case no: False
        then have "filter (\<lambda>tok. tok \<noteq> Star) ts = ts" by (induction ts) auto
        with False Cons.prems(3) \<open>tok = Star\<close> obtain u where u: "ts = [u]"
          by (cases ts) (auto simp: filter_empty_conv split: if_splits)
        obtain w c where s: "s = w @ [c]" using \<open>s \<noteq> []\<close> by (cases s rule: rev_cases) auto
        have "token_matches_one u c"
          using Cons.prems(1,5) u no s by (auto simp: list_all_iff)
        with u no have "denotes ts (drop (length w) s)" by (simp add: s denotes_single)
        moreover have "length w \<le> length s" by (simp add: s)
        ultimately show ?thesis unfolding \<open>tok = Star\<close> denotes_Star by blast
      qed
    qed
  next
    case False
    with Cons.prems have stars: "list_all (\<lambda>tok. tok = Star) ts" "ts \<noteq> []"
      by (auto intro!: stars_if_no_single)
    obtain c s' where s: "s = c # s'" using \<open>s \<noteq> []\<close> by (cases s) auto
    have "token_matches_one tok c" using Cons.prems(1,5) False s by (auto simp: list_all_iff)
    with False s denotes_stars_tail[OF stars] show ?thesis by (simp add: denotes_single)
  qed
qed simp

text \<open>Texts of one and two characters are enough to see that a pattern misses something.\<close>

lemma every_nonempty_needs:
  assumes every: "\<And>s. s \<noteq> [] \<Longrightarrow> length s \<le> 2 \<Longrightarrow> set s \<subseteq> set alphabet \<Longrightarrow> denotes ts s"
    and a: "alphabet \<noteq> []"
  shows "count_over alphabet ts 0 0"
proof -
  obtain a where "a \<in> set alphabet" using a by (cases alphabet) auto
  then have one: "denotes ts [a]" and two: "denotes ts [a, a]" by (simp_all add: every)
  have covered: "tok = Star \<or> list_all (token_matches_one tok) alphabet" if "tok \<in> set ts" for tok
    using that denotes_needs_each[OF every[of "[_]"], of _ tok] by (auto simp: list_all_iff)
  have "length (filter (\<lambda>tok. tok \<noteq> Star) ts) \<le> 1" using denotes_length[OF one] by simp
  moreover have "filter (\<lambda>tok. tok = Star) ts \<noteq> []"
    using denotes_length_no_star[OF one] denotes_length_no_star[OF two] by auto
  ultimately show ?thesis using covered by (simp add: count_over_iff list_all_iff)
qed

lemma count_over_denotes:
  "count_over alphabet ts 0 0 \<Longrightarrow> s \<noteq> [] \<Longrightarrow> set s \<subseteq> set alphabet \<Longrightarrow> denotes ts s"
  by (auto simp: count_over_iff filter_empty_conv intro!: denotes_star_and_one)

lemma glob_escape_exact: "fnmatch s (escape t) = (s = t)"
  using denotes_token_text[OF opt_map_escaped, of t s]
  by (simp add: fnmatch_def glob_matches_denotes glob_tokens_def compile_def compile_loop_escape)

section \<open>Properties\<close>

text \<open>C27: The two-index matcher with a single backtrack point answers exactly what the token
  list denotes: some split of the text gives every star a (possibly empty) run of characters and
  every other token exactly one character it matches.\<close>

theorem match_tokens_correct: "match_tokens tokens text = denotes tokens text"
  by (rule match_tokens_denotes)

text \<open>C28: The matching loop always returns, and within (text length + 1) * (token count + 1)
  iterations: the bounded run of that many steps has the loop's answer. A hostile pattern cannot make
  it run away.\<close>

theorem match_loop_terminates:
  "match_run ((length text + 1) * (length tokens + 1)) tokens text 0 0 None = Some (match_tokens tokens text)"
proof -
  have inv: "match_inv tokens text 0 0 None" by (simp add: match_inv_def)
  have "loop_budget tokens text 0 None \<le> (length text + 1) * (length tokens + 1)"
    by (simp add: loop_budget_def star_pos_def)
  from match_run_enough[OF inv this] show ?thesis by (simp only: flip: match_tokens_def)
qed

text \<open>A pattern made by \<open>escape\<close> matches exactly the text it was made from, whatever
  wildcard characters that text holds.\<close>

theorem fnmatch_escape: "fnmatch s (escape t) = (s = t)"
  by (rule glob_escape_exact)

text \<open>When \<open>literal_text\<close> gives a string, the pattern matches that string and nothing
  else (the one resource a pinned rule may name).\<close>

theorem literal_text_exact:
  assumes "literal_text g = Some t"
  shows "glob_matches g s = (s = t)"
  using assms by (simp add: literal_text_def glob_matches_denotes denotes_token_text)

theorem literal_text_exact_witness:
  "literal_text (Glob ''a[*]b'') = Some ''a*b'' \<and> \<not> glob_matches (Glob ''a[*]b'') ''axb''"
proof -
  have lit: "literal_text (Glob ''a[*]b'') = Some ''a*b''" by code_simp
  show ?thesis using literal_text_exact[OF lit, of "''axb''"] lit by simp
qed

text \<open>\<open>matches_every_nonempty_over\<close> is exact: it says yes precisely for the patterns that
  match every non-empty string over the (non-empty) alphabet.\<close>

theorem matches_every_nonempty_exact:
  assumes "alphabet \<noteq> []"
  shows "matches_every_nonempty_over g alphabet
    = (\<forall>s. s \<noteq> [] \<longrightarrow> set s \<subseteq> set alphabet \<longrightarrow> glob_matches g s)"
proof
  assume "matches_every_nonempty_over g alphabet"
  then have "count_over alphabet (glob_tokens g) 0 0"
    using assms by (simp add: matches_every_nonempty_over_def)
  then show "\<forall>s. s \<noteq> [] \<longrightarrow> set s \<subseteq> set alphabet \<longrightarrow> glob_matches g s"
    by (auto simp: glob_matches_denotes count_over_denotes)
next
  assume "\<forall>s. s \<noteq> [] \<longrightarrow> set s \<subseteq> set alphabet \<longrightarrow> glob_matches g s"
  then show "matches_every_nonempty_over g alphabet"
    using assms by (simp add: matches_every_nonempty_over_def glob_matches_denotes every_nonempty_needs)
qed

theorem matches_every_nonempty_exact_witness:
  "''ab'' \<noteq> [] \<and> matches_every_nonempty_over (Glob ''?*'') ''ab'' \<and> glob_matches (Glob ''?*'') ''ba''"
proof -
  have yes: "matches_every_nonempty_over (Glob ''?*'') ''ab''" by code_simp
  then show ?thesis using matches_every_nonempty_exact[of "''ab''" "Glob ''?*''"] by simp
qed

end
