(* ===== verification/Lifecycle.thy ===== *)
theory Lifecycle
  imports Prelude
begin

text \<open>
  The state machines of requests and grants (\<open>core/src/lifecycle.rs\<close>), the platforms
  (\<open>core/src/platform.rs\<close>) and the human attestation (\<open>core/src/approval.rs\<close>). Statuses are
  datatypes, their wire names \<open>as_str\<close>/\<open>parse\<close> pairs (interpretations of \<open>wire_enum\<close>), the
  transition tables functions, and a history is a path of the step relation \<open>request_path\<close>.
\<close>

section \<open>Request statuses\<close>

datatype request_status =
  Pending | LlmEvaluating | LlmDenied | AwaitingHuman | Approved | Provisioning | Granted
| ProvisionFailed | Denied

definition all_request_status :: "request_status list" where
  "all_request_status = [Pending, LlmEvaluating, LlmDenied, AwaitingHuman, Approved, Provisioning,
     Granted, ProvisionFailed, Denied]"

fun request_status_as_str :: "request_status \<Rightarrow> string" where
  "request_status_as_str Pending = ''pending''"
| "request_status_as_str LlmEvaluating = ''llm_evaluating''"
| "request_status_as_str LlmDenied = ''llm_denied''"
| "request_status_as_str AwaitingHuman = ''awaiting_human''"
| "request_status_as_str Approved = ''approved''"
| "request_status_as_str Provisioning = ''provisioning''"
| "request_status_as_str Granted = ''granted''"
| "request_status_as_str ProvisionFailed = ''provision_failed''"
| "request_status_as_str Denied = ''denied''"

text \<open>The macro's match on the text, one arm per status in the order of the list.\<close>

definition request_status_parse :: "string \<Rightarrow> request_status option" where
  "request_status_parse s = find (\<lambda>x. request_status_as_str x = s) all_request_status"

fun successors :: "request_status \<Rightarrow> request_status list" where
  "successors Pending = [Denied, Approved, LlmEvaluating, AwaitingHuman]"
| "successors LlmEvaluating = [Approved, LlmDenied, AwaitingHuman]"
| "successors LlmDenied = [LlmEvaluating, AwaitingHuman]"
| "successors AwaitingHuman = [Approved, Denied]"
| "successors Approved = [Provisioning]"
| "successors Provisioning = [Granted, ProvisionFailed]"
| "successors Granted = []"
| "successors ProvisionFailed = []"
| "successors Denied = []"

definition can_transition :: "request_status \<Rightarrow> request_status \<Rightarrow> bool" where
  "can_transition self to = (to \<in> set (successors self))"

definition is_terminal :: "request_status \<Rightarrow> bool" where
  "is_terminal self = (successors self = [])"

fun is_waiting :: "request_status \<Rightarrow> bool" where
  "is_waiting Pending = True"
| "is_waiting LlmEvaluating = True"
| "is_waiting AwaitingHuman = True"
| "is_waiting Approved = True"
| "is_waiting Provisioning = True"
| "is_waiting s = False"

fun is_human_decidable :: "request_status \<Rightarrow> bool" where
  "is_human_decidable AwaitingHuman = True"
| "is_human_decidable LlmDenied = True"
| "is_human_decidable LlmEvaluating = True"
| "is_human_decidable s = False"

section \<open>Grant statuses\<close>

datatype grant_status = GProvisioning | GActive | GExpired | GRevoked | GProvisionFailed

definition all_grant_status :: "grant_status list" where
  "all_grant_status = [GProvisioning, GActive, GExpired, GRevoked, GProvisionFailed]"

fun grant_status_as_str :: "grant_status \<Rightarrow> string" where
  "grant_status_as_str GProvisioning = ''provisioning''"
| "grant_status_as_str GActive = ''active''"
| "grant_status_as_str GExpired = ''expired''"
| "grant_status_as_str GRevoked = ''revoked''"
| "grant_status_as_str GProvisionFailed = ''provision_failed''"

definition grant_status_parse :: "string \<Rightarrow> grant_status option" where
  "grant_status_parse s = find (\<lambda>g. grant_status_as_str g = s) all_grant_status"

fun grant_can_transition :: "grant_status \<Rightarrow> grant_status \<Rightarrow> bool" where
  "grant_can_transition GProvisioning GActive = True"
| "grant_can_transition GProvisioning GProvisionFailed = True"
| "grant_can_transition GActive GExpired = True"
| "grant_can_transition GActive GRevoked = True"
| "grant_can_transition self to = False"

section \<open>Who decided\<close>

datatype decision_source = Policy_source | Rule_source | Llm_source | Human_source

definition all_decision_source :: "decision_source list" where
  "all_decision_source = [Policy_source, Rule_source, Llm_source, Human_source]"

fun decision_source_as_str :: "decision_source \<Rightarrow> string" where
  "decision_source_as_str Policy_source = ''policy''"
| "decision_source_as_str Rule_source = ''rule''"
| "decision_source_as_str Llm_source = ''llm''"
| "decision_source_as_str Human_source = ''human''"

definition decision_source_parse :: "string \<Rightarrow> decision_source option" where
  "decision_source_parse s = find (\<lambda>d. decision_source_as_str d = s) all_decision_source"

section \<open>Platforms\<close>

datatype platform =
  Github | Homelab | Kubernetes | A2a | Google | Agents_platform | Sandbox_platform | Hostexec_platform
| Mcp | Models | Pool_platform | Mail_platform

definition all_platform :: "platform list" where
  "all_platform = [Github, Homelab, Kubernetes, A2a, Google, Agents_platform, Sandbox_platform,
     Hostexec_platform, Mcp, Models, Pool_platform, Mail_platform]"

fun platform_as_str :: "platform \<Rightarrow> string" where
  "platform_as_str Github = ''github''"
| "platform_as_str Homelab = ''homelab''"
| "platform_as_str Kubernetes = ''kubernetes''"
| "platform_as_str A2a = ''a2a''"
| "platform_as_str Google = ''google''"
| "platform_as_str Agents_platform = ''agents''"
| "platform_as_str Sandbox_platform = ''sandbox''"
| "platform_as_str Hostexec_platform = ''hostexec''"
| "platform_as_str Mcp = ''mcp''"
| "platform_as_str Models = ''models''"
| "platform_as_str Pool_platform = ''pool''"
| "platform_as_str Mail_platform = ''mail''"

definition platform_parse :: "string \<Rightarrow> platform option" where
  "platform_parse s = find (\<lambda>p. platform_as_str p = s) all_platform"

section \<open>Identifiers and the human approval\<close>

text \<open>Typed ids: one type per table, each around a UUID (its canonical text).\<close>

datatype agent_id = AgentId string
datatype request_id = RequestId string
datatype job_id = JobId string

record human_approval =
  decided_by :: string
  approved_request :: request_id

definition attest :: "request_id \<Rightarrow> string \<Rightarrow> human_approval" where
  "attest request who = \<lparr>decided_by = who, approved_request = request\<rparr>"

text \<open>A run or template grant's single job shares its request's id.\<close>

fun for_request :: "request_id \<Rightarrow> job_id" where
  "for_request (RequestId uuid) = JobId uuid"

section \<open>Wire names\<close>

lemma UNIV_request_status: "UNIV = set all_request_status"
  using request_status.exhaust by (auto simp: all_request_status_def)

lemma UNIV_grant_status: "UNIV = set all_grant_status"
  using grant_status.exhaust by (auto simp: all_grant_status_def)

lemma UNIV_decision_source: "UNIV = set all_decision_source"
  using decision_source.exhaust by (auto simp: all_decision_source_def)

lemma UNIV_platform: "UNIV = set all_platform"
  using platform.exhaust by (auto simp: all_platform_def)

interpretation request_status: wire_enum all_request_status request_status_as_str
  by unfold_locales (simp add: UNIV_request_status, simp add: all_request_status_def)

interpretation grant_status: wire_enum all_grant_status grant_status_as_str
  by unfold_locales (simp add: UNIV_grant_status, simp add: all_grant_status_def)

interpretation decision_source: wire_enum all_decision_source decision_source_as_str
  by unfold_locales (simp add: UNIV_decision_source, simp add: all_decision_source_def)

interpretation platform: wire_enum all_platform platform_as_str
  by unfold_locales (simp add: UNIV_platform, simp add: all_platform_def)

instantiation request_status :: finite
begin
instance
  by standard (simp add: UNIV_request_status)
end

instantiation platform :: finite
begin
instance
  by standard (simp add: UNIV_platform)
end

section \<open>Histories\<close>

text \<open>\<open>request_path s h t\<close>: from \<open>s\<close> a request reached \<open>t\<close> through the statuses \<open>h\<close>,
  every move allowed by \<open>can_transition\<close>.\<close>

inductive request_path :: "request_status \<Rightarrow> request_status list \<Rightarrow> request_status \<Rightarrow> bool" where
  here: "request_path s [] s"
| move: "can_transition s u \<Longrightarrow> request_path u h t \<Longrightarrow> request_path s (u # h) t"

inductive_cases request_path_NilE: "request_path s [] t"
inductive_cases request_path_ConsE: "request_path s (u # h) t"
inductive_simps request_path_simps [simp]: "request_path s [] t" "request_path s (u # h) t"

text \<open>How far a request is: only the LLM loop keeps its stage.\<close>

fun stage :: "request_status \<Rightarrow> nat" where
  "stage Pending = 0"
| "stage LlmEvaluating = 1"
| "stage LlmDenied = 1"
| "stage AwaitingHuman = 2"
| "stage Approved = 3"
| "stage Provisioning = 4"
| "stage Granted = 5"
| "stage ProvisionFailed = 5"
| "stage Denied = 5"

lemma stage_step: "can_transition s t \<Longrightarrow> stage s \<le> stage t"
  by (cases s) (auto simp: can_transition_def)

lemma stage_step_strict:
  "can_transition s t \<Longrightarrow> stage s = stage t \<Longrightarrow>
   (s = LlmEvaluating \<and> t = LlmDenied) \<or> (s = LlmDenied \<and> t = LlmEvaluating)"
  by (cases s) (auto simp: can_transition_def)

lemma stage_review: "stage s \<le> 2 \<Longrightarrow> s \<noteq> Pending \<Longrightarrow> s \<in> {LlmEvaluating, LlmDenied, AwaitingHuman}"
  by (cases s) auto

lemma stage_llm: "stage s = 1 \<Longrightarrow> s \<in> {LlmEvaluating, LlmDenied}"
  by (cases s) auto

lemma stage_path: "request_path s h t \<Longrightarrow> u \<in> set (s # h) \<Longrightarrow> stage s \<le> stage u \<and> stage u \<le> stage t"
  by (induction arbitrary: u rule: request_path.induct) (use stage_step in fastforce)+

lemma path_terminal: "request_path s h t \<Longrightarrow> is_terminal s \<Longrightarrow> h = [] \<and> t = s"
  by (induction rule: request_path.induct) (auto simp: is_terminal_def can_transition_def)

lemma path_append: "request_path s (h @ k) t = (\<exists>u. request_path s h u \<and> request_path u k t)"
  by (induction h arbitrary: s) auto

lemma into_granted: "can_transition s Granted = (s = Provisioning)"
  by (cases s) (auto simp: can_transition_def)

lemma into_provisioning: "can_transition s Provisioning = (s = Approved)"
  by (cases s) (auto simp: can_transition_def)


lemma path_snoc: "request_path s (h @ [u]) t = (u = t \<and> (\<exists>v. request_path s h v \<and> can_transition v t))"
  by (auto simp: path_append)

lemma path_into:
  assumes "request_path s h t" "s \<noteq> t" "\<And>u. can_transition u t = (u = p)"
  shows "\<exists>h'. h = h' @ [t] \<and> request_path s h' p"
  using assms by (cases h rule: rev_cases) (auto simp: path_snoc)

lemma grant_order: "grant_can_transition\<^sup>+\<^sup>+ s t \<Longrightarrow>
   (s = GProvisioning \<and> t \<noteq> GProvisioning) \<or> (s = GActive \<and> t \<in> {GExpired, GRevoked})"
proof (induction rule: tranclp_induct)
  case (base t)
  then show ?case by (cases s; cases t) auto
next
  case (step t u)
  then show ?case by (cases t; cases u) auto
qed

lemma terminal_iff: "is_terminal s = (\<forall>h t. request_path s h t \<longrightarrow> h = [])"
proof
  assume "\<forall>h t. request_path s h t \<longrightarrow> h = []"
  moreover have "request_path s [u] u" if "can_transition s u" for u using that by simp
  ultimately have "\<not> can_transition s u" for u by blast
  then show "is_terminal s" by (metis can_transition_def is_terminal_def list.set_sel(1))
qed (use path_terminal in blast)

lemma loop_is_llm:
  assumes path: "request_path s h s" and "h \<noteq> []"
  shows "set (s # h) \<subseteq> {LlmEvaluating, LlmDenied}"
proof -
  obtain u k where h: "h = u # k" "can_transition s u" using assms by (cases h) auto
  have same: "stage v = stage s" if "v \<in> set (s # h)" for v
    using stage_path[OF path that] by linarith
  have "stage s = stage u" using same[of u] unfolding h(1) by (metis list.set_intros)
  from stage_step_strict[OF h(2) this] have "stage s = 1" by (elim disjE conjE) simp_all
  with same have "stage v = 1" if "v \<in> set (s # h)" for v using that by presburger
  then show ?thesis by (intro subsetI stage_llm)
qed

section \<open>Properties\<close>

text \<open>A request that starts pending and becomes granted was approved and then
  provisioned, as its last two moves before the grant; nothing before the approval is more than
  a review status. No shorter way to a grant exists.\<close>

theorem granted_only_through_approval:
  assumes "request_path Pending h Granted"
  shows "\<exists>h'. h = h' @ [Approved, Provisioning, Granted]
    \<and> set h' \<subseteq> {LlmEvaluating, LlmDenied, AwaitingHuman}"
proof -
  obtain h1 where h1: "h = h1 @ [Granted]" "request_path Pending h1 Provisioning"
    using path_into[OF assms] into_granted by blast
  obtain h2 where h2: "h1 = h2 @ [Provisioning]" "request_path Pending h2 Approved"
    using path_into[OF h1(2)] into_provisioning by blast
  obtain h3 v where h3: "h2 = h3 @ [Approved]" "request_path Pending h3 v" "can_transition v Approved"
    using h2(2) by (cases h2 rule: rev_cases) (auto simp: path_snoc)
  have "stage v \<le> 2" using h3(3) by (cases v) (auto simp: can_transition_def)
  then have "stage u \<le> 2" if "u \<in> set h3" for u
    using stage_path[OF h3(2), of u] that by simp
  moreover have "u \<noteq> Pending" if "u \<in> set h3" for u
  proof
    assume "u = Pending"
    with that obtain a b where "h3 = a @ Pending # b" by (metis split_list)
    with h3(2) obtain w where "can_transition w Pending" by (auto simp: path_append)
    then show False by (cases w) (auto simp: can_transition_def)
  qed
  ultimately have "set h3 \<subseteq> {LlmEvaluating, LlmDenied, AwaitingHuman}"
    using stage_review by blast
  with h1 h2 h3 show ?thesis by auto
qed

theorem granted_only_through_approval_witness:
  "request_path Pending [LlmEvaluating, LlmDenied, AwaitingHuman, Approved, Provisioning, Granted] Granted
   \<and> (\<exists>h'. [LlmEvaluating, LlmDenied, AwaitingHuman, Approved, Provisioning, Granted]
        = h' @ [Approved, Provisioning, Granted] \<and> set h' \<subseteq> {LlmEvaluating, LlmDenied, AwaitingHuman})"
proof -
  have p: "request_path Pending [LlmEvaluating, LlmDenied, AwaitingHuman, Approved, Provisioning, Granted] Granted"
    by (simp add: can_transition_def)
  from granted_only_through_approval[OF p] p show ?thesis by blast
qed

text \<open>A status is final exactly when the request can never change again, a terminal
  request is never waited on nor decidable by a human, and the only statuses a request can come
  back to are the two of the LLM retry loop.\<close>

theorem terminal_is_final:
  "is_terminal s = (\<forall>h t. request_path s h t \<longrightarrow> h = [])
   \<and> (is_terminal s \<longrightarrow> \<not> is_waiting s \<and> \<not> is_human_decidable s)
   \<and> (request_path s h s \<and> h \<noteq> [] \<longrightarrow> set (s # h) \<subseteq> {LlmEvaluating, LlmDenied})"
proof (intro conjI impI)
  show "is_terminal s = (\<forall>h t. request_path s h t \<longrightarrow> h = [])" by (rule terminal_iff)
  assume "is_terminal s"
  then show "\<not> is_waiting s" "\<not> is_human_decidable s" by (cases s; simp add: is_terminal_def)+
next
  assume "request_path s h s \<and> h \<noteq> []"
  then show "set (s # h) \<subseteq> {LlmEvaluating, LlmDenied}" using loop_is_llm by blast
qed

theorem terminal_is_final_witness:
  "is_terminal Denied \<and> \<not> is_waiting Denied
   \<and> request_path LlmEvaluating [LlmDenied, LlmEvaluating] LlmEvaluating"
  using terminal_is_final[of Denied "[]"] by (simp add: is_terminal_def can_transition_def)

text \<open>Every status, decision source and platform name round-trips: \<open>parse\<close> reads back
  exactly what \<open>as_str\<close> wrote and rejects every other text.\<close>

theorem names_round_trip:
  "(request_status_parse n = Some r) = (n = request_status_as_str r)
   \<and> (grant_status_parse n = Some g) = (n = grant_status_as_str g)
   \<and> (decision_source_parse n = Some d) = (n = decision_source_as_str d)
   \<and> (platform_parse n = Some p) = (n = platform_as_str p)"
  by (auto simp: request_status_parse_def grant_status_parse_def decision_source_parse_def
      platform_parse_def request_status.parse_iff grant_status.parse_iff decision_source.parse_iff
      platform.parse_iff)

text \<open>A grant never becomes active again once it left, and a grant that expired, was
  revoked or failed to provision never changes: along any sequence of moves the status only
  goes forward, and active is entered only from provisioning.\<close>

theorem grant_moves_forward:
  assumes "grant_can_transition\<^sup>+\<^sup>+ s t"
  shows "s \<noteq> t \<and> t \<noteq> GProvisioning \<and> s \<notin> {GExpired, GRevoked, GProvisionFailed}
    \<and> (t = GActive \<longrightarrow> s = GProvisioning)"
  using grant_order[OF assms] by auto

theorem grant_moves_forward_witness:
  "grant_can_transition\<^sup>+\<^sup>+ GProvisioning GRevoked \<and> GProvisioning \<noteq> GRevoked"
proof -
  have "grant_can_transition\<^sup>+\<^sup>+ GProvisioning GRevoked"
    by (rule tranclp.trancl_into_trancl[OF tranclp.r_into_trancl, of _ _ GActive]) simp_all
  with grant_moves_forward[OF this] show ?thesis by blast
qed

end
