(* ===== verification/Pyfmt.thy ===== *)
theory Pyfmt
  imports Prelude
begin

text \<open>
  Python's text renderings that reach agents and operators (\<open>core/src/pyfmt.rs\<close>): \<open>repr\<close>,
  \<open>json.dumps\<close> of a string, and \<open>shlex.quote\<close>/\<open>shlex.join\<close>. Here a text is the list of its
  code points (natural numbers), so that the bidirectional controls and invisible characters far
  above U+00FF are in the model; \<open>repr_string\<close> is \<open>repr\<close> on the \<^typ>\<open>string\<close>s of the other
  theories. The lemmas show that every rendering is display-safe.
\<close>

type_synonym codepoints = "nat list"

abbreviation ch :: "char \<Rightarrow> nat" where
  "ch c \<equiv> of_char c"

definition cps :: "string \<Rightarrow> codepoints" where
  "cps s = map of_char s"

section \<open>Display safety\<close>

text \<open>\<open>char::is_control\<close> (category Cc) and \<open>char::is_whitespace\<close> (White_Space).\<close>

definition cp_is_control :: "nat \<Rightarrow> bool" where
  "cp_is_control n = (n < 0x20 \<or> (0x7f \<le> n \<and> n \<le> 0x9f))"

definition cp_is_whitespace :: "nat \<Rightarrow> bool" where
  "cp_is_whitespace n = ((0x09 \<le> n \<and> n \<le> 0x0d) \<or> n = 0x20 \<or> n = 0x85 \<or> n = 0xa0 \<or> n = 0x1680
     \<or> (0x2000 \<le> n \<and> n \<le> 0x200a) \<or> n = 0x2028 \<or> n = 0x2029 \<or> n = 0x202f \<or> n = 0x205f \<or> n = 0x3000)"

definition format_char :: "nat \<Rightarrow> bool" where
  "format_char n = (n = 0xad \<or> (0x600 \<le> n \<and> n \<le> 0x605) \<or> n = 0x61c \<or> n = 0x6dd \<or> n = 0x70f
     \<or> n = 0x180e \<or> (0x200b \<le> n \<and> n \<le> 0x200f) \<or> (0x202a \<le> n \<and> n \<le> 0x202e)
     \<or> (0x2060 \<le> n \<and> n \<le> 0x206f) \<or> n = 0xfeff \<or> (0xfff9 \<le> n \<and> n \<le> 0xfffb) \<or> n = 0xe0001
     \<or> (0xe0020 \<le> n \<and> n \<le> 0xe007f) \<or> n = 0x34f \<or> n = 0x115f \<or> n = 0x1160 \<or> n = 0x3164 \<or> n = 0xffa0)"

definition private_use :: "nat \<Rightarrow> bool" where
  "private_use n = ((0xe000 \<le> n \<and> n \<le> 0xf8ff) \<or> (0xf0000 \<le> n \<and> n \<le> 0x10ffff))"

definition is_printable :: "nat \<Rightarrow> bool" where
  "is_printable n = (\<not> (cp_is_control n \<or> (cp_is_whitespace n \<and> n \<noteq> 0x20) \<or> format_char n \<or> private_use n))"

definition is_display_safe :: "nat \<Rightarrow> bool" where
  "is_display_safe n = (if n < 128 then 0x20 \<le> n \<and> n \<le> 0x7e else is_printable n)"

section \<open>Hexadecimal escapes\<close>

definition hex_digit :: "nat \<Rightarrow> nat" where
  "hex_digit d = (if d < 10 then 48 + d else 87 + d)"

text \<open>\<open>{n:0wx}\<close> for a number of at most \<open>w\<close> hexadecimal digits.\<close>

fun hex_fixed :: "nat \<Rightarrow> nat \<Rightarrow> codepoints" where
  "hex_fixed 0 n = []"
| "hex_fixed (Suc w) n = hex_fixed w (n div 16) @ [hex_digit (n mod 16)]"

definition push_python_escape :: "nat \<Rightarrow> codepoints" where
  "push_python_escape n =
     (if n \<le> 0xff then [92, 120] @ hex_fixed 2 n
      else if n \<le> 0xffff then [92, 117] @ hex_fixed 4 n
      else [92, 85] @ hex_fixed 8 n)"

section \<open>repr, escape_unprintable, json.dumps\<close>

definition repr_char :: "nat \<Rightarrow> nat \<Rightarrow> codepoints" where
  "repr_char quote c =
     (if c = 92 then [92, 92]
      else if c = 9 then [92, 116]
      else if c = 10 then [92, 110]
      else if c = 13 then [92, 114]
      else if c = quote then [92, c]
      else if c < 32 \<or> c = 127 then [92, 120] @ hex_fixed 2 c
      else if c < 128 then [c]
      else if is_printable c then [c]
      else push_python_escape c)"

definition repr :: "codepoints \<Rightarrow> codepoints" where
  "repr s = (let quote = (if 39 \<in> set s \<and> 34 \<notin> set s then 34 else 39)
     in [quote] @ concat (map (repr_char quote) s) @ [quote])"

definition repr_string :: "string \<Rightarrow> string" where
  "repr_string s = map char_of (repr (cps s))"

definition escape_unprintable :: "codepoints \<Rightarrow> codepoints" where
  "escape_unprintable s =
     (if list_all (\<lambda>c. is_display_safe c \<and> c \<noteq> 92) s then s
      else concat (map (\<lambda>c.
        if c = 92 then [92, 92]
        else if c = 9 then [92, 116]
        else if c = 10 then [92, 110]
        else if c = 13 then [92, 114]
        else if is_display_safe c then [c]
        else push_python_escape c) s))"

text \<open>\<open>char::encode_utf16\<close>.\<close>

definition encode_utf16 :: "nat \<Rightarrow> nat list" where
  "encode_utf16 c = (if c < 0x10000 then [c]
     else [0xd800 + (c - 0x10000) div 0x400, 0xdc00 + (c - 0x10000) mod 0x400])"

definition json_char :: "nat \<Rightarrow> codepoints" where
  "json_char c =
     (if c = 34 then [92, 34]
      else if c = 92 then [92, 92]
      else if c = 10 then [92, 110]
      else if c = 13 then [92, 114]
      else if c = 9 then [92, 116]
      else if c = 8 then [92, 98]
      else if c = 12 then [92, 102]
      else if 32 \<le> c \<and> c \<le> 126 then [c]
      else concat (map (\<lambda>unit. [92, 117] @ hex_fixed 4 unit) (encode_utf16 c)))"

definition json_str :: "codepoints \<Rightarrow> codepoints" where
  "json_str s = [34] @ concat (map json_char s) @ [34]"

fun json_str_entries :: "(codepoints \<times> codepoints) list \<Rightarrow> codepoints" where
  "json_str_entries [] = []"
| "json_str_entries [(k, v)] = json_str k @ cps '': '' @ json_str v"
| "json_str_entries ((k, v) # e # es) = json_str k @ cps '': '' @ json_str v @ cps '', '' @ json_str_entries (e # es)"

definition json_str_map :: "(codepoints \<times> codepoints) list \<Rightarrow> codepoints" where
  "json_str_map entries = cps ''{'' @ json_str_entries entries @ cps ''}''"

section \<open>shlex.quote and shlex.join\<close>

definition ansi_c_char :: "nat \<Rightarrow> codepoints" where
  "ansi_c_char c =
     (if c = 92 then [92, 92]
      else if c = 39 then [92, 39]
      else if c = 9 then [92, 116]
      else if c = 10 then [92, 110]
      else if c = 13 then [92, 114]
      else if is_display_safe c then [c]
      else if c < 128 then [92, 120] @ hex_fixed 2 c
      else if c \<le> 0xffff then [92, 117] @ hex_fixed 4 c
      else [92, 85] @ hex_fixed 8 c)"

definition ansi_c_quote :: "codepoints \<Rightarrow> codepoints" where
  "ansi_c_quote s = [36, 39] @ concat (map ansi_c_char s) @ [39]"

definition shlex_safe :: "nat \<Rightarrow> bool" where
  "shlex_safe c = ((97 \<le> c \<and> c \<le> 122) \<or> (65 \<le> c \<and> c \<le> 90) \<or> (48 \<le> c \<and> c \<le> 57)
     \<or> c \<in> set (cps ''_@%+=:,./-''))"

definition shlex_quote :: "codepoints \<Rightarrow> codepoints" where
  "shlex_quote s =
     (if s = [] then [39, 39]
      else if \<not> list_all is_display_safe s then ansi_c_quote s
      else if list_all shlex_safe s then s
      else [39] @ concat (map (\<lambda>c. if c = 39 then [39, 34, 39, 34, 39] else [c]) s) @ [39])"

fun join_words :: "codepoints list \<Rightarrow> codepoints" where
  "join_words [] = []"
| "join_words [w] = w"
| "join_words (w # v # ws) = w @ [32] @ join_words (v # ws)"

definition shlex_join :: "codepoints list \<Rightarrow> codepoints" where
  "shlex_join args = join_words (map shlex_quote args)"

section \<open>Reading a shell word back\<close>

text \<open>
  What a POSIX shell (with bash's ANSI-C quoting) makes of one word: unquoted characters stand
  for themselves, single and double quotes delimit text, \<open>$'...'\<close> takes the escapes. The
  state is the quoting; \<open>None\<close> when the word is malformed or holds a character that is special
  outside quotes, or an escaped NUL (which no argument can hold).
\<close>

definition hex_val :: "nat \<Rightarrow> nat option" where
  "hex_val d = (if 48 \<le> d \<and> d \<le> 57 then Some (d - 48)
     else if 97 \<le> d \<and> d \<le> 102 then Some (d - 87) else None)"

fun read_hex :: "nat \<Rightarrow> nat \<Rightarrow> codepoints \<Rightarrow> (nat \<times> codepoints) option" where
  "read_hex 0 acc s = Some (acc, s)"
| "read_hex (Suc w) acc [] = None"
| "read_hex (Suc w) acc (d # s) =
     (case hex_val d of None \<Rightarrow> None | Some v \<Rightarrow> read_hex w (16 * acc + v) s)"

datatype quoting = Bare | Single | Double | Ansi

lemma read_hex_shorter: "read_hex w acc s = Some (v, rest) \<Longrightarrow> length rest \<le> length s"
  by (induction w acc s rule: read_hex.induct) (auto split: option.splits)

function shell_word :: "quoting \<Rightarrow> codepoints \<Rightarrow> codepoints option" where
  "shell_word Bare [] = Some []"
| "shell_word Bare (c # s) =
     (if c = 39 then shell_word Single s
      else if c = 34 then shell_word Double s
      else if c = 36 \<and> s \<noteq> [] \<and> hd s = 39 then shell_word Ansi (tl s)
      else if shlex_safe c then map_option ((#) c) (shell_word Bare s)
      else None)"
| "shell_word Single [] = None"
| "shell_word Single (c # s) =
     (if c = 39 then shell_word Bare s else map_option ((#) c) (shell_word Single s))"
| "shell_word Double [] = None"
| "shell_word Double (c # s) =
     (if c = 34 then shell_word Bare s
      else if c = 92 \<or> c = 36 \<or> c = 96 then None
      else map_option ((#) c) (shell_word Double s))"
| "shell_word Ansi [] = None"
| "shell_word Ansi (c # s) =
     (if c = 39 then shell_word Bare s
      else if c \<noteq> 92 then map_option ((#) c) (shell_word Ansi s)
      else case s of [] \<Rightarrow> None | e # r \<Rightarrow>
        if e = 92 \<or> e = 39 then map_option ((#) e) (shell_word Ansi r)
        else if e = 116 then map_option ((#) 9) (shell_word Ansi r)
        else if e = 110 then map_option ((#) 10) (shell_word Ansi r)
        else if e = 114 then map_option ((#) 13) (shell_word Ansi r)
        else case (if e = 120 then read_hex 2 0 r else if e = 117 then read_hex 4 0 r
                   else if e = 85 then read_hex 8 0 r else None) of
               None \<Rightarrow> None
             | Some (v, rest) \<Rightarrow> if v = 0 then None else map_option ((#) v) (shell_word Ansi rest))"
  by pat_completeness auto
termination
  by (relation "measure (length \<circ> snd)") (auto dest!: read_hex_shorter split: if_splits)


section \<open>Every rendering is display-safe\<close>

lemma hex_digit_safe: "d < 16 \<Longrightarrow> is_display_safe (hex_digit d)"
  by (simp add: hex_digit_def is_display_safe_def)

lemma hex_fixed_safe [simp]: "list_all is_display_safe (hex_fixed w n)"
  by (induction w arbitrary: n) (auto simp: hex_digit_safe)

lemma ascii_safe: "32 \<le> n \<Longrightarrow> n \<le> 126 \<Longrightarrow> is_display_safe n"
  by (simp add: is_display_safe_def)

lemma push_python_escape_safe [simp]: "list_all is_display_safe (push_python_escape n)"
  by (simp add: push_python_escape_def ascii_safe)

lemma list_all_concat_map: "list_all P (concat (map f s)) = list_all (\<lambda>c. list_all P (f c)) s"
  by (induction s) auto

lemma repr_char_safe: "q \<in> {34, 39} \<Longrightarrow> list_all is_display_safe (repr_char q c)"
  by (auto simp: repr_char_def ascii_safe is_display_safe_def split: if_splits)

lemma repr_safe: "list_all is_display_safe (repr s)"
  by (simp add: repr_def Let_def list_all_concat_map ascii_safe repr_char_safe list_all_iff[of _ s])

lemma escape_unprintable_safe: "list_all is_display_safe (escape_unprintable s)"
  by (auto simp: escape_unprintable_def list_all_concat_map ascii_safe list_all_iff[of _ s])

lemma json_char_safe: "list_all is_display_safe (json_char c)"
  by (simp add: json_char_def ascii_safe list_all_concat_map list_all_iff[of _ "encode_utf16 c"])

lemma json_str_safe: "list_all is_display_safe (json_str s)"
  by (simp add: json_str_def list_all_concat_map ascii_safe json_char_safe list_all_iff[of _ s])

lemma ansi_c_char_safe: "list_all is_display_safe (ansi_c_char c)"
  by (simp add: ansi_c_char_def ascii_safe)

lemma shlex_quote_safe: "list_all is_display_safe (shlex_quote s)"
proof (cases "list_all is_display_safe s")
  case True
  then show ?thesis
    by (auto simp: shlex_quote_def list_all_concat_map ascii_safe list_all_iff[of _ s])
next
  case False
  then show ?thesis
    by (auto simp: shlex_quote_def ansi_c_quote_def list_all_concat_map ascii_safe ansi_c_char_safe
        list_all_iff[of _ s])
qed

lemma join_words_safe: "list_all (list_all is_display_safe) ws \<Longrightarrow> list_all is_display_safe (join_words ws)"
  by (induction ws rule: join_words.induct) (auto simp: ascii_safe)

lemma json_str_entries_safe: "list_all is_display_safe (json_str_entries es)"
  by (induction es rule: json_str_entries.induct) (auto simp: json_str_safe cps_def ascii_safe)

section \<open>A quoted word reads back\<close>

lemma hex_val_digit: "d < 16 \<Longrightarrow> hex_val (hex_digit d) = Some d"
  by (auto simp: hex_val_def hex_digit_def)

lemma read_hex_append:
  "read_hex (v + w) acc (s @ t) =
     (if length s = v then Option.bind (read_hex v acc s) (\<lambda>(x, _). read_hex w x t)
      else read_hex (v + w) acc (s @ t))"
proof -
  have "length s = v \<Longrightarrow> read_hex (v + w) acc (s @ t) = Option.bind (read_hex v acc s) (\<lambda>(x, _). read_hex w x t)"
    by (induction v acc s rule: read_hex.induct) (auto split: option.splits)
  then show ?thesis by simp
qed

lemma length_hex_fixed [simp]: "length (hex_fixed w n) = w"
  by (induction w arbitrary: n) auto

lemma read_hex_fixed: "read_hex w acc (hex_fixed w n @ r) = Some (16 ^ w * acc + n mod 16 ^ w, r)"
proof (induction w arbitrary: n r)
  case (Suc w)
  have "read_hex (w + 1) acc (hex_fixed w (n div 16) @ hex_digit (n mod 16) # r)
      = read_hex 1 (16 ^ w * acc + n div 16 mod 16 ^ w) (hex_digit (n mod 16) # r)"
    using Suc[of "n div 16" "[]"]
    by (subst read_hex_append) simp
  also have "\<dots> = Some (16 * (16 ^ w * acc + n div 16 mod 16 ^ w) + n mod 16, r)"
    by (simp add: hex_val_digit numeral_nat(7))
  also have "16 * (16 ^ w * acc + n div 16 mod 16 ^ w) + n mod 16 = 16 ^ Suc w * acc + n mod 16 ^ Suc w"
    using mod_mult2_eq[of n 16 "16 ^ w"] by (simp add: algebra_simps)
  finally show ?case by simp
qed simp

lemma shell_word_ansi_char:
  "0 < c \<Longrightarrow> c < 0x110000 \<Longrightarrow>
   shell_word Ansi (ansi_c_char c @ r) = map_option ((#) c) (shell_word Ansi r)"
  by (auto simp: ansi_c_char_def read_hex_fixed numeral_nat(7) is_display_safe_def)

lemma shell_word_ansi:
  "list_all (\<lambda>c. 0 < c \<and> c < 0x110000) s \<Longrightarrow>
   shell_word Ansi (concat (map ansi_c_char s) @ [39]) = Some s"
  by (induction s) (auto simp: shell_word_ansi_char)

lemma shell_word_single:
  "shell_word Single (concat (map (\<lambda>c. if c = 39 then [39, 34, 39, 34, 39] else [c]) s) @ [39]) = Some s"
  by (induction s) auto

lemma shell_word_bare: "list_all shlex_safe s \<Longrightarrow> shell_word Bare s = Some s"
  by (induction s) (auto simp: shlex_safe_def cps_def)

section \<open>Properties\<close>

text \<open>Whatever the text, each rendering an approver or an agent reads (\<open>repr\<close>, the
  inline escape, \<open>json.dumps\<close>, the shell quoting of a whole command line and of an environment)
  holds only display-safe characters: no control, bidirectional override or invisible
  character, hence no fake second line.\<close>

theorem renderings_display_safe:
  "list_all is_display_safe (repr s) \<and> list_all is_display_safe (escape_unprintable s)
   \<and> list_all is_display_safe (json_str s) \<and> list_all is_display_safe (shlex_join args)
   \<and> list_all is_display_safe (json_str_map entries)"
proof -
  have "list_all is_display_safe (shlex_join args)"
    by (simp add: shlex_join_def join_words_safe list_all_iff[of "list_all _"] shlex_quote_safe)
  moreover have "list_all is_display_safe (json_str_map entries)"
    by (simp add: json_str_map_def json_str_entries_safe cps_def ascii_safe)
  ultimately show ?thesis by (simp add: repr_safe escape_unprintable_safe json_str_safe)
qed

text \<open>A quoted argument is valid shell for exactly that argument: reading the word that
  \<open>shlex_quote\<close> wrote gives the argument back, in all its three quoting styles (the argument
  holds no NUL).\<close>

theorem shlex_quote_round_trip:
  assumes "list_all (\<lambda>c. 0 < c \<and> c < 0x110000) s"
  shows "shell_word Bare (shlex_quote s) = Some s"
proof (cases "s = [] \<or> (list_all is_display_safe s \<and> list_all shlex_safe s)")
  case True
  then show ?thesis using shell_word_bare by (auto simp: shlex_quote_def)
next
  case False
  then show ?thesis
    using shell_word_ansi[OF assms] shell_word_single by (auto simp: shlex_quote_def ansi_c_quote_def)
qed

theorem shlex_quote_round_trip_witness:
  "list_all (\<lambda>c. 0 < c \<and> c < 0x110000) [114 :: nat, 0x202e, 39] \<and>
   shell_word Bare (shlex_quote [114, 0x202e, 39]) = Some [114, 0x202e, 39]"
  using shlex_quote_round_trip[of "[114, 0x202e, 39]"] by simp

end
