(* ===== verification/Json.thy ===== *)
theory Json
  imports Prelude
begin

text \<open>
  JSON values as \<open>serde_json::Value\<close> has them, with the accessors and conversions the sources
  use. A \<open>Map\<close> is a \<open>BTreeMap\<close>: the \<open>bmap\<close> of the prelude. A number is an unsigned or a
  negative 64-bit integer or a finite double; a double is written as its shortest decimal
  \<open>m * 10 ^ e\<close> (the one \<open>Display\<close> prints), with a single zero.
\<close>

datatype f64 = F64 (f64_negative: bool) (f64_mantissa: nat) (f64_exponent: int)

datatype number = PosInt u64 | NegInt u64 | Float f64

datatype json =
  JNull | JBool bool | JNum number | JStr string | JArr "json list" | JObj "(string, json) bmap"

type_synonym json_map = "(string, json) bmap"

fun as_str :: "json \<Rightarrow> string option" where
  "as_str (JStr s) = Some s"
| "as_str v = None"

fun as_bool :: "json \<Rightarrow> bool option" where
  "as_bool (JBool b) = Some b"
| "as_bool v = None"

fun number_as_u64 :: "number \<Rightarrow> u64 option" where
  "number_as_u64 (PosInt n) = Some n"
| "number_as_u64 n = None"

fun number_as_i64 :: "number \<Rightarrow> u64 option" where
  "number_as_i64 (PosInt n) = (if n \<le> 0x7fffffffffffffff then Some n else None)"
| "number_as_i64 (NegInt n) = Some n"
| "number_as_i64 (Float f) = None"

fun as_u64 :: "json \<Rightarrow> u64 option" where
  "as_u64 (JNum n) = number_as_u64 n"
| "as_u64 v = None"

fun is_string :: "json \<Rightarrow> bool" where
  "is_string (JStr s) = True"
| "is_string v = False"

text \<open>\<open>u32::try_from(u64)\<close> and the widening back.\<close>

definition u32_try_from :: "u64 \<Rightarrow> u32 option" where
  "u32_try_from n = (if n \<le> 0xffffffff then Some (ucast n) else None)"

text \<open>\<open>json!\<close> of options, lists, sets and maps of strings, and of an object literal.\<close>

fun json_opt_str :: "string option \<Rightarrow> json" where
  "json_opt_str None = JNull"
| "json_opt_str (Some s) = JStr s"

fun json_opt_u32 :: "u32 option \<Rightarrow> json" where
  "json_opt_u32 None = JNull"
| "json_opt_u32 (Some n) = JNum (PosInt (ucast n))"

definition json_strs :: "string list \<Rightarrow> json" where
  "json_strs ss = JArr (map JStr ss)"

definition json_str_obj :: "(string, string) bmap \<Rightarrow> json" where
  "json_str_obj m = JObj (map (\<lambda>(k, v). (k, JStr v)) m)"

definition json_obj :: "(string \<times> json) list \<Rightarrow> json" where
  "json_obj kvs = JObj (bcollect kvs)"

section \<open>Well-formed values\<close>

text \<open>Every object of the value has its keys in strict order, as a \<open>BTreeMap\<close> does.\<close>

fun json_ok :: "json \<Rightarrow> bool" where
  "json_ok (JArr vs) = list_all json_ok vs"
| "json_ok (JObj m) = (bmap_ok m \<and> list_all (\<lambda>(k, v). json_ok v) m)"
| "json_ok v = True"

section \<open>Lemmas\<close>

lemma as_str_Some [simp]: "(as_str v = Some s) = (v = JStr s)"
  by (cases v) auto

lemma as_bool_Some [simp]: "(as_bool v = Some b) = (v = JBool b)"
  by (cases v) auto

lemma as_str_json_opt [simp]: "as_str (json_opt_str x) = x"
  by (cases x) auto

lemma json_opt_str_inj [simp]: "(json_opt_str x = json_opt_str y) = (x = y)"
  by (cases x; cases y) auto

lemma u32_round_trip [simp]: "u32_try_from (ucast (n :: u32)) = Some n"
proof -
  have lt: "unat n < 2 ^ 32" using unsigned_less[of n, where ?'a = nat] by simp
  then have "unat (ucast n :: u64) = unat n" by (simp add: unsigned_ucast_eq take_bit_nat_eq_self_iff)
  with lt have "(ucast n :: u64) \<le> 0xffffffff" by (simp add: word_le_nat_alt)
  moreover have "ucast (ucast n :: u64) = n"
    by (rule ucast_up_ucast_id) (simp add: is_up.rep_eq)
  ultimately show ?thesis by (simp add: u32_try_from_def)
qed

lemma u32_try_from_unat: "u32_try_from n = Some m \<Longrightarrow> unat m = unat n"
proof -
  assume "u32_try_from n = Some m"
  then have m: "m = ucast n" and le: "n \<le> 0xffffffff" by (auto simp: u32_try_from_def split: if_splits)
  from le have "unat n < 2 ^ 32" by (simp add: word_le_nat_alt)
  then show "unat m = unat n" by (simp add: m unsigned_ucast_eq take_bit_nat_eq_self_iff)
qed

lemma binsert_values: "json_ok v \<Longrightarrow> list_all (\<lambda>(k, v). json_ok v) m \<Longrightarrow>
    list_all (\<lambda>(k, v). json_ok v) (binsert k v m)"
  by (induction k v m rule: binsert.induct) auto

lemma json_obj_ok: "list_all (\<lambda>(k, v). json_ok v) kvs \<Longrightarrow> json_ok (json_obj kvs)"
proof -
  have "list_all (\<lambda>(k, v). json_ok v) kvs \<Longrightarrow> list_all (\<lambda>(k, v). json_ok v) m \<Longrightarrow>
      list_all (\<lambda>(k, v). json_ok v) (fold (\<lambda>(k, v) m. binsert k v m) kvs m)" for m
  proof (induction kvs arbitrary: m)
    case (Cons kv kvs)
    then show ?case by (cases kv) (simp add: binsert_values)
  qed simp
  then show "list_all (\<lambda>(k, v). json_ok v) kvs \<Longrightarrow> json_ok (json_obj kvs)"
    by (simp add: json_obj_def) (simp add: bcollect_def)
qed

end
