(* ===== verification/Pool.thy ===== *)
theory Pool
  imports Json Pyfmt
begin

text \<open>
  Platform \<open>pool\<close> (\<open>core/src/pool.rs\<close>): what a lease asks for and how an item's properties
  are matched. The lemmas show that a rule's \<open>match\<close> that covers a request's accepts every item
  the request accepts, and that properties survive the JSON round trip.
\<close>

definition MAX_MATCH_KEYS :: nat where
  "MAX_MATCH_KEYS = 32"

definition MAX_PROP_CHARS :: nat where
  "MAX_PROP_CHARS = 256"

datatype prop_value = PStr string | PNum number | PBool bool | PList "string list"

type_synonym prop_match = "(string, prop_value) bmap"

datatype pool_choice = Any prop_match | Previous | Item string

fun prop_string :: "json \<Rightarrow> string option" where
  "prop_string (JStr s) = (if length s \<le> MAX_PROP_CHARS then Some s else None)"
| "prop_string v = None"

fun prop_from_json :: "json \<Rightarrow> prop_value option" where
  "prop_from_json (JStr s) = (if length s \<le> MAX_PROP_CHARS then Some (PStr s) else None)"
| "prop_from_json (JNum n) = Some (PNum n)"
| "prop_from_json (JBool b) = Some (PBool b)"
| "prop_from_json (JArr items) =
     (if length items \<le> MAX_MATCH_KEYS then map_option PList (opt_map prop_string items) else None)"
| "prop_from_json v = None"

fun prop_to_json :: "prop_value \<Rightarrow> json" where
  "prop_to_json (PStr s) = JStr s"
| "prop_to_json (PNum n) = JNum n"
| "prop_to_json (PBool b) = JBool b"
| "prop_to_json (PList items) = JArr (map JStr items)"

section \<open>Python's str of a value\<close>

text \<open>\<open>Display\<close> of integers and of a double (decimal digits, never an exponent).\<close>

definition show_i64 :: "u64 \<Rightarrow> string" where
  "show_i64 n = (if sint n < 0 then ''-'' @ show_nat (nat (- sint n)) else show_nat (nat (sint n)))"

definition show_f64 :: "f64 \<Rightarrow> string" where
  "show_f64 f =
     (let digits = show_nat (f64_mantissa f); e = f64_exponent f; k = nat (- e);
          padded = replicate (k + 1 - length digits) CHR ''0'' @ digits
      in (if f64_negative f then ''-'' else []) @
         (if f64_mantissa f = 0 then ''0''
          else if 0 \<le> e then digits @ replicate (nat e) CHR ''0''
          else take (length padded - k) padded @ ''.'' @ drop (length padded - k) padded))"

definition py_number :: "number \<Rightarrow> string" where
  "py_number n =
     (case number_as_i64 n of
        Some i \<Rightarrow> show_i64 i
      | None \<Rightarrow>
          (case number_as_u64 n of
             Some u \<Rightarrow> show_nat (unat u)
           | None \<Rightarrow>
               (case n of
                  Float f \<Rightarrow>
                    if (f64_mantissa f = 0 \<or> 0 \<le> f64_exponent f)
                       \<and> f64_mantissa f * 10 ^ nat (f64_exponent f) < 10 ^ 16
                    then show_f64 f @ ''.0'' else show_f64 f
                | _ \<Rightarrow> [])))"

fun py_str :: "prop_value \<Rightarrow> string" where
  "py_str (PStr s) = s"
| "py_str (PNum n) = py_number n"
| "py_str (PBool b) = (if b then ''True'' else ''False'')"
| "py_str (PList items) = ''['' @ join '', '' (map repr_string items) @ '']''"

section \<open>Matching\<close>

fun value_matches :: "prop_value \<Rightarrow> prop_value \<Rightarrow> bool" where
  "value_matches (PList want) (PList have) = list_all (\<lambda>w. list_ex (\<lambda>h. h = w) have) want"
| "value_matches (PList want) have = False"
| "value_matches want (PList have) = (py_str want \<in> set have)"
| "value_matches want have = (want = have \<or> py_str want = py_str have)"

definition pool_matches :: "(string, prop_value) bmap \<Rightarrow> prop_match \<Rightarrow> bool" where
  "pool_matches properties wanted =
     list_all (\<lambda>(key, want).
       case bget properties key of None \<Rightarrow> False | Some have \<Rightarrow> value_matches want have) wanted"

definition match_covers :: "prop_match \<Rightarrow> prop_match \<Rightarrow> bool" where
  "match_covers rule wanted = list_all (\<lambda>(k, v). bget wanted k = Some v) rule"

fun item_name_ok :: "string \<Rightarrow> bool" where
  "item_name_ok [] = False"
| "item_name_ok (c # cs) =
     (is_ascii_alphanumeric c \<and> utf8_len (c # cs) \<le> 128
      \<and> list_all (\<lambda>c. is_ascii_alphanumeric c \<or> c \<in> set ''._-'') cs)"

section \<open>Lemmas\<close>

definition prop_ok :: "prop_value \<Rightarrow> bool" where
  "prop_ok v = (case v of
      PStr s \<Rightarrow> length s \<le> MAX_PROP_CHARS
    | PList items \<Rightarrow> length items \<le> MAX_MATCH_KEYS \<and> list_all (\<lambda>s. length s \<le> MAX_PROP_CHARS) items
    | _ \<Rightarrow> True)"

lemma opt_map_prop_string:
  "(opt_map prop_string vs = Some ss) = (vs = map JStr ss \<and> list_all (\<lambda>s. length s \<le> MAX_PROP_CHARS) ss)"
proof (induction vs arbitrary: ss)
  case (Cons v vs)
  show ?case by (cases v; cases ss) (auto simp: Cons split: if_splits)
qed auto

lemma prop_from_json_iff: "(prop_from_json j = Some v) = (j = prop_to_json v \<and> prop_ok v)"
  by (cases j; cases v) (auto simp: prop_ok_def opt_map_prop_string)

lemma match_covers_refl: "bmap_ok m \<Longrightarrow> match_covers m m"
  by (auto simp: match_covers_def list_all_iff bget_iff)

lemma match_covers_trans: "match_covers a b \<Longrightarrow> match_covers b c \<Longrightarrow> match_covers a c"
  by (fastforce simp: match_covers_def list_all_iff dest: map_of_SomeD)

lemma match_covers_matches: "match_covers rule wanted \<Longrightarrow> pool_matches props wanted \<Longrightarrow> pool_matches props rule"
  by (fastforce simp: match_covers_def pool_matches_def list_all_iff dest: map_of_SomeD)

lemma match_covers_empty_request: "match_covers rule [] = (rule = [])"
  by (cases rule) (auto simp: match_covers_def)

section \<open>Properties\<close>

text \<open>A property value read from JSON is exactly one that \<open>to_json\<close> writes back to the
  same JSON, and only values within the size limits are read.\<close>

theorem prop_value_round_trip:
  "(prop_from_json j = Some v) = (j = prop_to_json v \<and> prop_ok v)"
  by (rule prop_from_json_iff)

end
