(* ===== verification/Mail_Authority.thy ===== *)
theory Mail_Authority
  imports Json Glob
begin

text \<open>
  Platform \<open>mail\<close> (\<open>core/src/mail.rs\<close>): the privilege a mail grant conveys, how a rule
  pinned to one covers a request, and the address checks the gateway shares. Dates are those of
  the \<open>time\<close> crate; its \<open>YYYY-MM-DD\<close> printing and parsing are the fields of the parameter
  \<open>time_lib\<close>. The lemmas show that coverage is inclusion of what is permitted, that a glob that
  pins a domain matches only addresses at that domain, and what \<open>from_wire\<close> normalises to.
\<close>

definition MAX_TOPIC :: nat where
  "MAX_TOPIC = 1000"

definition MAX_CORRESPONDENTS :: nat where
  "MAX_CORRESPONDENTS = 32"

definition MAX_GLOB_LEN :: nat where
  "MAX_GLOB_LEN = 320"

section \<open>Errors\<close>

text \<open>
  \<open>AuthorityError\<close> is its message. A fixed message is \<open>Msg\<close> with its text; the ones that
  interpolate are constructors with the interpolated parts.
\<close>

datatype authority_error =
  Msg string
| Unknown_scope_keys string "string list"
| Unknown_mail_keys "string list" "string list"
| Bad_correspondents "json list"
| Pool_scope_keys "string list"
| Unknown_github_permission string
| Github_permission_level string
| Not_canonical string

section \<open>Actions and operations\<close>

datatype mail_action = MailRead | MailSend | MailReadSend | MailCreate

definition all_mail_action :: "mail_action list" where
  "all_mail_action = [MailRead, MailSend, MailReadSend, MailCreate]"

fun mail_action_as_str :: "mail_action \<Rightarrow> string" where
  "mail_action_as_str MailRead = ''read''"
| "mail_action_as_str MailSend = ''send''"
| "mail_action_as_str MailReadSend = ''read+send''"
| "mail_action_as_str MailCreate = ''create''"

definition mail_action_parse :: "string \<Rightarrow> mail_action option" where
  "mail_action_parse s = find (\<lambda>a. mail_action_as_str a = s) all_mail_action"

definition reads :: "mail_action \<Rightarrow> bool" where
  "reads a = (a \<noteq> MailSend)"

definition sends :: "mail_action \<Rightarrow> bool" where
  "sends a = (a \<noteq> MailRead)"

record ops =
  op_read :: bool
  op_send :: bool

definition ops_of :: "mail_action \<Rightarrow> ops" where
  "ops_of a = \<lparr>op_read = reads a, op_send = sends a\<rparr>"

definition ops_is_subset :: "ops \<Rightarrow> ops \<Rightarrow> bool" where
  "ops_is_subset self other = ((\<not> op_read self \<or> op_read other) \<and> (\<not> op_send self \<or> op_send other))"

definition ops_intersect :: "ops \<Rightarrow> ops \<Rightarrow> ops" where
  "ops_intersect self other =
     \<lparr>op_read = (op_read self \<and> op_read other), op_send = (op_send self \<and> op_send other)\<rparr>"

definition ops_union :: "ops \<Rightarrow> ops \<Rightarrow> ops" where
  "ops_union self other =
     \<lparr>op_read = (op_read self \<or> op_read other), op_send = (op_send self \<or> op_send other)\<rparr>"

section \<open>Dates\<close>

datatype date = Date (date_year: int) (date_month: nat) (date_day: nat)

fun date_key :: "date \<Rightarrow> int \<times> nat \<times> nat" where
  "date_key (Date y m d) = (y, m, d)"

instantiation date :: linorder
begin

fun less_eq_date :: "date \<Rightarrow> date \<Rightarrow> bool" where
  "less_eq_date (Date y m d) (Date y' m' d') =
     (y < y' \<or> (y = y' \<and> (m < m' \<or> (m = m' \<and> d \<le> d'))))"

fun less_date :: "date \<Rightarrow> date \<Rightarrow> bool" where
  "less_date (Date y m d) (Date y' m' d') =
     (y < y' \<or> (y = y' \<and> (m < m' \<or> (m = m' \<and> d < d'))))"

instance
proof
  fix x y z :: date
  show "(x < y) = (x \<le> y \<and> \<not> y \<le> x)" by (cases x; cases y) auto
  show "x \<le> x" by (cases x) auto
  show "x \<le> y \<Longrightarrow> y \<le> z \<Longrightarrow> x \<le> z" by (cases x; cases y; cases z) auto
  show "x \<le> y \<Longrightarrow> y \<le> x \<Longrightarrow> x = y" by (cases x; cases y) auto
  show "x \<le> y \<or> y \<le> x" by (cases x; cases y) auto
qed

end

record time_lib =
  print_ymd :: "date \<Rightarrow> string"
  read_ymd :: "string \<Rightarrow> date option"

definition format_date :: "time_lib \<Rightarrow> date \<Rightarrow> string" where
  "format_date tm d = print_ymd tm d"

definition parse_date :: "time_lib \<Rightarrow> string \<Rightarrow> date option" where
  "parse_date tm s =
     (if utf8_len s \<noteq> 10 \<or> \<not> list_all (\<lambda>b. is_ascii_digit b \<or> b = CHR ''-'') s then None
      else read_ymd tm s)"

section \<open>Addresses and globs\<close>

definition local_char :: "char \<Rightarrow> bool" where
  "local_char b = (is_ascii_lowercase b \<or> is_ascii_digit b
     \<or> b \<in> set [CHR ''!'', CHR ''#'', CHR ''$'', CHR ''%'', CHR ''&'', CHR 0x27, CHR ''*'', CHR ''+'',
         CHR ''/'', CHR ''='', CHR ''?'', CHR ''^'', CHR ''_'', CHR 0x60, CHR ''{'', CHR ''|'', CHR ''}'',
         CHR ''~'', CHR ''.'', CHR ''-''])"

definition label_char :: "char \<Rightarrow> bool" where
  "label_char c = (is_ascii_lowercase c \<or> is_ascii_digit c)"

definition label_ok :: "string \<Rightarrow> bool" where
  "label_ok l = (l \<noteq> [] \<and> label_char (hd l) \<and> label_char (last l)
     \<and> list_all (\<lambda>c. label_char c \<or> c = CHR ''-'') l)"

definition is_address :: "string \<Rightarrow> bool" where
  "is_address s =
     (if utf8_len s > MAX_GLOB_LEN then False
      else case split_once CHR ''@'' s of
        None \<Rightarrow> False
      | Some (local, domain) \<Rightarrow>
          if local = [] \<or> \<not> list_all local_char local then False
          else let labels = split_char CHR ''.'' domain in length labels \<ge> 2 \<and> list_all label_ok labels)"

definition is_glob :: "string \<Rightarrow> bool" where
  "is_glob s =
     (if utf8_len s > MAX_GLOB_LEN then False
      else case split_once CHR ''@'' s of
        None \<Rightarrow> False
      | Some (local, domain) \<Rightarrow>
          local \<noteq> [] \<and> list_all (\<lambda>b. local_char b \<or> b = CHR ''['' \<or> b = CHR '']'') local
          \<and> domain \<noteq> []
          \<and> list_all (\<lambda>b. is_ascii_lowercase b \<or> is_ascii_digit b \<or> b \<in> set ''*?.[]-'') domain)"

definition pins_domain :: "string \<Rightarrow> bool" where
  "pins_domain glob =
     (case split_once CHR ''@'' glob of
        None \<Rightarrow> False
      | Some (local, domain) \<Rightarrow>
          local \<noteq> [] \<and> domain \<noteq> [] \<and> \<not> list_ex (\<lambda>c. c \<in> set ''@*?[]'') domain)"

definition is_prefix :: "string \<Rightarrow> bool" where
  "is_prefix s = (1 \<le> utf8_len s \<and> utf8_len s \<le> 40
     \<and> (is_ascii_lowercase (hd s) \<or> is_ascii_digit (hd s))
     \<and> list_all (\<lambda>c. is_ascii_lowercase c \<or> is_ascii_digit c \<or> c \<in> set ''._-'') s)"

definition wild :: "string \<Rightarrow> bool" where
  "wild s = list_ex (\<lambda>c. c \<in> set ''*?[]'') s"

definition server_term :: "string \<Rightarrow> string option" where
  "server_term glob0 =
     (let glob = to_lowercase (trim glob0) in
      case rsplit_once CHR ''@'' glob of
        None \<Rightarrow> None
      | Some (local, domain0) \<Rightarrow>
          let domain = (case strip_prefix ''*.'' domain0 of Some d \<Rightarrow> d | None \<Rightarrow> domain0) in
          if wild domain \<or> CHR ''.'' \<notin> set domain then None
          else Some (if wild local then domain else glob))"

definition matches_any :: "string \<Rightarrow> string list \<Rightarrow> bool" where
  "matches_any address globs =
     list_ex (\<lambda>g. fnmatch (to_lowercase address) (to_lowercase g)) globs"

definition domain_of :: "string \<Rightarrow> string option" where
  "domain_of address = map_option (\<lambda>(_, d). to_lowercase d) (rsplit_once CHR ''@'' address)"

section \<open>The authority\<close>

record mail_authority =
  mail_action :: mail_action
  topic :: "string option"
  correspondents :: "string bset"
  since :: "date option"
  prefix_part :: "string option"

text \<open>\<open>str::split_whitespace\<close>.\<close>

fun split_ws :: "string \<Rightarrow> string \<Rightarrow> string list" where
  "split_ws word [] = (if word = [] then [] else [word])"
| "split_ws word (c # cs) =
     (if is_whitespace c then (if word = [] then split_ws [] cs else word # split_ws [] cs)
      else split_ws (word @ [c]) cs)"

definition split_whitespace :: "string \<Rightarrow> string list" where
  "split_whitespace s = split_ws [] s"

definition correspondent_text :: "json \<Rightarrow> string option" where
  "correspondent_text item =
     (case item of JStr s \<Rightarrow> if is_glob (to_lowercase (trim s)) then Some (to_lowercase (trim s)) else None
      | _ \<Rightarrow> None)"

definition mail_topic_from :: "json option \<Rightarrow> (authority_error, string option) result" where
  "mail_topic_from v =
     (case v of
        None \<Rightarrow> Ok None
      | Some JNull \<Rightarrow> Ok None
      | Some (JStr t) \<Rightarrow>
          if trim t \<noteq> [] \<and> length t \<le> MAX_TOPIC then Ok (Some (join '' '' (split_whitespace t)))
          else Err (Msg ''topic is a sentence of at most 1000 characters'')
      | Some _ \<Rightarrow> Err (Msg ''topic is a sentence of at most 1000 characters''))"

definition mail_correspondents_from :: "json option \<Rightarrow> (authority_error, string bset) result" where
  "mail_correspondents_from v =
     (case v of
        None \<Rightarrow> Ok []
      | Some JNull \<Rightarrow> Ok []
      | Some (JArr items) \<Rightarrow>
          if items \<noteq> [] \<and> length items \<le> MAX_CORRESPONDENTS then
            let bad = filter (\<lambda>i. correspondent_text i = None) items in
            if bad \<noteq> [] then Err (Bad_correspondents bad)
            else Ok (bset_of (map (\<lambda>i. the (correspondent_text i)) items))
          else Err (Msg ''correspondents is a list of 1 to 32 address globs'')
      | Some _ \<Rightarrow> Err (Msg ''correspondents is a list of 1 to 32 address globs''))"

definition mail_since_from :: "time_lib \<Rightarrow> json option \<Rightarrow> (authority_error, date option) result" where
  "mail_since_from tm v =
     (case v of
        None \<Rightarrow> Ok None
      | Some JNull \<Rightarrow> Ok None
      | Some (JStr s) \<Rightarrow>
          (case parse_date tm s of
             Some d \<Rightarrow> Ok (Some d)
           | None \<Rightarrow> Err (Msg ''since is a date, YYYY-MM-DD''))
      | Some _ \<Rightarrow> Err (Msg ''since is a date, YYYY-MM-DD''))"

definition mail_prefix_from :: "json option \<Rightarrow> (authority_error, string option) result" where
  "mail_prefix_from v =
     (let bad = Msg ''prefix: 1-40 lowercase letters, digits, . _ - (starting with a letter or digit)'' in
      case v of
        None \<Rightarrow> Ok None
      | Some JNull \<Rightarrow> Ok None
      | Some (JStr p) \<Rightarrow> if is_prefix (to_lowercase p) then Ok (Some (to_lowercase p)) else Err bad
      | Some _ \<Rightarrow> Err bad)"

definition mail_allowed_keys :: "mail_action \<Rightarrow> string list" where
  "mail_allowed_keys action =
     (if action = MailCreate then [''correspondents'', ''prefix'', ''since'', ''topic'']
      else [''correspondents'', ''since'', ''topic''])"

definition mail_from_wire :: "time_lib \<Rightarrow> string \<Rightarrow> json_map \<Rightarrow> (authority_error, mail_authority) result" where
  "mail_from_wire tm capability scope =
     (case mail_action_parse capability of
        None \<Rightarrow> Err (Msg ''mail capability is one of read, send, read+send, create'')
      | Some action \<Rightarrow>
          let allowed = mail_allowed_keys action;
              extra = filter (\<lambda>k. k \<notin> set allowed) (bkeys scope)
          in if extra \<noteq> [] then Err (Unknown_mail_keys (sort extra) allowed)
             else bind (mail_topic_from (bget scope ''topic'')) (\<lambda>topic.
               bind (mail_correspondents_from (bget scope ''correspondents'')) (\<lambda>corr.
               bind (mail_since_from tm (bget scope ''since'')) (\<lambda>since.
               bind (mail_prefix_from (bget scope ''prefix'')) (\<lambda>prefix.
               Ok \<lparr>mail_action = action, topic = topic, correspondents = corr,
                   since = since, prefix_part = prefix\<rparr>)))))"

definition mail_scope :: "time_lib \<Rightarrow> mail_authority \<Rightarrow> json_map" where
  "mail_scope tm m =
     bcollect ((case topic m of None \<Rightarrow> [] | Some t \<Rightarrow> [(''topic'', JStr t)])
       @ (if correspondents m = [] then [] else [(''correspondents'', json_strs (correspondents m))])
       @ (case since m of None \<Rightarrow> [] | Some d \<Rightarrow> [(''since'', JStr (format_date tm d))])
       @ (case prefix_part m of None \<Rightarrow> [] | Some p \<Rightarrow> [(''prefix'', JStr p)]))"

definition mail_to_json :: "time_lib \<Rightarrow> mail_authority \<Rightarrow> json" where
  "mail_to_json tm m =
     json_obj ([(''action'', JStr (mail_action_as_str (mail_action m))),
       (''topic'', json_opt_str (topic m)),
       (''correspondents'', json_strs (correspondents m)),
       (''since'', json_opt_str (map_option (format_date tm) (since m)))]
       @ (if mail_action m = MailCreate then [(''prefix'', json_opt_str (prefix_part m))] else []))"

definition mail_text :: "json_map \<Rightarrow> string \<Rightarrow> (authority_error, string option) result" where
  "mail_text m key =
     (case bget m key of
        None \<Rightarrow> Ok None
      | Some JNull \<Rightarrow> Ok None
      | Some (JStr s) \<Rightarrow> Ok (Some s)
      | Some _ \<Rightarrow> Err (Msg (''stored mail '' @ key)))"

definition mail_from_json :: "time_lib \<Rightarrow> json_map \<Rightarrow> (authority_error, mail_authority) result" where
  "mail_from_json tm m =
     bind (ok_or (Option.bind (Option.bind (bget m ''action'') as_str) mail_action_parse)
             (Msg ''stored mail action'')) (\<lambda>action.
     bind (case bget m ''correspondents'' of
             Some (JArr items) \<Rightarrow>
               map_ok bset_of (try_map (\<lambda>v. ok_or (as_str v) (Msg ''stored mail correspondents'')) items)
           | _ \<Rightarrow> Err (Msg ''stored mail correspondents'')) (\<lambda>corr.
     bind (bind (mail_text m ''since'') (\<lambda>t. case t of
             None \<Rightarrow> Ok None
           | Some s \<Rightarrow> bind (ok_or (parse_date tm s) (Msg ''stored mail since'')) (\<lambda>d. Ok (Some d)))) (\<lambda>since.
     bind (mail_text m ''topic'') (\<lambda>topic.
     bind (mail_text m ''prefix'') (\<lambda>prefix.
     Ok \<lparr>mail_action = action, topic = topic, correspondents = corr,
         since = since, prefix_part = prefix\<rparr>)))))"

definition mail_label :: "mail_authority \<Rightarrow> string" where
  "mail_label m = join '':'' ([mail_action_as_str (mail_action m)]
     @ (if correspondents m = [] then [] else [''with '' @ join '','' (correspondents m)])
     @ (if topic m \<noteq> None then [''topic''] else []))"

section \<open>Coverage\<close>

definition pinned_by :: "bool list \<Rightarrow> bool" where
  "pinned_by pins = (list_all id pins \<and> pins \<noteq> [])"

definition unconstrained_by :: "bool \<Rightarrow> bool \<Rightarrow> bool list \<Rightarrow> bool" where
  "unconstrained_by does_send has_topic pins = (does_send \<and> \<not> has_topic \<and> \<not> pinned_by pins)"

definition sends_unconstrained :: "mail_authority \<Rightarrow> bool" where
  "sends_unconstrained m =
     unconstrained_by (sends (mail_action m)) (topic m \<noteq> None) (map pins_domain (correspondents m))"

record ('t, 'd) covering =
  cov_action :: mail_action
  cov_prefix :: "'t option"
  cov_topic :: "'t option"
  cov_correspondents :: bool
  cov_since :: "'d option"

definition covers_by :: "('t, 'd::linorder) covering \<Rightarrow> ('t, 'd) covering \<Rightarrow> bool \<Rightarrow> bool" where
  "covers_by rule request nonempty_subset =
     (let rule_creates = (cov_action rule = MailCreate) in
      if rule_creates \<noteq> (cov_action request = MailCreate) then False
      else if rule_creates \<and> cov_prefix rule \<noteq> cov_prefix request then False
      else if \<not> rule_creates \<and> \<not> ops_is_subset (ops_of (cov_action request)) (ops_of (cov_action rule)) then False
      else if cov_topic rule \<noteq> None \<and> cov_topic request \<noteq> cov_topic rule then False
      else if cov_correspondents rule \<and> \<not> nonempty_subset then False
      else if is_some_and (\<lambda>since. is_none_or (\<lambda>s. s < since) (cov_since request)) (cov_since rule) then False
      else True)"

definition view :: "mail_authority \<Rightarrow> (string, date) covering" where
  "view m = \<lparr>cov_action = mail_action m, cov_prefix = prefix_part m, cov_topic = topic m,
     cov_correspondents = (correspondents m \<noteq> []), cov_since = since m\<rparr>"

definition mail_covers :: "mail_authority \<Rightarrow> mail_authority \<Rightarrow> bool" where
  "mail_covers self request = covers_by (view self) (view request)
     (correspondents request \<noteq> [] \<and> set (correspondents request) \<subseteq> set (correspondents self))"


section \<open>Lemmas\<close>

lemma UNIV_mail_action: "UNIV = set all_mail_action"
  using mail_action.exhaust by (auto simp: all_mail_action_def)

interpretation mail_action: wire_enum all_mail_action mail_action_as_str
  by unfold_locales (simp add: UNIV_mail_action, simp add: all_mail_action_def)

lemma mail_action_parse_as_str [simp]: "mail_action_parse (mail_action_as_str a) = Some a"
  by (simp add: mail_action_parse_def)

text \<open>Lower-casing neither makes nor removes a character that is special in a glob.\<close>

lemma to_lower_char_letter:
  "to_lower_char c = x \<Longrightarrow> (of_char x :: nat) < 97 \<Longrightarrow> \<not> is_ascii_uppercase x \<Longrightarrow> c = x"
  by (auto simp: to_lower_char_def Let_def split: if_splits)

lemma to_lower_char_same: "(of_char x :: nat) < 65 \<or> (of_char x :: nat) \<in> {91..96} \<Longrightarrow> to_lower_char x = x"
  by (auto simp: to_lower_char_def Let_def)

lemma to_lower_char_fix:
  assumes "(of_char x :: nat) < 65 \<or> (of_char x :: nat) \<in> {91..96}"
  shows "(to_lower_char c = x) = (c = x)"
proof
  assume "to_lower_char c = x"
  moreover have "\<not> is_ascii_uppercase x" using assms by (auto simp: is_ascii_uppercase_def less_eq_char_def)
  ultimately show "c = x" using to_lower_char_letter assms by auto
qed (use to_lower_char_same assms in blast)

lemma to_lower_char_special [simp]:
  "(to_lower_char c = CHR ''@'') = (c = CHR ''@'')"
  "(to_lower_char c = CHR ''*'') = (c = CHR ''*'')"
  "(to_lower_char c = CHR ''?'') = (c = CHR ''?'')"
  "(to_lower_char c = CHR ''['') = (c = CHR ''['')"
  "(to_lower_char c = CHR '']'') = (c = CHR '']'')"
  by (simp_all add: to_lower_char_fix)

lemma split_once_lower:
  "split_once CHR ''@'' (to_lowercase s) = map_option (\<lambda>(a, b). (to_lowercase a, to_lowercase b)) (split_once CHR ''@'' s)"
  by (induction s) (auto simp: to_lowercase_def option.map_comp comp_def case_prod_unfold)

lemma pins_domain_lower: "pins_domain g \<Longrightarrow> pins_domain (to_lowercase g)"
proof -
  assume "pins_domain g"
  then obtain l d where "split_once CHR ''@'' g = Some (l, d)" "l \<noteq> []" "d \<noteq> []"
    "\<forall>c \<in> set d. c \<notin> set ''@*?[]''"
    by (auto simp: pins_domain_def list_ex_iff split: option.splits)
  then show ?thesis
    by (simp add: pins_domain_def split_once_lower) (simp add: list_ex_iff to_lowercase_def)
qed

lemma pins_domain_tail:
  assumes "pins_domain g" "split_once CHR ''@'' g = Some (l, d)" "fnmatch a g"
  shows "\<exists>x. a = x @ CHR ''@'' # d"
proof -
  have "g = l @ CHR ''@'' # d" using assms(2) by (simp add: split_once_iff)
  moreover have "set (CHR ''@'' # d) \<inter> {CHR ''*'', CHR ''?'', CHR ''['', CHR '']''} = {}"
    using assms(1,2) by (auto simp: pins_domain_def list_ex_iff)
  ultimately show ?thesis using glob_literal_tail[of "CHR ''@'' # d" a l] assms(3) by simp
qed

lemma to_lower_char_idem [simp]: "to_lower_char (to_lower_char c) = to_lower_char c"
proof (cases "is_ascii_uppercase c \<or> (192 \<le> (of_char c :: nat) \<and> (of_char c :: nat) \<le> 222 \<and> (of_char c :: nat) \<noteq> 215)")
  case True
  then have "of_char (to_lower_char c) = (of_char c :: nat) + 32"
    by (auto simp: to_lower_char_def Let_def is_ascii_uppercase_def less_eq_char_def)
  with True show ?thesis
    by (auto simp: to_lower_char_def[of "to_lower_char c"] Let_def is_ascii_uppercase_def less_eq_char_def)
next
  case False
  then have "to_lower_char c = c"
    by (auto simp: to_lower_char_def Let_def is_ascii_uppercase_def less_eq_char_def)
  then show ?thesis by simp
qed

lemma to_lowercase_idem [simp]: "to_lowercase (to_lowercase s) = to_lowercase s"
  by (simp add: to_lowercase_def)

lemma rsplit_once_lower:
  "rsplit_once CHR ''@'' (to_lowercase s) = map_option (\<lambda>(a, b). (to_lowercase a, to_lowercase b)) (rsplit_once CHR ''@'' s)"
proof -
  have "rev (to_lowercase s) = to_lowercase (rev s)" by (simp add: to_lowercase_def rev_map)
  then show ?thesis
    unfolding rsplit_once_def
    by (simp add: split_once_lower option.map_comp comp_def case_prod_unfold)
      (simp add: to_lowercase_def rev_map)
qed

lemma domain_of_lower: "domain_of (to_lowercase s) = domain_of s"
  by (simp add: domain_of_def rsplit_once_lower option.map_comp comp_def case_prod_unfold)

lemma pinned_match_domain:
  assumes "pins_domain g" "fnmatch (to_lowercase a) (to_lowercase g)"
  shows "domain_of a = domain_of g"
proof -
  obtain l d where ld: "split_once CHR ''@'' (to_lowercase g) = Some (l, d)"
    using pins_domain_lower[OF assms(1)] by (auto simp: pins_domain_def split: option.splits)
  then have g: "to_lowercase g = l @ CHR ''@'' # d" by (simp add: split_once_iff)
  have nd: "CHR ''@'' \<notin> set d"
    using pins_domain_lower[OF assms(1)] ld by (auto simp: pins_domain_def list_ex_iff)
  obtain x where a: "to_lowercase a = x @ CHR ''@'' # d"
    using pins_domain_tail[OF pins_domain_lower[OF assms(1)] ld assms(2)] by blast
  have "rsplit_once CHR ''@'' (to_lowercase g) = Some (l, d)"
    and "rsplit_once CHR ''@'' (to_lowercase a) = Some (x, d)"
    using g a nd by (simp_all add: rsplit_once_iff)
  then show ?thesis using domain_of_lower[of a] domain_of_lower[of g] by (simp add: domain_of_def)
qed

section \<open>What an authority permits\<close>

text \<open>
  One use of a mail grant: creating an alias with a prefix, reading or sending one message on the alias
  so created, or reading or sending one on an alias there is; about a topic, with a correspondent, dated on a day.
\<close>

datatype mail_use =
  Create_alias "string option" | Read_created "string option" | Send_created "string option" | Read_mail | Send_mail

fun action_permits :: "mail_authority \<Rightarrow> mail_use \<Rightarrow> bool" where
  "action_permits m (Create_alias p) = (mail_action m = MailCreate \<and> p = prefix_part m)"
| "action_permits m (Read_created p) = (mail_action m = MailCreate \<and> p = prefix_part m \<and> reads (mail_action m))"
| "action_permits m (Send_created p) = (mail_action m = MailCreate \<and> p = prefix_part m \<and> sends (mail_action m))"
| "action_permits m Read_mail = (mail_action m \<noteq> MailCreate \<and> reads (mail_action m))"
| "action_permits m Send_mail = (mail_action m \<noteq> MailCreate \<and> sends (mail_action m))"

definition mail_permits :: "mail_authority \<Rightarrow> mail_use \<Rightarrow> string \<Rightarrow> string \<Rightarrow> date \<Rightarrow> bool" where
  "mail_permits m u about party day =
     (action_permits m u
      \<and> is_none_or (\<lambda>t. t = about) (topic m)
      \<and> (correspondents m = [] \<or> matches_any party (correspondents m))
      \<and> is_none_or (\<lambda>d. d \<le> day) (since m))"

lemma matches_any_mono: "set gs \<subseteq> set hs \<Longrightarrow> matches_any a gs \<Longrightarrow> matches_any a hs"
  by (auto simp: matches_any_def list_ex_iff)

lemma covers_by_iff:
  "covers_by rule request sub =
     ((cov_action rule = MailCreate) = (cov_action request = MailCreate)
      \<and> (cov_action rule = MailCreate \<longrightarrow> cov_prefix rule = cov_prefix request)
      \<and> (cov_action rule \<noteq> MailCreate \<longrightarrow> ops_is_subset (ops_of (cov_action request)) (ops_of (cov_action rule)))
      \<and> (cov_topic rule \<noteq> None \<longrightarrow> cov_topic request = cov_topic rule)
      \<and> (cov_correspondents rule \<longrightarrow> sub)
      \<and> is_none_or (\<lambda>d. is_some_and (\<lambda>s. d \<le> s) (cov_since request)) (cov_since rule))"
  by (cases "cov_since rule"; cases "cov_since request") (auto simp: covers_by_def Let_def not_le)

lemma mail_covers_permits:
  assumes "mail_covers rule m" "mail_permits m u about party day"
  shows "mail_permits rule u about party day"
proof -
  have "action_permits rule u"
    using assms by (cases u; cases "mail_action rule"; cases "mail_action m")
      (auto simp: mail_covers_def covers_by_iff view_def mail_permits_def ops_is_subset_def ops_of_def reads_def sends_def)
  moreover have "is_none_or (\<lambda>t. t = about) (topic rule)"
    using assms by (cases "topic rule") (auto simp: mail_covers_def covers_by_iff view_def mail_permits_def)
  moreover have "correspondents rule = [] \<or> matches_any party (correspondents rule)"
    using assms matches_any_mono[of "correspondents m" "correspondents rule"]
    by (auto simp: mail_covers_def covers_by_iff view_def mail_permits_def)
  moreover have "is_none_or (\<lambda>d. d \<le> day) (since rule)"
    using assms by (cases "since rule"; cases "since m")
      (auto simp: mail_covers_def covers_by_iff view_def mail_permits_def)
  ultimately show ?thesis by (simp add: mail_permits_def)
qed

lemma mail_covers_refl: "mail_covers m m"
  by (cases "since m") (auto simp: mail_covers_def covers_by_iff view_def ops_is_subset_def)


section \<open>Well-formed authorities\<close>

text \<open>What \<open>from_wire\<close> makes: bounded and normalised fields, a prefix only for create.\<close>

definition mail_wf :: "mail_authority \<Rightarrow> bool" where
  "mail_wf m = (bset_ok (correspondents m) \<and> list_all is_glob (correspondents m)
     \<and> (\<forall>c \<in> set (correspondents m). to_lowercase c = c)
     \<and> (mail_action m \<noteq> MailCreate \<longrightarrow> prefix_part m = None)
     \<and> is_none_or is_prefix (prefix_part m))"

lemma mail_correspondents_from_ok:
  assumes "mail_correspondents_from v = Ok cs"
  shows "bset_ok cs \<and> list_all is_glob cs \<and> (\<forall>c \<in> set cs. to_lowercase c = c)"
proof -
  have "\<exists>items. cs = [] \<or> (cs = bset_of (map (\<lambda>i. the (correspondent_text i)) items)
      \<and> (\<forall>i \<in> set items. correspondent_text i \<noteq> None))"
    using assms by (auto simp: mail_correspondents_from_def Let_def filter_empty_conv
        split: option.splits json.splits if_splits)
  then obtain items where "cs = [] \<or> (cs = bset_of (map (\<lambda>i. the (correspondent_text i)) items)
      \<and> (\<forall>i \<in> set items. correspondent_text i \<noteq> None))" by blast
  moreover have "bset_ok ([] :: string list)" by (simp add: bset_ok_def)
  moreover have "is_glob t \<and> to_lowercase t = t" if "correspondent_text i = Some t" for i t
    using that by (auto simp: correspondent_text_def split: json.splits if_splits)
  ultimately show ?thesis by (fastforce simp: list_all_iff)
qed

lemma mail_prefix_from_ok: "mail_prefix_from v = Ok p \<Longrightarrow> is_none_or is_prefix p"
  by (auto simp: mail_prefix_from_def Let_def split: option.splits json.splits if_splits)

lemma mail_from_wire_parts:
  assumes "mail_from_wire tm capability scope = Ok m"
  shows "mail_action_parse capability = Some (mail_action m)
    \<and> (\<forall>k \<in> set (bkeys scope). k \<in> set (mail_allowed_keys (mail_action m)))
    \<and> mail_correspondents_from (bget scope ''correspondents'') = Ok (correspondents m)
    \<and> mail_since_from tm (bget scope ''since'') = Ok (since m)
    \<and> mail_prefix_from (bget scope ''prefix'') = Ok (prefix_part m)"
  using assms
  by (auto simp: mail_from_wire_def Let_def result_simps filter_empty_conv split: option.splits if_splits)

lemma mail_from_wire_wf:
  assumes "mail_from_wire tm capability scope = Ok m"
  shows "mail_wf m"
proof -
  note parts = mail_from_wire_parts[OF assms]
  have "prefix_part m = None" if "mail_action m \<noteq> MailCreate"
  proof -
    have "bget scope ''prefix'' = None"
      using parts that by (auto simp: mail_allowed_keys_def map_of_eq_None_iff)
    with parts show ?thesis by (simp add: mail_prefix_from_def)
  qed
  with parts mail_correspondents_from_ok mail_prefix_from_ok show ?thesis
    by (auto simp: mail_wf_def)
qed

text \<open>The dates the library prints and reads back within the checks of \<open>parse_date\<close>.\<close>

definition date_ok :: "time_lib \<Rightarrow> date \<Rightarrow> bool" where
  "date_ok tm d = (utf8_len (print_ymd tm d) = 10
     \<and> list_all (\<lambda>b. is_ascii_digit b \<or> b = CHR ''-'') (print_ymd tm d)
     \<and> read_ymd tm (print_ymd tm d) = Some d)"

definition mail_storable :: "time_lib \<Rightarrow> mail_authority \<Rightarrow> bool" where
  "mail_storable tm m = (bset_ok (correspondents m)
     \<and> (mail_action m \<noteq> MailCreate \<longrightarrow> prefix_part m = None)
     \<and> is_none_or (date_ok tm) (since m))"

lemma parse_format_date: "date_ok tm d \<Longrightarrow> parse_date tm (format_date tm d) = Some d"
  by (simp add: date_ok_def parse_date_def format_date_def)

lemma bget_json_obj:
  "bget (bcollect kvs) k = map_of (rev kvs) k"
proof -
  have "bget (fold (\<lambda>(k, v) m. binsert k v m) kvs m) k = (case map_of (rev kvs) k of None \<Rightarrow> bget m k | Some v \<Rightarrow> Some v)" for m
    by (induction kvs arbitrary: m) (auto simp: map_add_def split: option.splits)
  then show ?thesis by (simp add: bcollect_def split: option.splits)
qed

lemma try_map_strs [simp]: "try_map (\<lambda>v. ok_or (as_str v) e) (map JStr ss) = Ok ss"
  by (induction ss) auto

lemma mail_json_round_trip:
  assumes "mail_storable tm m"
  shows "\<exists>kvs. mail_to_json tm m = JObj kvs \<and> mail_from_json tm kvs = Ok m"
proof -
  let ?kvs = "[(''action'', JStr (mail_action_as_str (mail_action m))), (''topic'', json_opt_str (topic m)),
       (''correspondents'', json_strs (correspondents m)),
       (''since'', json_opt_str (map_option (format_date tm) (since m)))]
       @ (if mail_action m = MailCreate then [(''prefix'', json_opt_str (prefix_part m))] else [])"
  have text_topic: "mail_text (bcollect ?kvs) ''topic'' = Ok (topic m)"
    by (cases "topic m") (auto simp: mail_text_def bget_json_obj)
  have text_prefix: "mail_text (bcollect ?kvs) ''prefix'' = Ok (prefix_part m)"
    using assms by (cases "prefix_part m") (auto simp: mail_text_def bget_json_obj mail_storable_def)
  have text_since: "mail_text (bcollect ?kvs) ''since'' = Ok (map_option (format_date tm) (since m))"
    by (cases "since m") (auto simp: mail_text_def bget_json_obj)
  have corr: "bget (bcollect ?kvs) ''correspondents'' = Some (JArr (map JStr (correspondents m)))"
    by (simp add: bget_json_obj json_strs_def)
  have action: "bget (bcollect ?kvs) ''action'' = Some (JStr (mail_action_as_str (mail_action m)))"
    by (simp add: bget_json_obj)
  have "mail_from_json tm (bcollect ?kvs) = Ok m"
    unfolding mail_from_json_def text_topic text_prefix text_since corr action
    using assms by (cases "since m") (auto simp: mail_storable_def parse_format_date)
  then show ?thesis by (simp add: mail_to_json_def json_obj_def)
qed

section \<open>Properties\<close>

text \<open>C25: A mail rule covers only requests that ask for no more: every use (creating an alias,
  reading or sending on it or on one there is, about a topic, with a correspondent, of a day) that the covered request
  permits, the rule permits too; and every authority covers itself.\<close>

theorem mail_covers_is_inclusion:
  "mail_covers m m \<and>
   (mail_covers rule m \<longrightarrow> mail_permits m u about party day \<longrightarrow> mail_permits rule u about party day)"
  using mail_covers_refl mail_covers_permits by blast

theorem mail_covers_is_inclusion_witness:
  "let rule = \<lparr>mail_action = MailReadSend, topic = None, correspondents = [''*@a.com'', ''b@c.com''],
        since = Some (Date 2026 1 1), prefix_part = None\<rparr>;
       m = \<lparr>mail_action = MailSend, topic = Some ''trip'', correspondents = [''b@c.com''],
        since = Some (Date 2026 2 1), prefix_part = None\<rparr>
   in mail_covers rule m \<and> mail_permits m Send_mail ''trip'' ''B@c.com'' (Date 2026 3 1)
      \<and> mail_permits rule Send_mail ''trip'' ''B@c.com'' (Date 2026 3 1)"
proof -
  let ?rule = "\<lparr>mail_action = MailReadSend, topic = None, correspondents = [''*@a.com'', ''b@c.com''],
        since = Some (Date 2026 1 1), prefix_part = None\<rparr>"
  let ?m = "\<lparr>mail_action = MailSend, topic = Some ''trip'', correspondents = [''b@c.com''],
        since = Some (Date 2026 2 1), prefix_part = None\<rparr>"
  have c: "mail_covers ?rule ?m" by code_simp
  have p: "mail_permits ?m Send_mail ''trip'' ''B@c.com'' (Date 2026 3 1)" by code_simp
  show ?thesis
    using mail_covers_is_inclusion[of ?m ?rule Send_mail "''trip''" "''B@c.com''" "Date 2026 3 1"] c p
    by (simp add: Let_def)
qed

text \<open>A grant that may send without a topic and is not flagged as unconstrained keeps its
  mail in: it names correspondents, and every address that matches one of them is at the domain
  that one names.\<close>

theorem constrained_sending_stays_in_domains:
  assumes "sends (mail_action m)" "topic m = None" "\<not> sends_unconstrained m"
  shows "correspondents m \<noteq> [] \<and>
    (matches_any address (correspondents m) \<longrightarrow> domain_of address \<in> domain_of ` set (correspondents m))"
proof -
  have pins: "correspondents m \<noteq> []" "\<forall>g \<in> set (correspondents m). pins_domain g"
    using assms by (auto simp: sends_unconstrained_def unconstrained_by_def pinned_by_def list_all_iff)
  then show ?thesis using pinned_match_domain by (auto simp: matches_any_def list_ex_iff)
qed

theorem constrained_sending_stays_in_domains_witness:
  "let m = \<lparr>mail_action = MailSend, topic = None, correspondents = [''*@a.com''], since = None, prefix_part = None\<rparr>
   in sends (mail_action m) \<and> \<not> sends_unconstrained m \<and> matches_any ''Eve@A.com'' (correspondents m)
      \<and> domain_of ''Eve@A.com'' \<in> domain_of ` set (correspondents m)"
proof -
  let ?m = "\<lparr>mail_action = MailSend, topic = None, correspondents = [''*@a.com''], since = None, prefix_part = None\<rparr>"
  have 1: "sends (mail_action ?m)" and 2: "\<not> sends_unconstrained ?m"
    and 3: "matches_any ''Eve@A.com'' (correspondents ?m)" by code_simp+
  show ?thesis
    using constrained_sending_stays_in_domains[of ?m "''Eve@A.com''"] 1 2 3 by (simp add: Let_def)
qed

text \<open>What a mail request parses to is well formed: the correspondents are distinct
  lower-case address globs in order, an alias prefix appears only on a create, and it is a
  valid local part.\<close>

theorem mail_from_wire_well_formed:
  assumes "mail_from_wire tm capability scope = Ok m"
  shows "mail_wf m \<and> capability = mail_action_as_str (mail_action m)"
  using mail_from_wire_wf[OF assms] mail_from_wire_parts[OF assms]
  by (auto simp: mail_action_parse_def mail_action.parse_iff)

theorem mail_from_wire_well_formed_witness:
  "\<exists>m. mail_from_wire \<lparr>print_ymd = \<lambda>_. [], read_ymd = \<lambda>_. None\<rparr> ''send''
          [(''correspondents'', JArr [JStr '' *@B.com'', JStr ''a@b.com''])] = Ok m
       \<and> correspondents m = [''*@b.com'', ''a@b.com''] \<and> mail_wf m"
proof -
  let ?tm = "\<lparr>print_ymd = \<lambda>_. [], read_ymd = \<lambda>_. None\<rparr>"
  let ?m = "\<lparr>mail_action = MailSend, topic = None, correspondents = [''*@b.com'', ''a@b.com''],
      since = None, prefix_part = None\<rparr>"
  have "mail_from_wire ?tm ''send'' [(''correspondents'', JArr [JStr '' *@B.com'', JStr ''a@b.com''])] = Ok ?m"
    by code_simp
  with mail_from_wire_well_formed[OF this] show ?thesis by (metis mail_authority.select_convs(3))
qed

end
