(* ===== verification/Authority.thy ===== *)
theory Authority
  imports Lifecycle Pool Mail_Authority
begin

text \<open>
  The privilege a grant conveys over its resource (\<open>core/src/authority.rs\<close>): one constructor
  per platform, the wire form (\<open>capability\<close>, \<open>wire_scope\<close>, \<open>from_wire\<close>), the stored form
  (\<open>to_json\<close>, \<open>from_json\<close>), sensitivity, and the rule-pinning relation \<open>rule_covers\<close>.
  The lemmas show that the stored form is read strictly and round-trips, which widenings
  \<open>rule_covers\<close> has, and what sensitivity depends on.
\<close>

section \<open>Data\<close>

datatype github_access = GRead | GWrite | GAdmin

fun github_access_as_str :: "github_access \<Rightarrow> string" where
  "github_access_as_str GRead = ''read''"
| "github_access_as_str GWrite = ''write''"
| "github_access_as_str GAdmin = ''admin''"

definition github_access_parse :: "string \<Rightarrow> github_access option" where
  "github_access_parse s =
     (if s = ''read'' then Some GRead else if s = ''write'' then Some GWrite
      else if s = ''admin'' then Some GAdmin else None)"

datatype visibility = Private | Public

fun visibility_as_str :: "visibility \<Rightarrow> string" where
  "visibility_as_str Private = ''private''"
| "visibility_as_str Public = ''public''"

type_synonym github_permissions = "(string, github_access) bmap"

datatype github_authority = Repo github_permissions | CreateRepo visibility

record kubernetes_authority =
  role :: string
  cluster :: bool

datatype project_access = ProjectRead | ProjectWrite

fun project_capability :: "project_access \<Rightarrow> string" where
  "project_capability ProjectRead = ''project.read''"
| "project_capability ProjectWrite = ''project.write''"

datatype tier = User | Root

fun tier_as_str :: "tier \<Rightarrow> string" where
  "tier_as_str User = ''user''"
| "tier_as_str Root = ''root''"

definition tier_parse :: "string \<Rightarrow> tier option" where
  "tier_parse s = (if s = ''user'' then Some User else if s = ''root'' then Some Root else None)"

datatype shell_mode = Watched | General | Guarded | Umbrella

definition all_shell_mode :: "shell_mode list" where
  "all_shell_mode = [Watched, General, Guarded, Umbrella]"

fun shell_mode_as_str :: "shell_mode \<Rightarrow> string" where
  "shell_mode_as_str Watched = ''watched''"
| "shell_mode_as_str General = ''general''"
| "shell_mode_as_str Guarded = ''guarded''"
| "shell_mode_as_str Umbrella = ''umbrella''"

definition shell_mode_parse :: "string \<Rightarrow> shell_mode option" where
  "shell_mode_parse s = find (\<lambda>m. shell_mode_as_str m = s) all_shell_mode"

definition guarded :: "shell_mode \<Rightarrow> bool" where
  "guarded m = (m = Guarded \<or> m = Umbrella)"

record command_options =
  opt_tier :: tier
  opt_cwd :: "string option"
  opt_env :: "(string, string) bmap"
  opt_timeout :: "u32 option"
  opt_stdin :: "string option"

datatype hostexec_authority =
  Run "string list" command_options
| Template string "(string, string) bmap" command_options
| Shell tier shell_mode
| Window tier

fun hostexec_tier :: "hostexec_authority \<Rightarrow> tier" where
  "hostexec_tier (Run argv options) = opt_tier options"
| "hostexec_tier (Template template params options) = opt_tier options"
| "hostexec_tier (Shell tier mode) = tier"
| "hostexec_tier (Window tier) = tier"

datatype tool_set = AllTools | SomeTools "string bset"

fun tools_cover :: "tool_set \<Rightarrow> tool_set \<Rightarrow> bool" where
  "tools_cover AllTools wanted = True"
| "tools_cover (SomeTools allowed) AllTools = False"
| "tools_cover (SomeTools allowed) (SomeTools wanted) = (set wanted \<subseteq> set allowed)"

datatype authority =
  AuthGithub github_authority
| AuthHomelab
| AuthKubernetes kubernetes_authority
| AuthA2a "glob option"
| AuthGoogle string
| AuthAgents string "string option"
| AuthSandbox project_access
| AuthHostexec hostexec_authority
| AuthMcp tool_set
| AuthModels
| AuthPool pool_choice
| AuthMail mail_authority

definition GOOGLE_CAPABILITIES :: "string list" where
  "GOOGLE_CAPABILITIES = [''calendar.read'', ''calendar.write'', ''drive.read'']"

definition GOOGLE_SCOPES :: "string list" where
  "GOOGLE_SCOPES = [''calendar.events'', ''calendar.readonly'', ''drive.readonly'', ''gmail.readonly'', ''gmail.send'']"

definition google_scope_url :: "string \<Rightarrow> string option" where
  "google_scope_url short =
     (if short \<in> set GOOGLE_SCOPES then Some (''https://www.googleapis.com/auth/'' @ short) else None)"

section \<open>Sensitivity\<close>

record sensitivity_config =
  github_sensitive_permissions :: "string bset"
  kubernetes_sensitive_roles :: "string bset"
  kubernetes_sensitive_namespaces :: "glob list"
  kubernetes_cluster_grant_namespace :: string
  pool_sensitive_items :: "(string, string bset) bmap"
  mail_mailboxes :: "string bset"

definition default_sensitivity :: sensitivity_config where
  "default_sensitivity = \<lparr>
     github_sensitive_permissions = bset_of [''secrets'', ''administration''],
     kubernetes_sensitive_roles = bset_of [''edit'', ''admin''],
     kubernetes_sensitive_namespaces =
       map Glob [''kube-system'', ''kube-public'', ''kube-node-lease'', ''flux-system''],
     kubernetes_cluster_grant_namespace = ''default'',
     pool_sensitive_items = [],
     mail_mailboxes = []\<rparr>"

definition namespace_is_sensitive :: "sensitivity_config \<Rightarrow> string \<Rightarrow> bool" where
  "namespace_is_sensitive cfg namespace =
     (namespace = kubernetes_cluster_grant_namespace cfg
      \<or> list_ex (\<lambda>g. glob_matches g namespace) (kubernetes_sensitive_namespaces cfg))"

fun authority_platform :: "authority \<Rightarrow> platform" where
  "authority_platform (AuthGithub g) = Github"
| "authority_platform AuthHomelab = Homelab"
| "authority_platform (AuthKubernetes k) = Kubernetes"
| "authority_platform (AuthA2a t) = A2a"
| "authority_platform (AuthGoogle a) = Google"
| "authority_platform (AuthAgents a r) = Agents_platform"
| "authority_platform (AuthSandbox a) = Sandbox_platform"
| "authority_platform (AuthHostexec h) = Hostexec_platform"
| "authority_platform (AuthMcp t) = Mcp"
| "authority_platform AuthModels = Models"
| "authority_platform (AuthPool c) = Pool_platform"
| "authority_platform (AuthMail m) = Mail_platform"

fun needs_explicit_rule :: "authority \<Rightarrow> bool" where
  "needs_explicit_rule (AuthGithub (CreateRepo v)) = True"
| "needs_explicit_rule (AuthAgents a r) = True"
| "needs_explicit_rule (AuthHostexec h) = True"
| "needs_explicit_rule (AuthMcp t) = True"
| "needs_explicit_rule AuthModels = True"
| "needs_explicit_rule (AuthPool c) = True"
| "needs_explicit_rule (AuthGoogle a) = True"
| "needs_explicit_rule (AuthMail m) = True"
| "needs_explicit_rule a = False"

fun human_only :: "authority \<Rightarrow> bool" where
  "human_only (AuthHostexec (Shell tier mode)) = True"
| "human_only a = False"

fun is_shell :: "hostexec_authority \<Rightarrow> bool" where
  "is_shell (Shell tier mode) = True"
| "is_shell h = False"

text \<open>With the resource, or without one: what the authority alone makes sensitive.\<close>

fun sensitive_at :: "authority \<Rightarrow> sensitivity_config \<Rightarrow> string option \<Rightarrow> bool" where
  "sensitive_at (AuthGithub (CreateRepo visibility)) cfg resource = (visibility \<noteq> Private)"
| "sensitive_at (AuthGithub (Repo permissions)) cfg resource =
     list_ex (\<lambda>p. p \<in> set (github_sensitive_permissions cfg)) (bkeys permissions)"
| "sensitive_at (AuthKubernetes k) cfg resource =
     (cluster k \<or> is_some_and (namespace_is_sensitive cfg) resource
      \<or> role k \<in> set (kubernetes_sensitive_roles cfg))"
| "sensitive_at (AuthPool (Item item)) cfg resource =
     is_some_and (\<lambda>pool. is_some_and (\<lambda>items. item \<in> set items) (bget (pool_sensitive_items cfg) pool)) resource"
| "sensitive_at (AuthMail m) cfg resource =
     (is_some_and (\<lambda>r. to_lowercase r \<in> set (mail_mailboxes cfg)) resource \<or> sends_unconstrained m)"
| "sensitive_at (AuthGoogle action) cfg resource = (action = ''calendar.write'' \<or> action = ''drive.read'')"
| "sensitive_at (AuthSandbox access) cfg resource = (access = ProjectWrite)"
| "sensitive_at (AuthHostexec h) cfg resource = (hostexec_tier h = Root \<or> is_shell h)"
| "sensitive_at a cfg resource = False"

definition is_sensitive :: "authority \<Rightarrow> sensitivity_config \<Rightarrow> string \<Rightarrow> bool" where
  "is_sensitive a cfg resource = sensitive_at a cfg (Some resource)"

definition sensitive_by_resource :: "authority \<Rightarrow> sensitivity_config \<Rightarrow> string \<Rightarrow> bool" where
  "sensitive_by_resource a cfg resource =
     (sensitive_at a cfg (Some resource) \<and> \<not> sensitive_at a cfg None)"

section \<open>The wire form\<close>

fun capability :: "authority \<Rightarrow> string" where
  "capability (AuthGithub (CreateRepo v)) = ''create''"
| "capability (AuthGithub (Repo p)) = ''repo''"
| "capability AuthHomelab = ''group''"
| "capability (AuthKubernetes k) = role k"
| "capability (AuthA2a t) = ''talk''"
| "capability (AuthGoogle action) = action"
| "capability (AuthAgents action runtime) = action"
| "capability (AuthSandbox access) = project_capability access"
| "capability (AuthHostexec (Shell tier mode)) = ''shell''"
| "capability (AuthHostexec (Template template params options)) = ''tpl.'' @ template"
| "capability (AuthHostexec (Run argv options)) = ''run''"
| "capability (AuthHostexec (Window tier)) = ''run''"
| "capability (AuthMcp t) = ''use''"
| "capability AuthModels = ''use''"
| "capability (AuthPool c) = ''lease''"
| "capability (AuthMail m) = mail_action_as_str (mail_action m)"

definition permissions_json :: "github_permissions \<Rightarrow> json" where
  "permissions_json permissions = JObj (map (\<lambda>(k, v). (k, JStr (github_access_as_str v))) permissions)"

fun tools_json :: "tool_set \<Rightarrow> json" where
  "tools_json AllTools = JArr [JStr ''*'']"
| "tools_json (SomeTools tools) = json_strs tools"

definition match_json :: "prop_match \<Rightarrow> json" where
  "match_json m = JObj (map (\<lambda>(k, v). (k, prop_to_json v)) m)"

definition options_scope :: "command_options \<Rightarrow> json_map" where
  "options_scope options =
     bcollect ([(''tier'', JStr (tier_as_str (opt_tier options)))]
       @ (case opt_cwd options of None \<Rightarrow> [] | Some cwd \<Rightarrow> [(''cwd'', JStr cwd)])
       @ (if opt_env options = [] then [] else [(''env'', json_str_obj (opt_env options))])
       @ (case opt_timeout options of None \<Rightarrow> [] | Some t \<Rightarrow> [(''timeout'', JNum (PosInt (ucast t)))])
       @ (case opt_stdin options of None \<Rightarrow> []
          | Some stdin \<Rightarrow> if stdin = [] then [] else [(''stdin'', JStr stdin)]))"

fun wire_scope :: "time_lib \<Rightarrow> authority \<Rightarrow> json_map" where
  "wire_scope tm (AuthGithub (CreateRepo v)) = [(''visibility'', JStr (visibility_as_str v))]"
| "wire_scope tm (AuthGithub (Repo p)) = [(''permissions'', permissions_json p)]"
| "wire_scope tm (AuthKubernetes k) = (if cluster k then [(''cluster'', JBool True)] else [])"
| "wire_scope tm (AuthA2a (Some t)) = [(''topic'', JStr (source t))]"
| "wire_scope tm (AuthAgents action runtime) = [(''runtime'', json_opt_str runtime)]"
| "wire_scope tm (AuthHostexec (Shell tier mode)) =
     (if mode = Watched then [(''tier'', JStr (tier_as_str tier))]
      else bcollect [(''tier'', JStr (tier_as_str tier)), (''mode'', JStr (shell_mode_as_str mode))])"
| "wire_scope tm (AuthHostexec (Window tier)) = [(''tier'', JStr (tier_as_str tier))]"
| "wire_scope tm (AuthHostexec (Run argv options)) = binsert ''argv'' (json_strs argv) (options_scope options)"
| "wire_scope tm (AuthHostexec (Template template params options)) =
     binsert ''params'' (json_str_obj params) (options_scope options)"
| "wire_scope tm (AuthMcp tools) = [(''tools'', tools_json tools)]"
| "wire_scope tm (AuthPool (Item item)) = [(''item'', JStr item)]"
| "wire_scope tm (AuthPool Previous) = [(''previous'', JBool True)]"
| "wire_scope tm (AuthPool (Any m)) = (if m \<noteq> [] then [(''match'', match_json m)] else [])"
| "wire_scope tm (AuthMail m) = mail_scope tm m"
| "wire_scope tm a = []"

fun label :: "authority \<Rightarrow> string" where
  "label (AuthGithub (CreateRepo v)) = ''create:'' @ visibility_as_str v"
| "label (AuthGithub (Repo permissions)) =
     (let joined = map (\<lambda>(k, v). k @ '':'' @ github_access_as_str v) permissions
      in if joined = [] then ''repo'' else join ''+'' joined)"
| "label (AuthKubernetes k) =
     (let r = (if role k = [] then ''*'' else role k)
      in if cluster k then r @ '' (cluster-wide)'' else r)"
| "label (AuthAgents action runtime) = ''mint:'' @ (case runtime of None \<Rightarrow> ''?'' | Some r \<Rightarrow> r)"
| "label (AuthMcp AllTools) = ''all tools''"
| "label (AuthMcp (SomeTools tools)) = join '','' tools"
| "label (AuthHostexec (Window tier)) = ''approve-all:'' @ tier_as_str tier"
| "label (AuthHostexec (Template template params options)) =
     ''tpl.'' @ template @ '':'' @ tier_as_str (opt_tier options)"
| "label (AuthHostexec (Run argv options)) = ''run:'' @ tier_as_str (opt_tier options)"
| "label (AuthHostexec (Shell tier mode)) =
     (if mode = Watched then ''shell:'' @ tier_as_str tier
      else ''shell:'' @ tier_as_str tier @ '':'' @ shell_mode_as_str mode)"
| "label (AuthMail m) = mail_label m"
| "label (AuthPool (Item item)) = ''lease:'' @ item"
| "label (AuthPool Previous) = ''lease:previous''"
| "label (AuthPool (Any m)) =
     (if m = [] then ''lease:any''
      else ''lease:'' @ join '','' (map (\<lambda>(k, v). k @ ''='' @ py_str v) m))"
| "label other = (let cap = capability other in if cap = [] then ''*'' else cap)"

section \<open>Reading the wire form\<close>

definition MAX_MCP_TOOLS :: nat where
  "MAX_MCP_TOOLS = 64"

definition only_keys :: "json_map \<Rightarrow> string list \<Rightarrow> string \<Rightarrow> (authority_error, unit) result" where
  "only_keys scope allowed message =
     (let unknown = filter (\<lambda>k. k \<notin> set allowed) (bkeys scope)
      in if unknown = [] then Ok () else Err (Unknown_scope_keys message unknown))"

definition string_list :: "json option \<Rightarrow> (authority_error, string list) result" where
  "string_list value =
     (case value of
        None \<Rightarrow> Ok []
      | Some JNull \<Rightarrow> Ok []
      | Some (JArr items) \<Rightarrow> try_map (\<lambda>v. ok_or (as_str v) (Msg ''expected strings'')) items
      | Some _ \<Rightarrow> Err (Msg ''expected a list of strings''))"

definition string_map :: "json option \<Rightarrow> (authority_error, (string, string) bmap) result" where
  "string_map value =
     (case value of
        None \<Rightarrow> Ok []
      | Some JNull \<Rightarrow> Ok []
      | Some (JObj m) \<Rightarrow>
          map_ok bcollect (try_map (\<lambda>(k, v).
            map_ok (\<lambda>v. (k, v)) (ok_or (as_str v) (Msg ''expected an object of strings''))) m)
      | Some _ \<Rightarrow> Err (Msg ''expected an object of strings''))"

definition bad_match :: authority_error where
  "bad_match = Msg ''match maps a property to a value (or a list of strings)''"

definition match_from_json :: "json option \<Rightarrow> (authority_error, prop_match) result" where
  "match_from_json value =
     (case value of
        None \<Rightarrow> Ok []
      | Some JNull \<Rightarrow> Ok []
      | Some (JObj m) \<Rightarrow>
          if length m \<le> MAX_MATCH_KEYS then
            map_ok bcollect (try_map (\<lambda>(k, v).
              if k = [] \<or> length k > MAX_PROP_CHARS then Err bad_match
              else map_ok (\<lambda>v. (k, v)) (ok_or (prop_from_json v) bad_match)) m)
          else Err bad_match
      | Some _ \<Rightarrow> Err bad_match)"

definition pool_item_from :: "json option \<Rightarrow> (authority_error, string option) result" where
  "pool_item_from value =
     (case value of
        None \<Rightarrow> Ok None
      | Some JNull \<Rightarrow> Ok None
      | Some (JStr i) \<Rightarrow>
          if i = [] then Ok None
          else if length i \<le> 128 then Ok (Some i) else Err (Msg ''item is an item's name'')
      | Some _ \<Rightarrow> Err (Msg ''item is an item's name''))"

definition wire_bool :: "json option \<Rightarrow> authority_error \<Rightarrow> (authority_error, bool) result" where
  "wire_bool value bad =
     (case value of None \<Rightarrow> Ok False | Some JNull \<Rightarrow> Ok False | Some (JBool b) \<Rightarrow> Ok b | Some _ \<Rightarrow> Err bad)"

definition bad_choice :: authority_error where
  "bad_choice = Msg ''ask for one of: an \"item\" by name, the \"previous\" one, or any (with \"match\")''"

definition pool_from_wire :: "string \<Rightarrow> json_map \<Rightarrow> (authority_error, authority) result" where
  "pool_from_wire cap scope =
     (if cap \<noteq> ''lease'' then Err (Msg ''pool capability is \"lease\"'')
      else let extra = filter (\<lambda>k. k \<notin> {''item'', ''previous'', ''match''}) (bkeys scope)
        in if extra \<noteq> [] then Err (Pool_scope_keys (sort extra))
           else bind (pool_item_from (bget scope ''item'')) (\<lambda>item.
             bind (wire_bool (bget scope ''previous'') (Msg ''\"previous\" must be true or false'')) (\<lambda>previous.
             bind (match_from_json (bget scope ''match'')) (\<lambda>m.
               case (item, previous) of
                 (None, False) \<Rightarrow> Ok (AuthPool (Any m))
               | (Some i, False) \<Rightarrow> if m = [] then Ok (AuthPool (Item i)) else Err bad_choice
               | (None, True) \<Rightarrow> if m = [] then Ok (AuthPool Previous) else Err bad_choice
               | (Some i, True) \<Rightarrow> Err bad_choice))))"

definition github_permission_from :: "string \<times> json \<Rightarrow> (authority_error, string \<times> github_access) result" where
  "github_permission_from entry =
     (case entry of (name, level) \<Rightarrow>
       if \<not> (name \<noteq> [] \<and> utf8_len name \<le> 64 \<and> list_all (\<lambda>b. is_ascii_lowercase b \<or> b = CHR ''_'') name)
       then Err (Unknown_github_permission name)
       else case Option.bind (as_str level) github_access_parse of
         None \<Rightarrow> Err (Github_permission_level name)
       | Some access \<Rightarrow> Ok (name, access))"

definition github_from_wire :: "string \<Rightarrow> json_map \<Rightarrow> (authority_error, authority) result" where
  "github_from_wire cap scope =
     (if cap = ''create'' then
        bind (only_keys scope [''visibility''] ''a github create scope is {\"visibility\": \"private\"|\"public\"}'') (\<lambda>_.
          case bget scope ''visibility'' of
            None \<Rightarrow> Ok (AuthGithub (CreateRepo Private))
          | Some JNull \<Rightarrow> Ok (AuthGithub (CreateRepo Private))
          | Some v \<Rightarrow>
              if v = JStr ''private'' then Ok (AuthGithub (CreateRepo Private))
              else if v = JStr ''public'' then Ok (AuthGithub (CreateRepo Public))
              else Err (Msg ''visibility must be \"private\" or \"public\"''))
      else if cap \<noteq> ''repo'' then Err (Msg ''github capability is \"repo\" or \"create\"'')
      else
        bind (only_keys scope [''permissions''] ''a github scope is {\"permissions\": {...}}'') (\<lambda>_.
          case bget scope ''permissions'' of
            None \<Rightarrow> Ok (AuthGithub (Repo []))
          | Some JNull \<Rightarrow> Ok (AuthGithub (Repo []))
          | Some (JObj perms) \<Rightarrow>
              if length perms > 64 then Err (Msg ''too many permissions'')
              else map_ok (\<lambda>ps. AuthGithub (Repo (bcollect ps))) (try_map github_permission_from perms)
          | Some _ \<Rightarrow> Err (Msg ''\"permissions\" must be an object'')))"

definition wire_cwd :: "json option \<Rightarrow> (authority_error, string option) result" where
  "wire_cwd value =
     (case value of
        None \<Rightarrow> Ok None
      | Some JNull \<Rightarrow> Ok None
      | Some (JStr c) \<Rightarrow> Ok (if c = [] then None else Some c)
      | Some _ \<Rightarrow> Err (Msg ''cwd must be an absolute path''))"

definition wire_strings :: "json option \<Rightarrow> authority_error \<Rightarrow> (authority_error, (string, string) bmap) result" where
  "wire_strings value bad =
     (case value of
        None \<Rightarrow> Ok []
      | Some JNull \<Rightarrow> Ok []
      | Some v \<Rightarrow> map_err (\<lambda>_. bad) (string_map (Some v)))"

definition bad_timeout :: authority_error where
  "bad_timeout = Msg ''timeout must be a number of seconds between 1 and 86400''"

definition wire_timeout :: "json option \<Rightarrow> (authority_error, u32 option) result" where
  "wire_timeout value =
     (case value of
        None \<Rightarrow> Ok None
      | Some JNull \<Rightarrow> Ok None
      | Some (JNum n) \<Rightarrow>
          (case Option.bind (number_as_u64 n) u32_try_from of
             Some t \<Rightarrow> Ok (Some t)
           | None \<Rightarrow> Err bad_timeout)
      | Some _ \<Rightarrow> Err bad_timeout)"

definition wire_stdin :: "json option \<Rightarrow> (authority_error, string option) result" where
  "wire_stdin value =
     (case value of
        None \<Rightarrow> Ok None
      | Some JNull \<Rightarrow> Ok None
      | Some (JStr s) \<Rightarrow> Ok (Some s)
      | Some _ \<Rightarrow> Err (Msg ''stdin must be text''))"

definition wire_options :: "tier \<Rightarrow> json_map \<Rightarrow> (authority_error, command_options) result" where
  "wire_options tier scope =
     bind (wire_cwd (bget scope ''cwd'')) (\<lambda>cwd.
     bind (wire_strings (bget scope ''env'') (Msg ''env must be an object of strings'')) (\<lambda>env.
     bind (wire_timeout (bget scope ''timeout'')) (\<lambda>timeout.
     bind (wire_stdin (bget scope ''stdin'')) (\<lambda>stdin.
     Ok \<lparr>opt_tier = tier, opt_cwd = cwd, opt_env = env, opt_timeout = timeout, opt_stdin = stdin\<rparr>))))"

definition shell_mode_from :: "json option \<Rightarrow> (authority_error, shell_mode) result" where
  "shell_mode_from value =
     (case value of
        None \<Rightarrow> Ok Watched
      | Some JNull \<Rightarrow> Ok Watched
      | Some v \<Rightarrow> ok_or (Option.bind (as_str v) shell_mode_parse)
          (Msg ''mode must be \"watched\", \"general\", \"guarded\" or \"umbrella\"''))"

definition hostexec_from_wire :: "string \<Rightarrow> json_map \<Rightarrow> (authority_error, authority) result" where
  "hostexec_from_wire cap scope =
     (case Option.bind (Option.bind (bget scope ''tier'') as_str) tier_parse of
        None \<Rightarrow> Err (Msg ''tier must be \"user\" or \"root\"'')
      | Some tier \<Rightarrow>
          if cap = ''shell'' then
            bind (only_keys scope [''tier'', ''mode'']
              ''a shell's scope is {\"tier\": \"user\"|\"root\", \"mode\"?: \"watched\"|\"general\"|\"guarded\"|\"umbrella\"}'') (\<lambda>_.
            bind (shell_mode_from (bget scope ''mode'')) (\<lambda>mode.
            Ok (AuthHostexec (Shell tier mode))))
          else case strip_prefix ''tpl.'' cap of
            Some template \<Rightarrow>
              bind (only_keys scope [''tier'', ''cwd'', ''env'', ''timeout'', ''stdin'', ''params''] ''a template's scope'') (\<lambda>_.
              bind (wire_strings (bget scope ''params'') (Msg ''template params must be an object of strings'')) (\<lambda>params.
              bind (wire_options tier scope) (\<lambda>options.
              Ok (AuthHostexec (Template template params options)))))
          | None \<Rightarrow>
              if cap = ''run'' then
                bind (only_keys scope [''tier'', ''cwd'', ''env'', ''timeout'', ''stdin'', ''argv''] ''a command's scope'') (\<lambda>_.
                bind (map_err (\<lambda>_. Msg ''argv must be a non-empty list of strings'') (string_list (bget scope ''argv''))) (\<lambda>argv.
                bind (wire_options tier scope) (\<lambda>options.
                Ok (AuthHostexec (Run argv options)))))
              else Err (Msg ''hostexec capability is \"run\", \"tpl.<name>\" or \"shell\"''))"

definition a2a_topic_from :: "json option \<Rightarrow> (authority_error, glob option) result" where
  "a2a_topic_from value =
     (let bad = Msg ''\"topic\" must be a glob of 1 to 256 characters'' in
      case value of
        None \<Rightarrow> Ok None
      | Some JNull \<Rightarrow> Ok None
      | Some (JStr t) \<Rightarrow>
          if t = ''*'' then Ok None
          else if t \<noteq> [] \<and> utf8_len t \<le> 256 then Ok (Some (Glob t))
          else Err bad
      | Some _ \<Rightarrow> Err bad)"

definition mcp_tools_from :: "json option \<Rightarrow> (authority_error, tool_set) result" where
  "mcp_tools_from value =
     (let bad = Msg ''\"tools\" is a list of 1 to 64 tool names, or [\"*\"]'' in
      case value of
        None \<Rightarrow> Ok AllTools
      | Some JNull \<Rightarrow> Ok AllTools
      | Some (JArr items) \<Rightarrow>
          if items \<noteq> [] \<and> length items \<le> MAX_MCP_TOOLS then
            map_ok (\<lambda>names. if ''*'' \<in> set names then AllTools else SomeTools (bset_of names))
              (try_map (\<lambda>item. ok_or (as_str item) (Msg ''malformed tool name'')) items)
          else Err bad
      | Some _ \<Rightarrow> Err bad)"

definition runtime_from :: "json option \<Rightarrow> (authority_error, string option) result" where
  "runtime_from value =
     (case value of
        None \<Rightarrow> Ok None
      | Some JNull \<Rightarrow> Ok None
      | Some (JStr r) \<Rightarrow> Ok (Some r)
      | Some _ \<Rightarrow> Err (Msg ''\"runtime\" must be a string''))"

fun from_wire :: "time_lib \<Rightarrow> platform \<Rightarrow> string \<Rightarrow> json_map \<Rightarrow> (authority_error, authority) result" where
  "from_wire tm Github cap scope = github_from_wire cap scope"
| "from_wire tm Homelab cap scope =
     bind (only_keys scope [] ''a homelab grant takes no scope'') (\<lambda>_.
       if cap \<noteq> [] \<and> cap \<noteq> ''group'' then Err (Msg ''homelab capability is \"group\"'') else Ok AuthHomelab)"
| "from_wire tm Kubernetes cap scope =
     bind (only_keys scope [''cluster''] ''a kubernetes scope is {\"cluster\": true} or empty'') (\<lambda>_.
     bind (wire_bool (bget scope ''cluster'') (Msg ''\"cluster\" must be true or false'')) (\<lambda>cl.
       if cap = [] then Err (Msg ''kubernetes capability is the role name'')
       else Ok (AuthKubernetes \<lparr>role = cap, cluster = cl\<rparr>)))"
| "from_wire tm A2a cap scope =
     (if cap \<noteq> ''talk'' then Err (Msg (''a2a capability must be 'talk'' @ [CHR 0x27]))
      else bind (only_keys scope [''topic''] ''an a2a scope is {\"topic\": \"<glob>\"} or empty'') (\<lambda>_.
           map_ok AuthA2a (a2a_topic_from (bget scope ''topic''))))"
| "from_wire tm Google cap scope =
     bind (only_keys scope [] ''no scope for google grants: the capability is the scope'') (\<lambda>_.
       Ok (AuthGoogle cap))"
| "from_wire tm Agents_platform cap scope =
     bind (only_keys scope [''runtime''] ''an agents scope is {\"runtime\": \"<runtime>\"}'') (\<lambda>_.
     bind (runtime_from (bget scope ''runtime'')) (\<lambda>runtime.
     Ok (AuthAgents cap runtime)))"
| "from_wire tm Sandbox_platform cap scope =
     bind (only_keys scope [] ''a sandbox grant takes no scope'') (\<lambda>_.
       if cap = ''project.read'' then Ok (AuthSandbox ProjectRead)
       else if cap = ''project.write'' then Ok (AuthSandbox ProjectWrite)
       else Err (Msg ''sandbox capability is \"project.read\" or \"project.write\"''))"
| "from_wire tm Hostexec_platform cap scope = hostexec_from_wire cap scope"
| "from_wire tm Mcp cap scope =
     (if cap \<noteq> ''use'' then Err (Msg ''mcp capability is \"use\"'')
      else bind (only_keys scope [''tools''] ''an mcp scope is {\"tools\": [...]} (omit it for every tool)'') (\<lambda>_.
           map_ok AuthMcp (mcp_tools_from (bget scope ''tools''))))"
| "from_wire tm Models cap scope =
     (if cap \<noteq> ''use'' then Err (Msg ''models capability is \"use\"'')
      else bind (only_keys scope [] ''a models grant takes no scope'') (\<lambda>_. Ok AuthModels))"
| "from_wire tm Pool_platform cap scope = pool_from_wire cap scope"
| "from_wire tm Mail_platform cap scope = map_ok AuthMail (mail_from_wire tm cap scope)"

section \<open>The stored form\<close>

definition options_json :: "command_options \<Rightarrow> json_map" where
  "options_json options = bcollect [(''tier'', JStr (tier_as_str (opt_tier options))),
     (''cwd'', json_opt_str (opt_cwd options)),
     (''env'', json_str_obj (opt_env options)),
     (''timeout'', json_opt_u32 (opt_timeout options)),
     (''stdin'', json_opt_str (opt_stdin options))]"

definition options_from_json :: "json_map \<Rightarrow> tier \<Rightarrow> (authority_error, command_options) result" where
  "options_from_json m tier =
     bind (string_map (bget m ''env'')) (\<lambda>env.
     bind (case Option.bind (bget m ''timeout'') as_u64 of
             None \<Rightarrow> Ok None
           | Some t \<Rightarrow> map_ok Some (ok_or (u32_try_from t) (Msg ''stored timeout''))) (\<lambda>timeout.
     Ok \<lparr>opt_tier = tier, opt_cwd = Option.bind (bget m ''cwd'') as_str, opt_env = env,
         opt_timeout = timeout, opt_stdin = Option.bind (bget m ''stdin'') as_str\<rparr>))"

fun pool_json :: "pool_choice \<Rightarrow> json" where
  "pool_json (Item i) = json_obj [(''action'', JStr ''lease''), (''item'', JStr i),
     (''previous'', JBool False), (''match'', JObj [])]"
| "pool_json Previous = json_obj [(''action'', JStr ''lease''), (''item'', JNull),
     (''previous'', JBool True), (''match'', JObj [])]"
| "pool_json (Any m) = json_obj [(''action'', JStr ''lease''), (''item'', JNull),
     (''previous'', JBool False), (''match'', match_json m)]"

fun to_json :: "time_lib \<Rightarrow> authority \<Rightarrow> json" where
  "to_json tm (AuthGithub (CreateRepo v)) =
     json_obj [(''action'', JStr ''create''), (''visibility'', JStr (visibility_as_str v))]"
| "to_json tm (AuthGithub (Repo permissions)) = json_obj [(''permissions'', permissions_json permissions)]"
| "to_json tm AuthHomelab = JObj []"
| "to_json tm (AuthKubernetes k) =
     (if cluster k then json_obj [(''role'', JStr (role k)), (''cluster'', JBool True)]
      else json_obj [(''role'', JStr (role k))])"
| "to_json tm (AuthA2a (Some t)) = json_obj [(''topic'', JStr (source t))]"
| "to_json tm (AuthA2a None) = JObj []"
| "to_json tm (AuthGoogle action) = json_obj [(''action'', JStr action)]"
| "to_json tm (AuthAgents action runtime) =
     json_obj [(''action'', JStr action), (''runtime'', json_opt_str runtime)]"
| "to_json tm (AuthSandbox access) = json_obj [(''access'', JStr (project_capability access))]"
| "to_json tm (AuthHostexec (Shell tier mode)) =
     (if mode = Watched then json_obj [(''action'', JStr ''shell''), (''tier'', JStr (tier_as_str tier))]
      else json_obj [(''action'', JStr ''shell''), (''tier'', JStr (tier_as_str tier)),
             (''mode'', JStr (shell_mode_as_str mode))])"
| "to_json tm (AuthHostexec (Window tier)) =
     json_obj [(''action'', JStr ''window''), (''tier'', JStr (tier_as_str tier))]"
| "to_json tm (AuthHostexec (Run argv options)) =
     JObj (binsert ''argv'' (json_strs argv) (binsert ''action'' (JStr ''run'') (options_json options)))"
| "to_json tm (AuthHostexec (Template template params options)) =
     JObj (binsert ''params'' (json_str_obj params) (binsert ''template'' (JStr template)
       (binsert ''action'' (JStr ''tpl'') (options_json options))))"
| "to_json tm (AuthMcp tools) = json_obj [(''tools'', tools_json tools)]"
| "to_json tm AuthModels = json_obj [(''action'', JStr ''use'')]"
| "to_json tm (AuthPool choice) = pool_json choice"
| "to_json tm (AuthMail m) = mail_to_json tm m"

text \<open>The string under a key, if it is one (the closure \<open>s\<close> of \<open>from_json\<close>).\<close>

definition stored_str :: "json_map \<Rightarrow> string \<Rightarrow> string option" where
  "stored_str m key = Option.bind (bget m key) as_str"

definition github_from_json :: "json_map \<Rightarrow> (authority_error, authority) result" where
  "github_from_json m =
     (if stored_str m ''action'' = Some ''create'' then
        (if stored_str m ''visibility'' = Some ''private'' then Ok (AuthGithub (CreateRepo Private))
         else if stored_str m ''visibility'' = Some ''public'' then Ok (AuthGithub (CreateRepo Public))
         else Err (Msg ''stored github visibility''))
      else case bget m ''permissions'' of
        Some (JObj perms) \<Rightarrow>
          map_ok (\<lambda>ps. AuthGithub (Repo (bcollect ps))) (try_map (\<lambda>(k, v).
            map_ok (\<lambda>a. (k, a)) (ok_or (Option.bind (as_str v) github_access_parse)
              (Msg ''stored github permission''))) perms)
      | _ \<Rightarrow> Ok (AuthGithub (Repo [])))"

definition hostexec_from_json :: "json_map \<Rightarrow> (authority_error, authority) result" where
  "hostexec_from_json m =
     bind (ok_or (Option.bind (stored_str m ''tier'') tier_parse) (Msg ''stored hostexec tier'')) (\<lambda>tier.
       if stored_str m ''action'' = Some ''shell'' then
         bind (case stored_str m ''mode'' of
                 None \<Rightarrow> Ok Watched
               | Some md \<Rightarrow> ok_or (shell_mode_parse md) (Msg ''stored shell mode'')) (\<lambda>mode.
         Ok (AuthHostexec (Shell tier mode)))
       else if stored_str m ''action'' = Some ''window'' then Ok (AuthHostexec (Window tier))
       else if stored_str m ''action'' = Some ''run'' then
         bind (string_list (bget m ''argv'')) (\<lambda>argv.
         bind (options_from_json m tier) (\<lambda>options.
         Ok (AuthHostexec (Run argv options))))
       else if stored_str m ''action'' = Some ''tpl'' then
         bind (ok_or (stored_str m ''template'') (Msg ''stored template'')) (\<lambda>template.
         bind (string_map (bget m ''params'')) (\<lambda>params.
         bind (options_from_json m tier) (\<lambda>options.
         Ok (AuthHostexec (Template template params options)))))
       else Err (Msg ''stored hostexec action''))"

definition mcp_from_json :: "json_map \<Rightarrow> (authority_error, authority) result" where
  "mcp_from_json m =
     bind (string_list (bget m ''tools'')) (\<lambda>tools.
       if tools = [] \<or> list_ex (\<lambda>t. t = ''*'') tools then Ok (AuthMcp AllTools)
       else Ok (AuthMcp (SomeTools (bset_of tools))))"

definition stored_choice :: "string option \<Rightarrow> bool \<Rightarrow> prop_match \<Rightarrow> (authority_error, authority) result" where
  "stored_choice item previous pm =
     (case (item, previous) of
        (Some i, False) \<Rightarrow> if pm = [] then Ok (AuthPool (Item i)) else Err (Msg ''stored pool choice'')
      | (None, True) \<Rightarrow> if pm = [] then Ok (AuthPool Previous) else Err (Msg ''stored pool choice'')
      | (None, False) \<Rightarrow> Ok (AuthPool (Any pm))
      | (Some i, True) \<Rightarrow> Err (Msg ''stored pool choice''))"

definition pool_from_json :: "json_map \<Rightarrow> (authority_error, authority) result" where
  "pool_from_json m =
     bind (case bget m ''item'' of
             None \<Rightarrow> Ok None
           | Some JNull \<Rightarrow> Ok None
           | Some (JStr i) \<Rightarrow> Ok (Some i)
           | Some _ \<Rightarrow> Err (Msg ''stored pool item'')) (\<lambda>item.
     bind (map_err (\<lambda>_. Msg ''stored pool match'') (match_from_json (bget m ''match''))) (\<lambda>pm.
       stored_choice item (Option.bind (bget m ''previous'') as_bool = Some True) pm))"

fun parse_stored :: "time_lib \<Rightarrow> platform \<Rightarrow> json_map \<Rightarrow> (authority_error, authority) result" where
  "parse_stored tm Github m = github_from_json m"
| "parse_stored tm Homelab m = Ok AuthHomelab"
| "parse_stored tm Kubernetes m =
     bind (ok_or (stored_str m ''role'') (Msg ''stored kubernetes role'')) (\<lambda>r.
     Ok (AuthKubernetes \<lparr>role = r,
       cluster = (case Option.bind (bget m ''cluster'') as_bool of None \<Rightarrow> False | Some b \<Rightarrow> b)\<rparr>))"
| "parse_stored tm A2a m = Ok (AuthA2a (map_option Glob (stored_str m ''topic'')))"
| "parse_stored tm Google m = Ok (AuthGoogle (case stored_str m ''action'' of None \<Rightarrow> [] | Some a \<Rightarrow> a))"
| "parse_stored tm Agents_platform m =
     Ok (AuthAgents (case stored_str m ''action'' of None \<Rightarrow> ''mint'' | Some a \<Rightarrow> a) (stored_str m ''runtime''))"
| "parse_stored tm Sandbox_platform m =
     (if stored_str m ''access'' = Some ''project.read'' then Ok (AuthSandbox ProjectRead)
      else if stored_str m ''access'' = Some ''project.write'' then Ok (AuthSandbox ProjectWrite)
      else Err (Msg ''stored sandbox access''))"
| "parse_stored tm Hostexec_platform m = hostexec_from_json m"
| "parse_stored tm Mcp m = mcp_from_json m"
| "parse_stored tm Models m = Ok AuthModels"
| "parse_stored tm Pool_platform m = pool_from_json m"
| "parse_stored tm Mail_platform m = map_ok AuthMail (mail_from_json tm m)"

definition from_json :: "time_lib \<Rightarrow> platform \<Rightarrow> json \<Rightarrow> (authority_error, authority) result" where
  "from_json tm platform value =
     (case value of
        JObj m \<Rightarrow>
          bind (parse_stored tm platform m) (\<lambda>parsed.
            if to_json tm parsed \<noteq> value then Err (Not_canonical (platform_as_str platform)) else Ok parsed)
      | _ \<Rightarrow> Err (Msg ''stored authority is not an object''))"

section \<open>Rule coverage\<close>

text \<open>The widenings of \<open>rule_covers\<close> beyond equality.\<close>

fun hostexec_widens :: "hostexec_authority \<Rightarrow> hostexec_authority \<Rightarrow> bool" where
  "hostexec_widens (Window tier) (Run argv options) = (hostexec_tier (Run argv options) = tier)"
| "hostexec_widens (Window tier) (Template template params options) =
     (hostexec_tier (Template template params options) = tier)"
| "hostexec_widens (Shell a m) (Shell b n) = (a = b)"
| "hostexec_widens rule request = False"

fun pool_widens :: "pool_choice \<Rightarrow> pool_choice \<Rightarrow> bool" where
  "pool_widens (Any have) (Any want) = match_covers have want"
| "pool_widens (Any have) Previous = match_covers have []"
| "pool_widens rule request = False"

definition widens :: "authority \<Rightarrow> authority \<Rightarrow> bool" where
  "widens rule request =
     (case rule of
        AuthHostexec r \<Rightarrow> (case request of AuthHostexec h \<Rightarrow> hostexec_widens r h | _ \<Rightarrow> False)
      | AuthMcp allowed \<Rightarrow> (case request of AuthMcp wanted \<Rightarrow> tools_cover allowed wanted | _ \<Rightarrow> False)
      | AuthPool r \<Rightarrow> (case request of AuthPool c \<Rightarrow> pool_widens r c | _ \<Rightarrow> False)
      | AuthMail r \<Rightarrow> (case request of AuthMail wanted \<Rightarrow> mail_covers r wanted | _ \<Rightarrow> False)
      | _ \<Rightarrow> False)"

definition rule_covers :: "authority option \<Rightarrow> authority \<Rightarrow> bool" where
  "rule_covers rule request =
     (case rule of None \<Rightarrow> True | Some r \<Rightarrow> if r = request then True else widens r request)"

section \<open>Wire names of the parts\<close>

lemma UNIV_shell_mode: "UNIV = set all_shell_mode"
  using shell_mode.exhaust by (auto simp: all_shell_mode_def)

interpretation shell_mode: wire_enum all_shell_mode shell_mode_as_str
  by unfold_locales (simp add: UNIV_shell_mode, simp add: all_shell_mode_def)

lemma shell_mode_parse_as_str [simp]: "shell_mode_parse (shell_mode_as_str m) = Some m"
  by (simp add: shell_mode_parse_def)

lemma tier_parse_as_str [simp]: "tier_parse (tier_as_str t) = Some t"
  by (cases t) (auto simp: tier_parse_def)

lemma github_access_parse_as_str [simp]: "github_access_parse (github_access_as_str a) = Some a"
  by (cases a) (auto simp: github_access_parse_def)

section \<open>Storable authorities\<close>

text \<open>
  The values a typed authority can have: maps and sets in order, a named tool set neither empty
  nor holding the wildcard, a pool match within its limits, a mail authority as it is stored.
\<close>

definition prop_match_ok :: "prop_match \<Rightarrow> bool" where
  "prop_match_ok m = (bmap_ok m \<and> length m \<le> MAX_MATCH_KEYS
     \<and> (\<forall>(k, v) \<in> set m. k \<noteq> [] \<and> length k \<le> MAX_PROP_CHARS \<and> prop_ok v))"

fun hostexec_ok :: "hostexec_authority \<Rightarrow> bool" where
  "hostexec_ok (Run argv options) = bmap_ok (opt_env options)"
| "hostexec_ok (Template template params options) = (bmap_ok params \<and> bmap_ok (opt_env options))"
| "hostexec_ok h = True"

definition tools_ok :: "tool_set \<Rightarrow> bool" where
  "tools_ok t = (case t of AllTools \<Rightarrow> True | SomeTools ts \<Rightarrow> bset_ok ts \<and> ts \<noteq> [] \<and> ''*'' \<notin> set ts)"

definition authority_ok :: "time_lib \<Rightarrow> authority \<Rightarrow> bool" where
  "authority_ok tm a =
     (case a of
        AuthGithub (Repo p) \<Rightarrow> bmap_ok p
      | AuthHostexec h \<Rightarrow> hostexec_ok h
      | AuthMcp t \<Rightarrow> tools_ok t
      | AuthPool (Any m) \<Rightarrow> prop_match_ok m
      | AuthMail m \<Rightarrow> mail_storable tm m
      | _ \<Rightarrow> True)"

lemma try_map_map_Ok: "(\<And>x. x \<in> set xs \<Longrightarrow> f (g x) = Ok x) \<Longrightarrow> try_map f (map g xs) = Ok xs"
  by (induction xs) auto

lemma string_map_json [simp]: "bmap_ok m \<Longrightarrow> string_map (Some (json_str_obj m)) = Ok m"
  by (simp add: string_map_def json_str_obj_def try_map_map_Ok case_prod_unfold)

lemma string_list_json [simp]: "string_list (Some (json_strs ss)) = Ok ss"
  by (simp add: string_list_def json_strs_def)

lemma match_from_json_json:
  assumes "prop_match_ok m"
  shows "match_from_json (Some (match_json m)) = Ok m"
proof -
  have "try_map (\<lambda>(k, v). if k = [] \<or> length k > MAX_PROP_CHARS then Err bad_match
      else map_ok (\<lambda>v. (k, v)) (ok_or (prop_from_json v) bad_match)) (map (\<lambda>(k, v). (k, prop_to_json v)) m) = Ok m"
  proof (rule try_map_map_Ok)
    fix x assume x: "x \<in> set m"
    obtain k v where kv: "x = (k, v)" by (cases x)
    have "k \<noteq> [] \<and> length k \<le> MAX_PROP_CHARS \<and> prop_ok v"
      using assms x by (auto simp: prop_match_ok_def kv)
    moreover from this have "prop_from_json (prop_to_json v) = Some v" by (simp add: prop_from_json_iff)
    ultimately show "(case case x of (k, v) \<Rightarrow> (k, prop_to_json v) of (k, v) \<Rightarrow>
        if k = [] \<or> length k > MAX_PROP_CHARS then Err bad_match
        else map_ok (\<lambda>v. (k, v)) (ok_or (prop_from_json v) bad_match)) = Ok x"
      by (simp add: kv)
  qed
  with assms show ?thesis by (simp add: match_from_json_def match_json_def prop_match_ok_def)
qed

lemma options_round_trip:
  assumes "bmap_ok (opt_env options)" "\<And>k. k \<in> {''env'', ''timeout'', ''cwd'', ''stdin''} \<Longrightarrow> bget m k = bget (options_json options) k"
  shows "options_from_json m (opt_tier options) = Ok options"
proof -
  have "Option.bind (bget m ''timeout'') as_u64 = map_option ucast (opt_timeout options)"
    using assms(2)[of "''timeout''"] by (cases "opt_timeout options") (auto simp: options_json_def bget_json_obj)
  moreover have "string_map (bget m ''env'') = Ok (opt_env options)"
    using assms by (simp add: options_json_def bget_json_obj)
  moreover have "Option.bind (bget m ''cwd'') as_str = opt_cwd options"
    and "Option.bind (bget m ''stdin'') as_str = opt_stdin options"
    using assms(2)[of "''cwd''"] assms(2)[of "''stdin''"] by (simp_all add: options_json_def bget_json_obj)
  ultimately show ?thesis
    by (cases "opt_timeout options") (auto simp: options_from_json_def)
qed

lemma options_tier: "stored_str (options_json options) ''tier'' = Some (tier_as_str (opt_tier options))"
  by (simp add: options_json_def stored_str_def bget_json_obj)

lemma stored_str_binsert [simp]:
  "stored_str (binsert k v m) key = (if key = k then as_str v else stored_str m key)"
  by (simp add: stored_str_def)

lemma stored_str_collect: "stored_str (bcollect kvs) key = Option.bind (map_of (rev kvs) key) as_str"
  by (simp add: stored_str_def bget_json_obj)

lemma hostexec_stored:
  assumes "hostexec_ok h"
  shows "\<exists>m. to_json tm (AuthHostexec h) = JObj m \<and> hostexec_from_json m = Ok (AuthHostexec h)"
proof (cases h)
  case (Run argv options)
  with assms have "options_from_json (binsert ''argv'' (json_strs argv) (binsert ''action'' (JStr ''run'') (options_json options)))
      (opt_tier options) = Ok options"
    by (intro options_round_trip) auto
  with Run show ?thesis by (simp add: hostexec_from_json_def options_tier)
next
  case (Template template params options)
  with assms have "options_from_json (binsert ''params'' (json_str_obj params) (binsert ''template'' (JStr template)
       (binsert ''action'' (JStr ''tpl'') (options_json options)))) (opt_tier options) = Ok options"
    by (intro options_round_trip) auto
  with Template assms show ?thesis by (simp add: hostexec_from_json_def options_tier)
next
  case (Shell tier mode)
  then show ?thesis
    by (cases "mode = Watched") (auto simp: json_obj_def hostexec_from_json_def stored_str_def bget_json_obj)
next
  case (Window tier)
  then show ?thesis by (simp add: json_obj_def hostexec_from_json_def stored_str_def bget_json_obj)
qed

lemma github_stored:
  assumes "authority_ok tm (AuthGithub g)"
  shows "\<exists>m. to_json tm (AuthGithub g) = JObj m \<and> github_from_json m = Ok (AuthGithub g)"
proof (cases g)
  case (Repo p)
  have "try_map (\<lambda>(k, v). map_ok (\<lambda>a. (k, a)) (ok_or (Option.bind (as_str v) github_access_parse)
      (Msg ''stored github permission''))) (map (\<lambda>(k, v). (k, JStr (github_access_as_str v))) p) = Ok p"
    by (rule try_map_map_Ok) auto
  with Repo assms show ?thesis
    by (simp add: json_obj_def github_from_json_def stored_str_def bget_json_obj permissions_json_def authority_ok_def)
next
  case (CreateRepo v)
  then show ?thesis by (cases v) (auto simp: json_obj_def github_from_json_def stored_str_def bget_json_obj)
qed

lemma pool_stored:
  assumes "authority_ok tm (AuthPool c)"
  shows "\<exists>m. pool_json c = JObj m \<and> pool_from_json m = Ok (AuthPool c)"
  using assms match_from_json_json
  by (cases c) (auto simp: json_obj_def pool_from_json_def bget_json_obj stored_choice_def authority_ok_def
      match_from_json_def[of "Some (JObj [])"])

lemma mcp_stored:
  assumes "tools_ok t"
  shows "\<exists>m. to_json tm (AuthMcp t) = JObj m \<and> mcp_from_json m = Ok (AuthMcp t)"
  using assms
  by (cases t) (auto simp: tools_ok_def json_obj_def mcp_from_json_def bget_json_obj list_ex_iff
      string_list_def[of "Some (JArr _)"])

lemma parse_stored_to_json:
  assumes "authority_ok tm a"
  shows "\<exists>m. to_json tm a = JObj m \<and> parse_stored tm (authority_platform a) m = Ok a"
proof (cases a)
  case (AuthGithub g)
  then show ?thesis using github_stored assms by simp
next
  case (AuthKubernetes k)
  then show ?thesis by (cases "cluster k") (auto simp: json_obj_def stored_str_def bget_json_obj)
next
  case (AuthA2a t)
  then show ?thesis by (cases t) (auto simp: json_obj_def stored_str_def bget_json_obj)
next
  case (AuthSandbox acc)
  then show ?thesis by (cases acc) (auto simp: json_obj_def stored_str_def bget_json_obj)
next
  case (AuthHostexec h)
  then show ?thesis using hostexec_stored assms by (simp add: authority_ok_def)
next
  case (AuthMcp t)
  then show ?thesis using mcp_stored assms by (simp add: authority_ok_def)
next
  case (AuthPool c)
  then show ?thesis using pool_stored assms by simp
next
  case (AuthMail m)
  then show ?thesis using mail_json_round_trip[of tm m] assms by (auto simp: authority_ok_def)
qed (auto simp: json_obj_def stored_str_def bget_json_obj)

lemma from_json_to_json: "authority_ok tm a \<Longrightarrow> from_json tm (authority_platform a) (to_json tm a) = Ok a"
  using parse_stored_to_json[of tm a] by (auto simp: from_json_def)

lemma from_json_strict:
  "from_json tm p v = Ok a \<Longrightarrow> to_json tm a = v"
  by (auto simp: from_json_def result_simps split: json.splits if_splits)

lemma github_from_json_platform: "github_from_json m = Ok a \<Longrightarrow> authority_platform a = Github"
  by (auto simp: github_from_json_def result_simps split: option.splits json.splits if_splits)

lemma hostexec_from_json_platform: "hostexec_from_json m = Ok a \<Longrightarrow> authority_platform a = Hostexec_platform"
  by (auto simp: hostexec_from_json_def result_simps split: if_splits)

lemma stored_choice_platform: "stored_choice item previous pm = Ok a \<Longrightarrow> authority_platform a = Pool_platform"
  by (cases item; cases previous) (auto simp: stored_choice_def split: if_split_asm)

lemma pool_from_json_platform: "pool_from_json m = Ok a \<Longrightarrow> authority_platform a = Pool_platform"
  by (auto simp: pool_from_json_def bind_Ok_iff stored_choice_platform)

lemma mcp_from_json_platform: "mcp_from_json m = Ok a \<Longrightarrow> authority_platform a = Mcp"
  by (auto simp: mcp_from_json_def result_simps split: if_splits)

lemma parse_stored_platform: "parse_stored tm p m = Ok a \<Longrightarrow> authority_platform a = p"
  by (cases p) (auto simp: result_simps github_from_json_platform hostexec_from_json_platform
      pool_from_json_platform mcp_from_json_platform split: if_splits)

lemma from_json_platform: "from_json tm p v = Ok a \<Longrightarrow> authority_platform a = p"
  by (auto simp: from_json_def result_simps parse_stored_platform split: json.splits if_splits)

section \<open>What a request parses to\<close>

definition time_lib_ok :: "time_lib \<Rightarrow> bool" where
  "time_lib_ok tm = (\<forall>s d. parse_date tm s = Some d \<longrightarrow> date_ok tm d)"

lemma string_map_ok: "string_map v = Ok m \<Longrightarrow> bmap_ok m"
  by (auto simp: string_map_def result_simps split: option.splits json.splits)

lemma wire_strings_ok: "wire_strings v e = Ok m \<Longrightarrow> bmap_ok m"
  by (auto simp: wire_strings_def result_simps dest: string_map_ok split: option.splits json.splits)

lemma wire_options_ok: "wire_options t scope = Ok options \<Longrightarrow> bmap_ok (opt_env options)"
  by (auto simp: wire_options_def result_simps dest: wire_strings_ok)

lemma github_from_wire_ok:
  assumes "github_from_wire cap scope = Ok a"
  shows "authority_ok tm a \<and> authority_platform a = Github \<and> capability a = cap"
proof (cases "cap = ''create''")
  case True
  with assms have "a = AuthGithub (CreateRepo Private) \<or> a = AuthGithub (CreateRepo Public)"
    by (simp add: github_from_wire_def bind_Ok_iff) (simp split: option.splits json.splits if_split_asm)
  with True show ?thesis by (auto simp: authority_ok_def)
next
  case False
  then have cap: "cap = ''repo''"
    using assms by (cases "cap = ''repo''") (simp_all add: github_from_wire_def)
  with assms have "\<exists>ps. a = AuthGithub (Repo (bcollect ps)) \<or> a = AuthGithub (Repo [])"
    by (simp add: github_from_wire_def bind_Ok_iff)
      (auto simp: map_ok_Ok_iff split: option.splits json.splits if_split_asm)
  with cap show ?thesis by (auto simp: authority_ok_def)
qed

lemma hostexec_from_wire_ok:
  assumes "hostexec_from_wire cap scope = Ok a"
  shows "authority_ok tm a \<and> authority_platform a = Hostexec_platform \<and> capability a = cap
    \<and> (\<forall>t. a \<noteq> AuthHostexec (Window t))"
  using assms
  by (auto simp: hostexec_from_wire_def result_simps authority_ok_def strip_prefix_iff
      dest: wire_options_ok wire_strings_ok split: option.splits if_splits)

lemma match_from_json_ok:
  assumes "match_from_json v = Ok m"
  shows "prop_match_ok m"
proof -
  have ok: "k \<noteq> [] \<and> length k \<le> MAX_PROP_CHARS \<and> prop_ok p"
    if "(case e of (k, v) \<Rightarrow> if k = [] \<or> length k > MAX_PROP_CHARS then Err bad_match
        else map_ok (\<lambda>v. (k, v)) (ok_or (prop_from_json v) bad_match)) = Ok (k, p)" for e k p
    using that by (auto simp: result_simps prop_from_json_iff split: if_splits prod.splits)
  consider "m = []" | vs entries where "m = bcollect entries" "length vs \<le> MAX_MATCH_KEYS"
    "try_map (\<lambda>(k, v). if k = [] \<or> length k > MAX_PROP_CHARS then Err bad_match
        else map_ok (\<lambda>v. (k, v)) (ok_or (prop_from_json v) bad_match)) vs = Ok entries"
    using assms by (auto simp: match_from_json_def result_simps split: option.splits json.splits if_splits)
  then show ?thesis
  proof cases
    case 1
    then show ?thesis by (simp add: prop_match_ok_def)
  next
    case 2
    have "length m \<le> MAX_MATCH_KEYS"
      using length_bcollect[of entries] try_map_Ok_length[OF 2(3)] 2 by simp
    moreover have "k \<noteq> [] \<and> length k \<le> MAX_PROP_CHARS \<and> prop_ok p" if "(k, p) \<in> set m" for k p
      using try_map_Ok_set[OF 2(3), of "(k, p)"] bcollect_entries[of "(k, p)" entries] that 2(1) ok by blast
    ultimately show ?thesis using 2(1) by (auto simp: prop_match_ok_def)
  qed
qed

lemma pool_from_wire_ok:
  assumes "pool_from_wire cap scope = Ok a"
  shows "authority_ok tm a \<and> authority_platform a = Pool_platform \<and> capability a = cap"
proof -
  have cap: "cap = ''lease''"
    using assms by (cases "cap = ''lease''") (simp_all add: pool_from_wire_def)
  obtain item previous m where m: "match_from_json (bget scope ''match'') = Ok m"
    and a: "(case (item, previous) of
                 (None, False) \<Rightarrow> Ok (AuthPool (Any m))
               | (Some i, False) \<Rightarrow> if m = [] then Ok (AuthPool (Item i)) else Err bad_choice
               | (None, True) \<Rightarrow> if m = [] then Ok (AuthPool Previous) else Err bad_choice
               | (Some i, True) \<Rightarrow> Err bad_choice) = Ok a"
    using assms unfolding pool_from_wire_def Let_def
    by (simp only: bind_Ok_iff split: if_split_asm) auto
  have "a = AuthPool (Any m) \<or> (\<exists>i. a = AuthPool (Item i)) \<or> a = AuthPool Previous"
    using a by (cases item; cases previous) (auto split: if_split_asm)
  then show ?thesis using match_from_json_ok[OF m] cap by (auto simp: authority_ok_def)
qed

lemma mcp_tools_from_ok:
  assumes "mcp_tools_from v = Ok t"
  shows "tools_ok t"
proof -
  consider "t = AllTools" | items names where "items \<noteq> []" "''*'' \<notin> set names" "t = SomeTools (bset_of names)"
    "try_map (\<lambda>item. ok_or (as_str item) (Msg ''malformed tool name'')) items = Ok names"
    using assms by (auto simp: mcp_tools_from_def Let_def result_simps split: option.splits json.splits if_splits)
  then show ?thesis
  proof cases
    case 2
    then have "names \<noteq> []" using try_map_Ok_length by fastforce
    then have "bset_of names \<noteq> []" by (metis set_bset_of set_empty)
    with 2 show ?thesis by (simp add: tools_ok_def)
  qed (simp add: tools_ok_def)
qed

lemma mail_since_from_ok: "mail_since_from tm v = Ok s \<Longrightarrow> time_lib_ok tm \<Longrightarrow> is_none_or (date_ok tm) s"
  by (cases s) (auto simp: mail_since_from_def time_lib_ok_def split: option.splits json.splits)

lemma mail_from_wire_storable:
  assumes "mail_from_wire tm cap scope = Ok m" "time_lib_ok tm"
  shows "mail_storable tm m"
proof -
  have "is_none_or (date_ok tm) (since m)"
    using mail_from_wire_parts[OF assms(1)] mail_since_from_ok assms(2) by blast
  with mail_from_wire_wf[OF assms(1)] show ?thesis by (simp add: mail_storable_def mail_wf_def)
qed

lemma from_wire_ok:
  assumes "from_wire tm p cap scope = Ok a" "time_lib_ok tm"
  shows "authority_ok tm a"
proof (cases p)
  case Github
  with assms github_from_wire_ok[of cap scope a] show ?thesis by simp
next
  case Hostexec_platform
  with assms hostexec_from_wire_ok[of cap scope a] show ?thesis by simp
next
  case Pool_platform
  with assms pool_from_wire_ok[of cap scope a] show ?thesis by simp
next
  case Mail_platform
  with assms mail_from_wire_storable show ?thesis by (auto simp: result_simps authority_ok_def)
next
  case Mcp
  with assms mcp_tools_from_ok show ?thesis by (auto simp: result_simps authority_ok_def split: if_splits)
qed (use assms in \<open>auto simp: result_simps authority_ok_def split: if_splits\<close>)

lemma from_wire_names:
  assumes "from_wire tm p cap scope = Ok a"
  shows "authority_platform a = p \<and> (p \<noteq> Homelab \<longrightarrow> capability a = cap) \<and> (\<forall>t. a \<noteq> AuthHostexec (Window t))"
proof (cases p)
  case Mail_platform
  then show ?thesis using assms by (auto simp: result_simps dest: mail_from_wire_parts
        simp: mail_action_parse_def mail_action.parse_iff)
next
  case Github
  with assms github_from_wire_ok[of cap scope a] show ?thesis by auto
next
  case Hostexec_platform
  with assms hostexec_from_wire_ok[of cap scope a] show ?thesis by auto
next
  case Pool_platform
  with assms pool_from_wire_ok[of cap scope a] show ?thesis by auto
qed (use assms in \<open>auto simp: result_simps split: if_splits\<close>)

section \<open>Coverage\<close>

lemma tools_cover_trans: "tools_cover a b \<Longrightarrow> tools_cover b c \<Longrightarrow> tools_cover a c"
  by (cases a; cases b; cases c) auto

lemma mail_covers_trans: "mail_covers a b \<Longrightarrow> mail_covers b c \<Longrightarrow> mail_covers a c"
proof -
  assume ab: "mail_covers a b" and bc: "mail_covers b c"
  have "is_none_or (\<lambda>d. is_some_and (\<lambda>s. d \<le> s) (since c)) (since a)"
    using ab bc by (cases "since a"; cases "since b"; cases "since c")
      (auto simp add: mail_covers_def covers_by_iff view_def)
  moreover have "mail_action a \<noteq> MailCreate \<longrightarrow> ops_is_subset (ops_of (mail_action c)) (ops_of (mail_action a))"
    using ab bc by (simp add: mail_covers_def covers_by_iff view_def ops_is_subset_def)
  moreover have "correspondents a \<noteq> [] \<longrightarrow>
      correspondents c \<noteq> [] \<and> set (correspondents c) \<subseteq> set (correspondents a)"
    using ab bc by (simp add: mail_covers_def covers_by_iff view_def) blast
  moreover have "topic a \<noteq> None \<longrightarrow> topic c = topic a"
    using ab bc by (simp add: mail_covers_def covers_by_iff view_def)
  ultimately show ?thesis using ab bc by (simp add: mail_covers_def covers_by_iff view_def)
qed

lemma hostexec_widens_trans: "hostexec_widens a b \<Longrightarrow> hostexec_widens b c \<Longrightarrow> hostexec_widens a c"
  by (cases a; cases b; cases c) auto

lemma pool_widens_trans: "pool_widens a b \<Longrightarrow> pool_widens b c \<Longrightarrow> pool_widens a c"
  by (cases a; cases b; cases c) (auto simp: match_covers_empty_request intro: match_covers_trans)

lemma widens_trans: "widens a b \<Longrightarrow> widens b c \<Longrightarrow> widens a c"
  by (cases a; cases b; cases c)
    (auto simp: widens_def intro: tools_cover_trans mail_covers_trans hostexec_widens_trans pool_widens_trans)

lemma rule_covers_Some: "rule_covers (Some r) a = (r = a \<or> widens r a)"
  by (simp add: rule_covers_def)

lemma rule_covers_trans:
  "rule_covers (Some a) b \<Longrightarrow> rule_covers (Some b) c \<Longrightarrow> rule_covers (Some a) c"
  using widens_trans by (auto simp: rule_covers_Some)

lemma widens_platform: "widens a b \<Longrightarrow> authority_platform a = authority_platform b"
  by (auto simp: widens_def split: authority.splits)

lemma hostexec_widens_tier: "hostexec_widens a b \<Longrightarrow> hostexec_tier a = hostexec_tier b \<and> is_shell a = is_shell b"
  by (cases a; cases b) auto

lemma rule_covers_hostexec:
  assumes "rule_covers (Some r) (AuthHostexec h)"
  shows "\<exists>g. r = AuthHostexec g \<and> hostexec_tier g = hostexec_tier h \<and> is_shell g = is_shell h"
  using assms hostexec_widens_tier by (cases r) (auto simp: rule_covers_Some widens_def)

lemma rule_covers_item: "rule_covers (Some r) (AuthPool (Item i)) = (r = AuthPool (Item i))"
proof -
  have "\<not> pool_widens c (Item i)" for c by (cases c) auto
  then show ?thesis by (cases r) (auto simp: rule_covers_Some widens_def)
qed

section \<open>Properties\<close>

text \<open>The stored form of an authority is read strictly: what \<open>from_json\<close> accepts is of
  the row's platform and serialises back to exactly the stored value, so a corrupted or
  hand-edited row never widens into something else; and every well-formed authority reads back
  as itself.\<close>

theorem stored_authority_round_trip:
  "(from_json tm p v = Ok a \<longrightarrow> to_json tm a = v \<and> authority_platform a = p)
   \<and> (authority_ok tm a \<longrightarrow> from_json tm (authority_platform a) (to_json tm a) = Ok a)"
  using from_json_strict from_json_platform from_json_to_json by blast

theorem stored_authority_round_trip_witness:
  "let tm = \<lparr>print_ymd = \<lambda>_. [], read_ymd = \<lambda>_. None\<rparr>;
       a = AuthHostexec (Run [''ls''] \<lparr>opt_tier = Root, opt_cwd = None, opt_env = [(''A'', ''b'')],
             opt_timeout = Some 60, opt_stdin = None\<rparr>)
   in authority_ok tm a \<and> from_json tm Hostexec_platform (to_json tm a) = Ok a
      \<and> \<not> is_ok (from_json tm Homelab (to_json tm a))"
proof -
  let ?tm = "\<lparr>print_ymd = \<lambda>_. [], read_ymd = \<lambda>_. None\<rparr>"
  let ?a = "AuthHostexec (Run [''ls''] \<lparr>opt_tier = Root, opt_cwd = None, opt_env = [(''A'', ''b'')],
             opt_timeout = Some 60, opt_stdin = None\<rparr>)"
  have ok: "authority_ok ?tm ?a" by (simp add: authority_ok_def)
  have "\<not> is_ok (from_json ?tm Homelab (to_json ?tm ?a))" by code_simp
  then show ?thesis
    using stored_authority_round_trip[of ?tm Hostexec_platform "to_json ?tm ?a" ?a] ok
    by (simp only: Let_def authority_platform.simps) blast
qed

text \<open>A request that parses can be stored and read back unchanged: whatever a wire request
  of any platform parses to, its stored form reads back as the same authority, of the same
  platform and capability, and is never an approve-all window. The date library is assumed to
  print the dates it reads in the form it read them.\<close>

theorem request_survives_storage:
  assumes "from_wire tm p cap scope = Ok a" "time_lib_ok tm"
  shows "from_json tm p (to_json tm a) = Ok a
    \<and> (p \<noteq> Homelab \<longrightarrow> capability a = cap) \<and> (\<forall>t. a \<noteq> AuthHostexec (Window t))"
  using from_json_to_json[OF from_wire_ok[OF assms]] from_wire_names[OF assms(1)] by simp

theorem request_survives_storage_witness:
  "\<exists>a. from_wire \<lparr>print_ymd = \<lambda>_. [], read_ymd = \<lambda>_. None\<rparr> Mcp ''use'' [(''tools'', JArr [JStr ''b'', JStr ''a''])] = Ok a
     \<and> time_lib_ok \<lparr>print_ymd = \<lambda>_. [], read_ymd = \<lambda>_. None\<rparr>
     \<and> from_json \<lparr>print_ymd = \<lambda>_. [], read_ymd = \<lambda>_. None\<rparr> Mcp
         (to_json \<lparr>print_ymd = \<lambda>_. [], read_ymd = \<lambda>_. None\<rparr> a) = Ok a"
proof -
  let ?tm = "\<lparr>print_ymd = \<lambda>_. [], read_ymd = \<lambda>_. None\<rparr>"
  have w: "from_wire ?tm Mcp ''use'' [(''tools'', JArr [JStr ''b'', JStr ''a''])]
      = Ok (AuthMcp (SomeTools [''a'', ''b'']))" by code_simp
  have t: "time_lib_ok ?tm" by (auto simp: time_lib_ok_def parse_date_def)
  from request_survives_storage[OF w t] w t show ?thesis by blast
qed

text \<open>C12: Rule coverage is a preorder that never crosses a boundary: a covering rule is of the
  request's platform; for a host command it has the request's tier and a shell is covered only by
  a shell rule (a window never covers one); a named pool item is covered only by itself.\<close>

theorem rule_covers_boundaries:
  "rule_covers (Some a) a
   \<and> (rule_covers (Some a) b \<longrightarrow> rule_covers (Some b) c \<longrightarrow> rule_covers (Some a) c)
   \<and> (rule_covers (Some a) b \<longrightarrow> authority_platform a = authority_platform b)
   \<and> (rule_covers (Some a) (AuthHostexec h) \<longrightarrow>
        (\<exists>g. a = AuthHostexec g \<and> hostexec_tier g = hostexec_tier h \<and> is_shell g = is_shell h))
   \<and> rule_covers (Some a) (AuthPool (Item i)) = (a = AuthPool (Item i))"
  using rule_covers_trans[of a b c] rule_covers_hostexec[of a h] rule_covers_item[of a i] widens_platform[of a b]
  by (auto simp: rule_covers_Some)

theorem rule_covers_boundaries_witness:
  "let run = AuthHostexec (Run [''ls''] \<lparr>opt_tier = User, opt_cwd = None, opt_env = [], opt_timeout = None, opt_stdin = None\<rparr>)
   in rule_covers (Some (AuthHostexec (Window User))) run
      \<and> authority_platform (AuthHostexec (Window User)) = authority_platform run
      \<and> \<not> rule_covers (Some (AuthHostexec (Window User))) (AuthHostexec (Shell User Watched))"
proof -
  let ?run = "AuthHostexec (Run [''ls''] \<lparr>opt_tier = User, opt_cwd = None, opt_env = [], opt_timeout = None, opt_stdin = None\<rparr>)"
  have c: "rule_covers (Some (AuthHostexec (Window User))) ?run" by code_simp
  show ?thesis
    using rule_covers_boundaries[of "AuthHostexec (Window User)" ?run ?run "Shell User Watched" "''x''"] c
    by (auto simp: Let_def)
qed

text \<open>Sensitivity that comes from the resource alone arises in exactly three ways: a
  namespace-scoped Kubernetes role in a sensitive namespace, a pool item marked sensitive, a
  mailbox's own address; and the root tier and every shell are sensitive whatever the
  configuration.\<close>

theorem sensitive_by_resource_cases:
  "sensitive_by_resource a cfg r =
     ((\<exists>k. a = AuthKubernetes k \<and> \<not> cluster k \<and> role k \<notin> set (kubernetes_sensitive_roles cfg)
            \<and> namespace_is_sensitive cfg r)
      \<or> (\<exists>i items. a = AuthPool (Item i) \<and> bget (pool_sensitive_items cfg) r = Some items \<and> i \<in> set items)
      \<or> (\<exists>m. a = AuthMail m \<and> \<not> sends_unconstrained m \<and> to_lowercase r \<in> set (mail_mailboxes cfg)))
   \<and> (is_shell h \<or> hostexec_tier h = Root \<longrightarrow> is_sensitive (AuthHostexec h) cfg r)"
proof (cases a)
  case (AuthGithub g)
  then show ?thesis by (cases g) (auto simp: sensitive_by_resource_def is_sensitive_def)
next
  case (AuthPool c)
  then show ?thesis
    by (cases c; cases "bget (pool_sensitive_items cfg) r") (auto simp: sensitive_by_resource_def is_sensitive_def)
qed (auto simp: sensitive_by_resource_def is_sensitive_def)

theorem sensitive_by_resource_cases_witness:
  "is_shell (Shell User Watched) \<and> is_sensitive (AuthHostexec (Shell User Watched)) default_sensitivity ''h''
   \<and> sensitive_by_resource (AuthKubernetes \<lparr>role = ''view'', cluster = False\<rparr>) default_sensitivity ''kube-system''"
proof -
  have "sensitive_by_resource (AuthKubernetes \<lparr>role = ''view'', cluster = False\<rparr>) default_sensitivity ''kube-system''"
    by code_simp
  then show ?thesis
    using sensitive_by_resource_cases[of AuthHomelab default_sensitivity "''h''" "Shell User Watched"] by simp
qed

end
