(* ===== verification/Routing.thy ===== *)
theory Routing
  imports Authority
begin

text \<open>
  The gates between a policy decision and what happens to a request (\<open>core/src/routing.rs\<close>),
  and the send rules of a shell's commands (\<open>core/src/shell_mode.rs\<close>). \<open>gate\<close> applies the five
  gates in order to an action and a rule strength that later gates see stripped;
  \<open>may_auto_clear\<close> is the independent specification they meet.
\<close>

section \<open>Actions\<close>

datatype policy_action = Deny | Approve | Llm | Surface

definition all_policy_action :: "policy_action list" where
  "all_policy_action = [Deny, Approve, Llm, Surface]"

fun policy_action_as_str :: "policy_action \<Rightarrow> string" where
  "policy_action_as_str Deny = ''deny''"
| "policy_action_as_str Approve = ''approve''"
| "policy_action_as_str Llm = ''llm''"
| "policy_action_as_str Surface = ''surface''"

definition policy_action_parse :: "string \<Rightarrow> policy_action option" where
  "policy_action_parse s = find (\<lambda>a. policy_action_as_str a = s) all_policy_action"

definition is_auto :: "policy_action \<Rightarrow> bool" where
  "is_auto a = (a = Approve \<or> a = Llm)"

section \<open>Facts, strength and gates\<close>

record rule_strength =
  pinned :: bool
  explicit :: bool
  names_resource :: bool

definition strength_none :: rule_strength where
  "strength_none = \<lparr>pinned = False, explicit = False, names_resource = False\<rparr>"

record gate_facts =
  zone_requires_human :: bool
  fact_human_only :: bool
  web_connector :: bool
  sensitive :: bool
  fact_by_resource :: bool
  fact_explicit_rule :: bool

definition clears_sensitive :: "rule_strength \<Rightarrow> gate_facts \<Rightarrow> bool" where
  "clears_sensitive strength facts =
     (pinned strength \<and> (names_resource strength \<or> \<not> fact_by_resource facts))"

datatype downgrade = Zone | HumanOnly | WebConnector | Sensitive | NotNamed

record gated =
  gated_action :: policy_action
  downgrades :: "downgrade list"

text \<open>One gate: it fires only while the action is still automatic.\<close>

type_synonym gate_state = "policy_action \<times> rule_strength \<times> downgrade list"

fun gate_step :: "bool \<Rightarrow> downgrade \<Rightarrow> bool \<Rightarrow> gate_state \<Rightarrow> gate_state" where
  "gate_step fires why strip (action, strength, ds) =
     (if is_auto action \<and> fires
      then (Surface, if strip then strength_none else strength, ds @ [why])
      else (action, strength, ds))"

definition gate :: "policy_action \<Rightarrow> rule_strength \<Rightarrow> gate_facts \<Rightarrow> gated" where
  "gate proposed strength0 facts =
     (let s1 = gate_step (zone_requires_human facts) Zone True (proposed, strength0, []);
          s2 = gate_step (fact_human_only facts) HumanOnly True s1;
          s3 = gate_step (web_connector facts) WebConnector True s2;
          s4 = gate_step (sensitive facts \<and> \<not> clears_sensitive (fst (snd s3)) facts) Sensitive False s3;
          s5 = gate_step (fact_explicit_rule facts \<and> \<not> explicit (fst (snd s4))) NotNamed False s4
      in \<lparr>gated_action = fst s5, downgrades = snd (snd s5)\<rparr>)"

definition may_auto_clear :: "rule_strength \<Rightarrow> gate_facts \<Rightarrow> bool" where
  "may_auto_clear strength facts =
     (\<not> zone_requires_human facts \<and> \<not> fact_human_only facts \<and> \<not> web_connector facts
      \<and> (\<not> sensitive facts \<or> (pinned strength \<and> (names_resource strength \<or> \<not> fact_by_resource facts)))
      \<and> (\<not> fact_explicit_rule facts \<or> explicit strength))"

section \<open>Routes and clearances\<close>

record auto_clearance =
  auto_request :: request_id
  auto_authority :: authority
  auto_source :: decision_source

record llm_clearance =
  llm_request :: request_id
  llm_authority :: authority

datatype route = RDeny | RSurface | RApprove auto_clearance | RLlm llm_clearance

fun route_action :: "route \<Rightarrow> policy_action" where
  "route_action RDeny = Deny"
| "route_action RSurface = Surface"
| "route_action (RApprove c) = Approve"
| "route_action (RLlm c) = Llm"

fun route_gated :: "policy_action \<Rightarrow> request_id \<Rightarrow> authority \<Rightarrow> decision_source \<Rightarrow> route" where
  "route_gated Deny request authority src = RDeny"
| "route_gated Surface request authority src = RSurface"
| "route_gated Approve request authority src =
     RApprove \<lparr>auto_request = request, auto_authority = authority, auto_source = src\<rparr>"
| "route_gated Llm request authority src = RLlm \<lparr>llm_request = request, llm_authority = authority\<rparr>"

section \<open>Shell commands\<close>

datatype guard_outcome = NotAsked | Allow | Refuse bool | Unavailable

datatype shell_refusal = NeedsScope | NoScopes | Guard_refused bool | GuardUnavailable | GuardNotAsked

definition scope_rule :: "shell_mode \<Rightarrow> bool \<Rightarrow> (shell_refusal, unit) result" where
  "scope_rule mode scoped =
     (if mode = Umbrella \<and> \<not> scoped then Err NeedsScope
      else if mode = Umbrella then Ok ()
      else if scoped then Err NoScopes
      else Ok ())"

definition after_guard :: "shell_mode \<Rightarrow> guard_outcome \<Rightarrow> (shell_refusal, unit) result" where
  "after_guard mode guard =
     (if \<not> guarded mode then Ok ()
      else case guard of
        Allow \<Rightarrow> Ok ()
      | Refuse alarming \<Rightarrow> Err (Guard_refused alarming)
      | Unavailable \<Rightarrow> Err GuardUnavailable
      | NotAsked \<Rightarrow> Err GuardNotAsked)"

section \<open>Lemmas\<close>

lemma UNIV_policy_action: "UNIV = set all_policy_action"
  using policy_action.exhaust by (auto simp: all_policy_action_def)

interpretation policy_action: wire_enum all_policy_action policy_action_as_str
  by unfold_locales (simp add: UNIV_policy_action, simp add: all_policy_action_def)

lemma gate_action:
  "gated_action (gate p s f) = (if is_auto p \<and> \<not> may_auto_clear s f then Surface else p)"
  by (cases p)
    (auto simp: gate_def Let_def is_auto_def may_auto_clear_def clears_sensitive_def strength_none_def)

lemma gate_downgrades:
  "length (downgrades (gate p s f)) = (if is_auto p \<and> \<not> may_auto_clear s f then 1 else 0)"
  by (cases p)
    (auto simp: gate_def Let_def is_auto_def may_auto_clear_def clears_sensitive_def strength_none_def)

lemma route_action_route [simp]: "route_action (route_gated a r auth src) = a"
  by (cases a) auto

section \<open>Properties\<close>

text \<open>C11: The five gates applied in sequence meet their specification exactly: an automatic
  proposal stays automatic precisely when \<open>may_auto_clear\<close> allows it and otherwise becomes
  \<open>surface\<close> with exactly one downgrade reported; \<open>deny\<close> and \<open>surface\<close> are never changed, so
  the gates only ever downgrade.\<close>

theorem gate_meets_specification:
  "gated_action (gate proposed strength facts)
     = (if is_auto proposed \<and> \<not> may_auto_clear strength facts then Surface else proposed)
   \<and> length (downgrades (gate proposed strength facts))
     = (if is_auto proposed \<and> \<not> may_auto_clear strength facts then 1 else 0)
   \<and> is_auto (gated_action (gate proposed strength facts)) = (is_auto proposed \<and> may_auto_clear strength facts)"
  by (auto simp: gate_action gate_downgrades is_auto_def)

text \<open>A shell command is sent only when both steps allow it: exactly a scoped command in an
  umbrella shell or an unscoped one in any other, and in a guarded or umbrella shell only on the
  guard's explicit allow; a guard that refused, was unavailable or was not asked always
  refuses.\<close>

theorem shell_command_sent_iff:
  "is_ok (bind (scope_rule mode scoped) (\<lambda>_. after_guard mode g))
     = ((mode = Umbrella) = scoped \<and> (guarded mode \<longrightarrow> g = Allow))"
  by (cases mode; cases g) (auto simp: scope_rule_def after_guard_def guarded_def)

theorem shell_command_sent_iff_witness:
  "guarded Umbrella \<and> is_ok (bind (scope_rule Umbrella True) (\<lambda>_. after_guard Umbrella Allow))
   \<and> \<not> is_ok (bind (scope_rule Umbrella True) (\<lambda>_. after_guard Umbrella Unavailable))"
  using shell_command_sent_iff[of Umbrella True Allow] shell_command_sent_iff[of Umbrella True Unavailable]
  by (simp add: guarded_def)

end
