(* ===== verification/Durations.thy ===== *)
theory Durations
  imports Pyfmt
begin

text \<open>
  Durations as written in requests and the policy file (\<open>core/src/durations.rs\<close>). Numbers
  of seconds are natural numbers with the 32 and 64-bit checks of the code written out. The
  lemmas show that an accepted duration is positive, at most 365 days and exactly the number
  written (no wrap-around), and that what \<open>format_duration\<close> prints parses back.
\<close>

definition MAX_DURATION_SECS :: nat where
  "MAX_DURATION_SECS = 365 * 86400"

definition MAX_HOST_DURATION_SECS :: nat where
  "MAX_HOST_DURATION_SECS = 365 * 86400"

datatype duration_error =
  Not_positive | Too_long | Invalid_duration string | Invalid_host_duration string | Not_a_duration

definition from_secs :: "int \<Rightarrow> (duration_error, nat) result" where
  "from_secs secs =
     (if secs \<le> 0 then Err Not_positive
      else if secs < 2 ^ 32 \<and> nat secs \<le> MAX_DURATION_SECS then Ok (nat secs)
      else Err Too_long)"

text \<open>ASCII digits to a number: none past 18 significant digits, so the value fits in 64 bits.\<close>

definition parse_digits :: "string \<Rightarrow> int option" where
  "parse_digits digits =
     (let trimmed = dropWhile (\<lambda>c. c = CHR ''0'') digits in
      if utf8_len trimmed > 18 then None
      else if trimmed = [] then Some 0
      else Some (int (read_nat trimmed)))"

definition checked_mul :: "int \<Rightarrow> int \<Rightarrow> int \<Rightarrow> int option" where
  "checked_mul limit n m = (if n * m < limit then Some (n * m) else None)"

definition unit_multiplier :: "char \<Rightarrow> int option" where
  "unit_multiplier unit =
     (if unit = CHR ''s'' then Some 1 else if unit = CHR ''m'' then Some 60
      else if unit = CHR ''h'' then Some 3600 else if unit = CHR ''d'' then Some 86400
      else if unit = CHR ''w'' then Some 604800 else None)"

definition duration_parse :: "string \<Rightarrow> (duration_error, nat) result" where
  "duration_parse text =
     (let value = to_lowercase (trim text); invalid = Invalid_duration (repr_string value) in
      if value \<noteq> [] \<and> list_all is_ascii_digit value then
        bind (ok_or (parse_digits value) Too_long) from_secs
      else if value = [] then Err invalid
      else case unit_multiplier (last value) of
        None \<Rightarrow> Err invalid
      | Some multiplier \<Rightarrow>
          let digits = butlast value in
          if digits = [] \<or> \<not> list_all is_ascii_digit digits then Err invalid
          else bind (ok_or (parse_digits digits) Too_long) (\<lambda>n.
               bind (ok_or (checked_mul (2 ^ 63) n multiplier) Too_long) from_secs))"

definition format_duration :: "nat \<Rightarrow> string" where
  "format_duration secs =
     (if 604800 \<le> secs \<and> secs mod 604800 = 0 then show_nat (secs div 604800) @ ''w''
      else if 86400 \<le> secs \<and> secs mod 86400 = 0 then show_nat (secs div 86400) @ ''d''
      else if 3600 \<le> secs \<and> secs mod 3600 = 0 then show_nat (secs div 3600) @ ''h''
      else if 60 \<le> secs \<and> secs mod 60 = 0 then show_nat (secs div 60) @ ''m''
      else show_nat secs @ ''s'')"

definition host_duration_secs :: "string \<Rightarrow> (duration_error, nat) result" where
  "host_duration_secs text =
     (let value = to_lowercase (trim text);
          invalid = Invalid_host_duration (repr_string text);
          split = (if value = [] then (value, 1)
                   else case unit_multiplier (last value) of
                     Some m \<Rightarrow> (butlast value, m) | None \<Rightarrow> (value, 1));
          digits = fst split
      in if digits = [] \<or> \<not> list_all is_ascii_digit digits then Err invalid
         else case parse_digits digits of
           None \<Rightarrow> Err Too_long
         | Some n \<Rightarrow>
             if n \<le> 0 then Err invalid
             else map_ok nat (ok_or (opt_filter (\<lambda>s. s \<le> int MAX_HOST_DURATION_SECS)
                    (checked_mul (2 ^ 64) n (snd split))) Too_long))"

definition host_duration_from_int :: "int \<Rightarrow> (duration_error, nat) result" where
  "host_duration_from_int secs =
     (if secs \<le> 0 then Err Not_positive
      else if nat secs > MAX_HOST_DURATION_SECS then Err Too_long
      else Ok (nat secs))"

section \<open>Lemmas\<close>

lemma from_secs_Ok: "(from_secs n = Ok d) = (n = int d \<and> 0 < d \<and> d \<le> MAX_DURATION_SECS)"
  by (auto simp: from_secs_def MAX_DURATION_SECS_def)

lemma read_nat_Cons_zero: "read_nat (CHR ''0'' # s) = read_nat s"
  by (simp add: read_nat_def digit_val_def)

lemma read_nat_trim: "read_nat (dropWhile (\<lambda>c. c = CHR ''0'') s) = read_nat s"
  by (induction s) (auto simp: read_nat_Cons_zero)

lemma parse_digits_value: "parse_digits s = Some n \<Longrightarrow> n = int (read_nat s)"
  unfolding read_nat_trim[of s, symmetric]
  by (auto simp: parse_digits_def Let_def read_nat_def[of "dropWhile _ s"] simp del: dropWhile_eq_Nil_conv
      split: if_split_asm)

lemma utf8_len_digits: "list_all is_ascii_digit s \<Longrightarrow> utf8_len s = length s"
  by (induction s) (auto simp: utf8_len_def is_ascii_digit_def less_eq_char_def)

lemma length_show_nat: "n < 10 ^ k \<Longrightarrow> 0 < k \<Longrightarrow> length (show_nat n) \<le> k"
proof (induction k arbitrary: n)
  case (Suc k)
  show ?case
  proof (cases "n < 10")
    case True
    then show ?thesis by (simp add: show_nat.simps[of n])
  next
    case False
    then have "0 < k" using Suc.prems(1) by (cases k) simp_all
    moreover have "n div 10 < 10 ^ k" using Suc.prems(1) by (simp add: div_less_iff_less_mult mult.commute)
    ultimately have "length (show_nat (n div 10)) \<le> k" by (intro Suc.IH)
    with False show ?thesis by (simp add: show_nat.simps[of n])
  qed
qed simp

lemma parse_digits_show:
  assumes "n < 10 ^ 18"
  shows "parse_digits (show_nat n) = Some (int n)"
proof -
  let ?t = "dropWhile (\<lambda>c. c = CHR ''0'') (show_nat n)"
  have "list_all is_ascii_digit ?t"
    using show_nat_digits[of n] by (auto simp: list_all_iff dest: set_dropWhileD)
  then have "utf8_len ?t = length ?t" by (rule utf8_len_digits)
  also have "\<dots> \<le> length (show_nat n)" by (rule length_dropWhile_le)
  also have "\<dots> \<le> 18" using length_show_nat[of n 18] assms by simp
  finally have "utf8_len ?t \<le> 18" .
  moreover have "n = 0" if "?t = []"
    using read_nat_trim[of "show_nat n"] that unfolding read_show_nat by (metis foldl_Nil read_nat_def)
  ultimately show ?thesis using read_nat_trim[of "show_nat n"] by (auto simp: parse_digits_def Let_def)
qed

lemma digit_not_space: "is_ascii_digit c \<Longrightarrow> \<not> is_whitespace c \<and> to_lower_char c = c"
  by (auto simp: is_ascii_digit_def is_whitespace_def less_eq_char_def to_lower_char_def Let_def)

lemma dropWhile_id: "list_all (\<lambda>c. \<not> P c) s \<Longrightarrow> dropWhile P s = s"
  by (cases s) auto

lemma trim_id: "list_all (\<lambda>c. \<not> is_whitespace c) s \<Longrightarrow> trim s = s"
  by (simp add: trim_def dropWhile_id)

lemma unit_char: "unit_multiplier u = Some m \<Longrightarrow> \<not> is_whitespace u \<and> to_lower_char u = u \<and> \<not> is_ascii_digit u"
  by (auto simp: unit_multiplier_def is_whitespace_def to_lower_char_def is_ascii_digit_def less_eq_char_def
      split: if_splits)

lemma duration_parse_written:
  assumes "unit_multiplier u = Some m" "n < 10 ^ 11"
  shows "duration_parse (show_nat n @ [u]) = from_secs (int n * m)"
proof -
  note digits = show_nat_digits[of n]
  have nows: "list_all (\<lambda>c. \<not> is_whitespace c) (show_nat n @ [u])"
    using digits unit_char[OF assms(1)] digit_not_space by (auto simp: list_all_iff)
  have low: "to_lowercase (show_nat n @ [u]) = show_nat n @ [u]"
  proof -
    have "map to_lower_char (show_nat n) = show_nat n"
      using digits digit_not_space by (intro map_idI) (auto simp: list_all_iff)
    then show ?thesis using unit_char[OF assms(1)] by (simp add: to_lowercase_def)
  qed
  have "0 \<le> m \<and> m \<le> 604800" using assms(1) by (auto simp: unit_multiplier_def split: if_splits)
  then have "int n * m \<le> 10 ^ 11 * 604800" using assms(2) by (intro mult_mono) auto
  then have "checked_mul (2 ^ 63) (int n) m = Some (int n * m)" by (simp add: checked_mul_def)
  moreover have "\<not> list_all is_ascii_digit (show_nat n @ [u])" using unit_char[OF assms(1)] by simp
  moreover have "parse_digits (show_nat n) = Some (int n)" using assms(2) by (intro parse_digits_show) simp
  ultimately show ?thesis
    unfolding duration_parse_def trim_id[OF nows] low Let_def
    using assms(1) digits by simp
qed

lemma duration_parse_bounds:
  "duration_parse text = Ok d \<Longrightarrow> 0 < d \<and> d \<le> MAX_DURATION_SECS"
  by (auto simp: duration_parse_def Let_def result_simps from_secs_Ok split: if_splits option.splits)

section \<open>Properties\<close>

text \<open>An accepted duration is positive, at most 365 days, and exactly what was written:
  either all digits, read as seconds, or digits times the unit's seconds, with no wrap-around
  however many digits the text has.\<close>

theorem duration_parse_exact:
  assumes "duration_parse text = Ok d"
  shows "0 < d \<and> d \<le> MAX_DURATION_SECS \<and>
    (let value = to_lowercase (trim text) in
       d = read_nat value
       \<or> (\<exists>m. unit_multiplier (last value) = Some m \<and> int d = int (read_nat (butlast value)) * m))"
proof -
  have "(let value = to_lowercase (trim text) in
       d = read_nat value
       \<or> (\<exists>m. unit_multiplier (last value) = Some m \<and> int d = int (read_nat (butlast value)) * m))"
    using assms
    by (auto simp: duration_parse_def Let_def result_simps from_secs_Ok checked_mul_def
        dest!: parse_digits_value split: if_splits option.splits)
  with duration_parse_bounds[OF assms] show ?thesis by simp
qed

theorem duration_parse_exact_witness:
  "duration_parse '' 2h '' = Ok 7200 \<and> 7200 \<le> MAX_DURATION_SECS"
proof -
  have "duration_parse '' 2h '' = Ok 7200"
    by (simp add: duration_parse_def Let_def trim_def is_whitespace_def to_lowercase_def to_lower_char_def
        is_ascii_digit_def less_eq_char_def unit_multiplier_def parse_digits_def utf8_len_def read_nat_def
        digit_val_def checked_mul_def from_secs_def MAX_DURATION_SECS_def)
  with duration_parse_exact[OF this] show ?thesis by blast
qed

text \<open>Printing a duration and parsing it gives the same duration, for every duration there
  is.\<close>

theorem format_duration_round_trip:
  assumes "0 < d" "d \<le> MAX_DURATION_SECS"
  shows "duration_parse (format_duration d) = Ok d"
proof -
  have small: "d div k < 10 ^ 11" for k
    using assms(2) by (intro le_less_trans[OF div_le_dividend]) (simp add: MAX_DURATION_SECS_def)
  have again: "duration_parse (show_nat (d div k) @ [u]) = Ok d"
    if "unit_multiplier u = Some (int k)" "d mod k = 0" for u k
  proof -
    have "int (d div k) * int k = int d" using that(2) by (metis mult_div_mod_eq add.right_neutral mult.commute of_nat_mult)
    then show ?thesis
      using duration_parse_written[OF that(1) small[of k]] assms by (simp add: from_secs_Ok)
  qed
  have secs: "duration_parse (show_nat d @ ''s'') = Ok d"
    using again[of "CHR ''s''" 1] by (simp add: unit_multiplier_def)
  show ?thesis
    unfolding format_duration_def
    using again[of "CHR ''w''" 604800] again[of "CHR ''d''" 86400] again[of "CHR ''h''" 3600]
      again[of "CHR ''m''" 60] secs
    by (simp add: unit_multiplier_def)
qed

theorem format_duration_round_trip_witness:
  "(0::nat) < 5400 \<and> 5400 \<le> MAX_DURATION_SECS \<and> duration_parse (format_duration 5400) = Ok 5400"
proof -
  have "(5400::nat) \<le> MAX_DURATION_SECS" by (simp add: MAX_DURATION_SECS_def)
  with format_duration_round_trip[of 5400] show ?thesis by simp
qed

end
