(* ===== verification/Names.thy ===== *)
theory Names
  imports Pyfmt
begin

text \<open>
  Validated names (\<open>core/src/names.rs\<close>): each newtype's constructor checks a shape, so the
  model keeps the text and the check. The lemmas characterise the shape checker.
\<close>

text \<open>\<open>[first][rest]{0,max_rest}\<close>: the loop counts the characters after the first.\<close>

fun shaped_rest :: "(char \<Rightarrow> bool) \<Rightarrow> nat \<Rightarrow> nat \<Rightarrow> string \<Rightarrow> bool" where
  "shaped_rest rest max_rest n [] = True"
| "shaped_rest rest max_rest n (c # cs) =
     (if \<not> rest c then False
      else if n + 1 > max_rest then False
      else shaped_rest rest max_rest (n + 1) cs)"

fun shaped :: "string \<Rightarrow> (char \<Rightarrow> bool) \<Rightarrow> (char \<Rightarrow> bool) \<Rightarrow> nat \<Rightarrow> bool" where
  "shaped [] first rest max_rest = False"
| "shaped (c # cs) first rest max_rest = (if first c then shaped_rest rest max_rest 0 cs else False)"

definition lower_digit :: "char \<Rightarrow> bool" where
  "lower_digit c = (is_ascii_lowercase c \<or> is_ascii_digit c)"

definition lower_digit_dash :: "char \<Rightarrow> bool" where
  "lower_digit_dash c = (lower_digit c \<or> c = CHR ''-'')"

definition lower_digit_dot_dash_underscore :: "char \<Rightarrow> bool" where
  "lower_digit_dot_dash_underscore c = (lower_digit c \<or> c \<in> set ''._-'')"

definition agent_name_char :: "char \<Rightarrow> bool" where
  "agent_name_char c = (is_ascii_alphanumeric c \<or> c \<in> set ''._-'')"

definition AGENT_NAME_ALPHABET :: string where
  "AGENT_NAME_ALPHABET = ''abcdefghijklmnopqrstuvwxyzABCDEFGHIJKLMNOPQRSTUVWXYZ0123456789._-''"

definition AGENT_NAME_MAX :: nat where
  "AGENT_NAME_MAX = 128"

datatype name_error =
  Bad_agent_name | Bad_attr string | Bad_daemon_name | Bad_template_name | Bad_sandbox_project
| Bad_mcp_server string | Bad_web_label | Bad_env_key string

definition agent_name_parse :: "string \<Rightarrow> (name_error, string) result" where
  "agent_name_parse s =
     (if shaped s agent_name_char agent_name_char (AGENT_NAME_MAX - 1) then Ok s else Err Bad_agent_name)"

definition attr_value_parse :: "string \<Rightarrow> (name_error, string) result" where
  "attr_value_parse s =
     (if shaped s lower_digit lower_digit_dot_dash_underscore 63 then Ok s
      else Err (Bad_attr (repr_string s)))"

definition daemon_name_parse :: "string \<Rightarrow> (name_error, string) result" where
  "daemon_name_parse s = (if shaped s lower_digit lower_digit_dash 62 then Ok s else Err Bad_daemon_name)"

definition template_name_parse :: "string \<Rightarrow> (name_error, string) result" where
  "template_name_parse s =
     (if shaped s lower_digit lower_digit_dot_dash_underscore 62 then Ok s else Err Bad_template_name)"

definition sandbox_project_parse :: "string \<Rightarrow> (name_error, string) result" where
  "sandbox_project_parse s =
     (if shaped s lower_digit lower_digit_dash 29 \<and> \<not> suffix ''-'' s then Ok s else Err Bad_sandbox_project)"

definition mcp_server_name_parse :: "string \<Rightarrow> (name_error, string) result" where
  "mcp_server_name_parse s =
     (if shaped s lower_digit lower_digit_dash 62 then Ok s else Err (Bad_mcp_server (repr_string s)))"

definition web_connector_label_parse :: "string \<Rightarrow> (name_error, string) result" where
  "web_connector_label_parse s =
     (if shaped s lower_digit lower_digit_dash 40 then Ok s else Err Bad_web_label)"

definition web_agent_name :: "string \<Rightarrow> string" where
  "web_agent_name label = ''web-'' @ label"

definition env_key_parse :: "string \<Rightarrow> (name_error, string) result" where
  "env_key_parse s =
     (if shaped s (\<lambda>c. is_ascii_lowercase c \<or> is_ascii_uppercase c \<or> c = CHR ''_'')
           (\<lambda>c. is_ascii_alphanumeric c \<or> c = CHR ''_'') 63
      then Ok s else Err (Bad_env_key (repr_string s)))"

section \<open>Lemmas\<close>

lemma shaped_rest_iff: "n \<le> m \<Longrightarrow> shaped_rest rest m n s = (list_all rest s \<and> n + length s \<le> m)"
  by (induction s arbitrary: n) auto

lemma shaped_iff:
  "shaped s first rest m = (s \<noteq> [] \<and> first (hd s) \<and> list_all rest (tl s) \<and> length s \<le> m + 1)"
  by (cases s) (auto simp: shaped_rest_iff)

lemma agent_name_alphabet: "agent_name_char c = (c \<in> set AGENT_NAME_ALPHABET)"
proof -
  have codes: "map of_char AGENT_NAME_ALPHABET = [97..<123] @ [65..<91] @ [48..<58] @ [46, 95, 45 :: nat]"
    by (simp add: AGENT_NAME_ALPHABET_def upt_rec)
  have "inj (of_char :: char \<Rightarrow> nat)" by (rule injI) simp
  then have "(c \<in> set AGENT_NAME_ALPHABET) = (of_char c \<in> (of_char ` set AGENT_NAME_ALPHABET :: nat set))"
    by (simp add: inj_image_mem_iff)
  also have "(of_char ` set AGENT_NAME_ALPHABET :: nat set) = set (map of_char AGENT_NAME_ALPHABET)" by simp
  also have "(of_char c \<in> set (map of_char AGENT_NAME_ALPHABET :: nat list)) = agent_name_char c"
  proof -
    have "char_of (46 :: nat) = CHR ''.''" "char_of (95 :: nat) = CHR ''_''" "char_of (45 :: nat) = CHR ''-''"
      by code_simp+
    then have "of_char c = (46 :: nat) \<Longrightarrow> c = CHR ''.''" "of_char c = (95 :: nat) \<Longrightarrow> c = CHR ''_''"
      "of_char c = (45 :: nat) \<Longrightarrow> c = CHR ''-''"
      by (metis char_of_char)+
    then show ?thesis
      unfolding codes agent_name_char_def is_ascii_alphanumeric_def is_ascii_lowercase_def
        is_ascii_uppercase_def is_ascii_digit_def less_eq_char_def
      by (simp only: set_append set_upt set_simps Un_iff) auto
  qed
  finally show ?thesis by simp
qed

lemma agent_name_parse_iff:
  "agent_name_parse s = Ok t \<longleftrightarrow> t = s \<and> s \<noteq> [] \<and> length s \<le> 128 \<and> set s \<subseteq> set AGENT_NAME_ALPHABET"
  by (cases s) (auto simp: agent_name_parse_def shaped_iff AGENT_NAME_MAX_def list_all_iff
      agent_name_alphabet)

lemma lower_digit_dash_agent: "lower_digit_dash c \<Longrightarrow> agent_name_char c"
  by (auto simp: lower_digit_dash_def lower_digit_def agent_name_char_def is_ascii_alphanumeric_def)

section \<open>Properties\<close>

text \<open>The unchecked constructor of a web connector's agent name is safe: for every label
  that parses, \<open>web-<label>\<close> is a name that \<open>AgentName::parse\<close> accepts.\<close>

theorem web_agent_name_valid:
  assumes "web_connector_label_parse s = Ok label"
  shows "agent_name_parse (web_agent_name label) = Ok (web_agent_name label)"
proof -
  from assms have label: "s = label" "shaped label lower_digit lower_digit_dash 40"
    by (auto simp: web_connector_label_parse_def split: if_splits)
  then have "list_all agent_name_char label"
    using lower_digit_dash_agent
    by (cases label) (auto simp: shaped_iff list_all_iff lower_digit_dash_def)
  moreover have "list_all agent_name_char ''web-''" by code_simp
  ultimately show ?thesis
    using label(2) by (simp add: agent_name_parse_def shaped_iff web_agent_name_def AGENT_NAME_MAX_def)
qed

theorem web_agent_name_valid_witness:
  "web_connector_label_parse ''claude-ai'' = Ok ''claude-ai''
   \<and> agent_name_parse (web_agent_name ''claude-ai'') = Ok ''web-claude-ai''"
proof -
  have "web_connector_label_parse ''claude-ai'' = Ok ''claude-ai''" by code_simp
  with web_agent_name_valid[OF this] show ?thesis by (simp add: web_agent_name_def)
qed

end
