(* ===== verification/Agents.thy ===== *)
theory Agents
  imports Json Glob Names
begin

text \<open>
  What an agent is and the patterns policy uses to pick agents (\<open>core/src/policy/agents.rs\<close>):
  fields and name globs, the delegation axis of rule matching, and a rule resource's
  \<open>{agent.x}\<close> placeholders. The lemmas show that \<open>matches_everyone\<close> is exact over valid agents
  and that a placeholder without a value leaves nothing to match.
\<close>

section \<open>Agents\<close>

datatype placement = Host_placement | Sandbox_placement

definition all_placement :: "placement list" where
  "all_placement = [Host_placement, Sandbox_placement]"

fun placement_as_str :: "placement \<Rightarrow> string" where
  "placement_as_str Host_placement = ''host''"
| "placement_as_str Sandbox_placement = ''sandbox''"

definition placement_parse :: "string \<Rightarrow> placement option" where
  "placement_parse s = find (\<lambda>p. placement_as_str p = s) all_placement"

datatype agent_kind = Service | Ephemeral | Operator

definition all_agent_kind :: "agent_kind list" where
  "all_agent_kind = [Service, Ephemeral, Operator]"

fun agent_kind_as_str :: "agent_kind \<Rightarrow> string" where
  "agent_kind_as_str Service = ''service''"
| "agent_kind_as_str Ephemeral = ''ephemeral''"
| "agent_kind_as_str Operator = ''operator''"

definition agent_kind_parse :: "string \<Rightarrow> agent_kind option" where
  "agent_kind_parse s = find (\<lambda>k. agent_kind_as_str k = s) all_agent_kind"

definition MATCHABLE_KINDS :: "agent_kind list" where
  "MATCHABLE_KINDS = [Service, Ephemeral]"

definition WEB_RUNTIME :: string where
  "WEB_RUNTIME = ''web''"

record agent_ref =
  agent_name :: string
  runtime :: "string option"
  project :: "string option"
  host :: "string option"
  placement :: placement
  kind :: agent_kind

definition named :: "string \<Rightarrow> agent_ref" where
  "named name = \<lparr>agent_name = name, runtime = None, project = None, host = None,
     placement = Host_placement, kind = Service\<rparr>"

definition is_web :: "agent_ref \<Rightarrow> bool" where
  "is_web a = (runtime a = Some WEB_RUNTIME)"

definition is_operator :: "agent_ref \<Rightarrow> bool" where
  "is_operator a = (kind a = Operator)"

text \<open>The separator is a middle dot, U+00B7, between spaces.\<close>

definition describe :: "agent_ref \<Rightarrow> string" where
  "describe a = join [CHR '' '', CHR 0xB7, CHR '' ''] (filter (\<lambda>p. p \<noteq> [])
     (List.map_filter id [runtime a, project a, host a,
        if placement a = Sandbox_placement then Some ''VM'' else None]))"

section \<open>Patterns\<close>

datatype pattern_error =
  Not_a_mapping
| Name_not_a_string
| Unknown_field string
| Not_strings string
| Bad_attr_value string name_error
| Empty_list string
| Not_one_of string string string
| Not_a_pattern
| Unknown_placeholder string string
| Stray_brace string

record agent_match =
  m_name :: glob
  m_runtime :: "string list option"
  m_project :: "string list option"
  m_host :: "string list option"
  m_placement :: "placement list option"
  m_kind :: "agent_kind list option"

definition default_match :: agent_match where
  "default_match = \<lparr>m_name = any, m_runtime = None, m_project = None, m_host = None,
     m_placement = None, m_kind = None\<rparr>"

definition one_or_many :: "string \<Rightarrow> json \<Rightarrow> (pattern_error, string list option) result" where
  "one_or_many field v =
     (case v of
        JNull \<Rightarrow> Ok None
      | JStr s \<Rightarrow> Ok (Some [s])
      | JArr items \<Rightarrow> map_ok Some (try_map (\<lambda>i. ok_or (as_str i) (Not_strings field)) items)
      | _ \<Rightarrow> Err (Not_strings field))"

definition attr_values :: "string \<Rightarrow> json \<Rightarrow> (pattern_error, string list option) result" where
  "attr_values field v =
     bind (one_or_many field v) (\<lambda>found.
       case found of
         None \<Rightarrow> Ok None
       | Some items \<Rightarrow>
           bind (try_map (\<lambda>s. map_err (Bad_attr_value field) (attr_value_parse s)) items) (\<lambda>values.
             if values = [] then Err (Empty_list field) else Ok (Some values)))"

definition enum_values ::
  "string \<Rightarrow> json \<Rightarrow> (string \<Rightarrow> 'a option) \<Rightarrow> string \<Rightarrow> (pattern_error, 'a list option) result" where
  "enum_values field v parse allowed =
     bind (one_or_many field v) (\<lambda>found.
       case found of
         None \<Rightarrow> Ok None
       | Some items \<Rightarrow>
           map_ok Some (try_map (\<lambda>s. ok_or (parse s) (Not_one_of field (repr_string s) allowed)) items))"

definition match_field :: "string \<Rightarrow> json \<Rightarrow> agent_match \<Rightarrow> (pattern_error, agent_match) result" where
  "match_field key v out =
     (if key = ''name'' then
        (case v of JStr s \<Rightarrow> Ok (out\<lparr>m_name := Glob s\<rparr>) | _ \<Rightarrow> Err Name_not_a_string)
      else if key = ''runtime'' then map_ok (\<lambda>x. out\<lparr>m_runtime := x\<rparr>) (attr_values ''runtime'' v)
      else if key = ''project'' then map_ok (\<lambda>x. out\<lparr>m_project := x\<rparr>) (attr_values ''project'' v)
      else if key = ''host'' then map_ok (\<lambda>x. out\<lparr>m_host := x\<rparr>) (attr_values ''host'' v)
      else if key = ''placement'' then
        map_ok (\<lambda>x. out\<lparr>m_placement := x\<rparr>) (enum_values ''placement'' v placement_parse ''host, sandbox'')
      else if key = ''kind'' then
        map_ok (\<lambda>x. out\<lparr>m_kind := x\<rparr>) (enum_values ''kind'' v
          (\<lambda>s. find (\<lambda>k. agent_kind_as_str k = s) MATCHABLE_KINDS) ''service, ephemeral'')
      else Err (Unknown_field key))"

fun match_fields :: "json_map \<Rightarrow> agent_match \<Rightarrow> (pattern_error, agent_match) result" where
  "match_fields [] out = Ok out"
| "match_fields ((key, v) # rest) out = bind (match_field key v out) (match_fields rest)"

definition agent_match_from_value :: "json \<Rightarrow> (pattern_error, agent_match) result" where
  "agent_match_from_value value =
     (case value of JObj m \<Rightarrow> match_fields m default_match | _ \<Rightarrow> Err Not_a_mapping)"

definition listed :: "agent_match \<Rightarrow> (string \<times> string list) list" where
  "listed m =
     (case m_runtime m of None \<Rightarrow> [] | Some v \<Rightarrow> [(''runtime'', v)])
     @ (case m_project m of None \<Rightarrow> [] | Some v \<Rightarrow> [(''project'', v)])
     @ (case m_host m of None \<Rightarrow> [] | Some v \<Rightarrow> [(''host'', v)])
     @ (case m_placement m of None \<Rightarrow> [] | Some v \<Rightarrow> [(''placement'', map placement_as_str v)])
     @ (case m_kind m of None \<Rightarrow> [] | Some v \<Rightarrow> [(''kind'', map agent_kind_as_str v)])"

definition agent_match_to_value :: "agent_match \<Rightarrow> json" where
  "agent_match_to_value m =
     json_obj ((if source (m_name m) \<noteq> ''*'' then [(''name'', JStr (source (m_name m)))] else [])
       @ map (\<lambda>(k, vs). (k, json_strs vs)) (listed m))"

definition match_projects :: "agent_match \<Rightarrow> string list" where
  "match_projects m = (case m_project m of None \<Rightarrow> [] | Some v \<Rightarrow> v)"

definition has_attr :: "string list option \<Rightarrow> string option \<Rightarrow> bool" where
  "has_attr wanted actual =
     (case wanted of None \<Rightarrow> True | Some ws \<Rightarrow> is_some_and (\<lambda>a. list_ex (\<lambda>w. w = a) ws) actual)"

definition agent_match_matches :: "agent_match \<Rightarrow> agent_ref \<Rightarrow> bool" where
  "agent_match_matches m a =
     (has_attr (m_runtime m) (runtime a) \<and> has_attr (m_project m) (project a)
      \<and> has_attr (m_host m) (host a)
      \<and> is_none_or (\<lambda>p. placement a \<in> set p) (m_placement m)
      \<and> is_none_or (\<lambda>k. kind a \<in> set k) (m_kind m)
      \<and> glob_matches (m_name m) (agent_name a))"

definition name_glob_matches_everyone :: "glob \<Rightarrow> bool" where
  "name_glob_matches_everyone g = matches_every_nonempty_over g AGENT_NAME_ALPHABET"

definition match_matches_everyone :: "agent_match \<Rightarrow> bool" where
  "match_matches_everyone m =
     (name_glob_matches_everyone (m_name m)
      \<and> m_runtime m = None \<and> m_project m = None \<and> m_host m = None
      \<and> is_none_or (\<lambda>p. list_all (\<lambda>x. x \<in> set p) all_placement) (m_placement m)
      \<and> is_none_or (\<lambda>k. list_all (\<lambda>x. x \<in> set k) MATCHABLE_KINDS) (m_kind m))"

definition escape_unprintable_string :: "string \<Rightarrow> string" where
  "escape_unprintable_string s = map char_of (escape_unprintable (cps s))"

definition match_text :: "agent_match \<Rightarrow> string" where
  "match_text m = ''{'' @ join '', ''
     ((if source (m_name m) \<noteq> ''*'' then [''name: '' @ escape_unprintable_string (source (m_name m))] else [])
      @ map (\<lambda>(k, vs). k @ '': '' @ join ''|'' vs) (listed m)) @ ''}''"

datatype agent_pattern = Name glob | Fields agent_match

definition default_pattern :: agent_pattern where
  "default_pattern = Name any"

definition pattern_from_value :: "json \<Rightarrow> (pattern_error, agent_pattern) result" where
  "pattern_from_value value =
     (case value of
        JStr s \<Rightarrow> Ok (Name (Glob s))
      | JObj m \<Rightarrow> map_ok Fields (agent_match_from_value value)
      | _ \<Rightarrow> Err Not_a_pattern)"

fun pattern_to_value :: "agent_pattern \<Rightarrow> json" where
  "pattern_to_value (Name g) = JStr (source g)"
| "pattern_to_value (Fields m) = agent_match_to_value m"

fun pattern_matches :: "agent_pattern \<Rightarrow> agent_ref \<Rightarrow> bool" where
  "pattern_matches (Name g) a = glob_matches g (agent_name a)"
| "pattern_matches (Fields m) a = agent_match_matches m a"

fun matches_everyone :: "agent_pattern \<Rightarrow> bool" where
  "matches_everyone (Name g) = name_glob_matches_everyone g"
| "matches_everyone (Fields m) = match_matches_everyone m"

fun pattern_projects :: "agent_pattern \<Rightarrow> string list" where
  "pattern_projects (Name g) = []"
| "pattern_projects (Fields m) = match_projects m"

fun pattern_text :: "agent_pattern \<Rightarrow> string" where
  "pattern_text (Name g) = escape_unprintable_string (source g)"
| "pattern_text (Fields m) = match_text m"

section \<open>Delegation\<close>

datatype delegation = NotDelegated | OnBehalfOf agent_ref | Gone

definition is_delegated :: "delegation \<Rightarrow> bool" where
  "is_delegated d = (d \<noteq> NotDelegated)"

fun delegation_is_web :: "delegation \<Rightarrow> bool" where
  "delegation_is_web (OnBehalfOf a) = is_web a"
| "delegation_is_web d = False"

definition delegator_axis :: "bool \<Rightarrow> bool \<Rightarrow> bool \<Rightarrow> bool \<Rightarrow> bool" where
  "delegator_axis rule_names_delegator delegator_fits delegated grants_access =
     (if rule_names_delegator then delegated \<and> delegator_fits
      else \<not> delegated \<or> \<not> grants_access)"

definition delegator_matches :: "agent_pattern option \<Rightarrow> delegation \<Rightarrow> bool \<Rightarrow> bool" where
  "delegator_matches pattern delegation grants_access =
     (let fits = (case (pattern, delegation) of (Some p, OnBehalfOf d) \<Rightarrow> pattern_matches p d | _ \<Rightarrow> False)
      in delegator_axis (pattern \<noteq> None) fits (is_delegated delegation) grants_access)"

section \<open>Resource placeholders\<close>

record project_config =
  description :: string
  repos :: "string list"

definition PLACEHOLDERS :: "string list" where
  "PLACEHOLDERS = [''runtime'', ''project'', ''host'', ''repos'']"

lemma agent_open_length: "length ''{agent.'' = 7"
  by simp

text \<open>Every placeholder, left to right, as (start, end, name); \<open>i\<close> is the position of the text.\<close>

function placeholders_at :: "nat \<Rightarrow> string \<Rightarrow> (nat \<times> nat \<times> string) list" where
  "placeholders_at i [] = []"
| "placeholders_at i (c # cs) =
     (case strip_prefix ''{agent.'' (c # cs) of
        None \<Rightarrow> placeholders_at (i + 1) cs
      | Some rest \<Rightarrow>
          let name = takeWhile is_ascii_lowercase rest; after = dropWhile is_ascii_lowercase rest in
          if name \<noteq> [] \<and> after \<noteq> [] \<and> hd after = CHR ''}''
          then (i, i + 7 + length name + 1, name) # placeholders_at (i + 7 + length name + 1) (tl after)
          else placeholders_at (i + 1) cs)"
  by pat_completeness auto
termination
proof (relation "measure (length \<circ> snd)")
  fix i c cs rest name after
  assume "strip_prefix ''{agent.'' (c # cs) = Some rest" and after: "after = dropWhile is_ascii_lowercase rest"
  then have "c # cs = ''{agent.'' @ rest" by (simp only: strip_prefix_iff)
  then have "length (c # cs) = 7 + length rest" by (metis agent_open_length length_append)
  moreover have "length (dropWhile is_ascii_lowercase rest) \<le> length rest" by (rule length_dropWhile_le)
  ultimately show "((i + 7 + length name + 1, tl after), i, c # cs) \<in> measure (length \<circ> snd)"
    by (simp add: after)
qed auto

definition placeholders :: "string \<Rightarrow> (nat \<times> nat \<times> string) list" where
  "placeholders resource = placeholders_at 0 resource"

text \<open>The text outside the placeholders.\<close>

fun strip_ranges :: "string \<Rightarrow> nat \<Rightarrow> (nat \<times> nat \<times> string) list \<Rightarrow> string" where
  "strip_ranges resource from [] = drop from resource"
| "strip_ranges resource from ((start, stop, name) # rest) =
     take (start - from) (drop from resource) @ strip_ranges resource stop rest"

definition check_resource :: "string \<Rightarrow> (pattern_error, unit) result" where
  "check_resource resource =
     (let found = placeholders resource in
      case find (\<lambda>(s, e, name). name \<notin> set PLACEHOLDERS) found of
        Some (s, e, name) \<Rightarrow> Err (Unknown_placeholder (repr_string resource) name)
      | None \<Rightarrow>
          if CHR ''{'' \<in> set (strip_ranges resource 0 found) then Err (Stray_brace (repr_string resource))
          else Ok ())"

definition glob_literal :: "string \<Rightarrow> string" where
  "glob_literal value = escape value"

text \<open>\<open>str::replace\<close>, for a non-empty needle.\<close>

function replace_all :: "string \<Rightarrow> string \<Rightarrow> string \<Rightarrow> string" where
  "replace_all needle new [] = []"
| "replace_all needle new (c # cs) =
     (case strip_prefix needle (c # cs) of
        Some rest \<Rightarrow> if needle = [] then c # cs else new @ replace_all needle new rest
      | None \<Rightarrow> c # replace_all needle new cs)"
  by pat_completeness auto
termination
proof (relation "measure (length \<circ> snd \<circ> snd)")
  fix needle new :: string and c cs rest
  assume "strip_prefix needle (c # cs) = Some rest" "needle \<noteq> []"
  then have "length (c # cs) = length needle + length rest" "0 < length needle"
    by (simp_all add: strip_prefix_iff)
  then show "((needle, new, rest), needle, new, c # cs) \<in> measure (length \<circ> snd \<circ> snd)" by simp
qed auto

definition placeholder_values :: "agent_ref \<Rightarrow> (string, project_config) bmap \<Rightarrow> string \<Rightarrow> string list" where
  "placeholder_values a projects name =
     (let declared = Option.bind (opt_filter (\<lambda>p. p \<noteq> []) (project a)) (bget projects);
          one = (\<lambda>x. case x of None \<Rightarrow> [] | Some v \<Rightarrow> [v]) in
      if name = ''repos'' then (case declared of None \<Rightarrow> [] | Some p \<Rightarrow> repos p)
      else if name = ''project'' then one (opt_filter (\<lambda>p. p \<noteq> [] \<and> declared \<noteq> None) (project a))
      else if name = ''runtime'' then one (opt_filter (\<lambda>v. v \<noteq> []) (runtime a))
      else if name = ''host'' then one (opt_filter (\<lambda>v. v \<noteq> []) (host a))
      else [])"

definition fill_placeholder ::
  "agent_ref \<Rightarrow> (string, project_config) bmap \<Rightarrow> string \<Rightarrow> string list \<Rightarrow> string list" where
  "fill_placeholder a projects name out =
     concat (map (\<lambda>r. map (\<lambda>v. replace_all (''{agent.'' @ name @ ''}'') (glob_literal v) r)
       (placeholder_values a projects name)) out)"

definition resources_for :: "string \<Rightarrow> agent_ref \<Rightarrow> (string, project_config) bmap \<Rightarrow> string list" where
  "resources_for resource a projects =
     fold (fill_placeholder a projects) (bset_of (map (\<lambda>(s, e, n). n) (placeholders resource))) [resource]"

section \<open>Lemmas\<close>

lemma UNIV_placement: "UNIV = set all_placement"
  using placement.exhaust by (auto simp: all_placement_def)

lemma UNIV_agent_kind: "UNIV = set all_agent_kind"
  using agent_kind.exhaust by (auto simp: all_agent_kind_def)

interpretation placement: wire_enum all_placement placement_as_str
  by unfold_locales (simp add: UNIV_placement, simp add: all_placement_def)

interpretation agent_kind: wire_enum all_agent_kind agent_kind_as_str
  by unfold_locales (simp add: UNIV_agent_kind, simp add: all_agent_kind_def)

text \<open>The agents a pattern may be about: a valid name, and not the operator's own row.\<close>

definition matchable_agent :: "agent_ref \<Rightarrow> bool" where
  "matchable_agent a = (is_ok (agent_name_parse (agent_name a)) \<and> \<not> is_operator a)"

lemma matchable_named: "matchable_agent (named s) = is_ok (agent_name_parse s)"
  by (simp add: matchable_agent_def named_def is_operator_def)

lemma name_ok_iff: "is_ok (agent_name_parse s) = (s \<noteq> [] \<and> length s \<le> 128 \<and> set s \<subseteq> set AGENT_NAME_ALPHABET)"
  using agent_name_parse_iff[of s] by (auto simp: is_ok_iff)

lemma alphabet_not_Nil: "AGENT_NAME_ALPHABET \<noteq> []"
  by (simp add: AGENT_NAME_ALPHABET_def)

lemma name_glob_everyone_iff:
  "name_glob_matches_everyone g = (\<forall>s. is_ok (agent_name_parse s) \<longrightarrow> glob_matches g s)"
proof
  assume "name_glob_matches_everyone g"
  then show "\<forall>s. is_ok (agent_name_parse s) \<longrightarrow> glob_matches g s"
    using alphabet_not_Nil
    by (auto simp: name_glob_matches_everyone_def matches_every_nonempty_over_def name_ok_iff
        glob_matches_denotes count_over_denotes)
next
  assume all: "\<forall>s. is_ok (agent_name_parse s) \<longrightarrow> glob_matches g s"
  have "count_over AGENT_NAME_ALPHABET (glob_tokens g) 0 0"
    by (rule every_nonempty_needs) (use all alphabet_not_Nil in \<open>auto simp: name_ok_iff glob_matches_denotes\<close>)
  then show "name_glob_matches_everyone g"
    using alphabet_not_Nil by (simp add: name_glob_matches_everyone_def matches_every_nonempty_over_def)
qed

lemma valid_name_exists: "is_ok (agent_name_parse ''a'')"
  by code_simp

lemma match_everyone_iff:
  "match_matches_everyone m = (\<forall>a. matchable_agent a \<longrightarrow> agent_match_matches m a)"
proof
  assume m: "match_matches_everyone m"
  show "\<forall>a. matchable_agent a \<longrightarrow> agent_match_matches m a"
  proof (intro allI impI)
    fix a assume a: "matchable_agent a"
    have "glob_matches (m_name m) (agent_name a)"
      using m a by (simp add: match_matches_everyone_def name_glob_everyone_iff matchable_agent_def)
    moreover have "is_none_or (\<lambda>p. placement a \<in> set p) (m_placement m)"
      using m by (cases "m_placement m"; cases "placement a") (auto simp: match_matches_everyone_def all_placement_def)
    moreover have "is_none_or (\<lambda>k. kind a \<in> set k) (m_kind m)"
      using m a by (cases "m_kind m"; cases "kind a")
        (auto simp: match_matches_everyone_def MATCHABLE_KINDS_def matchable_agent_def is_operator_def)
    ultimately show "agent_match_matches m a"
      using m by (simp add: agent_match_matches_def match_matches_everyone_def has_attr_def)
  qed
next
  assume all: "\<forall>a. matchable_agent a \<longrightarrow> agent_match_matches m a"
  have base: "agent_match_matches m ((named s)\<lparr>placement := p, kind := k\<rparr>)"
    if "is_ok (agent_name_parse s)" "k \<noteq> Operator" for s p k
    using all that by (simp add: matchable_agent_def named_def is_operator_def)
  have "name_glob_matches_everyone (m_name m)"
    unfolding name_glob_everyone_iff
    using base[of _ Service Host_placement] by (auto simp: agent_match_matches_def named_def)
  moreover have "m_runtime m = None" "m_project m = None" "m_host m = None"
    using base[OF valid_name_exists, of Service Host_placement]
    by (auto simp: agent_match_matches_def named_def has_attr_def split: option.splits)
  moreover have "is_none_or (\<lambda>p. list_all (\<lambda>x. x \<in> set p) all_placement) (m_placement m)"
    using base[OF valid_name_exists, of Service Host_placement] base[OF valid_name_exists, of Service Sandbox_placement]
    by (cases "m_placement m") (auto simp: agent_match_matches_def named_def all_placement_def)
  moreover have "is_none_or (\<lambda>k. list_all (\<lambda>x. x \<in> set k) MATCHABLE_KINDS) (m_kind m)"
    using base[OF valid_name_exists, of Service Host_placement] base[OF valid_name_exists, of Ephemeral Host_placement]
    by (cases "m_kind m") (auto simp: agent_match_matches_def named_def MATCHABLE_KINDS_def)
  ultimately show "match_matches_everyone m" by (simp add: match_matches_everyone_def)
qed

lemma fill_nothing: "fold (fill_placeholder a projects) names [] = []"
  by (induction names) (auto simp: fill_placeholder_def)

lemma fill_missing:
  "n \<in> set names \<Longrightarrow> placeholder_values a projects n = [] \<Longrightarrow> fold (fill_placeholder a projects) names out = []"
proof (induction names arbitrary: out)
  case (Cons m names)
  show ?case
  proof (cases "m = n")
    case True
    then have "fill_placeholder a projects m out = []" using Cons.prems(2) by (simp add: fill_placeholder_def)
    then show ?thesis by (simp add: fill_nothing)
  qed (use Cons in auto)
qed simp

section \<open>Properties\<close>

text \<open>\<open>matches_everyone\<close> is exact: a pattern is refused as matching everyone precisely when
  it matches every agent there may be (any valid name, any fields, placement and kind but the
  operator's).\<close>

theorem matches_everyone_exact:
  "matches_everyone p = (\<forall>a. matchable_agent a \<longrightarrow> pattern_matches p a)"
proof (cases p)
  case (Name g)
  have "(\<forall>a. matchable_agent a \<longrightarrow> glob_matches g (agent_name a)) = (\<forall>s. is_ok (agent_name_parse s) \<longrightarrow> glob_matches g s)"
  proof
    assume all: "\<forall>a. matchable_agent a \<longrightarrow> glob_matches g (agent_name a)"
    show "\<forall>s. is_ok (agent_name_parse s) \<longrightarrow> glob_matches g s"
    proof (intro allI impI)
      fix s assume "is_ok (agent_name_parse s)"
      with all show "glob_matches g s" using matchable_named[of s] by (auto simp: named_def)
    qed
  qed (auto simp: matchable_agent_def)
  with Name show ?thesis by (simp add: name_glob_everyone_iff)
next
  case (Fields m)
  then show ?thesis by (simp add: match_everyone_iff)
qed

theorem matches_everyone_exact_witness:
  "matchable_agent (named ''bob'') \<and> matches_everyone (Name (Glob ''?*''))
   \<and> pattern_matches (Name (Glob ''?*'')) (named ''bob'')"
proof -
  have "matchable_agent (named ''bob'')" "matches_everyone (Name (Glob ''?*''))" by code_simp+
  with matches_everyone_exact[of "Name (Glob ''?*'')"] show ?thesis by blast
qed

text \<open>A placeholder the agent has no value for leaves nothing to match: when a rule's
  resource names one (an undeclared project, an unset field, or an unknown placeholder), the
  rule has no resource pattern for that agent at all.\<close>

theorem missing_placeholder_matches_nothing:
  assumes "(s, e, n) \<in> set (placeholders resource)" "placeholder_values a projects n = []"
  shows "resources_for resource a projects = []"
proof -
  have "n \<in> set (bset_of (map (\<lambda>(s, e, n). n) (placeholders resource)))"
    using assms(1) by force
  with assms(2) show ?thesis unfolding resources_for_def by (rule fill_missing[rotated 1])
qed

theorem missing_placeholder_matches_nothing_witness:
  "(4, 19, ''project'') \<in> set (placeholders ''jrt/{agent.project}'')
   \<and> placeholder_values (named ''bob'') [] ''project'' = []
   \<and> resources_for ''jrt/{agent.project}'' (named ''bob'') [] = []"
proof -
  have 1: "(4, 19, ''project'') \<in> set (placeholders ''jrt/{agent.project}'')"
    and 2: "placeholder_values (named ''bob'') [] ''project'' = []" by code_simp+
  with missing_placeholder_matches_nothing[OF 1 2] show ?thesis by simp
qed

end
