(* ===== verification/Hostexec.thy ===== *)
theory Hostexec
  imports Authority Names
begin

text \<open>
  Host jobs (\<open>core/src/hostexec.rs\<close>): the validated spec of a command or a shell, its JSON form
  (what the digest is computed over), templates with their parameter patterns, and argv patterns.
  The \<open>regex\<close> crate is a parameter. The lemmas show the limits every accepted spec keeps, that
  normalising a job is idempotent, that the typed and the wire route to a spec agree, and what
  template expansion and argv matching compute.
\<close>

section \<open>Specs\<close>

definition MAX_ARGS :: nat where
  "MAX_ARGS = 256"

definition MAX_ARG_BYTES :: nat where
  "MAX_ARG_BYTES = 16 * 1024"

definition MAX_ARGV_BYTES :: nat where
  "MAX_ARGV_BYTES = 64 * 1024"

definition MAX_STDIN_BYTES :: nat where
  "MAX_STDIN_BYTES = 64 * 1024"

definition MAX_ENV_VARS :: nat where
  "MAX_ENV_VARS = 32"

definition DEFAULT_TIMEOUT_SECS :: u32 where
  "DEFAULT_TIMEOUT_SECS = 600"

definition MAX_TIMEOUT_SECS :: u32 where
  "MAX_TIMEOUT_SECS = 24 * 3600"

definition MAX_VALUE_CHARS :: nat where
  "MAX_VALUE_CHARS = 4096"

definition MAX_PATTERN_CHARS :: nat where
  "MAX_PATTERN_CHARS = 4096"

text \<open>\<open>SpecError\<close>: the fixed texts, and one constructor for each text with a value in it.\<close>

datatype spec_error =
  Spec_msg string
| Env_name name_error
| Env_value string
| Unexpected_keys "string list"
| Template_takes "string list"
| Param_mismatch string
| Bad_pattern string string

datatype command =
  Run_command "string list"
| Template_command string "(string, string) bmap"

record command_spec =
  spec_host :: string
  spec_tier :: tier
  spec_command :: command
  spec_cwd :: "string option"
  spec_env :: "(string, string) bmap"
  spec_timeout :: u32
  spec_stdin :: "string option"

record shell_spec =
  shell_host :: string
  shell_tier :: tier
  shell_duration :: u32

datatype job_spec = Command_job command_spec | Shell_job shell_spec

record spec_fields =
  f_kind :: string
  f_host :: string
  f_tier :: "json option"
  f_argv :: "json option"
  f_template :: "json option"
  f_params :: "json option"
  f_cwd :: "json option"
  f_env :: "json option"
  f_timeout :: "json option"
  f_stdin :: "json option"

definition no_fields :: spec_fields where
  "no_fields = \<lparr>f_kind = [], f_host = [], f_tier = None, f_argv = None, f_template = None, f_params = None,
     f_cwd = None, f_env = None, f_timeout = None, f_stdin = None\<rparr>"

definition present :: "json option \<Rightarrow> json option" where
  "present v = opt_filter (\<lambda>v. v \<noteq> JNull) v"

definition spec_tier_from :: "json option \<Rightarrow> (spec_error, tier) result" where
  "spec_tier_from v =
     ok_or (Option.bind (Option.bind (present v) as_str) tier_parse)
       (Spec_msg ''tier must be \"user\" or \"root\"'')"

definition NUL :: char where
  "NUL = CHR 0x00"

text \<open>The loop of \<open>validate_argv\<close>: each argument is checked and its bytes are added up.\<close>

fun argv_items :: "json list \<Rightarrow> nat \<Rightarrow> (spec_error, nat \<times> string list) result" where
  "argv_items [] n = Ok (n, [])"
| "argv_items (item # items) n =
     (case opt_filter (\<lambda>a. NUL \<notin> set a) (as_str item) of
        None \<Rightarrow> Err (Spec_msg ''argv must be a list of strings without NUL bytes'')
      | Some arg \<Rightarrow>
          if utf8_len arg > MAX_ARG_BYTES then Err (Spec_msg ''an argument is too long'')
          else map_ok (\<lambda>(t, out). (t, arg # out)) (argv_items items (n + utf8_len arg)))"

definition bad_argv :: spec_error where
  "bad_argv = Spec_msg ''argv must be a non-empty list of strings''"

definition validate_argv :: "json option \<Rightarrow> (spec_error, string list) result" where
  "validate_argv argv =
     (case present argv of
        Some (JArr items) \<Rightarrow>
          if items = [] then Err bad_argv
          else if length items > MAX_ARGS then Err (Spec_msg ''argv has more than 256 arguments'')
          else bind (argv_items items 0) (\<lambda>(bytes, out).
            if bytes > MAX_ARGV_BYTES then Err (Spec_msg ''argv is too long'')
            else if out = [] \<or> hd out = [] then Err (Spec_msg ''argv[0] is empty'')
            else Ok out)
      | _ \<Rightarrow> Err bad_argv)"

text \<open>\<open>os.path.normpath\<close> on POSIX.\<close>

definition leading_slashes :: "string \<Rightarrow> nat" where
  "leading_slashes path =
     (if take 2 path = ''//'' \<and> take 3 path \<noteq> ''///'' then 2 else if take 1 path = ''/'' then 1 else 0)"

definition norm_step :: "nat \<Rightarrow> string \<Rightarrow> string list \<Rightarrow> string list" where
  "norm_step initial part comps =
     (if part = [] \<or> part = ''.'' then comps
      else if part \<noteq> ''..'' \<or> (initial = 0 \<and> comps = []) \<or> (comps \<noteq> [] \<and> last comps = ''..'')
      then comps @ [part]
      else butlast comps)"

definition posix_normpath :: "string \<Rightarrow> string" where
  "posix_normpath path =
     (if path = [] then ''.''
      else let initial = leading_slashes path;
               comps = fold (norm_step initial) (split_char (CHR ''/'') path) [];
               out = replicate initial (CHR ''/'') @ join ''/'' comps
           in if out = [] then ''.'' else out)"

definition validate_cwd :: "json option \<Rightarrow> (spec_error, string option) result" where
  "validate_cwd cwd =
     (case present cwd of
        None \<Rightarrow> Ok None
      | Some (JStr s) \<Rightarrow>
          if s = [] then Ok None
          else if hd s = CHR ''/'' \<and> NUL \<notin> set s \<and> length s \<le> MAX_VALUE_CHARS
          then Ok (Some (posix_normpath s))
          else Err (Spec_msg ''cwd must be an absolute path'')
      | Some _ \<Rightarrow> Err (Spec_msg ''cwd must be an absolute path''))"

definition env_value_ok :: "string \<Rightarrow> bool" where
  "env_value_ok v = (NUL \<notin> set v \<and> CHR 0x0A \<notin> set v \<and> length v \<le> MAX_VALUE_CHARS)"

definition env_entry :: "string \<times> json \<Rightarrow> (spec_error, string \<times> string) result" where
  "env_entry kv =
     (case kv of (key, value) \<Rightarrow>
       bind (map_err Env_name (env_key_parse key)) (\<lambda>key.
       map_ok (\<lambda>v. (key, v)) (ok_or (opt_filter env_value_ok (as_str value)) (Env_value key))))"

definition validate_env :: "json option \<Rightarrow> (spec_error, (string, string) bmap) result" where
  "validate_env env =
     (case present env of
        None \<Rightarrow> Ok []
      | Some (JObj m) \<Rightarrow>
          if length m > MAX_ENV_VARS then Err (Spec_msg ''env must be an object of at most 32 variables'')
          else map_ok bcollect (try_map env_entry m)
      | Some _ \<Rightarrow> Err (Spec_msg ''env must be an object of at most 32 variables''))"

definition bad_spec_timeout :: spec_error where
  "bad_spec_timeout = Spec_msg ''timeout must be a number of seconds between 1 and 86400''"

definition validate_timeout :: "json option \<Rightarrow> u32 \<Rightarrow> (spec_error, u32) result" where
  "validate_timeout timeout dflt =
     (case present timeout of
        None \<Rightarrow> Ok dflt
      | Some t \<Rightarrow>
          ok_or (opt_filter (\<lambda>t. 1 \<le> t \<and> t \<le> MAX_TIMEOUT_SECS) (Option.bind (as_u64 t) u32_try_from))
            bad_spec_timeout)"

definition validate_stdin :: "json option \<Rightarrow> (spec_error, string option) result" where
  "validate_stdin stdin =
     (let bad = Spec_msg ''stdin must be text of at most 65536 bytes'' in
      case present stdin of
        None \<Rightarrow> Ok None
      | Some (JStr s) \<Rightarrow> if utf8_len s \<le> MAX_STDIN_BYTES then Ok (Some s) else Err bad
      | Some _ \<Rightarrow> Err bad)"

definition bad_params :: spec_error where
  "bad_params = Spec_msg ''template params must be an object of strings''"

definition param_value_ok :: "string \<Rightarrow> bool" where
  "param_value_ok v = (NUL \<notin> set v \<and> length v \<le> MAX_VALUE_CHARS)"

definition template_params :: "json option \<Rightarrow> (spec_error, (string, string) bmap) result" where
  "template_params params =
     (case present params of
        Some (JObj m) \<Rightarrow>
          map_ok bcollect (try_map (\<lambda>(k, v).
            map_ok (\<lambda>v. (k, v)) (ok_or (opt_filter param_value_ok (as_str v)) bad_params)) m)
      | _ \<Rightarrow> Err bad_params)"

definition command_from :: "spec_fields \<Rightarrow> (spec_error, command) result" where
  "command_from sf =
     (if f_kind sf = ''tpl'' then
        bind (ok_or (Option.bind (Option.bind (present (f_template sf)) as_str)
                 (\<lambda>t. case template_name_parse t of Ok n \<Rightarrow> Some n | Err e \<Rightarrow> None))
               (Spec_msg ''invalid template name'')) (\<lambda>template.
        map_ok (Template_command template) (template_params (f_params sf)))
      else map_ok Run_command (validate_argv (f_argv sf)))"

definition bad_kind :: spec_error where
  "bad_kind = Spec_msg ''kind must be one of run, tpl, shell''"

definition make_spec_with_default :: "spec_fields \<Rightarrow> u32 \<Rightarrow> (spec_error, command_spec) result" where
  "make_spec_with_default sf default_timeout =
     (if f_kind sf \<noteq> ''run'' \<and> f_kind sf \<noteq> ''tpl'' then Err bad_kind
      else
        bind (spec_tier_from (f_tier sf)) (\<lambda>tier.
        bind (command_from sf) (\<lambda>command.
        bind (validate_cwd (f_cwd sf)) (\<lambda>cwd.
        bind (validate_env (f_env sf)) (\<lambda>env.
        bind (validate_timeout (f_timeout sf) default_timeout) (\<lambda>timeout.
        bind (validate_stdin (f_stdin sf)) (\<lambda>stdin.
        Ok \<lparr>spec_host = f_host sf, spec_tier = tier, spec_command = command, spec_cwd = cwd,
            spec_env = env, spec_timeout = timeout, spec_stdin = stdin\<rparr>)))))))"

definition make_spec :: "spec_fields \<Rightarrow> (spec_error, command_spec) result" where
  "make_spec sf = make_spec_with_default sf DEFAULT_TIMEOUT_SECS"

text \<open>Python truthiness of a JSON value.\<close>

fun number_is_zero :: "number \<Rightarrow> bool" where
  "number_is_zero (PosInt n) = (n = 0)"
| "number_is_zero (NegInt n) = (n = 0)"
| "number_is_zero (Float f) = (f64_mantissa f = 0)"

fun is_falsy :: "json \<Rightarrow> bool" where
  "is_falsy JNull = True"
| "is_falsy (JBool b) = (\<not> b)"
| "is_falsy (JNum n) = number_is_zero n"
| "is_falsy (JStr s) = (s = [])"
| "is_falsy (JArr a) = (a = [])"
| "is_falsy (JObj m) = (m = [])"

definition scope_fields :: "string \<Rightarrow> string \<Rightarrow> json_map \<Rightarrow> spec_fields" where
  "scope_fields kind host scope = no_fields\<lparr>f_kind := kind, f_host := host, f_tier := bget scope ''tier'',
     f_cwd := bget scope ''cwd'', f_env := bget scope ''env'', f_timeout := bget scope ''timeout'',
     f_stdin := bget scope ''stdin''\<rparr>"

definition job_spec_of :: "string \<Rightarrow> string \<Rightarrow> json_map \<Rightarrow> (spec_error, command_spec) result" where
  "job_spec_of cap host scope =
     (case strip_prefix ''tpl.'' cap of
        Some template \<Rightarrow>
          make_spec ((scope_fields ''tpl'' host scope)\<lparr>f_template := Some (JStr template),
            f_params := Some (case opt_filter (\<lambda>p. \<not> is_falsy p) (bget scope ''params'') of
                                None \<Rightarrow> JObj [] | Some p \<Rightarrow> p)\<rparr>)
      | None \<Rightarrow> make_spec ((scope_fields ''run'' host scope)\<lparr>f_argv := bget scope ''argv''\<rparr>))"

definition no_duration :: spec_error where
  "no_duration = Spec_msg ''a shell needs a duration in seconds''"

definition shell_spec_from ::
  "string \<Rightarrow> json option \<Rightarrow> json option \<Rightarrow> (spec_error, shell_spec) result" where
  "shell_spec_from host tier duration_secs =
     bind (spec_tier_from tier) (\<lambda>tier.
     bind (ok_or (Option.bind (opt_filter (\<lambda>d. d > 0) (Option.bind (present duration_secs) as_u64)) u32_try_from)
            no_duration) (\<lambda>duration.
     Ok \<lparr>shell_host = host, shell_tier = tier, shell_duration = duration\<rparr>))"

definition shell_spec_new :: "string \<Rightarrow> tier \<Rightarrow> u32 \<Rightarrow> (spec_error, shell_spec) result" where
  "shell_spec_new host tier duration_secs =
     (if duration_secs = 0 then Err no_duration
      else Ok \<lparr>shell_host = host, shell_tier = tier, shell_duration = duration_secs\<rparr>)"

definition shell_to_json :: "shell_spec \<Rightarrow> json" where
  "shell_to_json s = json_obj [(''kind'', JStr ''shell''), (''host'', JStr (shell_host s)),
     (''tier'', JStr (tier_as_str (shell_tier s))), (''duration'', JNum (PosInt (ucast (shell_duration s))))]"

definition authority_fields :: "string \<Rightarrow> string \<Rightarrow> command_options \<Rightarrow> spec_fields" where
  "authority_fields kind host options = no_fields\<lparr>f_kind := kind, f_host := host,
     f_tier := Some (JStr (tier_as_str (opt_tier options))), f_cwd := map_option JStr (opt_cwd options),
     f_env := Some (json_str_obj (opt_env options)),
     f_timeout := map_option (\<lambda>t. JNum (PosInt (ucast t))) (opt_timeout options),
     f_stdin := map_option JStr (opt_stdin options)\<rparr>"

fun from_authority :: "string \<Rightarrow> hostexec_authority \<Rightarrow> (spec_error, command_spec) result" where
  "from_authority host (Run argv options) =
     make_spec ((authority_fields ''run'' host options)\<lparr>f_argv := Some (json_strs argv)\<rparr>)"
| "from_authority host (Template template params options) =
     make_spec ((authority_fields ''tpl'' host options)\<lparr>f_template := Some (JStr template),
       f_params := Some (json_str_obj params)\<rparr>)"
| "from_authority host (Shell tier mode) = Err (Spec_msg ''not a runnable job'')"
| "from_authority host (Window tier) = Err (Spec_msg ''not a runnable job'')"

fun command_kind :: "command \<Rightarrow> string" where
  "command_kind (Run_command argv) = ''run''"
| "command_kind (Template_command template params) = ''tpl''"

definition command_entries :: "command_spec \<Rightarrow> (string \<times> json) list" where
  "command_entries c =
     [(''kind'', JStr (command_kind (spec_command c))), (''host'', JStr (spec_host c)),
      (''tier'', JStr (tier_as_str (spec_tier c)))]
     @ (case spec_command c of
          Run_command argv \<Rightarrow> [(''argv'', json_strs argv)]
        | Template_command template params \<Rightarrow>
            [(''template'', JStr template), (''params'', json_str_obj params)])
     @ [(''cwd'', json_opt_str (spec_cwd c)), (''env'', json_str_obj (spec_env c)),
        (''timeout'', JNum (PosInt (ucast (spec_timeout c)))), (''stdin'', json_opt_str (spec_stdin c))]"

definition command_to_json :: "command_spec \<Rightarrow> json" where
  "command_to_json c = json_obj (command_entries c)"

fun job_to_json :: "job_spec \<Rightarrow> json" where
  "job_to_json (Command_job c) = command_to_json c"
| "job_to_json (Shell_job s) = shell_to_json s"

definition job_keys :: "string \<Rightarrow> string list option" where
  "job_keys kind =
     (if kind = ''shell'' then Some [''kind'', ''host'', ''tier'', ''duration'']
      else if kind = ''run'' then
        Some [''kind'', ''host'', ''tier'', ''argv'', ''cwd'', ''env'', ''timeout'', ''stdin'']
      else if kind = ''tpl'' then
        Some [''kind'', ''host'', ''tier'', ''template'', ''params'', ''cwd'', ''env'', ''timeout'', ''stdin'']
      else None)"

definition job_fields :: "string \<Rightarrow> string \<Rightarrow> json_map \<Rightarrow> spec_fields" where
  "job_fields kind host m = \<lparr>f_kind = kind, f_host = host, f_tier = bget m ''tier'', f_argv = bget m ''argv'',
     f_template = bget m ''template'', f_params = bget m ''params'', f_cwd = bget m ''cwd'',
     f_env = bget m ''env'', f_timeout = opt_filter (\<lambda>t. \<not> is_falsy t) (bget m ''timeout''),
     f_stdin = bget m ''stdin''\<rparr>"

definition job_from_json :: "json \<Rightarrow> u32 \<Rightarrow> (spec_error, job_spec) result" where
  "job_from_json raw default_timeout =
     (case raw of
        JObj m \<Rightarrow>
          (let kind = (case Option.bind (bget m ''kind'') as_str of None \<Rightarrow> [] | Some k \<Rightarrow> k) in
           case job_keys kind of
             None \<Rightarrow> Err bad_kind
           | Some allowed \<Rightarrow>
               let unknown = filter (\<lambda>k. k \<notin> set allowed) (bkeys m) in
               if unknown \<noteq> [] then Err (Unexpected_keys (bset_of unknown))
               else case Option.bind (bget m ''host'') as_str of
                 None \<Rightarrow> Err (Spec_msg ''malformed job: no host'')
               | Some host \<Rightarrow>
                   if kind = ''shell''
                   then map_ok Shell_job (shell_spec_from host (bget m ''tier'') (bget m ''duration''))
                   else map_ok Command_job (make_spec_with_default (job_fields kind host m) default_timeout))
      | _ \<Rightarrow> Err (Spec_msg ''malformed job''))"

fun job_host :: "job_spec \<Rightarrow> string" where
  "job_host (Command_job c) = spec_host c"
| "job_host (Shell_job s) = shell_host s"

fun job_tier :: "job_spec \<Rightarrow> tier" where
  "job_tier (Command_job c) = spec_tier c"
| "job_tier (Shell_job s) = shell_tier s"

text \<open>\<open>describe\<close>, over code points as the renderings are.\<close>

fun job_what :: "job_spec \<Rightarrow> codepoints" where
  "job_what (Shell_job s) = cps ''shell''"
| "job_what (Command_job c) =
     (case spec_command c of
        Template_command template params \<Rightarrow>
          cps ''template '' @ cps template @ cps '' '' @ json_str_map (map (\<lambda>(k, v). (cps k, cps v)) params)
      | Run_command argv \<Rightarrow> shlex_join (map cps argv))"

definition job_describe :: "job_spec \<Rightarrow> codepoints" where
  "job_describe j =
     cps ''['' @ cps (tier_as_str (job_tier j)) @ cps ''@'' @ escape_unprintable (cps (job_host j))
     @ cps ''] '' @ job_what j"

section \<open>Templates\<close>

text \<open>
  The \<open>regex\<close> crate: a pattern compiles to its matcher or to an error text. A \<open>ParamPattern\<close>
  keeps its source and is compared by it; its compiled form is rebuilt from the source.
\<close>

type_synonym regex_lib = "string \<Rightarrow> (string, string \<Rightarrow> bool) result"

datatype param_pattern = Param_pattern (pattern_source: string)

definition anchored :: "string \<Rightarrow> string" where
  "anchored pattern = [CHR 0x5C] @ ''A(?:'' @ pattern @ '')'' @ [CHR 0x5C] @ ''z''"

definition param_pattern_new :: "regex_lib \<Rightarrow> string \<Rightarrow> (spec_error, param_pattern) result" where
  "param_pattern_new re pattern =
     (if length pattern > MAX_PATTERN_CHARS
      then Err (Spec_msg ''a parameter pattern is longer than 4096 characters'')
      else bind (map_err (Bad_pattern pattern) (re pattern)) (\<lambda>_.
           bind (map_err (Bad_pattern pattern) (re (anchored pattern))) (\<lambda>_. Ok (Param_pattern pattern))))"

definition full_match :: "regex_lib \<Rightarrow> param_pattern \<Rightarrow> string \<Rightarrow> bool" where
  "full_match re p value =
     (case re (anchored (pattern_source p)) of Ok is_match \<Rightarrow> is_match value | Err e \<Rightarrow> False)"

record template =
  t_tier :: tier
  t_argv :: "string list"
  t_params :: "(string, param_pattern) bmap"
  t_description :: string
  t_cwd :: "string option"
  t_env :: "(string, string) bmap"
  t_stdin :: "string option"

definition template_new ::
  "tier \<Rightarrow> string list \<Rightarrow> (string, param_pattern) bmap \<Rightarrow> string \<Rightarrow> (spec_error, template) result" where
  "template_new tier argv params description =
     (if argv = [] then Err (Spec_msg ''argv: a template needs at least one argument'')
      else Ok \<lparr>t_tier = tier, t_argv = argv, t_params = params, t_description = description,
               t_cwd = None, t_env = [], t_stdin = None\<rparr>)"

definition placeholder_char :: "char \<Rightarrow> bool" where
  "placeholder_char b = (is_ascii_lowercase b \<or> is_ascii_digit b \<or> b = CHR ''_'')"

function fill :: "string \<Rightarrow> (string, string) bmap \<Rightarrow> string" where
  "fill rest params =
     (case split_once (CHR ''{'') rest of
        None \<Rightarrow> rest
      | Some (before, after) \<Rightarrow>
          let name = takeWhile placeholder_char after; tail = dropWhile placeholder_char after in
          if name \<noteq> [] \<and> tail \<noteq> [] \<and> hd tail = CHR ''}'' then
            before @ (case bget params name of Some value \<Rightarrow> value | None \<Rightarrow> ''{'' @ name @ ''}'')
              @ fill (tl tail) params
          else before @ ''{'' @ fill after params)"
  by pat_completeness auto

lemma split_once_length: "split_once c s = Some (a, b) \<Longrightarrow> length b < length s"
  by (simp add: split_once_iff)

lemma after_placeholder_length: "length (tl (dropWhile P s)) \<le> length s"
  using length_dropWhile_le[of P s] by simp

termination fill
proof (relation "measure (\<lambda>(rest, params). length rest)")
  fix rest :: string and params :: "(string, string) bmap" and x2 x y xa xb
  assume s: "split_once (CHR ''{'') rest = Some x2" "(x, y) = x2" "xb = dropWhile placeholder_char y"
  then have "length y < length rest" by (auto dest: split_once_length)
  then show "((tl xb, params), rest, params) \<in> measure (\<lambda>(rest, params). length rest)"
    using after_placeholder_length[of placeholder_char y] s by auto
next
  fix rest :: string and params :: "(string, string) bmap" and x2 x y xa xb
  assume "split_once (CHR ''{'') rest = Some x2" "(x, y) = x2"
  then show "((y, params), rest, params) \<in> measure (\<lambda>(rest, params). length rest)"
    by (auto dest: split_once_length)
qed simp

declare fill.simps [simp del]

definition expand :: "regex_lib \<Rightarrow> template \<Rightarrow> (string, string) bmap \<Rightarrow> (spec_error, string list) result" where
  "expand re t params =
     (if bset_of (bkeys params) \<noteq> bset_of (bkeys (t_params t))
      then Err (Template_takes (bset_of (bkeys (t_params t))))
      else case find (\<lambda>(name, value).
             \<not> is_some_and (\<lambda>p. full_match re p value) (bget (t_params t) name)) params of
        Some (name, value) \<Rightarrow> Err (Param_mismatch name)
      | None \<Rightarrow> Ok (map (\<lambda>arg. fill arg params) (t_argv t)))"

definition basename :: "string \<Rightarrow> string" where
  "basename path = last (split_char (CHR ''/'') path)"

text \<open>\<open>match_argv\<close>: the positions are compared one by one; only the first may be loose.\<close>

fun match_args :: "bool \<Rightarrow> string list \<Rightarrow> string list \<Rightarrow> bool" where
  "match_args loose (glob # globs) (arg # args) =
     ((fnmatch arg glob \<or> (loose \<and> fnmatch (basename arg) glob)) \<and> match_args False globs args)"
| "match_args loose globs args = True"

definition match_argv :: "string list \<Rightarrow> string list \<Rightarrow> bool \<Rightarrow> bool" where
  "match_argv pattern argv loose_program =
     (let rest = (pattern \<noteq> [] \<and> last pattern = ''**'');
          fixed = (if rest then butlast pattern else pattern)
      in if length argv < length fixed \<or> (\<not> rest \<and> length argv \<noteq> length fixed) then False
         else match_args loose_program fixed argv)"

section \<open>Normalised paths\<close>

definition plain_component :: "string \<Rightarrow> bool" where
  "plain_component c = (c \<noteq> [] \<and> c \<noteq> ''.'' \<and> c \<noteq> ''..'' \<and> CHR ''/'' \<notin> set c)"

definition weight :: "string list \<Rightarrow> nat" where
  "weight ws = sum_list (map (\<lambda>w. length w + 1) ws)"

lemma norm_fold_all: "list_all P ps \<Longrightarrow> list_all P cs \<Longrightarrow> list_all P (fold (norm_step i) ps cs)"
proof (induction ps arbitrary: cs)
  case (Cons p ps)
  have "list_all P (butlast cs)"
    using Cons.prems(2) by (auto simp: list_all_iff dest: in_set_butlastD)
  with Cons.prems have "list_all P (norm_step i p cs)"
    by (simp add: norm_step_def)
  with Cons show ?case by simp
qed simp

lemma norm_fold_plain:
  "0 < i \<Longrightarrow> list_all (\<lambda>p. CHR ''/'' \<notin> set p) ps \<Longrightarrow> list_all plain_component cs \<Longrightarrow>
   list_all plain_component (fold (norm_step i) ps cs)"
proof (induction ps arbitrary: cs)
  case (Cons p ps)
  have "cs \<noteq> [] \<Longrightarrow> last cs \<noteq> ''..''"
    using Cons.prems(3) last_in_set[of cs] by (auto simp: list_all_iff plain_component_def)
  moreover have "list_all plain_component (butlast cs)"
    using Cons.prems(3) by (auto simp: list_all_iff dest: in_set_butlastD)
  moreover have "p \<noteq> [] \<Longrightarrow> p \<noteq> ''.'' \<Longrightarrow> p \<noteq> ''..'' \<Longrightarrow> plain_component p"
    using Cons.prems(2) by (simp add: plain_component_def)
  ultimately have "list_all plain_component (norm_step i p cs)"
    using Cons.prems(1,3) by (auto simp: norm_step_def)
  with Cons show ?case by simp
qed simp

lemma norm_fold_id: "list_all plain_component ps \<Longrightarrow> fold (norm_step i) ps cs = cs @ ps"
  by (induction ps arbitrary: cs) (auto simp: norm_step_def plain_component_def)

lemma norm_fold_weight: "weight (fold (norm_step i) ps cs) \<le> weight cs + weight ps"
proof (induction ps arbitrary: cs)
  case (Cons p ps)
  have "weight (butlast cs) \<le> weight cs"
    by (cases cs rule: rev_cases) (simp_all add: weight_def)
  then have "weight (norm_step i p cs) \<le> weight cs + weight [p]"
    by (auto simp: norm_step_def weight_def)
  with Cons[of "norm_step i p cs"] show ?case by (simp add: weight_def)
qed simp

lemma weight_join: "ws \<noteq> [] \<Longrightarrow> length (join [c] ws) + 1 = weight ws"
  by (induction "[c]" ws rule: join.induct) (auto simp: weight_def)

lemma weight_split: "weight (split_char c s) = length s + 1"
  using weight_join[of "split_char c s" c] by simp

lemma join_notin: "x \<notin> set sep \<Longrightarrow> list_all (\<lambda>w. x \<notin> set w) ws \<Longrightarrow> x \<notin> set (join sep ws)"
  by (induction sep ws rule: join.induct) auto

lemma split_char_subset: "w \<in> set (split_char c s) \<Longrightarrow> set w \<subseteq> set s"
proof (induction s arbitrary: w)
  case (Cons x xs)
  obtain v vs where vs: "split_char c xs = v # vs" by (cases "split_char c xs") auto
  have "set v \<subseteq> set xs" "\<And>u. u \<in> set vs \<Longrightarrow> set u \<subseteq> set xs" using Cons.IH vs by simp_all
  with Cons.prems vs show ?case by (auto split: if_splits)
qed simp

lemma join_plain_head: "list_all plain_component ws \<Longrightarrow> join ''/'' ws = [] \<or> hd (join ''/'' ws) \<noteq> CHR ''/''"
  by (cases "(''/'', ws)" rule: join.cases)
    (auto simp: plain_component_def hd_append dest: hd_in_set split: if_splits)

lemma leading_slashes_normal:
  "i = 1 \<or> i = 2 \<Longrightarrow> list_all plain_component ws \<Longrightarrow>
   leading_slashes (replicate i (CHR ''/'') @ join ''/'' ws) = i"
  using join_plain_head[of ws]
  by (cases "join ''/'' ws") (auto simp: leading_slashes_def numeral_2_eq_2 numeral_3_eq_3)

lemma normal_path_fixed:
  assumes i: "i = 1 \<or> i = 2" and plain: "list_all plain_component ws"
  shows "posix_normpath (replicate i (CHR ''/'') @ join ''/'' ws) = replicate i (CHR ''/'') @ join ''/'' ws"
proof -
  have "split_char (CHR ''/'') (join ''/'' ws) = (if ws = [] then [[]] else ws)"
    using plain split_char_join[of ws "CHR ''/''"] by (auto simp: list_all_iff plain_component_def)
  then have "fold (norm_step i) (split_char (CHR ''/'') (replicate i (CHR ''/'') @ join ''/'' ws)) [] = ws"
    using i norm_fold_id[OF plain, of i "[]"]
    by (auto simp: norm_step_def numeral_2_eq_2)
  then show ?thesis
    using i leading_slashes_normal[OF i plain] by (auto simp: posix_normpath_def Let_def)
qed

lemma normpath_absolute:
  assumes abs: "path \<noteq> []" "hd path = CHR ''/''"
  obtains i ws where "i = 1 \<or> i = 2" "list_all plain_component ws"
    "posix_normpath path = replicate i (CHR ''/'') @ join ''/'' ws"
    "length (posix_normpath path) \<le> length path"
    "\<And>x. x \<notin> set path \<Longrightarrow> x \<notin> set (posix_normpath path)"
proof -
  define i where "i = leading_slashes path"
  define ps where "ps = split_char (CHR ''/'') path"
  define ws where "ws = fold (norm_step i) ps []"
  obtain t where t: "path = CHR ''/'' # t" using abs by (cases path) auto
  have i: "i = 1 \<or> i = 2" by (auto simp: i_def leading_slashes_def t)
  have norm: "posix_normpath path = replicate i (CHR ''/'') @ join ''/'' ws"
    using i abs by (auto simp: posix_normpath_def Let_def i_def[symmetric] ps_def[symmetric] ws_def)
  have noslash: "list_all (\<lambda>p. CHR ''/'' \<notin> set p) ps"
    by (simp add: ps_def list_all_iff split_char_pieces)
  have plain: "list_all plain_component ws"
    using norm_fold_plain[OF _ noslash] i by (auto simp: ws_def)
  have slashes: "weight ws + i \<le> length path + 1 \<and> i \<le> length path"
  proof (cases "i = 2")
    case True
    then obtain u where "t = CHR ''/'' # u"
      by (cases t) (auto simp: i_def leading_slashes_def t split: if_splits)
    then have "ws = fold (norm_step i) (split_char (CHR ''/'') u) []"
      by (simp add: ws_def ps_def t norm_step_def)
    then show ?thesis
      using norm_fold_weight[of i "split_char (CHR ''/'') u" "[]"] True t \<open>t = CHR ''/'' # u\<close>
      by (simp add: weight_split) (simp add: weight_def)
  next
    case False
    then have "ws = fold (norm_step i) (split_char (CHR ''/'') t) []"
      by (simp add: ws_def ps_def t norm_step_def)
    then show ?thesis
      using norm_fold_weight[of i "split_char (CHR ''/'') t" "[]"] False i t
      by (simp add: weight_split) (simp add: weight_def)
  qed
  have len: "length (posix_normpath path) \<le> length path"
    using slashes weight_join[of ws "CHR ''/''"] by (cases "ws = []") (auto simp: norm)
  have chars: "x \<notin> set (posix_normpath path)" if "x \<notin> set path" for x
  proof -
    have "list_all (\<lambda>w. x \<notin> set w) ws"
      unfolding ws_def using that split_char_subset
      by (intro norm_fold_all) (auto simp: list_all_iff ps_def)
    moreover have "x \<noteq> CHR ''/''" using that by (auto simp: t)
    ultimately show ?thesis by (simp add: norm join_notin)
  qed
  from i plain norm len chars show ?thesis by (rule that)
qed

text \<open>A working directory as it is stored: absolute, normal, within the limit.\<close>

definition cwd_ok :: "string \<Rightarrow> bool" where
  "cwd_ok c = (c \<noteq> [] \<and> hd c = CHR ''/'' \<and> NUL \<notin> set c \<and> length c \<le> MAX_VALUE_CHARS \<and> posix_normpath c = c)"

lemma validate_cwd_ok: "validate_cwd v = Ok (Some c) \<Longrightarrow> cwd_ok c"
proof -
  assume "validate_cwd v = Ok (Some c)"
  then obtain s where s: "s \<noteq> []" "hd s = CHR ''/''" "NUL \<notin> set s" "length s \<le> MAX_VALUE_CHARS"
    and c: "c = posix_normpath s"
    by (auto simp: validate_cwd_def split: option.splits json.splits if_splits)
  obtain i ws where n: "i = 1 \<or> i = 2" "list_all plain_component ws"
    "posix_normpath s = replicate i (CHR ''/'') @ join ''/'' ws"
    "length (posix_normpath s) \<le> length s" "\<And>x. x \<notin> set s \<Longrightarrow> x \<notin> set (posix_normpath s)"
    using normpath_absolute[OF s(1,2)] by metis
  have "c \<noteq> [] \<and> hd c = CHR ''/''" using n(1) by (auto simp: c n(3))
  moreover have "posix_normpath c = c" using normal_path_fixed[OF n(1,2)] by (simp add: c n(3))
  ultimately show ?thesis using n(4,5) s by (auto simp: cwd_ok_def c)
qed

lemma validate_cwd_stored [simp]: "cwd_ok c \<Longrightarrow> validate_cwd (Some (JStr c)) = Ok (Some c)"
  by (simp add: validate_cwd_def present_def cwd_ok_def)

section \<open>The limits of a spec\<close>

definition argv_ok :: "string list \<Rightarrow> bool" where
  "argv_ok argv = (argv \<noteq> [] \<and> hd argv \<noteq> [] \<and> length argv \<le> MAX_ARGS
     \<and> list_all (\<lambda>a. NUL \<notin> set a \<and> utf8_len a \<le> MAX_ARG_BYTES) argv
     \<and> sum_list (map utf8_len argv) \<le> MAX_ARGV_BYTES)"

definition env_ok :: "(string, string) bmap \<Rightarrow> bool" where
  "env_ok env = (bmap_ok env \<and> length env \<le> MAX_ENV_VARS
     \<and> list_all (\<lambda>(k, v). env_key_parse k = Ok k \<and> env_value_ok v) env)"

definition params_ok :: "(string, string) bmap \<Rightarrow> bool" where
  "params_ok params = (bmap_ok params \<and> list_all (\<lambda>(k, v). param_value_ok v) params)"

fun command_ok :: "command \<Rightarrow> bool" where
  "command_ok (Run_command argv) = argv_ok argv"
| "command_ok (Template_command template params) = (template_name_parse template = Ok template \<and> params_ok params)"

definition timeout_ok :: "u32 \<Rightarrow> bool" where
  "timeout_ok t = (1 \<le> t \<and> t \<le> MAX_TIMEOUT_SECS)"

definition command_spec_ok :: "command_spec \<Rightarrow> bool" where
  "command_spec_ok c = (command_ok (spec_command c) \<and> pred_option cwd_ok (spec_cwd c) \<and> env_ok (spec_env c)
     \<and> timeout_ok (spec_timeout c) \<and> pred_option (\<lambda>s. utf8_len s \<le> MAX_STDIN_BYTES) (spec_stdin c))"

fun job_ok :: "job_spec \<Rightarrow> bool" where
  "job_ok (Command_job c) = command_spec_ok c"
| "job_ok (Shell_job s) = (0 < shell_duration s)"

lemma present_simps [simp]:
  "present None = None" "present (Some JNull) = None" "present (Some (JStr s)) = Some (JStr s)"
  "present (Some (JArr a)) = Some (JArr a)" "present (Some (JObj m)) = Some (JObj m)"
  "present (Some (JNum n)) = Some (JNum n)"
  by (simp_all add: present_def)

lemma spec_tier_from_stored [simp]: "spec_tier_from (Some (JStr (tier_as_str t))) = Ok t"
  by (simp add: spec_tier_from_def)

lemma argv_items_iff:
  "(argv_items items n = Ok (m, out)) =
   (items = map JStr out \<and> list_all (\<lambda>a. NUL \<notin> set a \<and> utf8_len a \<le> MAX_ARG_BYTES) out
    \<and> m = n + sum_list (map utf8_len out))"
proof (induction items arbitrary: n out)
  case Nil
  then show ?case by (cases out) auto
next
  case (Cons item items)
  show ?case
  proof (cases "\<exists>arg. item = JStr arg \<and> NUL \<notin> set arg \<and> utf8_len arg \<le> MAX_ARG_BYTES")
    case True
    then obtain arg where "item = JStr arg" "NUL \<notin> set arg" "utf8_len arg \<le> MAX_ARG_BYTES" by blast
    then show ?thesis
      using Cons.IH by (cases out) (auto simp: result_simps)
  next
    case False
    then have "\<not> is_ok (argv_items (item # items) n)"
      by (auto simp: opt_filter_def split: option.splits if_splits)
    then show ?thesis using False by (cases out) (auto simp: is_ok_iff)
  qed
qed

lemma validate_argv_ok: "validate_argv v = Ok out \<Longrightarrow> argv_ok out"
  by (auto simp: validate_argv_def argv_ok_def result_simps argv_items_iff
      split: option.splits json.splits if_splits)

lemma validate_argv_stored [simp]: "argv_ok out \<Longrightarrow> validate_argv (Some (json_strs out)) = Ok out"
proof -
  assume ok: "argv_ok out"
  then have "argv_items (map JStr out) 0 = Ok (sum_list (map utf8_len out), out)"
    by (subst argv_items_iff) (auto simp: argv_ok_def)
  with ok show ?thesis by (simp add: validate_argv_def json_strs_def argv_ok_def)
qed

lemma env_key_parse_same: "env_key_parse k = Ok k' \<Longrightarrow> k' = k"
  by (simp add: env_key_parse_def split: if_splits)

lemma template_name_option:
  "((case template_name_parse t of Inr n \<Rightarrow> Some n | Inl e \<Rightarrow> None) = Some n) =
   (n = t \<and> template_name_parse t = Ok t)"
  by (auto simp: template_name_parse_def)

lemma env_entry_ok: "env_entry kv = Ok (k, v) \<Longrightarrow> env_key_parse k = Ok k \<and> env_value_ok v"
  by (cases kv) (auto simp: env_entry_def result_simps opt_filter_Some_iff dest: env_key_parse_same)

lemma validate_env_ok: "validate_env v = Ok env \<Longrightarrow> env_ok env"
proof -
  assume v: "validate_env v = Ok env"
  show "env_ok env"
  proof (cases "present v")
    case None
    with v show ?thesis by (simp add: validate_env_def env_ok_def)
  next
    case (Some j)
    with v obtain m kvs where m: "j = JObj m" "length m \<le> MAX_ENV_VARS" "try_map env_entry m = Ok kvs"
      and env: "env = bcollect kvs"
      by (cases j) (auto simp: validate_env_def result_simps split: if_splits)
    have "env_key_parse k = Ok k \<and> env_value_ok w" if kw: "(k, w) \<in> set env" for k w
    proof -
      obtain x where "env_entry x = Ok (k, w)"
        using try_map_Ok_set[OF m(3) bcollect_entries, of "(k, w)"] kw by (auto simp: env)
      then show ?thesis by (rule env_entry_ok)
    qed
    moreover have "length env \<le> MAX_ENV_VARS"
      using length_bcollect[of kvs] try_map_Ok_length[OF m(3)] m(2) by (simp add: env)
    ultimately show ?thesis by (auto simp: env_ok_def env list_all_iff)
  qed
qed

lemma env_entry_stored: "env_key_parse k = Ok k \<Longrightarrow> env_value_ok v \<Longrightarrow> env_entry (k, JStr v) = Ok (k, v)"
  by (simp add: env_entry_def)

lemma validate_env_stored [simp]: "env_ok env \<Longrightarrow> validate_env (Some (json_str_obj env)) = Ok env"
proof -
  assume ok: "env_ok env"
  then have "try_map env_entry (map (\<lambda>(k, v). (k, JStr v)) env) = Ok (map (\<lambda>(k, v). (k, v)) env)"
    by (induction env) (auto simp: env_ok_def env_entry_stored)
  with ok show ?thesis by (simp add: validate_env_def json_str_obj_def env_ok_def)
qed

lemma template_params_ok: "template_params v = Ok params \<Longrightarrow> params_ok params"
proof -
  assume v: "template_params v = Ok params"
  then obtain m kvs where t: "try_map (\<lambda>(k, v). map_ok (\<lambda>v. (k, v))
      (ok_or (opt_filter param_value_ok (as_str v)) bad_params)) m = Ok kvs" and p: "params = bcollect kvs"
    by (auto simp: template_params_def result_simps split: option.splits json.splits)
  have "param_value_ok w" if "(k, w) \<in> set params" for k w
    using try_map_Ok_set[OF t bcollect_entries] that
    by (fastforce simp: p result_simps opt_filter_Some_iff)
  then show "params_ok params" by (auto simp: params_ok_def p list_all_iff)
qed

lemma template_params_stored [simp]: "params_ok params \<Longrightarrow> template_params (Some (json_str_obj params)) = Ok params"
proof -
  assume ok: "params_ok params"
  then have "try_map (\<lambda>(k, v). map_ok (\<lambda>v. (k, v)) (ok_or (opt_filter param_value_ok (as_str v)) bad_params))
      (map (\<lambda>(k, v). (k, JStr v)) params) = Ok (map (\<lambda>(k, v). (k, v)) params)"
    by (induction params) (auto simp: params_ok_def)
  with ok show ?thesis by (simp add: template_params_def json_str_obj_def params_ok_def)
qed

lemma validate_timeout_ok: "timeout_ok d \<Longrightarrow> validate_timeout v d = Ok t \<Longrightarrow> timeout_ok t"
  by (auto simp: validate_timeout_def timeout_ok_def result_simps opt_filter_Some_iff split: option.splits)

lemma validate_timeout_stored [simp]:
  "timeout_ok t \<Longrightarrow> validate_timeout (Some (JNum (PosInt (ucast t)))) d = Ok t"
  by (simp add: validate_timeout_def timeout_ok_def)

lemma validate_stdin_ok: "validate_stdin v = Ok (Some s) \<Longrightarrow> utf8_len s \<le> MAX_STDIN_BYTES"
  by (auto simp: validate_stdin_def Let_def split: option.splits json.splits if_splits)

lemma command_from_ok: "command_from sf = Ok c \<Longrightarrow> command_ok c"
proof (cases "f_kind sf = ''tpl''")
  case True
  assume "command_from sf = Ok c"
  with True show ?thesis
    by (auto simp: command_from_def result_simps template_params_ok Option.bind_eq_Some_conv
        template_name_option)
next
  case False
  assume "command_from sf = Ok c"
  with False show ?thesis by (auto simp: command_from_def result_simps validate_argv_ok)
qed

lemma make_spec_ok:
  assumes d: "timeout_ok d" and m: "make_spec_with_default sf d = Ok c"
  shows "command_spec_ok c"
proof -
  from m obtain tier command cwd env timeout stdin where
    p: "command_from sf = Ok command" "validate_cwd (f_cwd sf) = Ok cwd" "validate_env (f_env sf) = Ok env"
      "validate_timeout (f_timeout sf) d = Ok timeout" "validate_stdin (f_stdin sf) = Ok stdin"
    and c: "c = \<lparr>spec_host = f_host sf, spec_tier = tier, spec_command = command, spec_cwd = cwd,
        spec_env = env, spec_timeout = timeout, spec_stdin = stdin\<rparr>"
    by (auto simp: make_spec_with_default_def bind_Ok_iff split: if_split_asm)
  have "pred_option cwd_ok cwd" using p(2) by (cases cwd) (auto dest: validate_cwd_ok)
  moreover have "pred_option (\<lambda>s. utf8_len s \<le> MAX_STDIN_BYTES) stdin"
    using p(5) by (cases stdin) (auto dest: validate_stdin_ok)
  ultimately show ?thesis
    using command_from_ok[OF p(1)] validate_env_ok[OF p(3)] validate_timeout_ok[OF d p(4)]
    by (simp add: command_spec_ok_def c)
qed

section \<open>What expansion and argv patterns compute\<close>

text \<open>
  A template argument read once, left to right, whatever the parameters are: plain text and
  holes. The text of the segments is the argument.
\<close>

datatype segment = Text_segment string | Hole string

fun segment_source :: "segment \<Rightarrow> string" where
  "segment_source (Text_segment s) = s"
| "segment_source (Hole name) = ''{'' @ name @ ''}''"

fun segment_value :: "(string, string) bmap \<Rightarrow> segment \<Rightarrow> string" where
  "segment_value params (Text_segment s) = s"
| "segment_value params (Hole name) = (case bget params name of Some v \<Rightarrow> v | None \<Rightarrow> ''{'' @ name @ ''}'')"

function segments :: "string \<Rightarrow> segment list" where
  "segments rest =
     (case split_once (CHR ''{'') rest of
        None \<Rightarrow> [Text_segment rest]
      | Some (before, after) \<Rightarrow>
          let name = takeWhile placeholder_char after; tail = dropWhile placeholder_char after in
          if name \<noteq> [] \<and> tail \<noteq> [] \<and> hd tail = CHR ''}''
          then [Text_segment before, Hole name] @ segments (tl tail)
          else [Text_segment before, Text_segment ''{''] @ segments after)"
  by pat_completeness auto

termination segments
proof (relation "measure length")
  fix rest :: string and x2 x y xa xb
  assume s: "split_once (CHR ''{'') rest = Some x2" "(x, y) = x2" "xb = dropWhile placeholder_char y"
  then have "length y < length rest" by (auto dest: split_once_length)
  then show "(tl xb, rest) \<in> measure length"
    using after_placeholder_length[of placeholder_char y] s by auto
next
  fix rest :: string and x2 x y xa xb
  assume "split_once (CHR ''{'') rest = Some x2" "(x, y) = x2"
  then show "(y, rest) \<in> measure length" by (auto dest: split_once_length)
qed simp

declare segments.simps [simp del]

lemma fill_segments: "fill arg params = concat (map (segment_value params) (segments arg))"
proof (induction arg params rule: fill.induct)
  case (1 rest params)
  show ?case
  proof (cases "split_once (CHR ''{'') rest")
    case None
    then show ?thesis by (simp add: fill.simps[of rest] segments.simps[of rest] del: split_once_None)
  next
    case (Some p)
    obtain before after where p: "p = (before, after)" by (cases p)
    show ?thesis
      using 1(1)[OF Some p[symmetric] refl refl] 1(2)[OF Some p[symmetric] refl refl] Some p
      by (simp add: fill.simps[of rest] segments.simps[of rest] Let_def)
  qed
qed

lemma segments_source: "concat (map segment_source (segments arg)) = arg"
proof (induction arg rule: segments.induct)
  case (1 rest)
  show ?case
  proof (cases "split_once (CHR ''{'') rest")
    case None
    then show ?thesis by (simp add: segments.simps[of rest] del: split_once_None)
  next
    case (Some p)
    obtain before after where p: "p = (before, after)" by (cases p)
    then have rest: "rest = before @ ''{'' @ after" using Some by (simp add: split_once_iff)
    let ?name = "takeWhile placeholder_char after" and ?tail = "dropWhile placeholder_char after"
    have split: "after = ?name @ ?tail" by simp
    show ?thesis
    proof (cases "?name \<noteq> [] \<and> ?tail \<noteq> [] \<and> hd ?tail = CHR ''}''")
      case True
      then have "?tail = ''}'' @ tl ?tail" by (cases ?tail) auto
      with split have "after = ?name @ ''}'' @ tl ?tail" by metis
      moreover have "concat (map segment_source (segments rest)) = before @ ''{'' @ ?name @ ''}'' @ tl ?tail"
        using 1(1)[OF Some p[symmetric] refl refl True] True Some p
        by (simp add: segments.simps[of rest])
      ultimately show ?thesis using rest by metis
    next
      case False
      have "concat (map segment_source (segments rest)) = before @ ''{'' @ after"
        using 1(2)[OF Some p[symmetric] refl refl False] False Some p
        by (auto simp: segments.simps[of rest] Let_def)
      then show ?thesis using rest by metis
    qed
  qed
qed

lemma match_args_nth:
  "length globs \<le> length args \<Longrightarrow> match_args loose globs args =
   (\<forall>i < length globs. fnmatch (args ! i) (globs ! i)
      \<or> (i = 0 \<and> loose \<and> fnmatch (basename (args ! i)) (globs ! i)))"
  by (induction loose globs args rule: match_args.induct) (auto simp: All_less_Suc2)

lemma basename_append [simp]: "basename (dir @ CHR ''/'' # prog) = basename prog"
proof (induction dir)
  case (Cons x dir)
  have "split_char (CHR ''/'') (dir @ CHR ''/'' # prog) \<noteq> [w]" for w
    by (induction dir arbitrary: w) (auto split: list.splits)
  with Cons show ?case
    by (cases "split_char (CHR ''/'') (dir @ CHR ''/'' # prog)") (auto simp: basename_def split: if_splits)
qed (simp add: basename_def)

lemma basename_plain: "CHR ''/'' \<notin> set prog \<Longrightarrow> basename prog = prog"
  by (simp add: basename_def)

lemma match_argv_moved:
  assumes m: "match_argv pattern (prog # args) True" and plain: "CHR ''/'' \<notin> set prog"
  shows "match_argv pattern ((dir @ ''/'' @ prog) # args) True"
proof -
  have "match_args True fixed (prog # args) \<Longrightarrow> match_args True fixed ((dir @ ''/'' @ prog) # args)" for fixed
    using plain by (cases fixed) (auto simp: basename_plain)
  with m show ?thesis by (auto simp: match_argv_def Let_def split: if_splits)
qed

section \<open>A stored job reads back\<close>

lemma job_from_object:
  assumes "map_of (rev kvs) ''kind'' = Some (JStr kind)" "map_of (rev kvs) ''host'' = Some (JStr host)"
    and "job_keys kind = Some allowed" "fst ` set kvs \<subseteq> set allowed"
  shows "job_from_json (json_obj kvs) d =
    (if kind = ''shell''
     then map_ok Shell_job (shell_spec_from host (map_of (rev kvs) ''tier'') (map_of (rev kvs) ''duration''))
     else map_ok Command_job (make_spec_with_default (job_fields kind host (bcollect kvs)) d))"
proof -
  have "filter (\<lambda>k. k \<notin> set allowed) (bkeys (bcollect kvs)) = []"
    using assms(4) keys_bcollect[of kvs] by (auto simp: filter_empty_conv simp del: keys_bcollect)
  then show ?thesis using assms(1-3) by (simp add: job_from_json_def json_obj_def)
qed

lemma job_from_command_json:
  assumes ok: "command_spec_ok c"
  shows "job_from_json (command_to_json c) d = Ok (Command_job c)"
proof -
  have t: "timeout_ok (spec_timeout c)" and env: "env_ok (spec_env c)" and cmd: "command_ok (spec_command c)"
    using ok by (simp_all add: command_spec_ok_def)
  have nz: "(ucast (spec_timeout c) :: u64) \<noteq> 0"
    using t u32_round_trip[of "spec_timeout c"] by (auto simp: timeout_ok_def u32_try_from_def)
  have cwd: "validate_cwd (Some (json_opt_str (spec_cwd c))) = Ok (spec_cwd c)"
    using ok by (cases "spec_cwd c") (simp_all add: command_spec_ok_def validate_cwd_def[of "Some JNull"])
  have stdin: "validate_stdin (Some (json_opt_str (spec_stdin c))) = Ok (spec_stdin c)"
    using ok by (cases "spec_stdin c") (simp_all add: command_spec_ok_def validate_stdin_def)
  let ?kvs = "command_entries c"
  have "make_spec_with_default (job_fields (command_kind (spec_command c)) (spec_host c) (bcollect ?kvs)) d = Ok c"
  proof (cases "spec_command c")
    case (Run_command argv)
    then have "?kvs = [(''kind'', JStr ''run''), (''host'', JStr (spec_host c)),
        (''tier'', JStr (tier_as_str (spec_tier c))), (''argv'', json_strs argv),
        (''cwd'', json_opt_str (spec_cwd c)), (''env'', json_str_obj (spec_env c)),
        (''timeout'', JNum (PosInt (ucast (spec_timeout c)))), (''stdin'', json_opt_str (spec_stdin c))]"
      by (simp add: command_entries_def)
    with Run_command cmd t env cwd stdin nz show ?thesis
      by (simp add: job_fields_def make_spec_with_default_def command_from_def)
  next
    case (Template_command template params)
    then have "?kvs = [(''kind'', JStr ''tpl''), (''host'', JStr (spec_host c)),
        (''tier'', JStr (tier_as_str (spec_tier c))), (''template'', JStr template),
        (''params'', json_str_obj params), (''cwd'', json_opt_str (spec_cwd c)),
        (''env'', json_str_obj (spec_env c)), (''timeout'', JNum (PosInt (ucast (spec_timeout c)))),
        (''stdin'', json_opt_str (spec_stdin c))]"
      by (simp add: command_entries_def)
    with Template_command cmd t env cwd stdin nz show ?thesis
      by (simp add: job_fields_def make_spec_with_default_def command_from_def)
  qed
  moreover obtain allowed where keys: "job_keys (command_kind (spec_command c)) = Some allowed"
      "fst ` set ?kvs \<subseteq> set allowed"
    by (cases "spec_command c") (simp_all add: command_entries_def job_keys_def)
  moreover have "map_of (rev ?kvs) ''kind'' = Some (JStr (command_kind (spec_command c)))"
      "map_of (rev ?kvs) ''host'' = Some (JStr (spec_host c))" "command_kind (spec_command c) \<noteq> ''shell''"
    by (cases "spec_command c"; simp add: command_entries_def)+
  ultimately show ?thesis
    by (simp add: command_to_json_def job_from_object)
qed

lemma job_from_shell_json:
  assumes "0 < shell_duration s"
  shows "job_from_json (shell_to_json s) d = Ok (Shell_job s)"
proof -
  have "(ucast (shell_duration s) :: u64) \<noteq> 0"
    using assms u32_round_trip[of "shell_duration s"] by (auto simp: u32_try_from_def)
  then have "0 < (ucast (shell_duration s) :: u64)" by (simp add: word_neq_0_conv)
  then show ?thesis
    unfolding shell_to_json_def
    by (subst job_from_object[where kind = "''shell''"]) (auto simp: job_keys_def shell_spec_from_def)
qed

lemma job_from_json_ok: "timeout_ok d \<Longrightarrow> job_from_json raw d = Ok s \<Longrightarrow> job_ok s"
proof -
  assume d: "timeout_ok d" and s: "job_from_json raw d = Ok s"
  then obtain m where raw: "raw = JObj m" by (cases raw) (auto simp: job_from_json_def)
  show "job_ok s"
  proof (cases s)
    case (Command_job c)
    with s raw obtain sf where "make_spec_with_default sf d = Ok c"
      by (auto simp: job_from_json_def Let_def result_simps split: option.split_asm if_split_asm)
    then show ?thesis using make_spec_ok[OF d] Command_job by simp
  next
    case (Shell_job sh)
    with s raw obtain n where "u32_try_from n = Some (shell_duration sh)" "0 < n"
      by (auto simp: job_from_json_def Let_def result_simps shell_spec_from_def opt_filter_Some_iff
          Option.bind_eq_Some_conv split: option.split_asm if_split_asm)
    then have "0 < shell_duration sh"
      using u32_try_from_unat[of n] by (auto simp: word_less_nat_alt)
    then show ?thesis using Shell_job by simp
  qed
qed

lemma job_to_json_reads_back: "job_ok s \<Longrightarrow> job_from_json (job_to_json s) d = Ok s"
  by (cases s) (simp_all add: job_from_command_json job_from_shell_json)

interpretation job: canonical_form "\<lambda>raw. job_from_json raw DEFAULT_TIMEOUT_SECS" job_to_json job_ok
proof unfold_locales
  have "timeout_ok DEFAULT_TIMEOUT_SECS"
    by (simp add: timeout_ok_def DEFAULT_TIMEOUT_SECS_def MAX_TIMEOUT_SECS_def)
  then show "job_from_json raw DEFAULT_TIMEOUT_SECS = Ok s \<Longrightarrow> job_ok s" for raw s
    by (rule job_from_json_ok)
qed (rule job_to_json_reads_back)

lemma option_fields_agree:
  assumes "opt_stdin options \<noteq> Some []" "\<forall>n \<in> {''tier'', ''cwd'', ''env'', ''timeout'', ''stdin''}. n \<noteq> k"
  shows "make_spec ((scope_fields kind host (binsert k v (options_scope options)))\<lparr>f_argv := a, f_template := t, f_params := p\<rparr>)
    = make_spec ((authority_fields kind host options)\<lparr>f_argv := a, f_template := t, f_params := p\<rparr>)"
proof -
  let ?m = "binsert k v (options_scope options)"
  have get: "bget ?m ''tier'' = Some (JStr (tier_as_str (opt_tier options)))"
    "bget ?m ''cwd'' = map_option JStr (opt_cwd options)"
    "bget ?m ''env'' = (if opt_env options = [] then None else Some (json_str_obj (opt_env options)))"
    "bget ?m ''timeout'' = map_option (\<lambda>t. JNum (PosInt (ucast t))) (opt_timeout options)"
    "bget ?m ''stdin'' = map_option JStr (opt_stdin options)"
    using assms by (simp_all add: options_scope_def split: option.splits)
  have env: "validate_env (if opt_env options = [] then None else Some (json_str_obj (opt_env options)))
      = validate_env (Some (json_str_obj (opt_env options)))"
    by (simp add: validate_env_def json_str_obj_def bcollect_def)
  show ?thesis
    by (simp only: make_spec_def make_spec_with_default_def scope_fields_def authority_fields_def no_fields_def
        command_from_def spec_fields.simps get env)
qed

lemma typed_spec_is_wire_spec:
  "opt_stdin options \<noteq> Some [] \<Longrightarrow>
     from_authority host (Run argv options)
     = job_spec_of (capability (AuthHostexec (Run argv options))) host (wire_scope tm (AuthHostexec (Run argv options)))"
  "opt_stdin options \<noteq> Some [] \<Longrightarrow>
     from_authority host (Template template params options)
     = job_spec_of (capability (AuthHostexec (Template template params options))) host
         (wire_scope tm (AuthHostexec (Template template params options)))"
proof -
  assume o: "opt_stdin options \<noteq> Some []"
  show "from_authority host (Run argv options)
     = job_spec_of (capability (AuthHostexec (Run argv options))) host (wire_scope tm (AuthHostexec (Run argv options)))"
    using option_fields_agree[OF o, where k = "''argv''" and kind = "''run''" and host = host
        and v = "json_strs argv" and a = "Some (json_strs argv)" and t = None and p = None]
    by (simp add: job_spec_of_def scope_fields_def authority_fields_def no_fields_def)
  have "(case opt_filter (\<lambda>p. \<not> is_falsy p) (Some (json_str_obj params)) of None \<Rightarrow> JObj [] | Some p \<Rightarrow> p)
      = json_str_obj params"
    by (simp add: json_str_obj_def)
  then show "from_authority host (Template template params options)
     = job_spec_of (capability (AuthHostexec (Template template params options))) host
         (wire_scope tm (AuthHostexec (Template template params options)))"
    using option_fields_agree[OF o, where k = "''params''" and kind = "''tpl''" and host = host
        and v = "json_str_obj params" and a = None and t = "Some (JStr template)"
        and p = "Some (json_str_obj params)"]
    by (simp add: job_spec_of_def scope_fields_def authority_fields_def no_fields_def)
qed

section \<open>Properties\<close>

text \<open>C35: Normalising a job is canonical: a job that hostd accepts (with any valid default timeout)
  keeps every limit, its JSON form is read back to the same job under whatever default, and no
  other valid job has that JSON form. So broker and host compute the digest of the same job
  over the same value, and two jobs never share one.\<close>

theorem job_json_canonical:
  assumes "timeout_ok d" "job_from_json raw d = Ok s"
  shows "job_ok s \<and> job_from_json (job_to_json s) d' = Ok s
    \<and> (\<forall>s'. job_ok s' \<and> job_to_json s' = job_to_json s \<longrightarrow> s' = s)"
  using job_from_json_ok[OF assms] job.print_inj job_to_json_reads_back by blast

theorem job_json_canonical_witness:
  "let raw = JObj [(''argv'', JArr [JStr ''ls'']), (''cwd'', JStr ''/a/./b//../c''), (''host'', JStr ''h''),
       (''kind'', JStr ''run''), (''tier'', JStr ''user'')];
     s = Command_job \<lparr>spec_host = ''h'', spec_tier = User, spec_command = Run_command [''ls''],
       spec_cwd = Some ''/a/c'', spec_env = [], spec_timeout = 600, spec_stdin = None\<rparr>
   in timeout_ok 600 \<and> job_from_json raw 600 = Ok s \<and> job_from_json (job_to_json s) 7 = Ok s"
proof -
  let ?raw = "JObj [(''argv'', JArr [JStr ''ls'']), (''cwd'', JStr ''/a/./b//../c''), (''host'', JStr ''h''),
       (''kind'', JStr ''run''), (''tier'', JStr ''user'')]"
  let ?s = "Command_job \<lparr>spec_host = ''h'', spec_tier = User, spec_command = Run_command [''ls''],
       spec_cwd = Some ''/a/c'', spec_env = [], spec_timeout = 600, spec_stdin = None\<rparr>"
  have t: "timeout_ok 600" by (simp add: timeout_ok_def MAX_TIMEOUT_SECS_def)
  have cwd: "validate_cwd (Some (JStr ''/a/./b//../c'')) = Ok (Some ''/a/c'')"
    by (simp add: validate_cwd_def posix_normpath_def leading_slashes_def norm_step_def NUL_def
        MAX_VALUE_CHARS_def)
  have argv: "validate_argv (Some (JArr [JStr ''ls''])) = Ok [''ls'']"
    using validate_argv_stored[of "[''ls'']"]
    by (simp add: argv_ok_def NUL_def MAX_ARGS_def MAX_ARG_BYTES_def MAX_ARGV_BYTES_def utf8_len_def json_strs_def)
  have j: "job_from_json ?raw 600 = Ok ?s"
    by (simp add: job_from_json_def job_keys_def job_fields_def make_spec_with_default_def command_from_def
        spec_tier_from_def tier_parse_def cwd argv validate_env_def validate_timeout_def validate_stdin_def)
  from t j job_json_canonical[OF t j, of 7] show ?thesis unfolding Let_def by blast
qed

text \<open>Template expansion is whole-argument substitution in one pass: it succeeds exactly when
  the given parameters are the template's and each value matches its pattern in full, and then
  every argument of the template gives one argument, made of its own text with the parameter
  values put into its holes verbatim (a value is never scanned for holes, split or dropped).\<close>

theorem expand_exact:
  "(expand re t params = Ok argv) =
     (set (bkeys params) = set (bkeys (t_params t))
      \<and> list_all (\<lambda>(name, value). is_some_and (\<lambda>p. full_match re p value) (bget (t_params t) name)) params
      \<and> argv = map (\<lambda>arg. concat (map (segment_value params) (segments arg))) (t_argv t))
   \<and> concat (map segment_source (segments arg)) = arg"
proof -
  have keys: "(bset_of (bkeys params) = bset_of (bkeys (t_params t))) = (set (bkeys params) = set (bkeys (t_params t)))"
    by (rule bset_of_eq_iff)
  let ?P = "\<lambda>(name, value). is_some_and (\<lambda>p. full_match re p value) (bget (t_params t) name)"
  let ?bad = "\<lambda>(name, value). \<not> is_some_and (\<lambda>p. full_match re p value) (bget (t_params t) name)"
  have find: "(find ?bad params = None) = list_all ?P params"
    by (auto simp: find_None_iff list_all_iff)
  have fills: "map (\<lambda>arg. fill arg params) (t_argv t)
      = map (\<lambda>arg. concat (map (segment_value params) (segments arg))) (t_argv t)"
    by (simp only: fill_segments)
  have "(expand re t params = Ok argv) =
     (set (bkeys params) = set (bkeys (t_params t)) \<and> list_all ?P params
      \<and> argv = map (\<lambda>arg. concat (map (segment_value params) (segments arg))) (t_argv t))"
  proof (cases "find ?bad params")
    case None
    then show ?thesis by (auto simp only: expand_def keys find[symmetric] fills option.case if_True if_False
          sum.inject sum.distinct split: if_split)
  next
    case (Some x)
    then have "\<not> list_all ?P params" by (simp add: find[symmetric])
    moreover obtain n v where "x = (n, v)" by (cases x)
    ultimately show ?thesis using Some by (auto simp only: expand_def option.case prod.case sum.distinct split: if_split)
  qed
  then show ?thesis by (simp only: segments_source)
qed

text \<open>A deny pattern cannot be walked around by naming the program with a directory: a
  loose pattern that matches a command given by its bare program name matches it under every
  directory too.\<close>

theorem loose_pattern_covers_paths:
  assumes "match_argv pattern (prog # args) True" "CHR ''/'' \<notin> set prog"
  shows "match_argv pattern ((dir @ ''/'' @ prog) # args) True"
  using assms by (rule match_argv_moved)

theorem loose_pattern_covers_paths_witness:
  "match_argv [''rm'', ''**''] [''rm'', ''-rf''] True \<and> match_argv [''rm'', ''**''] [''/bin/rm'', ''-rf''] True"
proof -
  have m: "match_argv [''rm'', ''**''] [''rm'', ''-rf''] True" by code_simp
  show ?thesis using m loose_pattern_covers_paths[OF m, of "''/bin''"] by simp
qed

end
