(* ===== verification/Policy_Schema.thy ===== *)
theory Policy_Schema
  imports Hostexec Durations Agents Routing
begin

text \<open>
  The sections of the policy file as types (\<open>core/src/policy/schema.rs\<close>): their defaults, the
  normalisations and the validators that run after a section is parsed. Unsigned settings are
  natural numbers (they are only compared), durations are seconds. Error texts are the code's.
\<close>

definition secs :: "string \<Rightarrow> nat" where
  "secs txt = (case duration_parse txt of Ok d \<Rightarrow> d | Err e \<Rightarrow> MAX_DURATION_SECS)"

section \<open>Rules and defaults\<close>

record rule_match =
  m_agent :: agent_pattern
  m_platform :: "platform option"
  m_capability :: glob
  m_resource :: string
  m_delegator :: "agent_pattern option"

definition default_rule_match :: rule_match where
  "default_rule_match = \<lparr>m_agent = default_pattern, m_platform = None, m_capability = any, m_resource = ''*'',
     m_delegator = None\<rparr>"

record constraints =
  c_max_duration :: "nat option"
  c_llm_model :: "string option"
  c_retry_budget :: "nat option"

record policy_rule =
  r_match :: rule_match
  r_action :: policy_action
  r_constraints :: constraints
  r_reason :: string

record defaults =
  d_action :: policy_action
  d_max_duration :: nat

definition default_defaults :: defaults where
  "default_defaults = \<lparr>d_action = Surface, d_max_duration = secs ''24h''\<rparr>"

record llm_config =
  llm_model :: string
  llm_retry_budget :: nat
  llm_timeout_secs :: nat

definition default_llm :: llm_config where
  "default_llm = \<lparr>llm_model = ''deepseek/deepseek-v4.1-flash-1017'', llm_retry_budget = 2, llm_timeout_secs = 60\<rparr>"

section \<open>Platform sections\<close>

record github_config =
  gh_repo_allowlist :: "glob list"
  gh_repo_denylist :: "glob list"
  gh_permission_ceiling :: "(string, string) bmap"
  gh_sensitive_permissions :: "string list"
  gh_create_owners :: "string list"

definition default_github :: github_config where
  "default_github = \<lparr>gh_repo_allowlist = [], gh_repo_denylist = [], gh_permission_ceiling = [],
     gh_sensitive_permissions = [''secrets'', ''administration''], gh_create_owners = []\<rparr>"

record homelab_config =
  hl_allowed_groups :: "string list"
  hl_group_descriptions :: "(string, string) bmap"
  hl_managed_accounts :: bool
  hl_managed_username_prefix :: string
  hl_managed_email_domain :: string

definition default_homelab :: homelab_config where
  "default_homelab = \<lparr>hl_allowed_groups = [], hl_group_descriptions = [], hl_managed_accounts = True,
     hl_managed_username_prefix = ''svc-'', hl_managed_email_domain = ''agents.invalid''\<rparr>"

record kubernetes_config =
  k8s_namespace_allowlist :: "glob list"
  k8s_role_allowlist :: "string list"
  k8s_cluster_role_allowlist :: "string list"
  k8s_cluster_grant_namespace :: string
  k8s_role_descriptions :: "(string, string) bmap"
  k8s_sensitive_roles :: "string list"
  k8s_sensitive_namespaces :: "glob list"
  k8s_grant_namespace :: string

definition default_kubernetes :: kubernetes_config where
  "default_kubernetes = \<lparr>k8s_namespace_allowlist = [], k8s_role_allowlist = [''view''],
     k8s_cluster_role_allowlist = [], k8s_cluster_grant_namespace = ''default'', k8s_role_descriptions = [],
     k8s_sensitive_roles = [''edit'', ''admin''],
     k8s_sensitive_namespaces = map Glob [''kube-system'', ''kube-public'', ''kube-node-lease'', ''flux-system''],
     k8s_grant_namespace = ''agent-auth-grants''\<rparr>"

definition lower_glob :: "glob \<Rightarrow> glob" where
  "lower_glob g = Glob (to_lowercase (source g))"

definition github_normalize :: "github_config \<Rightarrow> github_config" where
  "github_normalize g = g\<lparr>gh_repo_allowlist := map lower_glob (gh_repo_allowlist g),
     gh_repo_denylist := map lower_glob (gh_repo_denylist g)\<rparr>"

definition label63 :: "string \<Rightarrow> bool" where
  "label63 s = is_ok (daemon_name_parse s)"

definition kubernetes_normalize :: "kubernetes_config \<Rightarrow> (string, kubernetes_config) result" where
  "kubernetes_normalize k =
     (let k' = k\<lparr>k8s_namespace_allowlist := map lower_glob (k8s_namespace_allowlist k),
        k8s_sensitive_namespaces := map lower_glob (k8s_sensitive_namespaces k),
        k8s_cluster_grant_namespace := to_lowercase (k8s_cluster_grant_namespace k),
        k8s_grant_namespace := to_lowercase (k8s_grant_namespace k)\<rparr>
      in if \<not> label63 (k8s_grant_namespace k') then Err ''grant_namespace: a namespace name'' else Ok k')"

definition k8s_namespace_is_sensitive :: "kubernetes_config \<Rightarrow> string \<Rightarrow> bool" where
  "k8s_namespace_is_sensitive k ns =
     (ns = k8s_cluster_grant_namespace k \<or> list_ex (\<lambda>g. glob_matches g ns) (k8s_sensitive_namespaces k))"

record agents_config =
  ag_runtimes :: "string list"
  ag_lease :: nat

definition default_agents :: agents_config where
  "default_agents = \<lparr>ag_runtimes = [''claude'', ''codex''], ag_lease = secs ''30d''\<rparr>"

record hostexec_config =
  hx_templates :: "(string, template) bmap"
  hx_risk_summary :: bool
  hx_risk_model :: "string option"
  hx_watch :: bool
  hx_window_default :: nat
  hx_window_max :: nat

definition default_hostexec :: hostexec_config where
  "default_hostexec = \<lparr>hx_templates = [], hx_risk_summary = True, hx_risk_model = None, hx_watch = True,
     hx_window_default = secs ''30m'', hx_window_max = secs ''8h''\<rparr>"

record mcp_server =
  srv_url :: string
  srv_description :: string
  srv_tools :: "string list"
  srv_audience :: "string option"

record mcp_config =
  mcp_issuer :: string
  mcp_token_ttl :: nat
  mcp_servers :: "(string, mcp_server) bmap"

definition default_mcp :: mcp_config where
  "default_mcp = \<lparr>mcp_issuer = [], mcp_token_ttl = secs ''1h'', mcp_servers = []\<rparr>"

text \<open>A budget is a double, which may be infinite or not a number.\<close>

datatype budget = Finite f64 | Not_finite

record models_config =
  md_name :: string
  md_url :: string
  md_admin_url :: "string option"
  md_models :: "string list"
  md_by_runtime :: "(string, string list) bmap"
  md_max_budget :: "budget option"
  md_budget_duration :: string

definition default_models :: models_config where
  "default_models = \<lparr>md_name = ''litellm'', md_url = [], md_admin_url = None, md_models = [],
     md_by_runtime = [], md_max_budget = None, md_budget_duration = ''30d''\<rparr>"

record google_account =
  ga_address :: string
  ga_client_secret_file :: string
  ga_refresh_token_file :: string
  ga_service_account_file :: string
  ga_subject :: "string option"

type_synonym google_config = "(string, google_account) bmap"

definition plain_part :: "string \<Rightarrow> bool" where
  "plain_part s = (s \<noteq> [] \<and> \<not> list_ex (\<lambda>c. c = CHR ''@'' \<or> is_whitespace c) s)"

definition email_address_ok :: "string \<Rightarrow> bool" where
  "email_address_ok address =
     (case split_once (CHR ''@'') address of
        None \<Rightarrow> False
      | Some (local, domain) \<Rightarrow>
          let dotted = is_some_and (\<lambda>(a, b). a \<noteq> [] \<and> b \<noteq> []) (rsplit_once (CHR ''.'') domain)
          in plain_part local \<and> plain_part domain \<and> dotted)"

definition config_name_ok :: "string \<Rightarrow> bool" where
  "config_name_ok name =
     (case name of
        [] \<Rightarrow> False
      | c # cs \<Rightarrow> (is_ascii_lowercase c \<or> is_ascii_digit c) \<and> utf8_len name \<le> 63
          \<and> list_all (\<lambda>c. is_ascii_lowercase c \<or> is_ascii_digit c \<or> c \<in> set ''_-'') cs)"

definition google_account_normalize :: "string \<times> google_account \<Rightarrow> (string, string \<times> google_account) result" where
  "google_account_normalize entry =
     (case entry of (name, account) \<Rightarrow>
       if \<not> config_name_ok name then
         Err (''google account name '' @ repr_string name @ '': lowercase letters, digits, - and _'')
       else if \<not> email_address_ok (ga_address account) then
         Err (''google account address '' @ repr_string (ga_address account) @ '' is not an email address'')
       else
         let account' = account\<lparr>ga_address := to_lowercase (ga_address account)\<rparr>;
             oauth = (ga_client_secret_file account \<noteq> [] \<and> ga_refresh_token_file account \<noteq> [])
         in if oauth = (ga_service_account_file account \<noteq> []) then
              Err (''google account '' @ ga_address account'
                @ '': either client_secret_file + refresh_token_file, or service_account_file (Workspace domain-wide delegation)'')
            else Ok (name, account'))"

definition google_normalize :: "google_config \<Rightarrow> (string, google_config) result" where
  "google_normalize accounts = try_map google_account_normalize accounts"

record pool_item =
  pi_description :: string
  pi_properties :: "(string, prop_value) bmap"
  pi_secret_file :: string
  pi_sensitive :: bool
  pi_agents :: "agent_pattern list"

record pool_config =
  pc_description :: string
  pc_items :: "(string, pool_item) bmap"
  pc_capacity :: nat
  pc_max_per_agent :: nat
  pc_agents :: "agent_pattern list"

definition default_pool :: pool_config where
  "default_pool = \<lparr>pc_description = [], pc_items = [], pc_capacity = 1, pc_max_per_agent = 1, pc_agents = []\<rparr>"

definition MAX_POOL_PER_AGENT :: nat where
  "MAX_POOL_PER_AGENT = 10000"

definition pool_validate :: "string \<Rightarrow> pool_config \<Rightarrow> (string, unit) result" where
  "pool_validate name pool =
     (if \<not> config_name_ok name then
        Err (''pool name '' @ repr_string name @ '': lowercase letters, digits, - and _'')
      else case find (\<lambda>item. \<not> item_name_ok item) (bkeys (pc_items pool)) of
        Some item \<Rightarrow> Err (''pool item '' @ repr_string item @ '': letters, digits, . _ -'')
      | None \<Rightarrow>
          if \<not> (1 \<le> pc_capacity pool \<and> pc_capacity pool \<le> 100) then
            Err (''platforms.pools.'' @ name @ ''.capacity: from 1 to 100'')
          else if \<not> (1 \<le> pc_max_per_agent pool \<and> pc_max_per_agent pool \<le> MAX_POOL_PER_AGENT) then
            Err (''platforms.pools.'' @ name @ ''.max_per_agent: from 1 to 10000'')
          else Ok ())"

section \<open>Other sections\<close>

record desktop_config =
  dk_enabled :: bool
  dk_agents :: "agent_pattern list"
  dk_platforms :: "platform list"
  dk_sensitive :: bool
  dk_timeout :: nat
  dk_per_agent_per_hour :: nat
  dk_per_hour :: nat
  dk_deny_cooldown :: nat
  dk_mute :: nat

definition default_desktop :: desktop_config where
  "default_desktop = \<lparr>dk_enabled = False, dk_agents = [], dk_platforms = [], dk_sensitive = False,
     dk_timeout = secs ''90s'', dk_per_agent_per_hour = 6, dk_per_hour = 20,
     dk_deny_cooldown = secs ''10m'', dk_mute = secs ''1h''\<rparr>"

record wiki_config =
  wk_repo :: string
  wk_branch :: string
  wk_editors :: "agent_pattern list"
  wk_max_page_bytes :: nat
  wk_refresh_secs :: nat

definition default_wiki :: wiki_config where
  "default_wiki = \<lparr>wk_repo = [], wk_branch = ''main'', wk_editors = [], wk_max_page_bytes = 64 * 1024,
     wk_refresh_secs = 30\<rparr>"

record ui_config =
  ui_enabled :: bool
  ui_base_url :: string
  ui_issuer :: string
  ui_client_id :: string
  ui_admin_group :: string
  ui_session_ttl :: nat

definition default_ui :: ui_config where
  "default_ui = \<lparr>ui_enabled = False, ui_base_url = [], ui_issuer = [], ui_client_id = ''agent-auth-admin'',
     ui_admin_group = ''agent-auth-admins'', ui_session_ttl = secs ''8h''\<rparr>"

record notify_config =
  nt_auto_approvals :: bool
  nt_skip_platforms :: "platform list"

record containment_config =
  ct_agents :: "agent_pattern list"
  ct_allow_all :: bool

record restricted_zone =
  z_members :: "agent_pattern list"
  z_kubernetes :: "glob list"
  z_github :: "glob list"
  z_wiki :: bool

record audit_config =
  au_readers :: "agent_pattern list"

record evals_config =
  ev_record :: bool
  ev_retention :: nat
  ev_replay_concurrency :: nat
  ev_max_replay :: nat

definition default_evals :: evals_config where
  "default_evals = \<lparr>ev_record = True, ev_retention = secs ''90d'', ev_replay_concurrency = 4, ev_max_replay = 500\<rparr>"

definition evals_validate :: "evals_config \<Rightarrow> (string, unit) result" where
  "evals_validate e =
     (if \<not> (1 \<le> ev_replay_concurrency e \<and> ev_replay_concurrency e \<le> 16) then
        Err ''evals.replay_concurrency: 1 to 16''
      else if \<not> (1 \<le> ev_max_replay e \<and> ev_max_replay e \<le> 2000) then Err ''evals.max_replay: 1 to 2000''
      else Ok ())"

definition REMOTE_MCP_TOOLS :: "string list" where
  "REMOTE_MCP_TOOLS = [''whoami'', ''list_capabilities'', ''list_grants'', ''request_access'',
     ''wait_for_decision'', ''check_status'', ''retry_request'', ''escalate_request'', ''create_session'',
     ''close_session'', ''check_a2a'', ''a2a_open'', ''a2a_send'', ''a2a_poll'', ''a2a_threads'', ''a2a_accept'',
     ''a2a_reject'', ''a2a_close'', ''wiki_search'', ''wiki_read'', ''wiki_list'', ''notify_operator'',
     ''release_grant'']"

definition MCP_TOOL_NAMES :: "string list" where
  "MCP_TOOL_NAMES = [''whoami'', ''list_capabilities'', ''request_access'', ''wait_for_decision'',
     ''check_status'', ''retry_request'', ''escalate_request'', ''list_grants'', ''get_credential'',
     ''release_grant'', ''mail_list'', ''mail_read'', ''mail_attachment'', ''mail_send'', ''create_session'',
     ''close_session'', ''check_a2a'', ''a2a_open'', ''a2a_send'', ''a2a_poll'', ''a2a_threads'', ''a2a_accept'',
     ''a2a_reject'', ''a2a_close'', ''a2a_events'', ''wiki_search'', ''wiki_read'', ''wiki_list'', ''wiki_write'',
     ''wiki_delete'', ''notify_operator'', ''host_run'', ''host_job'', ''host_shell_exec'',
     ''host_shell_close'', ''host_shell_scope'']"

definition REMOTE_MCP_REDIRECT_URIS :: "string list" where
  "REMOTE_MCP_REDIRECT_URIS = [''https://claude.ai/api/mcp/auth_callback'',
     ''https://claude.com/api/mcp/auth_callback'', ''https://chatgpt.com/connector_platform_oauth_redirect'']"

definition redirect_uri_ok :: "string \<Rightarrow> bool" where
  "redirect_uri_ok uri =
     (utf8_len uri \<le> 512
      \<and> is_some_and (\<lambda>rest. rest \<noteq> [] \<and> hd rest \<noteq> CHR ''/'') (strip_prefix ''https://'' uri)
      \<and> \<not> list_ex (\<lambda>c. c \<in> {CHR ''#'', CHR ''@'', CHR 0x5C}) uri
      \<and> \<not> list_ex (\<lambda>c. is_whitespace c \<or> is_control c) uri)"

record remote_mcp_config =
  rm_enabled :: bool
  rm_base_url :: string
  rm_redirect_uris :: "string list"
  rm_tools :: "string list"
  rm_access_ttl :: nat
  rm_refresh_ttl :: nat
  rm_max_clients :: nat

definition default_remote_mcp :: remote_mcp_config where
  "default_remote_mcp = \<lparr>rm_enabled = False, rm_base_url = [], rm_redirect_uris = REMOTE_MCP_REDIRECT_URIS,
     rm_tools = REMOTE_MCP_TOOLS, rm_access_ttl = secs ''1h'', rm_refresh_ttl = secs ''30d'', rm_max_clients = 50\<rparr>"

section \<open>Validators\<close>

definition starts_https :: "string \<Rightarrow> bool" where
  "starts_https s = (strip_prefix ''https://'' s \<noteq> None)"

definition http_url :: "string \<Rightarrow> bool" where
  "http_url s =
     (let rest = (case strip_prefix ''https://'' s of Some r \<Rightarrow> Some r | None \<Rightarrow> strip_prefix ''http://'' s);
          is_space = (\<lambda>c. is_whitespace c \<or> (0x1c \<le> (of_char c :: nat) \<and> (of_char c :: nat) \<le> 0x1f))
      in case rest of
           None \<Rightarrow> False
         | Some rest \<Rightarrow>
             let url_host = takeWhile (\<lambda>c. c \<noteq> CHR ''/'') rest; path = dropWhile (\<lambda>c. c \<noteq> CHR ''/'') rest
             in url_host \<noteq> [] \<and> \<not> list_ex is_space url_host \<and> \<not> list_ex is_space path)"

definition homelab_validate :: "homelab_config \<Rightarrow> (string, unit) result" where
  "homelab_validate h =
     (if length (hl_managed_username_prefix h) > 32 then Err ''managed_username_prefix: at most 32 characters''
      else if hl_managed_email_domain h = [] then Err ''managed_email_domain: at least 1 character''
      else Ok ())"

definition server_audience :: "mcp_server \<Rightarrow> string" where
  "server_audience s = (case opt_filter (\<lambda>a. a \<noteq> []) (srv_audience s) of Some a \<Rightarrow> a | None \<Rightarrow> srv_url s)"

text \<open>The loop over the servers: \<open>seen\<close> maps an audience to the server that has it.\<close>

fun audiences_distinct :: "(string \<times> mcp_server) list \<Rightarrow> (string, string) bmap \<Rightarrow> (string, unit) result" where
  "audiences_distinct [] seen = Ok ()"
| "audiences_distinct ((name, server) # servers) seen =
     (let aud = server_audience server in
      case bget seen aud of
        Some other \<Rightarrow> Err (''platforms.mcp.servers: '' @ other @ '' and '' @ name
                        @ '' have the same audience '' @ repr_string aud)
      | None \<Rightarrow> audiences_distinct servers (binsert aud name seen))"

definition mcp_validate :: "mcp_config \<Rightarrow> (string, unit) result" where
  "mcp_validate m =
     (if mcp_servers m \<noteq> [] \<and> \<not> starts_https (mcp_issuer m) then
        Err ''platforms.mcp.issuer (the broker's https URL) is required when servers are listed''
      else audiences_distinct (mcp_servers m) [])"

definition models_validate :: "models_config \<Rightarrow> (string, unit) result" where
  "models_validate m =
     (case find (\<lambda>v. v \<noteq> [] \<and> \<not> http_url v)
             (md_url m # (case md_admin_url m of None \<Rightarrow> [] | Some u \<Rightarrow> [u])) of
        Some v \<Rightarrow> Err (''platforms.models: '' @ repr_string v @ '' is not an http(s) URL'')
      | None \<Rightarrow>
          if \<not> label63 (md_name m) then Err ''platforms.models.name: lowercase letters, digits and dashes''
          else if is_some_and (\<lambda>b. b = Not_finite) (md_max_budget m) then
            Err ''platforms.models.max_budget: a number''
          else Ok ())"

definition repo_part :: "string \<Rightarrow> bool" where
  "repo_part s = (s \<noteq> [] \<and> list_all (\<lambda>c. is_ascii_alphanumeric c \<or> c \<in> set ''._-'') s)"

definition wiki_validate :: "wiki_config \<Rightarrow> (string, unit) result" where
  "wiki_validate w =
     (if wk_repo w = []
         \<or> is_some_and (\<lambda>(owner, name). repo_part owner \<and> repo_part name) (split_once (CHR ''/'') (wk_repo w))
      then Ok () else Err (''wiki.repo '' @ repr_string (wk_repo w) @ '': owner/name''))"

definition ui_validate :: "ui_config \<Rightarrow> (string, unit) result" where
  "ui_validate u =
     (if ui_enabled u then
        case find (\<lambda>(name, value). \<not> starts_https value)
               [(''base_url'', ui_base_url u), (''issuer'', ui_issuer u)] of
          Some (name, value) \<Rightarrow> Err (''ui.'' @ name @ '': an https URL is required when the panel is enabled'')
        | None \<Rightarrow> Ok ()
      else Ok ())"

definition zone_normalize :: "restricted_zone \<Rightarrow> restricted_zone" where
  "zone_normalize z = z\<lparr>z_kubernetes := map lower_glob (z_kubernetes z), z_github := map lower_glob (z_github z)\<rparr>"

definition zone_validate :: "restricted_zone \<Rightarrow> (string, unit) result" where
  "zone_validate z = (if z_members z = [] then Err ''members: at least one agent pattern'' else Ok ())"

end
