(* ===== verification/Policy_Mail.thy ===== *)
theory Policy_Mail
  imports Policy_Schema
begin

text \<open>
  The mail section of the policy (\<open>core/src/policy/mail.rs\<close>): mailboxes, the SimpleLogin account,
  restrictions on addresses, and what a grant may do on an address now (\<open>allowed_ops\<close>).
\<close>

definition loose_part :: "string \<Rightarrow> bool" where
  "loose_part p = (p \<noteq> [] \<and> CHR ''@'' \<notin> set p \<and> \<not> list_ex is_whitespace p)"

definition loose_address :: "string \<Rightarrow> bool" where
  "loose_address s =
     (case split_once (CHR ''@'') s of
        None \<Rightarrow> False
      | Some (local, domain) \<Rightarrow> loose_part local \<and> loose_part domain
          \<and> list_ex (\<lambda>i. domain ! i = CHR ''.'' \<and> 0 < i \<and> i + 1 < length domain) [0..<length domain])"

definition is_host :: "string \<Rightarrow> bool" where
  "is_host s = (s \<noteq> [] \<and> utf8_len s \<le> 253 \<and> list_all (\<lambda>b. is_ascii_alphanumeric b \<or> b \<in> set ''.-:[]'') s)"

datatype mail_backend = Gmail | Imap

record mailbox_config =
  mb_address :: string
  mb_backend :: mail_backend
  mb_google_account :: "string option"
  mb_imap_host :: string
  mb_imap_port :: nat
  mb_smtp_host :: string
  mb_smtp_port :: nat
  mb_username :: "string option"
  mb_password_file :: string
  mb_folders :: "string list"
  mb_direct :: bool
  mb_authserv_id :: "string option"
  mb_sent_folders :: "string list"

definition folder_ok :: "string \<Rightarrow> bool" where
  "folder_ok f = (f \<noteq> [] \<and> length f \<le> 255 \<and> \<not> list_ex is_control f)"

definition backend_validate :: "string \<Rightarrow> mailbox_config \<Rightarrow> (string, unit) result" where
  "backend_validate name b =
     (case mb_backend b of
        Gmail \<Rightarrow>
          if is_none_or (\<lambda>a. a = []) (mb_google_account b) then
            Err (''mailbox '' @ mb_address b @ '': backend gmail needs google_account'')
          else Ok ()
      | Imap \<Rightarrow>
          if mb_imap_host b = [] \<or> mb_smtp_host b = [] \<or> mb_password_file b = [] then
            Err (''mailbox '' @ mb_address b @ '': backend imap needs imap_host, smtp_host and password_file'')
          else if \<not> is_host (mb_imap_host b) \<or> \<not> is_host (mb_smtp_host b) then
            Err (''mailbox '' @ name @ '': imap_host and smtp_host are host names'')
          else Ok ())"

definition mailbox_validate :: "string \<Rightarrow> mailbox_config \<Rightarrow> (string, mailbox_config) result" where
  "mailbox_validate name box =
     (if \<not> loose_address (mb_address box) then
        Err (''mailbox address '' @ repr_string (mb_address box) @ '' is not an email address'')
      else let b = box\<lparr>mb_address := to_lowercase (mb_address box)\<rparr> in
        bind (backend_validate name b) (\<lambda>_.
          if mb_folders b = [] \<or> list_ex (\<lambda>f. \<not> folder_ok f) (mb_folders b) then
            Err (''mailbox '' @ name @ '': folders are 1 to 255 characters, without control characters'')
          else if is_some_and (\<lambda>u. u = [] \<or> utf8_len u > 320 \<or> list_ex is_control u) (mb_username b) then
            Err (''mailbox '' @ name @ '': username'')
          else Ok b))"

definition authserv :: "mailbox_config \<Rightarrow> string option" where
  "authserv b =
     (case mb_authserv_id b of
        Some a \<Rightarrow>
          if trim a \<noteq> [] then Some (to_lowercase (trim a))
          else if mb_backend b = Gmail then Some ''mx.google.com'' else None
      | None \<Rightarrow> if mb_backend b = Gmail then Some ''mx.google.com'' else None)"

definition mailbox_login :: "mailbox_config \<Rightarrow> string" where
  "mailbox_login b = (case mb_username b of Some u \<Rightarrow> u | None \<Rightarrow> mb_address b)"

record simplelogin_config =
  sl_api_url :: string
  sl_api_key_file :: string
  sl_mailbox :: string
  sl_aliases :: "string list"
  sl_create_domains :: "string list"
  sl_dkim_domains :: "string list"

definition default_simplelogin :: simplelogin_config where
  "default_simplelogin = \<lparr>sl_api_url = ''https://app.simplelogin.io'', sl_api_key_file = [], sl_mailbox = [],
     sl_aliases = [''*''], sl_create_domains = [], sl_dkim_domains = [''simplelogin.co'']\<rparr>"

definition api_url_ok :: "string \<Rightarrow> bool" where
  "api_url_ok url =
     (if is_some_and (\<lambda>rest. rest \<noteq> []) (strip_prefix ''https://'' url) then True
      else case strip_prefix ''http://'' url of
        None \<Rightarrow> False
      | Some rest \<Rightarrow>
          let h0 = takeWhile (\<lambda>c. c \<notin> set ''/?#'') rest;
              h = (case rsplit_once (CHR '':'') h0 of
                     Some (name, port) \<Rightarrow> if list_all is_ascii_digit port then name else h0
                   | None \<Rightarrow> h0)
          in h \<in> set [''127.0.0.1'', ''localhost'', ''[::1]''])"

record mail_restriction =
  mr_address :: string
  mr_topic :: "string option"
  mr_correspondents :: "string list"
  mr_capabilities :: "mail_action list option"

datatype injection_mode = Injection_withhold | Injection_flag

datatype unclear_mode = Unclear_hold | Unclear_withhold

datatype send_review = Review_llm | Review_human

record mail_config =
  mc_mailboxes :: "(string, mailbox_config) bmap"
  mc_simplelogin :: "simplelogin_config option"
  mc_restrictions :: "mail_restriction list"
  mc_judge_model :: "string option"
  mc_injection :: injection_mode
  mc_unclear :: unclear_mode
  mc_send_review :: send_review
  mc_max_body_chars :: nat
  mc_max_attachment_bytes :: nat

definition default_mail :: mail_config where
  "default_mail = \<lparr>mc_mailboxes = [], mc_simplelogin = None, mc_restrictions = [], mc_judge_model = None,
     mc_injection = Injection_withhold, mc_unclear = Unclear_hold, mc_send_review = Review_llm,
     mc_max_body_chars = 20000, mc_max_attachment_bytes = 10 * 1024 * 1024\<rparr>"

definition restrictions_for :: "mail_config \<Rightarrow> string \<Rightarrow> mail_restriction list" where
  "restrictions_for cfg address = filter (\<lambda>r. fnmatch (to_lowercase address) (mr_address r)) (mc_restrictions cfg)"

definition mailbox_for :: "mail_config \<Rightarrow> string \<Rightarrow> (string \<times> mailbox_config) option" where
  "mailbox_for cfg address = find (\<lambda>(n, b). mb_address b = to_lowercase address) (mc_mailboxes cfg)"

definition mail_enabled :: "mail_config \<Rightarrow> bool" where
  "mail_enabled cfg = (mc_mailboxes cfg \<noteq> [])"

definition simplelogin_validate ::
  "(string, mailbox_config) bmap \<Rightarrow> simplelogin_config \<Rightarrow> (string, simplelogin_config) result" where
  "simplelogin_validate mailboxes sl =
     (if bget mailboxes (sl_mailbox sl) = None then
        Err (''platforms.mail.simplelogin.mailbox '' @ repr_string (sl_mailbox sl)
          @ '' is not under platforms.mail.mailboxes'')
      else if \<not> api_url_ok (sl_api_url sl) then
        Err ''platforms.mail.simplelogin.api_url: an https URL (plain http only to a loopback host)''
      else let sl' = sl\<lparr>sl_aliases := map to_lowercase (sl_aliases sl),
                 sl_create_domains := map to_lowercase (sl_create_domains sl),
                 sl_dkim_domains := map to_lowercase (sl_dkim_domains sl)\<rparr>
        in case find (\<lambda>d. \<not> is_address (''x@'' @ d)) (sl_create_domains sl') of
             Some bad \<Rightarrow> Err (''platforms.mail.simplelogin.create_domains: '' @ repr_string bad @ '' is not a domain'')
           | None \<Rightarrow> Ok sl')"

fun restrictions_validate :: "nat \<Rightarrow> mail_restriction list \<Rightarrow> (string, mail_restriction list) result" where
  "restrictions_validate i [] = Ok []"
| "restrictions_validate i (r # rs) =
     (if is_some_and (\<lambda>t. length t > MAX_TOPIC) (mr_topic r) then
        Err (''platforms.mail.restrictions['' @ show_nat i @ ''].topic: at most '' @ show_nat MAX_TOPIC @ '' characters'')
      else map_ok (\<lambda>out. r\<lparr>mr_address := to_lowercase (mr_address r),
             mr_correspondents := map to_lowercase (mr_correspondents r)\<rparr> # out) (restrictions_validate (i + 1) rs))"

definition mailbox_entry :: "string \<times> mailbox_config \<Rightarrow> (string, string \<times> mailbox_config) result" where
  "mailbox_entry entry =
     (case entry of (name, box) \<Rightarrow>
       if \<not> config_name_ok name then
         Err (''mailbox name '' @ repr_string name @ '': lowercase letters, digits, - and _'')
       else map_ok (\<lambda>b. (name, b)) (mailbox_validate name box))"

definition mail_validate :: "mail_config \<Rightarrow> (string, mail_config) result" where
  "mail_validate cfg =
     bind (try_map mailbox_entry (mc_mailboxes cfg)) (\<lambda>mailboxes.
     bind (case mc_simplelogin cfg of
             None \<Rightarrow> Ok None
           | Some sl \<Rightarrow> map_ok Some (simplelogin_validate mailboxes sl)) (\<lambda>simplelogin.
     bind (restrictions_validate 0 (mc_restrictions cfg)) (\<lambda>restrictions.
       if mc_max_body_chars cfg = 0 then Err ''platforms.mail.max_body_chars: at least 1''
       else Ok (cfg\<lparr>mc_mailboxes := mailboxes, mc_simplelogin := simplelogin, mc_restrictions := restrictions\<rparr>))))"

definition refusing_restriction :: "mail_config \<Rightarrow> string \<Rightarrow> mail_action \<Rightarrow> mail_restriction option" where
  "refusing_restriction cfg address act =
     find (\<lambda>r. is_some_and (\<lambda>c. act \<notin> set c) (mr_capabilities r)) (restrictions_for cfg address)"

definition mailbox_addresses :: "mail_config \<Rightarrow> string bset" where
  "mailbox_addresses cfg = bset_of (map (\<lambda>(n, b). mb_address b) (mc_mailboxes cfg))"

definition ops_none :: ops where
  "ops_none = \<lparr>op_read = False, op_send = False\<rparr>"

definition narrow :: "mail_restriction \<Rightarrow> ops \<Rightarrow> ops" where
  "narrow r ops =
     (case mr_capabilities r of
        None \<Rightarrow> ops
      | Some caps \<Rightarrow> ops_intersect ops (fold (\<lambda>a acc. ops_union acc (ops_of a)) caps ops_none))"

definition allowed_ops :: "mail_config \<Rightarrow> string \<Rightarrow> mail_authority \<Rightarrow> ops" where
  "allowed_ops cfg address auth = fold narrow (restrictions_for cfg address) (ops_of (mail_action auth))"

definition cross_check :: "mail_config \<Rightarrow> google_config \<Rightarrow> (string, unit) result" where
  "cross_check cfg google =
     (case find (\<lambda>(name, b). mb_backend b = Gmail
                  \<and> \<not> is_some_and (\<lambda>a. bget google a \<noteq> None) (mb_google_account b)) (mc_mailboxes cfg) of
        None \<Rightarrow> Ok ()
      | Some (name, b) \<Rightarrow>
          Err (''platforms.mail.mailboxes.'' @ name @ ''.google_account ''
            @ repr_string (case mb_google_account b of None \<Rightarrow> [] | Some a \<Rightarrow> a)
            @ '' is not under platforms.google.accounts''))"

section \<open>Lemmas\<close>

text \<open>Some capability of a restriction allows reading (sending), or it names none.\<close>

definition restriction_allows :: "(mail_action \<Rightarrow> bool) \<Rightarrow> mail_restriction \<Rightarrow> bool" where
  "restriction_allows P r = is_none_or (\<lambda>caps. list_ex P caps) (mr_capabilities r)"

lemma fold_union_ops:
  "op_read (fold (\<lambda>a acc. ops_union acc (ops_of a)) caps acc) = (op_read acc \<or> list_ex reads caps)"
  "op_send (fold (\<lambda>a acc. ops_union acc (ops_of a)) caps acc) = (op_send acc \<or> list_ex sends caps)"
  by (induction caps arbitrary: acc) (auto simp: ops_union_def ops_of_def)

lemma narrow_ops:
  "op_read (narrow r o1) = (op_read o1 \<and> restriction_allows reads r)"
  "op_send (narrow r o1) = (op_send o1 \<and> restriction_allows sends r)"
  by (auto simp: narrow_def restriction_allows_def fold_union_ops ops_intersect_def ops_none_def split: option.splits)

lemma fold_narrow:
  "op_read (fold narrow rs o1) = (op_read o1 \<and> list_all (restriction_allows reads) rs)"
  "op_send (fold narrow rs o1) = (op_send o1 \<and> list_all (restriction_allows sends) rs)"
  by (induction rs arbitrary: o1) (auto simp: narrow_ops)

section \<open>Properties\<close>

text \<open>What may be done on an address now is the grant's action narrowed by every restriction
  whose pattern matches the address: reading (sending) is allowed exactly when the grant's
  action allows it and each such restriction either names no capabilities or names one that
  allows it. Adding restrictions never allows more.\<close>

theorem allowed_ops_narrowed:
  "op_read (allowed_ops cfg address auth) =
     (reads (mail_action auth) \<and> list_all (restriction_allows reads) (restrictions_for cfg address))
   \<and> op_send (allowed_ops cfg address auth) =
     (sends (mail_action auth) \<and> list_all (restriction_allows sends) (restrictions_for cfg address))
   \<and> ops_is_subset (allowed_ops (cfg\<lparr>mc_restrictions := mc_restrictions cfg @ extra\<rparr>) address auth)
       (allowed_ops cfg address auth)"
  by (auto simp: allowed_ops_def fold_narrow ops_of_def ops_is_subset_def restrictions_for_def list_all_iff)

end
