(* ===== verification/Policy.thy ===== *)
theory Policy
  imports Policy_Mail
begin

text \<open>
  The policy file as a whole (\<open>core/src/policy/mod.rs\<close>): overlays, the validated policy and how one
  is made from a parsed document. The parsers of single sections are derived by \<open>serde\<close> and are a
  parameter (\<open>serde_lib\<close>, one field per section type), and so is the YAML reader. The lemmas show
  what every policy that loads satisfies, whatever those parsers do.
\<close>

section \<open>Overlays\<close>

text \<open>
  \<open>overlay(base, extra)\<close>: each entry of the overlay's object is merged into the base's, one
  after the other; lists put the overlay first; anything else is replaced.
\<close>

fun overlay :: "json \<Rightarrow> json \<Rightarrow> json"
  and overlay_entries :: "json_map \<Rightarrow> (string \<times> json) list \<Rightarrow> json_map" where
  "overlay base (JObj extra) =
     (case base of JObj b \<Rightarrow> JObj (overlay_entries b extra) | _ \<Rightarrow> JObj extra)"
| "overlay base (JArr extra) = (case base of JArr b \<Rightarrow> JArr (extra @ b) | _ \<Rightarrow> JArr extra)"
| "overlay base extra = extra"
| "overlay_entries b [] = b"
| "overlay_entries b ((key, value) # extra) =
     overlay_entries
       (binsert key (case bget b key of Some old \<Rightarrow> overlay old value | None \<Rightarrow> value) (bremove key b)) extra"

section \<open>The policy\<close>

datatype policy_error =
  Policy_msg string
| Yaml_error string
| In_overlay string policy_error
| Section_error string string
| Bad_project_name name_error
| Bad_rule_resource nat pattern_error

record platforms_config =
  p_github :: github_config
  p_homelab :: homelab_config
  p_kubernetes :: kubernetes_config
  p_agents :: agents_config
  p_hostexec :: hostexec_config
  p_mcp :: mcp_config
  p_models :: models_config
  p_google :: google_config
  p_pools :: "(string, pool_config) bmap"
  p_mail :: mail_config

definition default_platforms :: platforms_config where
  "default_platforms = \<lparr>p_github = default_github, p_homelab = default_homelab, p_kubernetes = default_kubernetes,
     p_agents = default_agents, p_hostexec = default_hostexec, p_mcp = default_mcp, p_models = default_models,
     p_google = [], p_pools = [], p_mail = default_mail\<rparr>"

record policy =
  pol_defaults :: defaults
  pol_llm :: llm_config
  pol_platforms :: platforms_config
  pol_desktop :: desktop_config
  pol_wiki :: wiki_config
  pol_ui :: ui_config
  pol_notify :: notify_config
  pol_containment :: containment_config
  pol_restricted :: "(string, restricted_zone) bmap"
  pol_audit :: audit_config
  pol_evals :: evals_config
  pol_remote_mcp :: remote_mcp_config
  pol_projects :: "(string, project_config) bmap"
  pol_rules :: "policy_rule list"

definition default_policy :: policy where
  "default_policy = \<lparr>pol_defaults = default_defaults, pol_llm = default_llm, pol_platforms = default_platforms,
     pol_desktop = default_desktop, pol_wiki = default_wiki, pol_ui = default_ui,
     pol_notify = \<lparr>nt_auto_approvals = False, nt_skip_platforms = []\<rparr>,
     pol_containment = \<lparr>ct_agents = [], ct_allow_all = False\<rparr>, pol_restricted = [],
     pol_audit = \<lparr>au_readers = []\<rparr>, pol_evals = default_evals, pol_remote_mcp = default_remote_mcp,
     pol_projects = [], pol_rules = []\<rparr>"

definition SECTIONS :: "string list" where
  "SECTIONS = [''defaults'', ''llm'', ''platforms'', ''desktop'', ''wiki'', ''ui'', ''notify'', ''containment'',
     ''restricted'', ''audit'', ''evals'', ''remote_mcp'', ''projects'', ''rules'']"

definition PLATFORM_SECTIONS :: "string list" where
  "PLATFORM_SECTIONS = [''github'', ''homelab'', ''kubernetes'', ''agents'', ''hostexec'', ''mcp'', ''models'',
     ''google'', ''pools'', ''mail'']"

text \<open>The section parsers: a value, or the parser's error text.\<close>

record serde_lib =
  s_defaults :: "json \<Rightarrow> (string, defaults) result"
  s_llm :: "json \<Rightarrow> (string, llm_config) result"
  s_github :: "json \<Rightarrow> (string, github_config) result"
  s_homelab :: "json \<Rightarrow> (string, homelab_config) result"
  s_kubernetes :: "json \<Rightarrow> (string, kubernetes_config) result"
  s_agents :: "json \<Rightarrow> (string, agents_config) result"
  s_hostexec :: "json \<Rightarrow> (string, hostexec_config) result"
  s_mcp :: "json \<Rightarrow> (string, mcp_config) result"
  s_models :: "json \<Rightarrow> (string, models_config) result"
  s_google :: "json \<Rightarrow> (string, google_config) result"
  s_pool :: "json \<Rightarrow> (string, pool_config) result"
  s_mail :: "json \<Rightarrow> (string, mail_config) result"
  s_desktop :: "json \<Rightarrow> (string, desktop_config) result"
  s_wiki :: "json \<Rightarrow> (string, wiki_config) result"
  s_ui :: "json \<Rightarrow> (string, ui_config) result"
  s_notify :: "json \<Rightarrow> (string, notify_config) result"
  s_containment :: "json \<Rightarrow> (string, containment_config) result"
  s_zone :: "json \<Rightarrow> (string, restricted_zone) result"
  s_audit :: "json \<Rightarrow> (string, audit_config) result"
  s_evals :: "json \<Rightarrow> (string, evals_config) result"
  s_remote_mcp :: "json \<Rightarrow> (string, remote_mcp_config) result"
  s_project :: "json \<Rightarrow> (string, project_config) result"
  s_rule :: "json \<Rightarrow> (string, policy_rule) result"

definition parse_section :: "string \<Rightarrow> (json \<Rightarrow> (string, 'a) result) \<Rightarrow> json \<Rightarrow> (policy_error, 'a) result" where
  "parse_section loc parser value = map_err (Section_error loc) (parser value)"

text \<open>\<open>if let Some(v) = map.remove(key) { field = f(v)? }\<close>: the default stays when the key is absent.\<close>

definition section_of :: "json_map \<Rightarrow> string \<Rightarrow> 'a \<Rightarrow> (json \<Rightarrow> (policy_error, 'a) result) \<Rightarrow> (policy_error, 'a) result" where
  "section_of m key dflt f = (case bget m key of None \<Rightarrow> Ok dflt | Some v \<Rightarrow> f v)"

definition take_object :: "string \<Rightarrow> json \<Rightarrow> (policy_error, json_map) result" where
  "take_object loc value = (case value of JObj m \<Rightarrow> Ok m | _ \<Rightarrow> Err (Policy_msg (loc @ '': a mapping'')))"

definition refuse_unknown :: "string \<Rightarrow> json_map \<Rightarrow> string list \<Rightarrow> (policy_error, unit) result" where
  "refuse_unknown loc m known =
     (case find (\<lambda>k. k \<notin> set known) (bkeys m) of
        None \<Rightarrow> Ok ()
      | Some key \<Rightarrow> Err (Policy_msg (loc @ ''unknown field `'' @ key @ ''`, expected one of ''
          @ join '', '' (map (\<lambda>k. ''`'' @ k @ ''`'') known))))"

definition parse_pool :: "serde_lib \<Rightarrow> string \<times> json \<Rightarrow> (policy_error, string \<times> pool_config) result" where
  "parse_pool lib entry =
     (case entry of (name, value) \<Rightarrow>
       bind (parse_section (''platforms.pools.'' @ name) (s_pool lib) value) (\<lambda>pool.
       bind (map_err (\<lambda>e. Policy_msg (''platforms.pools: '' @ e)) (pool_validate name pool)) (\<lambda>_.
       Ok (name, pool))))"

definition parse_platforms :: "serde_lib \<Rightarrow> json \<Rightarrow> (policy_error, platforms_config) result" where
  "parse_platforms lib value =
     bind (take_object ''platforms'' value) (\<lambda>m.
     bind (refuse_unknown ''platforms: '' m PLATFORM_SECTIONS) (\<lambda>_.
     bind (section_of m ''github'' default_github (\<lambda>v.
       map_ok github_normalize (parse_section ''platforms.github'' (s_github lib) v))) (\<lambda>github.
     bind (section_of m ''homelab'' default_homelab (\<lambda>v.
       bind (parse_section ''platforms.homelab'' (s_homelab lib) v) (\<lambda>h.
       bind (map_err (\<lambda>e. Policy_msg (''platforms.homelab.'' @ e)) (homelab_validate h)) (\<lambda>_. Ok h)))) (\<lambda>homelab.
     bind (section_of m ''kubernetes'' default_kubernetes (\<lambda>v.
       bind (parse_section ''platforms.kubernetes'' (s_kubernetes lib) v) (\<lambda>k.
       map_err (\<lambda>e. Policy_msg (''platforms.kubernetes.'' @ e)) (kubernetes_normalize k)))) (\<lambda>kubernetes.
     bind (section_of m ''agents'' default_agents (parse_section ''platforms.agents'' (s_agents lib))) (\<lambda>agents.
     bind (section_of m ''hostexec'' default_hostexec (parse_section ''platforms.hostexec'' (s_hostexec lib))) (\<lambda>hostexec.
     bind (section_of m ''mcp'' default_mcp (\<lambda>v.
       bind (parse_section ''platforms.mcp'' (s_mcp lib) v) (\<lambda>c.
       bind (map_err Policy_msg (mcp_validate c)) (\<lambda>_. Ok c)))) (\<lambda>mcp.
     bind (section_of m ''models'' default_models (\<lambda>v.
       bind (parse_section ''platforms.models'' (s_models lib) v) (\<lambda>c.
       bind (map_err Policy_msg (models_validate c)) (\<lambda>_. Ok c)))) (\<lambda>models.
     bind (section_of m ''google'' [] (\<lambda>v.
       bind (parse_section ''platforms.google'' (s_google lib) v) (\<lambda>c.
       map_err (\<lambda>e. Policy_msg (''platforms.google: '' @ e)) (google_normalize c)))) (\<lambda>google.
     bind (section_of m ''pools'' [] (\<lambda>v.
       bind (take_object ''platforms.pools'' v) (\<lambda>pools.
       map_ok bcollect (try_map (parse_pool lib) pools)))) (\<lambda>pools.
     bind (section_of m ''mail'' default_mail (\<lambda>v.
       bind (parse_section ''platforms.mail'' (s_mail lib) v) (\<lambda>c.
       map_err Policy_msg (mail_validate c)))) (\<lambda>mail.
     bind (map_err Policy_msg (cross_check mail google)) (\<lambda>_.
     Ok \<lparr>p_github = github, p_homelab = homelab, p_kubernetes = kubernetes, p_agents = agents,
         p_hostexec = hostexec, p_mcp = mcp, p_models = models, p_google = google, p_pools = pools,
         p_mail = mail\<rparr>)))))))))))))"

definition parse_zone :: "serde_lib \<Rightarrow> string \<times> json \<Rightarrow> (policy_error, string \<times> restricted_zone) result" where
  "parse_zone lib entry =
     (case entry of (name, value) \<Rightarrow>
       let loc = ''restricted.'' @ name in
       bind (parse_section loc (s_zone lib) value) (\<lambda>z0.
       let z = zone_normalize z0 in
       bind (map_err (\<lambda>e. Policy_msg (loc @ '': '' @ e)) (zone_validate z)) (\<lambda>_. Ok (name, z))))"

definition parse_project :: "serde_lib \<Rightarrow> string \<times> json \<Rightarrow> (policy_error, string \<times> project_config) result" where
  "parse_project lib entry =
     (case entry of (name, value) \<Rightarrow>
       bind (map_err Bad_project_name (attr_value_parse name)) (\<lambda>key.
       bind (parse_section (''projects.'' @ name) (s_project lib) value) (\<lambda>p. Ok (key, p))))"

fun parse_rules :: "serde_lib \<Rightarrow> nat \<Rightarrow> json list \<Rightarrow> (policy_error, policy_rule list) result" where
  "parse_rules lib i [] = Ok []"
| "parse_rules lib i (v # vs) =
     bind (parse_section (''rules['' @ show_nat i @ '']'') (s_rule lib) v) (\<lambda>r.
     map_ok (\<lambda>rs. r # rs) (parse_rules lib (i + 1) vs))"

definition normalize_rule :: "policy_rule \<Rightarrow> policy_rule" where
  "normalize_rule r =
     (if m_platform (r_match r) = Some Github
      then r\<lparr>r_match := (r_match r)\<lparr>m_resource := to_lowercase (m_resource (r_match r))\<rparr>\<rparr> else r)"

definition deny_wiki :: "string \<Rightarrow> glob list \<Rightarrow> glob list" where
  "deny_wiki wiki deny =
     (if wiki \<noteq> [] \<and> \<not> list_ex (\<lambda>g. source g = wiki) deny then deny @ [Glob (escape wiki)] else deny)"

definition normalize_case :: "policy \<Rightarrow> policy" where
  "normalize_case p =
     (let wiki = to_lowercase (wk_repo (pol_wiki p));
          platforms = pol_platforms p; github = p_github platforms
      in p\<lparr>pol_wiki := (pol_wiki p)\<lparr>wk_repo := wiki\<rparr>,
           pol_projects := map (\<lambda>(k, v). (k, v\<lparr>repos := map to_lowercase (repos v)\<rparr>)) (pol_projects p),
           pol_rules := map normalize_rule (pol_rules p),
           pol_platforms := platforms\<lparr>p_github :=
             github\<lparr>gh_repo_denylist := deny_wiki wiki (gh_repo_denylist github)\<rparr>\<rparr>\<rparr>)"

definition indexed :: "string \<Rightarrow> 'a list \<Rightarrow> (string \<times> 'a) list" where
  "indexed name xs = map (\<lambda>(i, x). (name @ ''['' @ show_nat i @ '']'', x)) (enumerate 0 xs)"

definition pool_patterns :: "string \<times> pool_config \<Rightarrow> (string \<times> agent_pattern) list" where
  "pool_patterns entry =
     (case entry of (name, pool) \<Rightarrow>
       indexed (''platforms.pools.'' @ name @ ''.agents'') (pc_agents pool)
       @ concat (map (\<lambda>(item, spec).
           indexed (''platforms.pools.'' @ name @ ''.items.'' @ item @ ''.agents'') (pi_agents spec)) (pc_items pool)))"

text \<open>Every agent pattern of the policy with where it stands, in the order they are checked.\<close>

definition policy_patterns :: "policy \<Rightarrow> (string \<times> agent_pattern) list" where
  "policy_patterns p =
     map (\<lambda>(w, r). (w, m_agent (r_match r))) (indexed ''rules'' (pol_rules p))
     @ concat (map (\<lambda>(w, r). case m_delegator (r_match r) of None \<Rightarrow> [] | Some d \<Rightarrow> [(w @ '' delegator'', d)])
         (indexed ''rules'' (pol_rules p)))
     @ indexed ''desktop.agents'' (dk_agents (pol_desktop p))
     @ indexed ''wiki.editors'' (wk_editors (pol_wiki p))
     @ indexed ''containment.agents'' (ct_agents (pol_containment p))
     @ indexed ''audit.readers'' (au_readers (pol_audit p))
     @ concat (map pool_patterns (p_pools (pol_platforms p)))
     @ concat (map (\<lambda>(name, z). indexed (''restricted.'' @ name @ ''.members'') (z_members z)) (pol_restricted p))"

definition ORCHESTRATOR_RUNTIME :: string where
  "ORCHESTRATOR_RUNTIME = ''orchestrator''"

definition runtime_ok :: "string \<Rightarrow> bool" where
  "runtime_ok r = (r \<noteq> [] \<and> list_all (\<lambda>c. is_ascii_lowercase c \<or> is_ascii_digit c) r)"

definition check_runtimes :: "policy \<Rightarrow> (policy_error, unit) result" where
  "check_runtimes p =
     (let runtimes = ag_runtimes (p_agents (pol_platforms p)) in
      if ORCHESTRATOR_RUNTIME \<in> set runtimes then
        Err (Policy_msg (''platforms.agents.runtimes: 'orchestrator' is the agent VM's own runtime, not one to mint''))
      else case find (\<lambda>r. \<not> runtime_ok r) runtimes of
        Some r \<Rightarrow> Err (Policy_msg (''platforms.agents.runtimes: '' @ repr_string r
          @ '' must be lowercase letters and digits (no '-': <runtime>-<project>-<host>-sandbox must read one way)''))
      | None \<Rightarrow> Ok ())"

definition check_pattern :: "policy \<Rightarrow> string \<times> agent_pattern \<Rightarrow> (policy_error, unit) result" where
  "check_pattern p entry =
     (case entry of (loc, pattern) \<Rightarrow>
       case find (\<lambda>proj. bget (pol_projects p) proj = None) (pattern_projects pattern) of
         Some proj \<Rightarrow> Err (Policy_msg (loc @ '': project '' @ repr_string proj @ '' is not listed under `projects`''))
       | None \<Rightarrow> Ok ())"

definition check_remote_mcp :: "policy \<Rightarrow> (policy_error, unit) result" where
  "check_remote_mcp p =
     (let rm = pol_remote_mcp p; ui = pol_ui p in
      if \<not> rm_enabled rm then Ok ()
      else if ui_issuer ui = [] \<or> ui_client_id ui = [] \<or> rm_base_url rm = [] then
        Err (Policy_msg ''remote_mcp needs base_url, and ui.issuer and ui.client_id to sign in with'')
      else let unknown = bset_of (filter (\<lambda>t. t \<notin> set MCP_TOOL_NAMES) (rm_tools rm)) in
        if unknown \<noteq> [] then Err (Policy_msg (''remote_mcp.tools: no such tools: '' @ join '', '' unknown))
        else case find (\<lambda>u. \<not> redirect_uri_ok u) (rm_redirect_uris rm) of
          Some bad \<Rightarrow> Err (Policy_msg (''remote_mcp.redirect_uris: '' @ repr_string bad
            @ '' is not an https URL without a fragment''))
        | None \<Rightarrow> Ok ())"

definition check_references :: "policy \<Rightarrow> (policy_error, unit) result" where
  "check_references p =
     bind (check_runtimes p) (\<lambda>_.
     bind (try_map (check_pattern p) (policy_patterns p)) (\<lambda>_.
     bind (check_remote_mcp p) (\<lambda>_.
     bind (try_map (\<lambda>(i, r). map_err (Bad_rule_resource i) (check_resource (m_resource (r_match r))))
            (enumerate 0 (pol_rules p))) (\<lambda>_. Ok ()))))"

definition policy_sections :: "serde_lib \<Rightarrow> json_map \<Rightarrow> (policy_error, policy) result" where
  "policy_sections lib m =
     bind (section_of m ''defaults'' default_defaults (parse_section ''defaults'' (s_defaults lib))) (\<lambda>defaults.
     bind (section_of m ''llm'' default_llm (parse_section ''llm'' (s_llm lib))) (\<lambda>llm.
     bind (section_of m ''platforms'' default_platforms (parse_platforms lib)) (\<lambda>platforms.
     bind (section_of m ''desktop'' default_desktop (parse_section ''desktop'' (s_desktop lib))) (\<lambda>desktop.
     bind (section_of m ''wiki'' default_wiki (parse_section ''wiki'' (s_wiki lib))) (\<lambda>wiki.
     bind (section_of m ''ui'' default_ui (parse_section ''ui'' (s_ui lib))) (\<lambda>ui.
     bind (section_of m ''notify'' (pol_notify default_policy) (parse_section ''notify'' (s_notify lib))) (\<lambda>notify.
     bind (section_of m ''containment'' (pol_containment default_policy)
       (parse_section ''containment'' (s_containment lib))) (\<lambda>containment.
     bind (section_of m ''restricted'' [] (\<lambda>v.
       bind (take_object ''restricted'' v) (\<lambda>zones. map_ok bcollect (try_map (parse_zone lib) zones)))) (\<lambda>restricted.
     bind (section_of m ''audit'' (pol_audit default_policy) (parse_section ''audit'' (s_audit lib))) (\<lambda>audit.
     bind (section_of m ''evals'' default_evals (\<lambda>v.
       bind (parse_section ''evals'' (s_evals lib) v) (\<lambda>e.
       bind (map_err Policy_msg (evals_validate e)) (\<lambda>_. Ok e)))) (\<lambda>evals.
     bind (section_of m ''remote_mcp'' default_remote_mcp (parse_section ''remote_mcp'' (s_remote_mcp lib))) (\<lambda>remote_mcp.
     bind (section_of m ''projects'' [] (\<lambda>v.
       bind (take_object ''projects'' v) (\<lambda>ps. map_ok bcollect (try_map (parse_project lib) ps)))) (\<lambda>projects.
     bind (section_of m ''rules'' [] (\<lambda>v.
       case v of JArr rules \<Rightarrow> parse_rules lib 0 rules | _ \<Rightarrow> Err (Policy_msg ''rules: a list''))) (\<lambda>rules.
     Ok \<lparr>pol_defaults = defaults, pol_llm = llm, pol_platforms = platforms, pol_desktop = desktop,
         pol_wiki = wiki, pol_ui = ui, pol_notify = notify, pol_containment = containment,
         pol_restricted = restricted, pol_audit = audit, pol_evals = evals, pol_remote_mcp = remote_mcp,
         pol_projects = projects, pol_rules = rules\<rparr>))))))))))))))"

definition from_value :: "serde_lib \<Rightarrow> json \<Rightarrow> (policy_error, policy) result" where
  "from_value lib value =
     bind (case value of
             JNull \<Rightarrow> Ok []
           | JObj m \<Rightarrow> Ok m
           | _ \<Rightarrow> Err (Policy_msg ''the policy is a mapping at the top level'')) (\<lambda>m.
     bind (refuse_unknown [] m SECTIONS) (\<lambda>_.
     bind (policy_sections lib m) (\<lambda>p0.
     bind (map_err Policy_msg (wiki_validate (pol_wiki p0))) (\<lambda>_.
     bind (map_err Policy_msg (ui_validate (pol_ui p0))) (\<lambda>_.
     let p = normalize_case p0 in
     bind (check_references p) (\<lambda>_. Ok p))))))"

text \<open>\<open>load\<close>, with the YAML reader as a parameter: a document, or its error.\<close>

fun merge_overlays ::
  "(string \<Rightarrow> (policy_error, json) result) \<Rightarrow> json \<Rightarrow> (string \<times> string) list \<Rightarrow> (policy_error, json) result" where
  "merge_overlays yaml data [] = Ok data"
| "merge_overlays yaml data ((path, txt) # overlays) =
     bind (map_err (In_overlay path) (yaml txt)) (\<lambda>extra. merge_overlays yaml (overlay data extra) overlays)"

definition load ::
  "serde_lib \<Rightarrow> (string \<Rightarrow> (policy_error, json) result) \<Rightarrow> string \<Rightarrow> (string \<times> string) list
   \<Rightarrow> (policy_error, policy) result" where
  "load lib yaml base overlays =
     bind (yaml base) (\<lambda>data. bind (merge_overlays yaml data overlays) (from_value lib))"

definition sensitivity :: "policy \<Rightarrow> sensitivity_config" where
  "sensitivity p =
     (let k8s = p_kubernetes (pol_platforms p) in
      \<lparr>github_sensitive_permissions = bset_of (gh_sensitive_permissions (p_github (pol_platforms p))),
       kubernetes_sensitive_roles = bset_of (k8s_sensitive_roles k8s),
       kubernetes_sensitive_namespaces = k8s_sensitive_namespaces k8s,
       kubernetes_cluster_grant_namespace = k8s_cluster_grant_namespace k8s,
       pool_sensitive_items = map (\<lambda>(name, pool).
         (name, bset_of (map fst (filter (\<lambda>(n, item). pi_sensitive item) (pc_items pool))))) (p_pools (pol_platforms p)),
       mail_mailboxes = mailbox_addresses (p_mail (pol_platforms p))\<rparr>)"

section \<open>What an overlay does\<close>

lemma overlay_entries_ok: "bmap_ok b \<Longrightarrow> bmap_ok (overlay_entries b extra)"
  by (induction b extra rule: overlay_overlay_entries.induct(2)[where P = "\<lambda>_ _. True"]) auto

lemma bget_overlay_entries:
  "bmap_ok b \<Longrightarrow> distinct (bkeys extra) \<Longrightarrow>
   bget (overlay_entries b extra) k =
     (case bget extra k of
        None \<Rightarrow> bget b k
      | Some v \<Rightarrow> Some (case bget b k of Some old \<Rightarrow> overlay old v | None \<Rightarrow> v))"
proof (induction extra arbitrary: b)
  case (Cons kv extra)
  obtain key v where kv: "kv = (key, v)" by (cases kv)
  let ?b = "binsert key (case bget b key of Some old \<Rightarrow> overlay old v | None \<Rightarrow> v) (bremove key b)"
  have "bmap_ok ?b" using Cons.prems(1) by simp
  moreover have "bget extra key = None"
    using Cons.prems(2) by (auto simp: kv map_of_eq_None_iff)
  moreover have "bget ?b k = (if k = key then Some (case bget b key of Some old \<Rightarrow> overlay old v | None \<Rightarrow> v)
      else bget b k)"
    using Cons.prems(1) by (simp add: bget_bremove)
  moreover have "distinct (bkeys extra)" using Cons.prems(2) by (simp add: kv)
  ultimately show ?case
    using Cons.IH[of ?b] by (cases "k = key"; cases "bget extra k") (simp_all add: kv del: bget_binsert)
qed simp

lemma distinct_bkeys: "bmap_ok m \<Longrightarrow> distinct (bkeys m)"
  by (simp add: bmap_ok_sorted_distinct)

section \<open>What a policy that loads satisfies\<close>

definition zone_ok :: "restricted_zone \<Rightarrow> bool" where
  "zone_ok z = (z_members z \<noteq> [] \<and> list_all (\<lambda>g. to_lowercase (source g) = source g) (z_kubernetes z @ z_github z))"

definition pool_ok :: "pool_config \<Rightarrow> bool" where
  "pool_ok pool = (1 \<le> pc_capacity pool \<and> pc_capacity pool \<le> 100
     \<and> 1 \<le> pc_max_per_agent pool \<and> pc_max_per_agent pool \<le> MAX_POOL_PER_AGENT)"

definition runtimes_ok :: "string list \<Rightarrow> bool" where
  "runtimes_ok rs = (ORCHESTRATOR_RUNTIME \<notin> set rs \<and> list_all runtime_ok rs)"

definition projects_declared :: "policy \<Rightarrow> bool" where
  "projects_declared p =
     list_all (\<lambda>(w, pattern). list_all (\<lambda>proj. bget (pol_projects p) proj \<noteq> None) (pattern_projects pattern))
       (policy_patterns p)"

definition wiki_denied :: "policy \<Rightarrow> bool" where
  "wiki_denied p = (wk_repo (pol_wiki p) = []
     \<or> list_ex (\<lambda>g. glob_matches g (wk_repo (pol_wiki p))) (gh_repo_denylist (p_github (pol_platforms p))))"

definition policy_ok :: "policy \<Rightarrow> bool" where
  "policy_ok p = (list_all (\<lambda>(n, z). zone_ok z) (pol_restricted p)
     \<and> list_all (\<lambda>(n, pool). pool_ok pool) (p_pools (pol_platforms p))
     \<and> runtimes_ok (ag_runtimes (p_agents (pol_platforms p))) \<and> projects_declared p \<and> wiki_denied p
     \<and> list_all (\<lambda>r. check_resource (m_resource (r_match r)) = Ok ()) (pol_rules p))"

lemma source_lower_glob [simp]: "to_lowercase (source (lower_glob g)) = source (lower_glob g)"
  by (simp add: lower_glob_def)

lemma try_map_bcollect_all:
  assumes "try_map f xs = Ok ys" "\<And>x y. f x = Ok y \<Longrightarrow> P y"
  shows "list_all P (bcollect ys)"
  using try_map_Ok_set[OF assms(1) bcollect_entries] assms(2) by (fastforce simp: list_all_iff)

lemma parse_zone_ok: "parse_zone lib e = Ok (n, z) \<Longrightarrow> zone_ok z"
  by (cases e) (auto simp: parse_zone_def Let_def bind_Ok_iff zone_ok_def zone_validate_def zone_normalize_def
      list_all_iff split: if_split_asm)

lemma parse_pool_ok: "parse_pool lib e = Ok (n, pool) \<Longrightarrow> pool_ok pool"
  by (cases e) (auto simp: parse_pool_def bind_Ok_iff map_err_Ok_iff pool_ok_def pool_validate_def
      split: if_split_asm option.split_asm)

lemma section_cases: "section_of m key d f = Ok x \<Longrightarrow> x = d \<or> (\<exists>v. f v = Ok x)"
  by (auto simp: section_of_def split: option.splits)

lemma parse_platforms_pools: "parse_platforms lib v = Ok c \<Longrightarrow> list_all (\<lambda>(n, pool). pool_ok pool) (p_pools c)"
proof -
  assume "parse_platforms lib v = Ok c"
  then obtain m where s: "section_of m ''pools'' [] (\<lambda>v. bind (take_object ''platforms.pools'' v) (\<lambda>pools.
      map_ok bcollect (try_map (parse_pool lib) pools))) = Ok (p_pools c)"
    unfolding parse_platforms_def bind_Ok_iff by auto
  from section_cases[OF s] show ?thesis
  proof
    assume "\<exists>v. bind (take_object ''platforms.pools'' v) (\<lambda>pools.
      map_ok bcollect (try_map (parse_pool lib) pools)) = Ok (p_pools c)"
    then obtain pools ps where "try_map (parse_pool lib) pools = Ok ps" "p_pools c = bcollect ps"
      by (auto simp: bind_Ok_iff map_ok_Ok_iff)
    then show ?thesis by (auto intro!: try_map_bcollect_all[where f = "parse_pool lib"] dest: parse_pool_ok)
  qed simp
qed

lemma policy_sections_ok:
  assumes "policy_sections lib m = Ok p"
  shows "list_all (\<lambda>(n, z). zone_ok z) (pol_restricted p)"
    and "list_all (\<lambda>(n, pool). pool_ok pool) (p_pools (pol_platforms p))"
proof -
  from assms have z: "section_of m ''restricted'' [] (\<lambda>v. bind (take_object ''restricted'' v) (\<lambda>zones.
      map_ok bcollect (try_map (parse_zone lib) zones))) = Ok (pol_restricted p)"
    and c: "section_of m ''platforms'' default_platforms (parse_platforms lib) = Ok (pol_platforms p)"
    unfolding policy_sections_def bind_Ok_iff by auto
  from section_cases[OF z] show "list_all (\<lambda>(n, z). zone_ok z) (pol_restricted p)"
  proof
    assume "\<exists>v. bind (take_object ''restricted'' v) (\<lambda>zones.
      map_ok bcollect (try_map (parse_zone lib) zones)) = Ok (pol_restricted p)"
    then obtain zones zs where "try_map (parse_zone lib) zones = Ok zs" "pol_restricted p = bcollect zs"
      by (auto simp: bind_Ok_iff map_ok_Ok_iff)
    then show ?thesis by (auto intro!: try_map_bcollect_all[where f = "parse_zone lib"] dest: parse_zone_ok)
  qed simp
  from section_cases[OF c] show "list_all (\<lambda>(n, pool). pool_ok pool) (p_pools (pol_platforms p))"
    by (auto simp: default_platforms_def dest: parse_platforms_pools)
qed

lemma check_runtimes_ok: "check_runtimes p = Ok () \<Longrightarrow> runtimes_ok (ag_runtimes (p_agents (pol_platforms p)))"
  by (auto simp: check_runtimes_def runtimes_ok_def Let_def find_None_iff list_all_iff
      split: if_split_asm option.split_asm)

lemma try_map_unit: "try_map f xs = Ok ys \<Longrightarrow> x \<in> set xs \<Longrightarrow> \<exists>y. f x = Ok y"
  by (induction xs arbitrary: ys) (auto simp: bind_Ok_iff)

lemma check_pattern_ok:
  "check_pattern p (w, pattern) = Ok u \<Longrightarrow>
   list_all (\<lambda>proj. bget (pol_projects p) proj \<noteq> None) (pattern_projects pattern)"
  by (auto simp: check_pattern_def find_None_iff list_all_iff split: option.split_asm)

lemma check_references_ok:
  assumes "check_references p = Ok u"
  shows "runtimes_ok (ag_runtimes (p_agents (pol_platforms p)))" "projects_declared p"
    "list_all (\<lambda>r. check_resource (m_resource (r_match r)) = Ok ()) (pol_rules p)"
proof -
  from assms obtain us vs where r: "check_runtimes p = Ok ()"
    and pats: "try_map (check_pattern p) (policy_patterns p) = Ok us"
    and res: "try_map (\<lambda>(i, r). map_err (Bad_rule_resource i) (check_resource (m_resource (r_match r))))
        (enumerate 0 (pol_rules p)) = Ok vs"
    by (auto simp: check_references_def bind_Ok_iff)
  show "runtimes_ok (ag_runtimes (p_agents (pol_platforms p)))" using check_runtimes_ok[OF r] .
  show "projects_declared p"
    unfolding projects_declared_def list_all_iff[of _ "policy_patterns p"]
    using try_map_unit[OF pats] check_pattern_ok by fastforce
  show "list_all (\<lambda>r. check_resource (m_resource (r_match r)) = Ok ()) (pol_rules p)"
    unfolding list_all_iff
  proof
    fix r assume "r \<in> set (pol_rules p)"
    then obtain i where "i < length (pol_rules p)" "r = pol_rules p ! i" by (auto simp: in_set_conv_nth)
    then have "(i, r) \<in> set (enumerate 0 (pol_rules p))" by (simp add: in_set_enumerate_eq)
    from try_map_unit[OF res this] show "check_resource (m_resource (r_match r)) = Ok ()"
      by (auto simp: map_err_Ok_iff)
  qed
qed

text \<open>The wiki's repo holds no pattern character, so its text is its own literal pattern.\<close>

lemma lower_not_special: "to_lower_char c \<in> {CHR ''*'', CHR ''?'', CHR ''[''} \<Longrightarrow> c \<in> {CHR ''*'', CHR ''?'', CHR ''[''}"
proof -
  have "(of_char c :: nat) < 256" by simp
  then show "to_lower_char c \<in> {CHR ''*'', CHR ''?'', CHR ''[''} \<Longrightarrow> c \<in> {CHR ''*'', CHR ''?'', CHR ''[''}"
    by (auto simp: to_lower_char_def Let_def char_of_eq_iff take_bit_eq_mod split: if_split_asm)
qed

lemma escape_plain: "set s \<inter> {CHR ''*'', CHR ''?'', CHR ''[''} = {} \<Longrightarrow> escape s = s"
  by (induction s) (auto simp: escape_def)

lemma repo_part_plain: "repo_part s \<Longrightarrow> set s \<inter> {CHR ''*'', CHR ''?'', CHR ''[''} = {}"
proof -
  let ?ok = "\<lambda>c. is_ascii_alphanumeric c \<or> c \<in> set ''._-''"
  have special: "\<not> ?ok (CHR ''*'')" "\<not> ?ok (CHR ''?'')" "\<not> ?ok (CHR ''['')" by (simp_all add: char_simps)
  assume "repo_part s"
  then have "\<forall>c \<in> set s. ?ok c" by (simp add: repo_part_def list_all_iff)
  with special have "CHR ''*'' \<notin> set s" "CHR ''?'' \<notin> set s" "CHR ''['' \<notin> set s" by blast+
  then show ?thesis by simp
qed

lemma wiki_repo_plain:
  assumes "wiki_validate w = Ok u"
  shows "escape (to_lowercase (wk_repo w)) = to_lowercase (wk_repo w)"
proof (rule escape_plain)
  have "set (wk_repo w) \<inter> {CHR ''*'', CHR ''?'', CHR ''[''} = {}"
  proof (cases "wk_repo w = []")
    case False
    with assms obtain owner name where "split_once (CHR ''/'') (wk_repo w) = Some (owner, name)"
      and parts: "repo_part owner" "repo_part name"
      by (cases "split_once (CHR ''/'') (wk_repo w)") (auto simp: wiki_validate_def split: if_split_asm)
    then have "set (wk_repo w) = set owner \<union> {CHR ''/''} \<union> set name" by (auto simp: split_once_iff)
    then show ?thesis using repo_part_plain[OF parts(1)] repo_part_plain[OF parts(2)] by auto
  qed simp
  then show "set (to_lowercase (wk_repo w)) \<inter> {CHR ''*'', CHR ''?'', CHR ''[''} = {}"
    unfolding to_lowercase_def set_map using lower_not_special by blast
qed

lemma deny_wiki_matches:
  "escape wiki = wiki \<Longrightarrow> wiki = [] \<or> list_ex (\<lambda>g. glob_matches g wiki) (deny_wiki wiki deny)"
proof -
  assume e: "escape wiki = wiki"
  have m: "glob_matches (Glob wiki) wiki"
    using glob_escape_exact[of wiki wiki] by (simp add: fnmatch_def e)
  have "source g = wiki \<Longrightarrow> glob_matches g wiki" for g using m by (cases g) simp
  then show ?thesis using m e by (auto simp: deny_wiki_def list_ex_iff)
qed

section \<open>Properties\<close>

text \<open>C38: A policy that loads has passed every check, whatever the section parsers return: each
  restricted zone has a member and lowercased globs, each pool's bounds hold, no mintable
  runtime is the orchestrator's or can make a sandbox name ambiguous, every project an agent
  pattern names (in rules, delegators, lists, pools and zones) is declared, every rule's resource
  uses known placeholders only, and the wiki's repo is matched by the GitHub denylist.\<close>

theorem loaded_policy_checked:
  assumes "from_value lib value = Ok p"
  shows "policy_ok p"
proof -
  from assms obtain m p0 u v where sec: "policy_sections lib m = Ok p0"
    and wiki: "wiki_validate (pol_wiki p0) = Ok u" and p: "p = normalize_case p0"
    and refs: "check_references p = Ok v"
    by (auto simp: from_value_def bind_Ok_iff map_err_Ok_iff Let_def)
  have "wiki_denied p"
    using deny_wiki_matches[OF wiki_repo_plain[OF wiki]]
    by (simp add: p normalize_case_def Let_def wiki_denied_def)
  moreover have "pol_restricted p = pol_restricted p0" "p_pools (pol_platforms p) = p_pools (pol_platforms p0)"
    by (simp_all add: p normalize_case_def Let_def)
  ultimately show ?thesis
    using policy_sections_ok[OF sec] check_references_ok[OF refs] by (simp add: policy_ok_def)
qed

text \<open>A document with a wiki section only, and parsers that read that section.\<close>

definition wiki_only :: serde_lib where
  "wiki_only =
     \<lparr>s_defaults = \<lambda>v. Err ''not given'', s_llm = \<lambda>v. Err ''not given'', s_github = \<lambda>v. Err ''not given'',
       s_homelab = \<lambda>v. Err ''not given'', s_kubernetes = \<lambda>v. Err ''not given'', s_agents = \<lambda>v. Err ''not given'',
       s_hostexec = \<lambda>v. Err ''not given'', s_mcp = \<lambda>v. Err ''not given'', s_models = \<lambda>v. Err ''not given'',
       s_google = \<lambda>v. Err ''not given'', s_pool = \<lambda>v. Err ''not given'', s_mail = \<lambda>v. Err ''not given'',
       s_desktop = \<lambda>v. Err ''not given'',
       s_wiki = \<lambda>v. map_ok (\<lambda>r. default_wiki\<lparr>wk_repo := r\<rparr>) (ok_or (as_str v) ''a repo''),
       s_ui = \<lambda>v. Err ''not given'', s_notify = \<lambda>v. Err ''not given'', s_containment = \<lambda>v. Err ''not given'',
       s_zone = \<lambda>v. Err ''not given'', s_audit = \<lambda>v. Err ''not given'', s_evals = \<lambda>v. Err ''not given'',
       s_remote_mcp = \<lambda>v. Err ''not given'', s_project = \<lambda>v. Err ''not given'', s_rule = \<lambda>v. Err ''not given''\<rparr>"

theorem loaded_policy_checked_witness:
  "\<exists>p. from_value wiki_only (JObj [(''wiki'', JStr ''Acme/Wiki'')]) = Ok p
     \<and> wk_repo (pol_wiki p) = ''acme/wiki'' \<and> policy_ok p"
proof -
  let ?p0 = "default_policy\<lparr>pol_wiki := default_wiki\<lparr>wk_repo := ''Acme/Wiki''\<rparr>\<rparr>"
  let ?p = "normalize_case ?p0"
  have "from_value wiki_only (JObj [(''wiki'', JStr ''Acme/Wiki'')]) = Ok ?p"
    by (simp add: from_value_def refuse_unknown_def SECTIONS_def policy_sections_def section_of_def parse_section_def
        wiki_only_def wiki_validate_def repo_part_def char_simps ui_validate_def default_ui_def default_policy_def
        normalize_case_def check_references_def check_runtimes_def policy_patterns_def indexed_def
        check_remote_mcp_def default_platforms_def default_agents_def default_desktop_def default_wiki_def
        default_remote_mcp_def runtime_ok_def ORCHESTRATOR_RUNTIME_def Let_def)
  moreover from this have "policy_ok ?p" by (rule loaded_policy_checked)
  moreover have "wk_repo (pol_wiki ?p) = ''acme/wiki''"
    by (simp add: normalize_case_def Let_def default_wiki_def to_lowercase_def to_lower_char_def char_of_eq_iff)
  ultimately show ?thesis by blast
qed

text \<open>Merging an overlay is exact: in a merged mapping a key the overlay lacks keeps the base's
  value, a key the base lacks takes the overlay's, and a key of both is merged in turn; in
  particular the overlay's rules come before the base's, so they are matched first.\<close>

theorem overlay_exact:
  assumes "json_ok (JObj b)" "json_ok (JObj e)"
  shows "\<exists>m. overlay (JObj b) (JObj e) = JObj m \<and> bmap_ok m
    \<and> bget m k = (case bget e k of
        None \<Rightarrow> bget b k
      | Some v \<Rightarrow> Some (case bget b k of Some old \<Rightarrow> overlay old v | None \<Rightarrow> v))
    \<and> (bget b ''rules'' = Some (JArr base) \<and> bget e ''rules'' = Some (JArr first)
         \<longrightarrow> bget m ''rules'' = Some (JArr (first @ base)))"
proof -
  have ok: "bmap_ok b" "bmap_ok e" using assms by auto
  note get = bget_overlay_entries[OF ok(1) distinct_bkeys[OF ok(2)]]
  show ?thesis by (simp add: get overlay_entries_ok[OF ok(1)])
qed

theorem overlay_exact_witness:
  "let b = [(''rules'', JArr [JNull])]; e = [(''rules'', JArr [JBool True])] in
   json_ok (JObj b) \<and> json_ok (JObj e)
   \<and> (\<exists>m. overlay (JObj b) (JObj e) = JObj m \<and> bget m ''rules'' = Some (JArr [JBool True, JNull]))"
  using overlay_exact[of "[(''rules'', JArr [JNull])]" "[(''rules'', JArr [JBool True])]" "''rules''" "[JNull]" "[JBool True]"]
  by auto

end
