(* ===== verification/Zones.thy ===== *)
theory Zones
  imports Policy
begin

text \<open>
  Restricted zones (\<open>core/src/zones.rs\<close>): what belongs to a zone exists only for its members. The
  check runs before any rule is read; what the broker looks up for it is \<open>zone_facts\<close>. The lemmas
  show who is refused and with which words, and that facts that do not fit fail closed.
\<close>

datatype zone_facts =
  No_facts
| A2a_peer "agent_ref option"
| Sandbox_facts "string option" "agent_ref list"
| Agents_facts "string option"

record zone_passed =
  human_note :: "string option"

record zone_denied =
  denied_text :: string

definition request_reason :: "zone_denied \<Rightarrow> string" where
  "request_reason d = ''validator: '' @ denied_text d"

definition not_brokered :: "platform \<Rightarrow> string \<Rightarrow> string option" where
  "not_brokered p resource =
     (let r = repr_string resource in
      case p of
        Kubernetes \<Rightarrow> Some (''namespace '' @ r @ '' is not brokered (allowlist)'')
      | Github \<Rightarrow> Some (''repo '' @ r @ '' is never brokered (denylist)'')
      | A2a \<Rightarrow> Some (''unknown target agent '' @ r)
      | Sandbox_platform \<Rightarrow> Some (''no project '' @ r @ '' in this agent VM'')
      | _ \<Rightarrow> None)"

definition deny :: "platform \<Rightarrow> string \<Rightarrow> zone_denied" where
  "deny p resource = \<lparr>denied_text = (case not_brokered p resource of Some t \<Rightarrow> t | None \<Rightarrow> ''not brokered'')\<rparr>"

definition member_of :: "policy \<Rightarrow> agent_ref \<Rightarrow> string bset" where
  "member_of p a =
     (if kind a = Operator then []
      else bset_of (map fst (filter (\<lambda>(n, z). list_ex (\<lambda>pat. pattern_matches pat a) (z_members z)) (pol_restricted p))))"

definition is_member :: "policy \<Rightarrow> agent_ref \<Rightarrow> bool" where
  "is_member p a = (member_of p a \<noteq> [])"

definition zone_globs :: "platform \<Rightarrow> restricted_zone \<Rightarrow> glob list" where
  "zone_globs pf z = (case pf of Kubernetes \<Rightarrow> z_kubernetes z | Github \<Rightarrow> z_github z | _ \<Rightarrow> [])"

definition owner :: "policy \<Rightarrow> platform \<Rightarrow> string \<Rightarrow> string bset" where
  "owner p pf resource =
     bset_of (map fst (filter (\<lambda>(n, z).
       list_ex (\<lambda>g. glob_matches (Glob (to_lowercase (source g))) (to_lowercase resource)) (zone_globs pf z))
       (pol_restricted p)))"

definition outside :: "policy \<Rightarrow> agent_ref \<Rightarrow> platform \<Rightarrow> string \<Rightarrow> bool" where
  "outside p a pf resource = list_ex (\<lambda>z. z \<notin> set (member_of p a)) (owner p pf resource)"

definition excluded_namespaces :: "policy \<Rightarrow> agent_ref \<Rightarrow> string list" where
  "excluded_namespaces p a =
     bset_of (concat (map (\<lambda>(n, z). map source (z_kubernetes z))
       (filter (\<lambda>(n, z). n \<notin> set (member_of p a)) (pol_restricted p))))"

definition apart :: "policy \<Rightarrow> agent_ref \<Rightarrow> agent_ref \<Rightarrow> bool" where
  "apart p a b =
     (if kind a = Operator \<or> kind b = Operator then False else member_of p a \<noteq> member_of p b)"

definition may_write_wiki :: "policy \<Rightarrow> agent_ref \<Rightarrow> bool" where
  "may_write_wiki p a =
     list_all (\<lambda>n. is_some_and z_wiki (bget (pol_restricted p) n)) (member_of p a)"

definition zone_runtimes :: "policy \<Rightarrow> string bset" where
  "zone_runtimes p = bset_of (ORCHESTRATOR_RUNTIME # ag_runtimes (p_agents (pol_platforms p)))"

text \<open>Python's \<open>s[start:-end_from_back]\<close>, empty when the bounds cross.\<close>

definition py_slice :: "string \<Rightarrow> nat \<Rightarrow> nat \<Rightarrow> string" where
  "py_slice s start end_from_back =
     (let stop = length s - end_from_back in
      if start \<ge> stop then [] else take (stop - start) (drop start s))"

text \<open>The agent an agent VM would make of a runtime and a project.\<close>

definition would_be :: "string \<Rightarrow> string \<Rightarrow> string \<Rightarrow> string \<Rightarrow> agent_ref" where
  "would_be nm rt proj daemon = \<lparr>agent_name = nm, runtime = Some rt, project = Some proj, host = Some daemon,
     placement = Sandbox_placement, kind = Service\<rparr>"

definition reaches_in :: "policy \<Rightarrow> agent_ref \<Rightarrow> agent_ref \<Rightarrow> bool" where
  "reaches_in p a other = list_ex (\<lambda>z. z \<notin> set (member_of p a)) (member_of p other)"

definition sandbox_refused :: "policy \<Rightarrow> agent_ref \<Rightarrow> string \<Rightarrow> string option \<Rightarrow> agent_ref list \<Rightarrow> bool" where
  "sandbox_refused p a resource daemon project_agents =
     (list_ex (reaches_in p a) project_agents
      \<or> (case daemon of
           None \<Rightarrow> False
         | Some d \<Rightarrow> list_ex (\<lambda>rt. reaches_in p a
             (would_be (rt @ ''-'' @ resource @ ''-'' @ d @ ''-sandbox'') rt resource d)) (zone_runtimes p)))"

definition minted_zones :: "policy \<Rightarrow> string \<Rightarrow> string option \<Rightarrow> string option \<Rightarrow> string bset" where
  "minted_zones p resource rt daemon =
     (case daemon of
        None \<Rightarrow> []
      | Some d \<Rightarrow>
          let r = (case rt of None \<Rightarrow> [] | Some r \<Rightarrow> r); suffix = ''-'' @ d @ ''-sandbox'' in
          if r = [] \<or> strip_suffix suffix resource = None then []
          else member_of p (would_be resource r (py_slice resource (length r + 1) (length suffix)) d))"

definition mint_note :: "string bset \<Rightarrow> zone_passed" where
  "mint_note zones =
     (if zones = [] then \<lparr>human_note = None\<rparr>
      else \<lparr>human_note = Some (''mints an agent inside restricted zone '' @ join '', '' zones @ '': always a human'')\<rparr>)"

definition zone_check ::
  "policy \<Rightarrow> agent_ref \<Rightarrow> authority \<Rightarrow> string \<Rightarrow> zone_facts \<Rightarrow> (zone_denied, zone_passed) result" where
  "zone_check p a auth resource facts =
     (let pass = Ok \<lparr>human_note = None\<rparr>; pf = authority_platform auth in
      if pol_restricted p = [] then pass
      else case pf of
        Kubernetes \<Rightarrow> if outside p a pf resource then Err (deny pf resource) else pass
      | Github \<Rightarrow> if outside p a pf resource then Err (deny pf resource) else pass
      | A2a \<Rightarrow> (case facts of
            A2a_peer peer \<Rightarrow> if is_some_and (apart p a) peer then Err (deny pf resource) else pass
          | _ \<Rightarrow> Err (deny pf resource))
      | Sandbox_platform \<Rightarrow> (case facts of
            Sandbox_facts daemon project_agents \<Rightarrow>
              if sandbox_refused p a resource daemon project_agents then Err (deny pf resource) else pass
          | _ \<Rightarrow> Err (deny pf resource))
      | Agents_platform \<Rightarrow> (case facts of
            Agents_facts daemon \<Rightarrow>
              Ok (mint_note (minted_zones p resource
                (case auth of AuthAgents action rt \<Rightarrow> rt | _ \<Rightarrow> None) daemon))
          | _ \<Rightarrow> Ok \<lparr>human_note = Some ''mints an agent (restricted zones not checked): always a human''\<rparr>)
      | _ \<Rightarrow> pass)"

section \<open>Membership and ownership\<close>

text \<open>What the two name sets mean: an agent is in a zone when a member pattern matches it and it
  is not the operator; a zone owns a resource when one of its globs matches, case-insensitively.\<close>

definition in_zone :: "agent_ref \<Rightarrow> restricted_zone \<Rightarrow> bool" where
  "in_zone a z = (kind a \<noteq> Operator \<and> list_ex (\<lambda>pat. pattern_matches pat a) (z_members z))"

definition zone_owns :: "platform \<Rightarrow> string \<Rightarrow> restricted_zone \<Rightarrow> bool" where
  "zone_owns pf resource z =
     list_ex (\<lambda>g. glob_matches (Glob (to_lowercase (source g))) (to_lowercase resource)) (zone_globs pf z)"

lemma member_of_zone:
  "n \<in> set (member_of p a) \<Longrightarrow> \<exists>z. (n, z) \<in> set (pol_restricted p) \<and> in_zone a z"
  by (auto simp: member_of_def in_zone_def split: if_splits)

lemma member_of_iff:
  "bmap_ok (pol_restricted p) \<Longrightarrow> (n, z) \<in> set (pol_restricted p) \<Longrightarrow> (n \<in> set (member_of p a)) = in_zone a z"
proof
  assume ok: "bmap_ok (pol_restricted p)" "(n, z) \<in> set (pol_restricted p)" and "n \<in> set (member_of p a)"
  then obtain z' where "(n, z') \<in> set (pol_restricted p)" "in_zone a z'" using member_of_zone by blast
  with ok show "in_zone a z" using bmap_ok_entry by (metis option.inject)
qed (force simp: member_of_def in_zone_def)

lemma owner_iff: "(n \<in> set (owner p pf resource)) = (\<exists>z. (n, z) \<in> set (pol_restricted p) \<and> zone_owns pf resource z)"
  by (auto simp: owner_def zone_owns_def image_iff)

lemma outside_iff:
  assumes "bmap_ok (pol_restricted p)"
  shows "outside p a pf resource = (\<exists>n z. (n, z) \<in> set (pol_restricted p) \<and> zone_owns pf resource z \<and> \<not> in_zone a z)"
  unfolding outside_def list_ex_iff Bex_def owner_iff using member_of_iff[OF assms] by blast

lemma reaches_in_iff:
  assumes "bmap_ok (pol_restricted p)"
  shows "reaches_in p a other = (\<exists>n z. (n, z) \<in> set (pol_restricted p) \<and> in_zone other z \<and> \<not> in_zone a z)"
  unfolding reaches_in_def list_ex_iff Bex_def
  using member_of_iff[OF assms] member_of_zone by metis

lemma bset_eq_iff: "bset_ok xs \<Longrightarrow> bset_ok ys \<Longrightarrow> (xs = ys) = (set xs = set ys)"
  by (metis bset_of_ok_id bset_of_eq_iff)

lemma member_of_ok: "bset_ok (member_of p a)"
  by (simp add: member_of_def) (simp add: bset_ok_def)

lemma apart_iff:
  assumes "bmap_ok (pol_restricted p)"
  shows "apart p a b = (kind a \<noteq> Operator \<and> kind b \<noteq> Operator
    \<and> (\<exists>n z. (n, z) \<in> set (pol_restricted p) \<and> in_zone a z \<noteq> in_zone b z))"
proof -
  have "(member_of p a = member_of p b) = (set (member_of p a) = set (member_of p b))"
    by (simp add: bset_eq_iff member_of_ok)
  also have "\<dots> = (\<forall>n z. (n, z) \<in> set (pol_restricted p) \<longrightarrow> in_zone a z = in_zone b z)"
    unfolding set_eq_iff using member_of_iff[OF assms] member_of_zone[of _ p] by blast
  finally show ?thesis by (auto simp: apart_def)
qed

lemma excluded_namespaces_iff:
  assumes "bmap_ok (pol_restricted p)"
  shows "(ns \<in> set (excluded_namespaces p a)) =
    (\<exists>n z. (n, z) \<in> set (pol_restricted p) \<and> \<not> in_zone a z \<and> ns \<in> source ` set (z_kubernetes z))"
proof -
  have "(ns \<in> set (excluded_namespaces p a)) =
      (\<exists>n z. (n, z) \<in> set (pol_restricted p) \<and> n \<notin> set (member_of p a) \<and> ns \<in> source ` set (z_kubernetes z))"
    by (force simp: excluded_namespaces_def)
  then show ?thesis using member_of_iff[OF assms] by metis
qed

lemma py_slice_middle [simp]: "py_slice (pre @ mid @ post) (length pre) (length post) = mid"
  by (cases mid) (simp_all add: py_slice_def)

lemma py_slice_drop: "py_slice (m @ post) n (length post) = drop n m"
  by (simp add: py_slice_def Let_def)

text \<open>Which zones a mint reaches: those of the agent it would make, when the request says of which runtime and the name is one
  of that VM.\<close>

lemma minted_zones_iff:
  "(minted_zones p resource rt daemon \<noteq> []) =
     (\<exists>r d m. rt = Some r \<and> r \<noteq> [] \<and> daemon = Some d \<and> resource = m @ ''-'' @ d @ ''-sandbox''
        \<and> member_of p (would_be resource r (drop (length r + 1) m) d) \<noteq> [])"
proof (cases daemon)
  case (Some d)
  let ?suffix = "''-'' @ d @ ''-sandbox''"
  show ?thesis
  proof (cases "strip_suffix ?suffix resource")
    case None
    then have "\<nexists>m. resource = m @ ?suffix" using strip_suffix_iff[of ?suffix resource] by auto
    with None Some show ?thesis by (auto simp: minted_zones_def Let_def)
  next
    case m: (Some m)
    then have res: "resource = m @ ?suffix" using strip_suffix_iff by blast
    have "py_slice resource n (length ?suffix) = drop n m" for n unfolding res by (rule py_slice_drop)
    with m Some res show ?thesis by (cases rt) (auto simp: minted_zones_def Let_def)
  qed
qed (simp add: minted_zones_def)

section \<open>Properties\<close>

text \<open>C24: A zone's resources do not exist outside it. With zones configured, a Kubernetes or GitHub
  request is refused exactly when some zone owns the resource and the agent is not in that zone
  (the operator is in none), an a2a request exactly when agent and peer are on different
  sides of some zone's edge, and the refusal's words are those the platform has for anything it
  does not broker, so they say nothing of the zone.\<close>

theorem zone_refusal_exact:
  assumes "bmap_ok (pol_restricted p)" "pol_restricted p \<noteq> []"
  shows "(authority_platform auth \<in> {Kubernetes, Github} \<longrightarrow>
      zone_check p a auth resource facts =
        (if \<exists>n z. (n, z) \<in> set (pol_restricted p) \<and> zone_owns (authority_platform auth) resource z \<and> \<not> in_zone a z
         then Err \<lparr>denied_text = the (not_brokered (authority_platform auth) resource)\<rparr>
         else Ok \<lparr>human_note = None\<rparr>))
    \<and> (authority_platform auth = A2a \<longrightarrow>
      zone_check p a auth resource (A2a_peer (Some peer)) =
        (if kind a \<noteq> Operator \<and> kind peer \<noteq> Operator
            \<and> (\<exists>n z. (n, z) \<in> set (pol_restricted p) \<and> in_zone a z \<noteq> in_zone peer z)
         then Err \<lparr>denied_text = the (not_brokered A2a resource)\<rparr>
         else Ok \<lparr>human_note = None\<rparr>))"
  unfolding outside_iff[OF assms(1), symmetric] apart_iff[OF assms(1), symmetric]
  using assms(2) by (cases "authority_platform auth") (simp_all add: zone_check_def deny_def not_brokered_def)

theorem zone_refusal_exact_witness:
  "let p = default_policy\<lparr>pol_restricted := [(''vault'', \<lparr>z_members = [Name (Glob ''keeper'')],
         z_kubernetes = [Glob ''vault-*''], z_github = [], z_wiki = False\<rparr>)]\<rparr>;
       auth = AuthKubernetes \<lparr>role = ''view'', cluster = False\<rparr>
   in zone_check p (named ''claude'') auth ''vault-prod'' No_facts
        = Err \<lparr>denied_text = the (not_brokered Kubernetes ''vault-prod'')\<rparr>
      \<and> zone_check p (named ''keeper'') auth ''vault-prod'' No_facts = Ok \<lparr>human_note = None\<rparr>"
proof -
  let ?z = "\<lparr>z_members = [Name (Glob ''keeper'')], z_kubernetes = [Glob ''vault-*''], z_github = [], z_wiki = False\<rparr>"
  let ?p = "default_policy\<lparr>pol_restricted := [(''vault'', ?z)]\<rparr>"
  let ?auth = "AuthKubernetes \<lparr>role = ''view'', cluster = False\<rparr>"
  have facts: "zone_owns Kubernetes ''vault-prod'' ?z" "\<not> in_zone (named ''claude'') ?z" "in_zone (named ''keeper'') ?z"
    by code_simp+
  show ?thesis
    using zone_refusal_exact[of ?p ?auth "named ''claude''" "''vault-prod''" No_facts]
      zone_refusal_exact[of ?p ?auth "named ''keeper''" "''vault-prod''" No_facts] facts
    by (simp add: Let_def)
qed

text \<open>C37: What the zone check does with the facts it is given. With zones configured, an a2a or sandbox request whose facts
  are of another kind is refused. A request to mint an agent is never refused here; it passes with the note that a
  human decides exactly when the facts are of another kind, or when the facts name a VM, the request names a runtime, the
  name asked for ends in that VM's suffix, and the agent that would be made (that runtime and VM, and the project
  its name spells) is in some zone. Without a VM, or with a name of another VM, it passes without a note.\<close>

theorem zone_check_fails_closed:
  assumes "bmap_ok (pol_restricted p)" "pol_restricted p \<noteq> []"
  shows "(authority_platform auth = A2a \<longrightarrow> (\<nexists>peer. facts = A2a_peer peer) \<longrightarrow>
       zone_check p a auth resource facts = Err (deny A2a resource))
    \<and> (authority_platform auth = Sandbox_platform \<longrightarrow> (\<nexists>d as. facts = Sandbox_facts d as) \<longrightarrow>
       zone_check p a auth resource facts = Err (deny Sandbox_platform resource))
    \<and> (\<exists>pass. zone_check p a (AuthAgents act rt) resource facts = Ok pass
       \<and> (human_note pass \<noteq> None) =
           ((\<nexists>d. facts = Agents_facts d)
            \<or> (\<exists>r d m n z. rt = Some r \<and> r \<noteq> [] \<and> facts = Agents_facts (Some d) \<and> resource = m @ ''-'' @ d @ ''-sandbox''
                 \<and> (n, z) \<in> set (pol_restricted p) \<and> in_zone (would_be resource r (drop (length r + 1) m) d) z)))"
proof -
  have zones: "(member_of p b \<noteq> []) = (\<exists>n z. (n, z) \<in> set (pol_restricted p) \<and> in_zone b z)" for b
  proof -
    have "(member_of p b \<noteq> []) = (\<exists>n. n \<in> set (member_of p b))" by (cases "member_of p b") auto
    then show ?thesis using member_of_iff[OF assms(1)] member_of_zone by metis
  qed
  have noted: "(human_note (mint_note zs) \<noteq> None) = (zs \<noteq> [])" for zs by (simp add: mint_note_def)
  have agents: "zone_check p a (AuthAgents act rt) resource facts =
      (case facts of Agents_facts d \<Rightarrow> Ok (mint_note (minted_zones p resource rt d))
       | _ \<Rightarrow> Ok \<lparr>human_note = Some ''mints an agent (restricted zones not checked): always a human''\<rparr>)"
    using assms(2) by (cases facts) (simp_all add: zone_check_def)
  have "\<exists>pass. zone_check p a (AuthAgents act rt) resource facts = Ok pass
       \<and> (human_note pass \<noteq> None) =
           ((\<nexists>d. facts = Agents_facts d)
            \<or> (\<exists>r d m n z. rt = Some r \<and> r \<noteq> [] \<and> facts = Agents_facts (Some d) \<and> resource = m @ ''-'' @ d @ ''-sandbox''
                 \<and> (n, z) \<in> set (pol_restricted p) \<and> in_zone (would_be resource r (drop (length r + 1) m) d) z))"
  proof (cases facts)
    case (Agents_facts d)
    with agents noted[of "minted_zones p resource rt d"] minted_zones_iff[of p resource rt d, unfolded zones] show ?thesis
      by (intro exI[of _ "mint_note (minted_zones p resource rt d)"]) auto
  qed (use agents in simp_all)
  moreover have "authority_platform auth = A2a \<longrightarrow> (\<nexists>peer. facts = A2a_peer peer) \<longrightarrow>
       zone_check p a auth resource facts = Err (deny A2a resource)"
    using assms(2) by (cases facts) (simp_all add: zone_check_def)
  moreover have "authority_platform auth = Sandbox_platform \<longrightarrow> (\<nexists>d as. facts = Sandbox_facts d as) \<longrightarrow>
       zone_check p a auth resource facts = Err (deny Sandbox_platform resource)"
    using assms(2) by (cases facts) (simp_all add: zone_check_def)
  ultimately show ?thesis by blast
qed

theorem zone_check_fails_closed_witness:
  "let p = default_policy\<lparr>pol_restricted := [(''vault'', \<lparr>z_members = [Name (Glob ''c-*'')],
         z_kubernetes = [], z_github = [], z_wiki = False\<rparr>)]\<rparr>
   in bmap_ok (pol_restricted p) \<and> (\<exists>pass. zone_check p (named ''x'') (AuthAgents ''mint'' (Some ''c''))
        ''c-web-vm-sandbox'' No_facts = Ok pass \<and> human_note pass \<noteq> None)"
  using zone_check_fails_closed[of "default_policy\<lparr>pol_restricted := [(''vault'', \<lparr>z_members = [Name (Glob ''c-*'')],
         z_kubernetes = [], z_github = [], z_wiki = False\<rparr>)]\<rparr>" "AuthAgents ''mint'' (Some ''c'')" No_facts
      "named ''x''" "''c-web-vm-sandbox''" "''mint''" "Some ''c''"]
  by (auto simp: Let_def)

end
