(* ===== verification/Policy_Eval.thy ===== *)
theory Policy_Eval
  imports Zones "HOL-Library.Product_Lexorder"
begin

text \<open>
  Evaluation and routing (\<open>core/src/policy/eval.rs\<close>): saved rules newest first, then the policy
  file's rules by first match, then the default; then the gates. A decision carries what
  evaluation sealed in, which is all that routing reads. Times are integers (nanoseconds), a rule's
  id is its 128-bit number. The lemmas say which rule decides and what an automatic clearance needs.
\<close>

section \<open>Rules and decisions\<close>

datatype saved_rule_action = AutoApprove | AutoDeny

fun saved_action_as_str :: "saved_rule_action \<Rightarrow> string" where
  "saved_action_as_str AutoApprove = ''auto_approve''"
| "saved_action_as_str AutoDeny = ''auto_deny''"

definition saved_action_parse :: "string \<Rightarrow> saved_rule_action option" where
  "saved_action_parse s =
     (if s = ''auto_approve'' then Some AutoApprove else if s = ''auto_deny'' then Some AutoDeny else None)"

datatype rule_id = RuleId nat

fun rule_number :: "rule_id \<Rightarrow> int" where
  "rule_number (RuleId n) = int n"

record saved_rule =
  sr_id :: rule_id
  sr_action :: saved_rule_action
  sr_agent_pattern :: glob
  sr_delegator_pattern :: "glob option"
  sr_platform :: platform
  sr_resource_pattern :: glob
  sr_authority :: "authority option"
  sr_max_duration :: "nat option"
  sr_enabled :: bool
  sr_notes :: string
  sr_expires_at :: "int option"
  sr_created_at :: int

definition newest_key :: "saved_rule \<Rightarrow> int \<times> int" where
  "newest_key r = (- sr_created_at r, - rule_number (sr_id r))"

definition sort_saved_rules :: "saved_rule list \<Rightarrow> saved_rule list" where
  "sort_saved_rules rules = sort_key newest_key rules"

record policy_input =
  in_agent :: agent_ref
  in_delegation :: delegation
  in_resource :: string
  in_authority :: authority

definition in_platform :: "policy_input \<Rightarrow> platform" where
  "in_platform i = authority_platform (in_authority i)"

datatype matched = SavedRule rule_id | PolicyRule nat | Default_rule

record sealed =
  se_action :: policy_action
  se_pinned :: bool
  se_explicit :: bool
  se_names_resource :: bool
  se_source :: decision_source
  se_authority :: authority
  se_resource :: string

fun matched_source :: "matched \<Rightarrow> decision_source" where
  "matched_source (SavedRule n) = Rule_source"
| "matched_source (PolicyRule i) = Policy_source"
| "matched_source Default_rule = Policy_source"

definition seal :: "policy_input \<Rightarrow> policy_action \<Rightarrow> rule_strength \<Rightarrow> matched \<Rightarrow> sealed" where
  "seal i act strength m = \<lparr>se_action = act, se_pinned = pinned strength, se_explicit = explicit strength,
     se_names_resource = names_resource strength, se_source = matched_source m, se_authority = in_authority i,
     se_resource = in_resource i\<rparr>"

record policy_decision =
  pd_action :: policy_action
  pd_reason :: string
  pd_matched :: matched
  pd_max_duration :: nat
  pd_llm_model :: string
  pd_retry_budget :: nat
  pd_pinned :: bool
  pd_names_resource :: bool
  pd_explicit :: bool
  pd_window :: bool
  pd_sealed :: sealed

definition decision_source_of :: "policy_decision \<Rightarrow> decision_source" where
  "decision_source_of d = matched_source (pd_matched d)"

definition decision_rule_id :: "policy_decision \<Rightarrow> rule_id option" where
  "decision_rule_id d = (case pd_matched d of SavedRule n \<Rightarrow> Some n | _ \<Rightarrow> None)"

definition cap_duration :: "nat \<Rightarrow> nat \<Rightarrow> nat option \<Rightarrow> nat" where
  "cap_duration requested default_max rule_max =
     (let capped = min requested default_max in case rule_max of None \<Rightarrow> capped | Some m \<Rightarrow> min capped m)"

definition default_action :: "policy_action \<Rightarrow> bool \<Rightarrow> policy_action" where
  "default_action configured delegated = (if delegated \<and> is_auto configured then Surface else configured)"

definition resource_glob :: "platform \<Rightarrow> string \<Rightarrow> glob" where
  "resource_glob pf pattern = (if pf = Github then Glob (to_lowercase pattern) else Glob pattern)"

definition same_resource :: "platform \<Rightarrow> string \<Rightarrow> string \<Rightarrow> bool" where
  "same_resource pf pattern resource =
     (if pf = Github then to_lowercase pattern = escape resource else pattern = escape resource)"

section \<open>Evaluation\<close>

definition saved_fits :: "saved_rule \<Rightarrow> delegation \<Rightarrow> bool" where
  "saved_fits r del =
     (case (sr_delegator_pattern r, del) of (Some g, OnBehalfOf d) \<Rightarrow> glob_matches g (agent_name d) | _ \<Rightarrow> False)"

definition saved_matches :: "policy_input \<Rightarrow> int \<Rightarrow> saved_rule \<Rightarrow> bool" where
  "saved_matches i now r =
     (sr_enabled r \<and> sr_platform r = in_platform i \<and> is_none_or (\<lambda>e. e > now) (sr_expires_at r)
      \<and> glob_matches (sr_agent_pattern r) (agent_name (in_agent i))
      \<and> glob_matches (resource_glob (in_platform i) (source (sr_resource_pattern r))) (in_resource i)
      \<and> delegator_axis (sr_delegator_pattern r \<noteq> None) (saved_fits r (in_delegation i))
          (is_delegated (in_delegation i)) (sr_action r = AutoApprove)
      \<and> rule_covers (sr_authority r) (in_authority i))"

definition saved_strength :: "policy_input \<Rightarrow> saved_rule \<Rightarrow> rule_strength" where
  "saved_strength i r =
     (let p = (sr_authority r \<noteq> None) in
      \<lparr>pinned = p, explicit = p,
       names_resource = (p \<and> same_resource (in_platform i) (source (sr_resource_pattern r)) (in_resource i))\<rparr>)"

fun is_window :: "authority option \<Rightarrow> bool" where
  "is_window (Some (AuthHostexec (Window t))) = True"
| "is_window a = False"

definition saved_decision :: "policy \<Rightarrow> policy_input \<Rightarrow> saved_rule \<Rightarrow> policy_decision" where
  "saved_decision p i r =
     (let strength = saved_strength i r;
          act = (case sr_action r of AutoApprove \<Rightarrow> Approve | AutoDeny \<Rightarrow> Deny)
      in \<lparr>pd_action = act,
          pd_reason = (if sr_notes r = [] then ''matched saved rule'' else ''matched saved rule ('' @ sr_notes r @ '')''),
          pd_matched = SavedRule (sr_id r),
          pd_max_duration = (case sr_max_duration r of Some d \<Rightarrow> d | None \<Rightarrow> d_max_duration (pol_defaults p)),
          pd_llm_model = llm_model (pol_llm p), pd_retry_budget = llm_retry_budget (pol_llm p),
          pd_pinned = pinned strength, pd_names_resource = names_resource strength,
          pd_explicit = pinned strength, pd_window = is_window (sr_authority r),
          pd_sealed = seal i act strength (SavedRule (sr_id r))\<rparr>)"

definition match_saved :: "policy \<Rightarrow> policy_input \<Rightarrow> saved_rule list \<Rightarrow> int \<Rightarrow> policy_decision option" where
  "match_saved p i saved now = map_option (saved_decision p i) (find (saved_matches i now) saved)"

definition rule_matches :: "policy \<Rightarrow> policy_input \<Rightarrow> policy_rule \<Rightarrow> bool" where
  "rule_matches p i r =
     (let m = r_match r in
      is_none_or (\<lambda>pf. pf = in_platform i) (m_platform m)
      \<and> pattern_matches (m_agent m) (in_agent i)
      \<and> glob_matches (m_capability m) (capability (in_authority i))
      \<and> list_ex (\<lambda>res. glob_matches (resource_glob (in_platform i) res) (in_resource i))
          (resources_for (m_resource m) (in_agent i) (pol_projects p))
      \<and> delegator_matches (m_delegator m) (in_delegation i) (is_auto (r_action r)))"

definition rule_explicit :: "policy_input \<Rightarrow> policy_rule \<Rightarrow> bool" where
  "rule_explicit i r =
     (m_platform (r_match r) \<noteq> None \<and> is_literal (m_capability (r_match r))
      \<and> source (m_capability (r_match r)) = capability (in_authority i))"

definition rule_decision :: "policy \<Rightarrow> policy_input \<Rightarrow> nat \<times> policy_rule \<Rightarrow> policy_decision" where
  "rule_decision p i nr =
     (case nr of (n, r) \<Rightarrow>
       let c = r_constraints r; e = rule_explicit i r in
       \<lparr>pd_action = r_action r, pd_reason = (if r_reason r = [] then ''matched policy rule'' else r_reason r),
        pd_matched = PolicyRule n,
        pd_max_duration = (case c_max_duration c of Some d \<Rightarrow> d | None \<Rightarrow> d_max_duration (pol_defaults p)),
        pd_llm_model = (case opt_filter (\<lambda>m. m \<noteq> []) (c_llm_model c) of Some m \<Rightarrow> m | None \<Rightarrow> llm_model (pol_llm p)),
        pd_retry_budget = (case c_retry_budget c of Some b \<Rightarrow> b | None \<Rightarrow> llm_retry_budget (pol_llm p)),
        pd_pinned = False, pd_names_resource = False, pd_explicit = e, pd_window = False,
        pd_sealed = seal i (r_action r) (strength_none\<lparr>explicit := e\<rparr>) (PolicyRule n)\<rparr>)"

definition default_decision :: "policy \<Rightarrow> policy_input \<Rightarrow> policy_decision" where
  "default_decision p i =
     (let act = default_action (d_action (pol_defaults p)) (is_delegated (in_delegation i)) in
      \<lparr>pd_action = act, pd_reason = ''no matching rule; policy default'', pd_matched = Default_rule,
       pd_max_duration = d_max_duration (pol_defaults p), pd_llm_model = llm_model (pol_llm p),
       pd_retry_budget = llm_retry_budget (pol_llm p), pd_pinned = False, pd_names_resource = False,
       pd_explicit = False, pd_window = False, pd_sealed = seal i act strength_none Default_rule\<rparr>)"

definition evaluate :: "policy \<Rightarrow> policy_input \<Rightarrow> saved_rule list \<Rightarrow> int \<Rightarrow> policy_decision" where
  "evaluate p i saved now =
     (case match_saved p i saved now of
        Some d \<Rightarrow> d
      | None \<Rightarrow>
          (case find (\<lambda>(n, r). rule_matches p i r) (enumerate 0 (pol_rules p)) of
             Some nr \<Rightarrow> rule_decision p i nr
           | None \<Rightarrow> default_decision p i))"

section \<open>Routing\<close>

record routed_request =
  rq_route :: route
  rq_downgrades :: "downgrade list"
  rq_notes :: "codepoints list"

definition policy_gate_facts :: "policy \<Rightarrow> policy_input \<Rightarrow> zone_passed \<Rightarrow> gate_facts" where
  "policy_gate_facts p i zone =
     \<lparr>zone_requires_human = (human_note zone \<noteq> None), fact_human_only = human_only (in_authority i),
      web_connector = (is_web (in_agent i) \<or> delegation_is_web (in_delegation i)),
      sensitive = is_sensitive (in_authority i) (sensitivity p) (in_resource i),
      fact_by_resource = sensitive_by_resource (in_authority i) (sensitivity p) (in_resource i),
      fact_explicit_rule = needs_explicit_rule (in_authority i)\<rparr>"

text \<open>The notes are texts with a dash (U+2014) in some, so they are code points.\<close>

fun downgrade_note :: "policy_input \<Rightarrow> zone_passed \<Rightarrow> downgrade \<Rightarrow> codepoints" where
  "downgrade_note i zone Zone =
     cps (case human_note zone of Some n \<Rightarrow> n | None \<Rightarrow> ''restricted zone: always a human'')"
| "downgrade_note i zone HumanOnly = cps ''always decided by a human''"
| "downgrade_note i zone WebConnector = cps ''for a web UI connector: always decided by a human''"
| "downgrade_note i zone Sensitive =
     cps ''sensitive capability '' @ [0x2014] @ cps '' routed to human review''"
| "downgrade_note i zone NotNamed =
     cps (''no rule names '' @ repr_string (capability (in_authority i)) @ '' '') @ [0x2014]
     @ cps '' routed to human review''"

definition proposed :: "policy_input \<Rightarrow> sealed \<Rightarrow> policy_action \<times> rule_strength" where
  "proposed i s =
     (if se_authority s = in_authority i \<and> se_resource s = in_resource i then
        (se_action s, \<lparr>pinned = se_pinned s, explicit = se_explicit s, names_resource = se_names_resource s\<rparr>)
      else if se_action s = Deny then (Deny, strength_none)
      else (Surface, strength_none))"

definition route_request ::
  "policy \<Rightarrow> request_id \<Rightarrow> policy_input \<Rightarrow> policy_decision \<Rightarrow> zone_passed \<Rightarrow> routed_request" where
  "route_request p req i d zone =
     (let s = pd_sealed d; ps = proposed i s; g = gate (fst ps) (snd ps) (policy_gate_facts p i zone) in
      \<lparr>rq_route = route_gated (gated_action g) req (in_authority i) (se_source s),
       rq_downgrades = downgrades g, rq_notes = map (downgrade_note i zone) (downgrades g)\<rparr>)"

definition evaluate_and_route ::
  "policy \<Rightarrow> request_id \<Rightarrow> policy_input \<Rightarrow> saved_rule list \<Rightarrow> zone_passed \<Rightarrow> int
   \<Rightarrow> policy_decision \<times> routed_request" where
  "evaluate_and_route p req i saved zone now =
     (let d = evaluate p i saved now in (d, route_request p req i d zone))"

section \<open>Which rule decides\<close>

text \<open>What evaluation amounts to: the layer that decided, with the fact that it applies.\<close>

inductive decides :: "policy \<Rightarrow> policy_input \<Rightarrow> saved_rule list \<Rightarrow> int \<Rightarrow> policy_decision \<Rightarrow> bool" where
  by_saved_rule: "\<lbrakk>saved = before @ r # after; saved_matches i now r;
     \<forall>r' \<in> set before. \<not> saved_matches i now r'\<rbrakk> \<Longrightarrow> decides p i saved now (saved_decision p i r)"
| by_policy_rule: "\<lbrakk>\<forall>r \<in> set saved. \<not> saved_matches i now r; n < length (pol_rules p);
     rule_matches p i (pol_rules p ! n); \<forall>k < n. \<not> rule_matches p i (pol_rules p ! k)\<rbrakk>
     \<Longrightarrow> decides p i saved now (rule_decision p i (n, pol_rules p ! n))"
| by_default: "\<lbrakk>\<forall>r \<in> set saved. \<not> saved_matches i now r; \<forall>r \<in> set (pol_rules p). \<not> rule_matches p i r\<rbrakk>
     \<Longrightarrow> decides p i saved now (default_decision p i)"

inductive_cases decides_cases: "decides p i saved now d"

lemma find_split: "find P xs = Some x \<Longrightarrow> \<exists>ys zs. xs = ys @ x # zs \<and> P x \<and> (\<forall>y \<in> set ys. \<not> P y)"
proof (induction xs)
  case (Cons a xs)
  show ?case
  proof (cases "P a")
    case True
    then have "x = a" using Cons.prems by simp
    with True show ?thesis by (intro exI[of _ "[]"] exI[of _ xs]) simp
  next
    case False
    then obtain ys zs where "xs = ys @ x # zs" "P x" "\<forall>y \<in> set ys. \<not> P y" using Cons by auto
    then show ?thesis using False by (intro exI[of _ "a # ys"] exI[of _ zs]) auto
  qed
qed simp

lemma find_enumerate:
  "find (\<lambda>(n, x). P x) (enumerate 0 xs) = Some (n, x) \<Longrightarrow>
   n < length xs \<and> x = xs ! n \<and> P x \<and> (\<forall>k < n. \<not> P (xs ! k))"
  by (auto simp: find_Some_iff nth_enumerate_eq)

lemma find_enumerate_None:
  assumes "find (\<lambda>(n, x). P x) (enumerate 0 xs) = None"
  shows "\<forall>x \<in> set xs. \<not> P x"
proof
  fix x assume "x \<in> set xs"
  then obtain i where "i < length xs" "xs ! i = x" by (auto simp: in_set_conv_nth)
  then have "(i, x) \<in> set (enumerate 0 xs)" by (simp add: in_set_enumerate_eq)
  with assms show "\<not> P x" by (auto simp: find_None_iff)
qed

lemma evaluate_decides: "decides p i saved now (evaluate p i saved now)"
proof (cases "find (saved_matches i now) saved")
  case (Some r)
  then obtain before after where "saved = before @ r # after" "saved_matches i now r"
    "\<forall>r' \<in> set before. \<not> saved_matches i now r'" using find_split by metis
  from decides.by_saved_rule[OF this, of p] Some show ?thesis by (simp add: evaluate_def match_saved_def)
next
  case none: None
  then have saved: "\<forall>r \<in> set saved. \<not> saved_matches i now r" by (auto simp: find_None_iff)
  show ?thesis
  proof (cases "find (\<lambda>(n, r). rule_matches p i r) (enumerate 0 (pol_rules p))")
    case (Some nr)
    obtain n r where nr: "nr = (n, r)" by (cases nr)
    have "n < length (pol_rules p)" "r = pol_rules p ! n" "rule_matches p i r" "\<forall>k < n. \<not> rule_matches p i (pol_rules p ! k)"
      using find_enumerate[of "rule_matches p i" "pol_rules p" n r] Some nr by auto
    with decides.by_policy_rule[OF saved, of n p] Some none nr show ?thesis
      by (simp add: evaluate_def match_saved_def)
  next
    case None
    from decides.by_default[OF saved find_enumerate_None[OF this]] None none show ?thesis
      by (simp add: evaluate_def match_saved_def)
  qed
qed

section \<open>What a clearance needs\<close>

definition clears :: "routed_request \<Rightarrow> bool" where
  "clears rr = is_auto (route_action (rq_route rr))"

lemma clears_route_request:
  "clears (route_request p req i d zone) =
     (is_auto (fst (proposed i (pd_sealed d)))
      \<and> may_auto_clear (snd (proposed i (pd_sealed d))) (policy_gate_facts p i zone))"
  by (auto simp: clears_def route_request_def Let_def gate_action is_auto_def)

lemma sealed_decision [simp]:
  "proposed i (pd_sealed (saved_decision p i r))
     = (case sr_action r of AutoApprove \<Rightarrow> Approve | AutoDeny \<Rightarrow> Deny, saved_strength i r)"
  "proposed i (pd_sealed (rule_decision p i (n, pr))) = (r_action pr, strength_none\<lparr>explicit := rule_explicit i pr\<rparr>)"
  "proposed i (pd_sealed (default_decision p i))
     = (default_action (d_action (pol_defaults p)) (is_delegated (in_delegation i)), strength_none)"
  by (simp_all add: proposed_def seal_def saved_decision_def rule_decision_def default_decision_def Let_def
      saved_strength_def strength_none_def)

lemma clears_evaluate_and_route:
  "clears (snd (evaluate_and_route p req i saved zone now)) =
     (let ps = proposed i (pd_sealed (evaluate p i saved now))
      in is_auto (fst ps) \<and> may_auto_clear (snd ps) (policy_gate_facts p i zone))"
  by (simp add: evaluate_and_route_def Let_def clears_route_request)

lemma not_is_auto [simp]: "\<not> is_auto Deny" "\<not> is_auto Surface" "is_auto Approve" "is_auto Llm"
  by (simp_all add: is_auto_def)

text \<open>A saved rule vouches for a request: it is live, approves, covers it and is pinned to an
  authority.\<close>

definition vouches :: "policy_input \<Rightarrow> int \<Rightarrow> saved_rule \<Rightarrow> bool" where
  "vouches i now r =
     (saved_matches i now r \<and> sr_action r = AutoApprove \<and> (\<exists>a. sr_authority r = Some a \<and> rule_covers (Some a) (in_authority i)))"

lemma strength_vouches:
  assumes "saved_matches i now r" "is_auto (case sr_action r of AutoApprove \<Rightarrow> Approve | AutoDeny \<Rightarrow> Deny)"
    and "pinned (saved_strength i r)"
  shows "vouches i now r"
  using assms by (cases "sr_action r") (auto simp: vouches_def saved_strength_def Let_def saved_matches_def)

lemma may_auto_clear_facts:
  "may_auto_clear s (policy_gate_facts p i zone) =
     (human_note zone = None \<and> \<not> human_only (in_authority i)
      \<and> \<not> is_web (in_agent i) \<and> \<not> delegation_is_web (in_delegation i)
      \<and> (is_sensitive (in_authority i) (sensitivity p) (in_resource i) \<longrightarrow>
           pinned s \<and> (sensitive_by_resource (in_authority i) (sensitivity p) (in_resource i) \<longrightarrow> names_resource s))
      \<and> (needs_explicit_rule (in_authority i) \<longrightarrow> explicit s))"
  by (auto simp: may_auto_clear_def policy_gate_facts_def)

lemma delegated_auto_saved:
  "saved_matches i now r \<Longrightarrow> sr_action r = AutoApprove \<Longrightarrow> is_delegated (in_delegation i) \<Longrightarrow> saved_fits r (in_delegation i)"
  by (auto simp: saved_matches_def delegator_axis_def split: if_splits)

lemma delegated_auto_rule:
  "rule_matches p i r \<Longrightarrow> is_auto (r_action r) \<Longrightarrow> is_delegated (in_delegation i) \<Longrightarrow> m_delegator (r_match r) \<noteq> None"
  by (auto simp: rule_matches_def Let_def delegator_matches_def delegator_axis_def split: if_splits)

lemma default_not_auto_delegated: "is_auto (default_action a d) \<Longrightarrow> \<not> d"
  by (auto simp: default_action_def split: if_splits)

lemma saved_strength_simps [simp]:
  "pinned (saved_strength i r) = (sr_authority r \<noteq> None)"
  "explicit (saved_strength i r) = (sr_authority r \<noteq> None)"
  "names_resource (saved_strength i r)
     = (sr_authority r \<noteq> None \<and> same_resource (in_platform i) (source (sr_resource_pattern r)) (in_resource i))"
  by (simp_all add: saved_strength_def Let_def)

lemma strength_none_simps [simp]:
  "\<not> pinned strength_none" "\<not> explicit strength_none" "\<not> names_resource strength_none"
  by (simp_all add: strength_none_def)

definition justified :: "policy \<Rightarrow> policy_input \<Rightarrow> saved_rule list \<Rightarrow> int \<Rightarrow> bool" where
  "justified p i saved now =
     ((is_sensitive (in_authority i) (sensitivity p) (in_resource i) \<longrightarrow>
        (\<exists>r \<in> set saved. vouches i now r
           \<and> (sensitive_by_resource (in_authority i) (sensitivity p) (in_resource i) \<longrightarrow>
                same_resource (in_platform i) (source (sr_resource_pattern r)) (in_resource i))))
      \<and> (needs_explicit_rule (in_authority i) \<longrightarrow>
           (\<exists>r \<in> set saved. vouches i now r) \<or> (\<exists>r \<in> set (pol_rules p). rule_matches p i r \<and> rule_explicit i r))
      \<and> (is_delegated (in_delegation i) \<longrightarrow>
           (\<exists>r \<in> set saved. saved_matches i now r \<and> saved_fits r (in_delegation i))
           \<or> (\<exists>r \<in> set (pol_rules p). rule_matches p i r \<and> m_delegator (r_match r) \<noteq> None)))"

lemma clears_justified:
  assumes d: "decides p i saved now d"
    and auto: "is_auto (fst (proposed i (pd_sealed d)))"
    and clear: "may_auto_clear (snd (proposed i (pd_sealed d))) (policy_gate_facts p i zone)"
  shows "justified p i saved now"
  using d
proof (cases rule: decides.cases)
  case (by_saved_rule before r after)
  have r: "sr_action r = AutoApprove" using auto by_saved_rule(1) by (cases "sr_action r") auto
  have "vouches i now r" if "sr_authority r \<noteq> None"
    using that r by_saved_rule by (intro strength_vouches) auto
  moreover have "r \<in> set saved" using by_saved_rule by simp
  ultimately show ?thesis
    using clear by_saved_rule(1) by_saved_rule(3) delegated_auto_saved[OF by_saved_rule(3) r]
    unfolding justified_def may_auto_clear_facts by (auto; blast)
next
  case (by_policy_rule n)
  have "pol_rules p ! n \<in> set (pol_rules p)" using by_policy_rule by simp
  moreover have "is_auto (r_action (pol_rules p ! n))" using auto by_policy_rule(1) by simp
  moreover note delegated_auto_rule[OF by_policy_rule(4) calculation(2)]
  ultimately show ?thesis
    using clear by_policy_rule(1,4) unfolding justified_def may_auto_clear_facts by auto
next
  case by_default
  have "\<not> is_delegated (in_delegation i)" using auto by_default(1) default_not_auto_delegated by auto
  then show ?thesis
    using clear by_default(1) unfolding justified_def may_auto_clear_facts by auto
qed

lemma bound_clearance:
  "rq_route (snd (evaluate_and_route p req i saved zone now)) = RApprove c \<Longrightarrow>
     auto_request c = req \<and> auto_authority c = in_authority i"
  "rq_route (snd (evaluate_and_route p req i saved zone now)) = RLlm c' \<Longrightarrow>
     llm_request c' = req \<and> llm_authority c' = in_authority i"
  by (auto simp: evaluate_and_route_def route_request_def Let_def elim!: route_gated.elims)

section \<open>Properties\<close>

text \<open>C1: What an automatic clearance takes, end to end over evaluation and routing: a request is
  cleared without a human only when no restricted zone asks for one, its authority is not
  human-only and no web connector takes part; if it is sensitive, a live saved rule pinned to a
  covering authority vouches for it, and names the very resource when the resource is what makes
  it sensitive; if its capability needs an explicit rule, a pinned saved rule or a matching policy
  rule that spells the platform and capability out allows it; if it is delegated, a matching rule
  names the delegator. An approving clearance is bound to this request and authority.\<close>

theorem automatic_clearance_justified:
  assumes "clears (snd (evaluate_and_route p req i saved zone now))"
  shows "human_note zone = None \<and> \<not> human_only (in_authority i)
    \<and> \<not> is_web (in_agent i) \<and> \<not> delegation_is_web (in_delegation i)
    \<and> justified p i saved now
    \<and> (\<forall>c. rq_route (snd (evaluate_and_route p req i saved zone now)) = RApprove c \<longrightarrow>
          auto_request c = req \<and> auto_authority c = in_authority i)
    \<and> (\<forall>c. rq_route (snd (evaluate_and_route p req i saved zone now)) = RLlm c \<longrightarrow>
          llm_request c = req \<and> llm_authority c = in_authority i)"
proof -
  define d where "d = evaluate p i saved now"
  have auto: "is_auto (fst (proposed i (pd_sealed d)))"
    and clear: "may_auto_clear (snd (proposed i (pd_sealed d))) (policy_gate_facts p i zone)"
    using assms by (simp_all add: clears_evaluate_and_route Let_def d_def)
  have "justified p i saved now"
    using clears_justified[OF _ auto clear] evaluate_decides unfolding d_def by blast
  then show ?thesis
    using clear by (simp add: may_auto_clear_facts bound_clearance)
qed

definition sample_rule :: saved_rule where
  "sample_rule = \<lparr>sr_id = RuleId 7, sr_action = AutoApprove, sr_agent_pattern = Glob ''ci'', sr_delegator_pattern = None,
     sr_platform = Google, sr_resource_pattern = Glob ''me'', sr_authority = Some (AuthGoogle ''drive.read''),
     sr_max_duration = None, sr_enabled = True, sr_notes = '''', sr_expires_at = Some 10, sr_created_at = 1\<rparr>"

definition sample_input :: policy_input where
  "sample_input = \<lparr>in_agent = named ''ci'', in_delegation = NotDelegated, in_resource = ''me'',
     in_authority = AuthGoogle ''drive.read''\<rparr>"

lemma sample_matches: "saved_matches sample_input 5 sample_rule"
  by code_simp

lemma sample_clears:
  "clears (snd (evaluate_and_route default_policy (RequestId ''r'') sample_input [sample_rule] \<lparr>human_note = None\<rparr> 5))"
proof -
  have "evaluate default_policy sample_input [sample_rule] 5 = saved_decision default_policy sample_input sample_rule"
    using sample_matches by (simp add: evaluate_def match_saved_def)
  moreover have "human_only (AuthGoogle ''drive.read'') = False" "is_web (named ''ci'') = False"
    "delegation_is_web NotDelegated = False" "same_resource Google ''me'' ''me''" by code_simp+
  ultimately show ?thesis
    by (simp add: clears_evaluate_and_route may_auto_clear_facts sample_input_def sample_rule_def in_platform_def)
qed

theorem automatic_clearance_justified_witness:
  "clears (snd (evaluate_and_route default_policy (RequestId ''r'') sample_input [sample_rule] \<lparr>human_note = None\<rparr> 5))
   \<and> is_sensitive (in_authority sample_input) (sensitivity default_policy) (in_resource sample_input)
   \<and> (\<exists>r \<in> set [sample_rule]. vouches sample_input 5 r)"
  using automatic_clearance_justified[OF sample_clears] sample_clears
  by (simp add: justified_def is_sensitive_def sample_input_def)

text \<open>C30: Among the saved rules that match a request, in whatever order the store lists them, the newest decides: it was
  created last, so that an old approval never outlives a denial created at a later moment. Of those created at the
  same moment it is the one with the highest id, which is not the order of insertion the store keeps:
  the evaluation sorts again by creation and id.\<close>

theorem newest_saved_rule_decides:
  assumes "\<exists>r \<in> set saved. saved_matches i now r"
  shows "\<exists>r \<in> set saved. saved_matches i now r
    \<and> evaluate p i (sort_saved_rules saved) now = saved_decision p i r
    \<and> (\<forall>r' \<in> set saved. saved_matches i now r' \<longrightarrow>
         sr_created_at r' < sr_created_at r
         \<or> sr_created_at r' = sr_created_at r \<and> rule_number (sr_id r') \<le> rule_number (sr_id r))"
proof -
  have "find (saved_matches i now) (sort_saved_rules saved) \<noteq> None"
    using assms by (auto simp: find_None_iff sort_saved_rules_def)
  then obtain r where r: "find (saved_matches i now) (sort_saved_rules saved) = Some r" by auto
  then obtain xs ys where split: "sort_saved_rules saved = xs @ r # ys" "saved_matches i now r"
    "\<forall>r' \<in> set xs. \<not> saved_matches i now r'" using find_split by metis
  have sorted: "sorted (map newest_key (xs @ r # ys))"
    unfolding split(1)[symmetric] sort_saved_rules_def by simp
  have set: "set saved = set (xs @ r # ys)"
    unfolding split(1)[symmetric] sort_saved_rules_def by simp
  have "newest_key r \<le> newest_key r'" if "r' \<in> set saved" "saved_matches i now r'" for r'
    using that split sorted unfolding set by (auto simp: sorted_append)
  then have "\<forall>r' \<in> set saved. saved_matches i now r' \<longrightarrow>
         sr_created_at r' < sr_created_at r
         \<or> sr_created_at r' = sr_created_at r \<and> rule_number (sr_id r') \<le> rule_number (sr_id r)"
    by (fastforce simp: newest_key_def)
  moreover have "evaluate p i (sort_saved_rules saved) now = saved_decision p i r"
    using r by (simp add: evaluate_def match_saved_def)
  ultimately show ?thesis using split(2) set by auto
qed

theorem newest_saved_rule_decides_witness:
  "saved_matches sample_input 5 sample_rule
   \<and> evaluate default_policy sample_input (sort_saved_rules [sample_rule]) 5
       = saved_decision default_policy sample_input sample_rule"
  using newest_saved_rule_decides[of "[sample_rule]" sample_input 5 default_policy] sample_matches by simp

text \<open>A decision only clears the request it was evaluated for, and only by what evaluation sealed
  into it: routed for another authority or another resource it is a denial if it was one and a
  human's decision otherwise, and changing its public fields changes nothing.\<close>

theorem foreign_decision_never_clears:
  assumes "se_authority (pd_sealed d) \<noteq> in_authority i \<or> se_resource (pd_sealed d) \<noteq> in_resource i"
  shows "rq_route (route_request p req i d zone) = (if se_action (pd_sealed d) = Deny then RDeny else RSurface)
    \<and> rq_downgrades (route_request p req i d zone) = []
    \<and> route_request p req i (d\<lparr>pd_action := a, pd_pinned := b, pd_explicit := b, pd_names_resource := b,
          pd_matched := m\<rparr>) zone = route_request p req i d zone"
  using assms gate_downgrades[of Deny] gate_downgrades[of Surface]
  by (auto simp: route_request_def Let_def proposed_def gate_action)

theorem foreign_decision_never_clears_witness:
  "se_resource (pd_sealed (saved_decision default_policy sample_input sample_rule)) \<noteq> ''you''
   \<and> rq_route (route_request default_policy (RequestId ''r'') (sample_input\<lparr>in_resource := ''you''\<rparr>)
        (saved_decision default_policy sample_input sample_rule) \<lparr>human_note = None\<rparr>) = RSurface"
  using foreign_decision_never_clears[of "saved_decision default_policy sample_input sample_rule"
      "sample_input\<lparr>in_resource := ''you''\<rparr>" default_policy "RequestId ''r''" "\<lparr>human_note = None\<rparr>"]
  by (simp add: saved_decision_def seal_def Let_def sample_input_def sample_rule_def)

end
