(* ===== verification/Containment.thy ===== *)
theory Containment
  imports Agents Hostexec
begin

text \<open>
  Containment matching (\<open>core/src/containment.rs\<close>): which agents an entry of the containment list
  holds. An entry's \<open>match\<close> has the fields of a policy pattern's, so the struct is the record of
  the patterns; it is parsed and applied by code of its own. An agent carries the chain of the
  agents that minted it. The lemmas show that the two parsers agree and what \<open>holds\<close> means.
\<close>

section \<open>Entries\<close>

datatype agent_facts = AgentFacts (af_name: string) (af_kind: agent_kind) (af_runtime: "string option")
  (af_project: "string option") (af_host: "string option") (af_placement: placement)
  (af_ancestors: "agent_facts list")

datatype match_error =
  Not_an_object
| Extra_input string
| Name_is_string
| String_or_strings string
| Empty_matches_none string
| Bad_attr_text string string
| Value_not_allowed string string

type_synonym cont_match = agent_match

definition FIELDS :: "string list" where
  "FIELDS = [''name'', ''runtime'', ''project'', ''host'', ''placement'', ''kind'']"

definition attr_char :: "char \<Rightarrow> bool" where
  "attr_char c = (is_ascii_lowercase c \<or> is_ascii_digit c \<or> c \<in> set ''._-'')"

definition valid_attr :: "string \<Rightarrow> bool" where
  "valid_attr s =
     (case s of
        [] \<Rightarrow> False
      | first # chars \<Rightarrow>
          (is_ascii_lowercase first \<or> is_ascii_digit first) \<and> utf8_len s \<le> 64 \<and> list_all attr_char chars)"

definition cont_one_or_many :: "string \<Rightarrow> json \<Rightarrow> (match_error, string list option) result" where
  "cont_one_or_many field v =
     (case v of
        JNull \<Rightarrow> Ok None
      | JStr s \<Rightarrow> Ok (Some [s])
      | JArr items \<Rightarrow> map_ok Some (try_map (\<lambda>i. ok_or (as_str i) (String_or_strings field)) items)
      | _ \<Rightarrow> Err (String_or_strings field))"

definition attr_list :: "string \<Rightarrow> json \<Rightarrow> (match_error, string list option) result" where
  "attr_list field v =
     bind (cont_one_or_many field v) (\<lambda>found.
       case found of
         None \<Rightarrow> Ok None
       | Some items \<Rightarrow>
           if items = [] then Err (Empty_matches_none field)
           else (case find (\<lambda>i. \<not> valid_attr i) items of
                   Some bad \<Rightarrow> Err (Bad_attr_text field bad)
                 | None \<Rightarrow> Ok (Some items)))"

definition enum_list ::
  "string \<Rightarrow> json \<Rightarrow> (string \<Rightarrow> 'a option) \<Rightarrow> (match_error, 'a list option) result" where
  "enum_list field v parse =
     bind (cont_one_or_many field v) (\<lambda>found.
       case found of
         None \<Rightarrow> Ok None
       | Some items \<Rightarrow> map_ok Some (try_map (\<lambda>i. ok_or (parse i) (Value_not_allowed field i)) items))"

definition everyone :: cont_match where
  "everyone = \<lparr>m_name = any, m_runtime = None, m_project = None, m_host = None, m_placement = None, m_kind = None\<rparr>"

definition cont_kind_parse :: "string \<Rightarrow> agent_kind option" where
  "cont_kind_parse s =
     (if s = ''service'' then Some Service else if s = ''ephemeral'' then Some Ephemeral else None)"

definition field_or_null :: "json_map \<Rightarrow> string \<Rightarrow> json" where
  "field_or_null m k = (case bget m k of Some v \<Rightarrow> v | None \<Rightarrow> JNull)"

definition parse_map :: "json_map \<Rightarrow> (match_error, cont_match) result" where
  "parse_map m =
     (case find (\<lambda>k. k \<notin> set FIELDS) (bkeys m) of
        Some extra \<Rightarrow> Err (Extra_input extra)
      | None \<Rightarrow>
          bind (case bget m ''name'' of
                  None \<Rightarrow> Ok any
                | Some (JStr s) \<Rightarrow> Ok (Glob s)
                | Some v \<Rightarrow> Err Name_is_string) (\<lambda>name.
          bind (attr_list ''runtime'' (field_or_null m ''runtime'')) (\<lambda>rt.
          bind (attr_list ''project'' (field_or_null m ''project'')) (\<lambda>pr.
          bind (attr_list ''host'' (field_or_null m ''host'')) (\<lambda>ho.
          bind (enum_list ''placement'' (field_or_null m ''placement'') placement_parse) (\<lambda>pl.
          bind (enum_list ''kind'' (field_or_null m ''kind'') cont_kind_parse) (\<lambda>ki.
            Ok \<lparr>m_name = name, m_runtime = rt, m_project = pr, m_host = ho, m_placement = pl, m_kind = ki\<rparr>)))))))"

definition cont_parse :: "json \<Rightarrow> (match_error, cont_match) result" where
  "cont_parse value = (case value of JObj m \<Rightarrow> parse_map m | _ \<Rightarrow> Err Not_an_object)"

definition cont_has :: "string list option \<Rightarrow> string option \<Rightarrow> bool" where
  "cont_has wanted value =
     (case wanted of None \<Rightarrow> True | Some ws \<Rightarrow> is_some_and (\<lambda>v. list_ex (\<lambda>w. w = v) ws) value)"

definition cont_matches :: "cont_match \<Rightarrow> agent_facts \<Rightarrow> bool" where
  "cont_matches m a =
     (cont_has (m_runtime m) (af_runtime a) \<and> cont_has (m_project m) (af_project a)
      \<and> cont_has (m_host m) (af_host a)
      \<and> is_none_or (\<lambda>l. af_placement a \<in> set l) (m_placement m)
      \<and> is_none_or (\<lambda>l. af_kind a \<in> set l) (m_kind m)
      \<and> glob_matches (m_name m) (af_name a))"

definition list_part :: "string \<Rightarrow> string list option \<Rightarrow> string list" where
  "list_part field found = (case found of None \<Rightarrow> [] | Some l \<Rightarrow> [field @ '': '' @ join ''|'' l])"

definition cont_pattern_text :: "cont_match \<Rightarrow> string" where
  "cont_pattern_text m =
     ''{'' @ join '', ''
       ((if source (m_name m) \<noteq> ''*'' then [''name: '' @ source (m_name m)] else [])
        @ list_part ''runtime'' (m_runtime m) @ list_part ''project'' (m_project m) @ list_part ''host'' (m_host m)
        @ list_part ''placement'' (map_option (map placement_as_str) (m_placement m))
        @ list_part ''kind'' (map_option (map agent_kind_as_str) (m_kind m))) @ ''}''"

definition holds :: "json \<Rightarrow> agent_facts \<Rightarrow> bool" where
  "holds entry a =
     (if af_kind a = Operator then False
      else if is_falsy entry then True
      else (case cont_parse entry of
              Ok m \<Rightarrow> cont_matches m a \<or> list_ex (\<lambda>x. af_kind x \<noteq> Operator \<and> cont_matches m x) (af_ancestors a)
            | Err e \<Rightarrow> True))"

definition first_holding :: "'e list \<Rightarrow> ('e \<Rightarrow> json) \<Rightarrow> agent_facts \<Rightarrow> 'e option" where
  "first_holding entries match_of a = find (\<lambda>e. holds (match_of e) a) entries"

section \<open>The two parsers agree\<close>

lemma attr_char_ascii: "attr_char c \<Longrightarrow> (of_char c :: nat) < 128"
  by (auto simp: attr_char_def char_simps less_eq_char_def)

lemma utf8_len_ascii: "list_all (\<lambda>c. (of_char c :: nat) < 128) s \<Longrightarrow> utf8_len s = length s"
  by (induction s) (auto simp: utf8_len_def)

lemma attr_char_eq: "attr_char = lower_digit_dot_dash_underscore"
  by (auto simp: fun_eq_iff attr_char_def lower_digit_dot_dash_underscore_def lower_digit_def)

lemma valid_attr_shaped: "valid_attr s = shaped s lower_digit lower_digit_dot_dash_underscore 63"
proof (cases s)
  case (Cons c cs)
  have "utf8_len s = length s" if "lower_digit c" "list_all attr_char cs"
  proof (rule utf8_len_ascii)
    have "attr_char c" using that(1) unfolding attr_char_def lower_digit_def by blast
    then show "list_all (\<lambda>c. (of_char c :: nat) < 128) s"
      using that(2) attr_char_ascii unfolding Cons list_all_iff by auto
  qed
  then show ?thesis
    unfolding shaped_iff valid_attr_def Cons by (auto simp: lower_digit_def attr_char_eq[symmetric])
qed (simp add: valid_attr_def)

lemma try_map_ok_or: "(try_map (\<lambda>i. ok_or (p i) (e i)) xs = Inr ys) = (opt_map p xs = Some ys)"
  by (induction xs arbitrary: ys) (auto simp: result_simps split: option.splits)

lemma one_or_many_agree: "(cont_one_or_many f v = Inr r) = (one_or_many f v = Inr r)"
  by (cases v) (auto simp: cont_one_or_many_def one_or_many_def result_simps try_map_ok_or)

lemma try_map_check:
  "(try_map (\<lambda>s. map_err g (if P s then Inr s else Inl (e s))) xs = Inr ys) = (ys = xs \<and> list_all P xs)"
  by (induction xs arbitrary: ys) (auto simp: result_simps)

definition attrs_of :: "string list option \<Rightarrow> string list option \<Rightarrow> bool" where
  "attrs_of found r =
     (case found of None \<Rightarrow> r = None | Some items \<Rightarrow> items \<noteq> [] \<and> list_all valid_attr items \<and> r = Some items)"

lemma attr_list_iff: "(attr_list f v = Inr r) = (\<exists>x. one_or_many f v = Inr x \<and> attrs_of x r)"
proof -
  have "((case x of None \<Rightarrow> Ok None
       | Some items \<Rightarrow> if items = [] then Err (Empty_matches_none f)
           else (case find (\<lambda>i. \<not> valid_attr i) items of
                   Some bad \<Rightarrow> Err (Bad_attr_text f bad) | None \<Rightarrow> Ok (Some items))) = Inr r) = attrs_of x r" for x
  proof (cases x)
    case (Some items)
    then show ?thesis
      using find_None_iff[of "\<lambda>i. \<not> valid_attr i" items]
      by (cases "find (\<lambda>i. \<not> valid_attr i) items") (auto simp: attrs_of_def list_all_iff)
  qed (auto simp: attrs_of_def)
  then show ?thesis by (simp add: attr_list_def bind_Ok_iff one_or_many_agree)
qed

lemma attr_list_agree: "(attr_list f v = Inr r) = (attr_values f v = Inr r)"
proof -
  have "((case x of None \<Rightarrow> Ok None
       | Some items \<Rightarrow> bind (try_map (\<lambda>s. map_err (Bad_attr_value f) (attr_value_parse s)) items) (\<lambda>values.
             if values = [] then Err (Empty_list f) else Ok (Some values))) = Inr r) = attrs_of x r" for x
    by (cases x) (auto simp: attrs_of_def bind_Ok_iff attr_value_parse_def try_map_check valid_attr_shaped[abs_def])
  then show ?thesis by (simp add: attr_list_iff attr_values_def bind_Ok_iff)
qed

lemma enum_list_agree: "(enum_list f v p = Inr r) = (enum_values f v p allowed = Inr r)"
  by (auto simp: enum_list_def enum_values_def result_simps one_or_many_agree try_map_ok_or split: option.splits)

lemma cont_kind_parse_agree: "cont_kind_parse = (\<lambda>s. find (\<lambda>k. agent_kind_as_str k = s) MATCHABLE_KINDS)"
  by (auto simp: cont_kind_parse_def MATCHABLE_KINDS_def fun_eq_iff)

definition field_ok :: "string \<Rightarrow> (json \<Rightarrow> ('e, 'a) result) \<Rightarrow> 'a \<Rightarrow> json_map \<Rightarrow> 'a \<Rightarrow> bool" where
  "field_ok key parse old m x = (case bget m key of None \<Rightarrow> x = old | Some v \<Rightarrow> parse v = Inr x)"

definition name_of :: "json \<Rightarrow> (unit, glob) result" where
  "name_of v = (case v of JStr s \<Rightarrow> Ok (Glob s) | _ \<Rightarrow> Err ())"

definition fields_ok :: "json_map \<Rightarrow> agent_match \<Rightarrow> agent_match \<Rightarrow> bool" where
  "fields_ok m old r =
     (set (bkeys m) \<subseteq> set FIELDS
      \<and> field_ok ''name'' name_of (m_name old) m (m_name r)
      \<and> field_ok ''runtime'' (attr_values ''runtime'') (m_runtime old) m (m_runtime r)
      \<and> field_ok ''project'' (attr_values ''project'') (m_project old) m (m_project r)
      \<and> field_ok ''host'' (attr_values ''host'') (m_host old) m (m_host r)
      \<and> field_ok ''placement'' (\<lambda>v. enum_values ''placement'' v placement_parse ''host, sandbox'')
          (m_placement old) m (m_placement r)
      \<and> field_ok ''kind'' (\<lambda>v. enum_values ''kind'' v (\<lambda>s. find (\<lambda>k. agent_kind_as_str k = s) MATCHABLE_KINDS)
          ''service, ephemeral'') (m_kind old) m (m_kind r))"

lemma field_ok_Cons:
  "field_ok key parse old ((k, v) # m) x = (if k = key then parse v = Inr x else field_ok key parse old m x)"
  by (simp add: field_ok_def)

lemma field_ok_absent: "bget m key = None \<Longrightarrow> field_ok key parse old m x = (x = old)"
  by (simp add: field_ok_def)

lemma one_of_six [consumes 1]:
  "x \<in> set [a, b, c, d, e, f] \<Longrightarrow> (x = a \<Longrightarrow> P) \<Longrightarrow> (x = b \<Longrightarrow> P) \<Longrightarrow> (x = c \<Longrightarrow> P) \<Longrightarrow> (x = d \<Longrightarrow> P)
   \<Longrightarrow> (x = e \<Longrightarrow> P) \<Longrightarrow> (x = f \<Longrightarrow> P) \<Longrightarrow> P"
  by auto

lemma match_fields_iff: "bmap_ok m \<Longrightarrow> (match_fields m old = Inr r) = fields_ok m old r"
proof (induction m arbitrary: old)
  case Nil
  have "(old = r) = (m_name r = m_name old \<and> m_runtime r = m_runtime old \<and> m_project r = m_project old
      \<and> m_host r = m_host old \<and> m_placement r = m_placement old \<and> m_kind r = m_kind old)"
    by (cases old; cases r) auto
  then show ?case by (simp add: fields_ok_def field_ok_def)
next
  case (Cons kv m)
  obtain k v where kv: "kv = (k, v)" by (cases kv)
  have IH: "(match_fields m old' = Inr r) = fields_ok m old' r" for old' using Cons by (simp add: kv)
  have none: "bget m k = None" using Cons.prems by (intro bget_below) (auto simp: kv)
  show ?case
  proof (cases "k \<in> set FIELDS")
    case True
    then have "k \<in> set [''name'', ''runtime'', ''project'', ''host'', ''placement'', ''kind'']" by (simp only: FIELDS_def)
    then show ?thesis
    proof (cases rule: one_of_six)
      case 1
      then show ?thesis using none IH
        by (cases v) (auto simp: kv match_field_def fields_ok_def field_ok_Cons field_ok_absent FIELDS_def name_of_def)
    qed (insert none, auto simp: kv match_field_def bind_Ok_iff map_ok_Ok_iff IH fields_ok_def field_ok_Cons
          field_ok_absent FIELDS_def)
  next
    case False
    then show ?thesis by (simp add: kv match_field_def fields_ok_def FIELDS_def)
  qed
qed

lemma attr_field: "(attr_list f (field_or_null m k) = Inr x) = field_ok k (attr_values f) None m x"
  by (auto simp: attr_list_agree field_or_null_def field_ok_def attr_values_def one_or_many_def split: option.splits)

lemma enum_field: "(enum_list f (field_or_null m k) p = Inr x) = field_ok k (\<lambda>v. enum_values f v p allowed) None m x"
  by (auto simp: enum_list_agree[where allowed = allowed] field_or_null_def field_ok_def enum_values_def
      one_or_many_def split: option.splits)

lemma name_field:
  "((case bget m ''name'' of None \<Rightarrow> Ok any | Some (JStr s) \<Rightarrow> Ok (Glob s) | Some v \<Rightarrow> Err Name_is_string) = Inr x)
   = field_ok ''name'' name_of any m x"
  by (auto simp: field_ok_def name_of_def split: option.splits json.splits)

lemma parse_map_iff: "(parse_map m = Inr r) = fields_ok m everyone r"
proof (cases "find (\<lambda>k. k \<notin> set FIELDS) (bkeys m)")
  case None
  then have "set (bkeys m) \<subseteq> set FIELDS" by (auto simp: find_None_iff)
  moreover have "(Inr \<lparr>m_name = n, m_runtime = rt, m_project = pr, m_host = ho, m_placement = pl, m_kind = ki\<rparr> = Inr r)
      = (n = m_name r \<and> rt = m_runtime r \<and> pr = m_project r \<and> ho = m_host r \<and> pl = m_placement r \<and> ki = m_kind r)"
    for n rt pr ho pl ki by (cases r) auto
  ultimately show ?thesis
    by (simp add: parse_map_def None bind_Ok_iff name_field attr_field everyone_def
        enum_field[where f = "''placement''" and allowed = "''host, sandbox''"]
        enum_field[where f = "''kind''" and allowed = "''service, ephemeral''"]
        fields_ok_def cont_kind_parse_agree)
next
  case (Some extra)
  then have "extra \<in> set (bkeys m)" "extra \<notin> set FIELDS" unfolding find_Some_iff by auto
  then have "\<not> set (bkeys m) \<subseteq> set FIELDS" by blast
  with Some show ?thesis by (simp add: parse_map_def fields_ok_def)
qed

definition facts_ref :: "agent_facts \<Rightarrow> agent_ref" where
  "facts_ref a = \<lparr>agent_name = af_name a, runtime = af_runtime a, project = af_project a, host = af_host a,
     placement = af_placement a, kind = af_kind a\<rparr>"

lemma cont_matches_agree: "cont_matches m a = agent_match_matches m (facts_ref a)"
  by (simp add: cont_matches_def agent_match_matches_def facts_ref_def cont_has_def has_attr_def)

lemma cont_parse_agree: "json_ok v \<Longrightarrow> (cont_parse v = Inr m) = (agent_match_from_value v = Inr m)"
  by (cases v) (auto simp: cont_parse_def agent_match_from_value_def parse_map_iff match_fields_iff
      default_match_def everyone_def)

section \<open>Properties\<close>

text \<open>A containment entry and a policy pattern read the same language: on every JSON value the two
  parsers accept the same matches with the same result, and an accepted match describes the same
  agents in both.\<close>

theorem containment_agrees_with_patterns:
  assumes "json_ok v"
  shows "(cont_parse v = Ok m \<longleftrightarrow> pattern_from_value v = Ok (Fields m))
    \<and> cont_matches m a = pattern_matches (Fields m) (facts_ref a)"
  using cont_parse_agree[OF assms]
  by (cases v) (auto simp: pattern_from_value_def map_ok_Ok_iff cont_matches_agree cont_parse_def)

theorem containment_agrees_with_patterns_witness:
  "json_ok (JObj [(''kind'', JStr ''service'')])
   \<and> cont_parse (JObj [(''kind'', JStr ''service'')]) = Ok (everyone\<lparr>m_kind := Some [Service]\<rparr>)
   \<and> pattern_from_value (JObj [(''kind'', JStr ''service'')]) = Ok (Fields (everyone\<lparr>m_kind := Some [Service]\<rparr>))"
proof -
  have "cont_parse (JObj [(''kind'', JStr ''service'')]) = Ok (everyone\<lparr>m_kind := Some [Service]\<rparr>)"
    by (simp add: cont_parse_def parse_map_def FIELDS_def attr_list_def enum_list_def cont_one_or_many_def
        field_or_null_def cont_kind_parse_def everyone_def)
  moreover have ok: "json_ok (JObj [(''kind'', JStr ''service'')])" by simp
  ultimately show ?thesis
    using containment_agrees_with_patterns[OF ok, of "everyone\<lparr>m_kind := Some [Service]\<rparr>"] by simp
qed

text \<open>Whom an entry holds, exactly: never the operator; everyone else when the match is empty,
  falsy or does not parse (containment fails closed); and otherwise the agents the match describes
  together with every agent one of whose non-operator ancestors it describes. Adding an ancestor
  never frees an agent.\<close>

theorem holds_exact:
  "holds entry a =
     (af_kind a \<noteq> Operator \<and>
      (is_falsy entry \<or> (\<forall>m. cont_parse entry \<noteq> Ok m)
       \<or> (\<exists>m x. cont_parse entry = Ok m \<and> (x = a \<or> x \<in> set (af_ancestors a))
            \<and> af_kind x \<noteq> Operator \<and> cont_matches m x)))
   \<and> \<not> holds entry (AgentFacts n Operator rt pr ho pl anc)
   \<and> (holds entry (AgentFacts n k rt pr ho pl anc) \<longrightarrow> holds entry (AgentFacts n k rt pr ho pl (anc @ more_anc)))"
proof (cases "cont_parse entry")
  case (Inl e)
  then show ?thesis by (auto simp: holds_def)
next
  case (Inr m)
  then show ?thesis by (auto simp: holds_def list_ex_iff cont_matches_def)
qed

theorem holds_exact_witness:
  "holds (JStr ''junk'') (AgentFacts ''ci'' Service None None None Host_placement [])
   \<and> holds (JStr ''junk'') (AgentFacts ''ci'' Service None None None Host_placement ([] @ []))
   \<and> \<not> holds (JStr ''junk'') (AgentFacts ''me'' Operator None None None Host_placement [])"
  using holds_exact[of "JStr ''junk''" "AgentFacts ''ci'' Service None None None Host_placement []" "''me''" None None None
      Host_placement "[]"]
    holds_exact[of "JStr ''junk''" "AgentFacts ''ci'' Service None None None Host_placement []" "''ci''" None None None
      Host_placement "[]" Service "[]"]
  by (simp add: cont_parse_def)

end
