(* ===== verification/Totp.thy ===== *)
theory Totp
  imports Authority
begin

text \<open>
  How a host counts TOTP codes (\<open>core/src/hostd/totp.rs\<close>): a code is used once, wrong codes lock a
  secret for escalating times and, twenty of them within thirty days, until root clears it. Seconds
  and steps are 64-bit words, counters 32-bit ones, with the saturating arithmetic of the code. The
  lemmas are about every sequence of attempts, through the \<open>guarded_machine\<close> interface.
\<close>

section \<open>Constants and names\<close>

definition MAX_FAILURES :: u32 where "MAX_FAILURES = 5"
definition BASE_LOCKOUT_SECS :: u64 where "BASE_LOCKOUT_SECS = 300"
definition MAX_LOCKOUT_SHIFT :: u32 where "MAX_LOCKOUT_SHIFT = 8"
definition HARD_LOCK_FAILURES :: nat where "HARD_LOCK_FAILURES = 20"
definition FAILURE_WINDOW_SECS :: u64 where "FAILURE_WINDOW_SECS = 30 * 86400"
definition STEP_SECS :: u64 where "STEP_SECS = 30"
definition WINDOW_STEPS :: u64 where "WINDOW_STEPS = 1"

datatype purpose = Arm | Direct | Shell_code | Unlock

datatype secret_name = SecretName (secret_tier: tier) (secret_purpose: purpose)

definition ALL_SECRETS :: "secret_name list" where
  "ALL_SECRETS = [SecretName User Arm, SecretName User Direct, SecretName Root Arm, SecretName Root Direct]"

definition OPTIONAL_SECRETS :: "secret_name list" where
  "OPTIONAL_SECRETS = [SecretName User Shell_code, SecretName Root Shell_code, SecretName Root Unlock]"

definition every_secret :: "secret_name list" where
  "every_secret = ALL_SECRETS @ OPTIONAL_SECRETS"

fun secret_as_str :: "secret_name \<Rightarrow> string" where
  "secret_as_str (SecretName User Arm) = ''user-arm''"
| "secret_as_str (SecretName User Direct) = ''user-direct''"
| "secret_as_str (SecretName Root Arm) = ''root-arm''"
| "secret_as_str (SecretName Root Direct) = ''root-direct''"
| "secret_as_str (SecretName User Shell_code) = ''user-shell''"
| "secret_as_str (SecretName Root Shell_code) = ''root-shell''"
| "secret_as_str (SecretName User Unlock) = ''user-unlock''"
| "secret_as_str (SecretName Root Unlock) = ''root-unlock''"

definition secret_parse :: "string \<Rightarrow> secret_name option" where
  "secret_parse s = find (\<lambda>n. secret_as_str n = s) every_secret"

section \<open>The state and its file\<close>

record totp_state =
  last_step :: "u64 option"
  failures :: u32
  lockouts :: u32
  locked_until :: "u64 option"
  recent_failures :: "u64 list"
  hard_locked :: bool

definition default_totp :: totp_state where
  "default_totp = \<lparr>last_step = None, failures = 0, lockouts = 0, locked_until = None, recent_failures = [],
     hard_locked = False\<rparr>"

text \<open>A double at or above \<open>2 ^ 53\<close> is a multiple of a power of two: the integer nearest to a decimal,
  ties to even, with 53 significant bits.\<close>

fun bit_length :: "nat \<Rightarrow> nat" where
  "bit_length n = (if n = 0 then 0 else Suc (bit_length (n div 2)))"

definition nearest_double :: "nat \<Rightarrow> nat" where
  "nearest_double n =
     (if n < 2 ^ 53 then n
      else let k = bit_length n - 53; q = n div 2 ^ k; r = n mod 2 ^ k; half = 2 ^ (k - 1)
           in (if r > half \<or> r = half \<and> odd q then q + 1 else q) * 2 ^ k)"

definition f64_ceil :: "f64 \<Rightarrow> nat" where
  "f64_ceil f =
     (if f64_exponent f \<ge> 0 then f64_mantissa f * 10 ^ nat (f64_exponent f)
      else let d = 10 ^ nat (- f64_exponent f) in (f64_mantissa f + d - 1) div d)"

text \<open>\<open>f >= 1.8e19\<close>, for a value that is not negative.\<close>

definition f64_is_huge :: "f64 \<Rightarrow> bool" where
  "f64_is_huge f =
     (if f64_exponent f \<ge> 0 then f64_mantissa f * 10 ^ nat (f64_exponent f) \<ge> 18000000000000000000
      else f64_mantissa f \<ge> 18000000000000000000 * 10 ^ nat (- f64_exponent f))"

definition float_secs :: "f64 \<Rightarrow> u64" where
  "float_secs f = (if f64_is_huge f then - 1 else of_nat (nearest_double (f64_ceil f)))"

definition state_uint :: "json_map \<Rightarrow> string \<Rightarrow> u64 option option" where
  "state_uint m k =
     (case bget m k of
        None \<Rightarrow> Some None
      | Some JNull \<Rightarrow> Some None
      | Some (JNum (PosInt n)) \<Rightarrow> Some (Some n)
      | Some (JNum (NegInt n)) \<Rightarrow> Some None
      | Some (JNum (Float f)) \<Rightarrow>
          if \<not> f64_negative f \<or> f64_mantissa f = 0 then Some (Some (float_secs f)) else None
      | Some v \<Rightarrow> None)"

definition counter_of :: "u64 option \<Rightarrow> u32" where
  "counter_of found =
     (case found of None \<Rightarrow> 0 | Some n \<Rightarrow> (case u32_try_from n of Some c \<Rightarrow> c | None \<Rightarrow> - 1))"

definition recent_of :: "json option \<Rightarrow> u64 list option" where
  "recent_of v =
     (case v of
        None \<Rightarrow> Some []
      | Some JNull \<Rightarrow> Some []
      | Some (JArr items) \<Rightarrow> opt_map as_u64 (take HARD_LOCK_FAILURES items)
      | Some w \<Rightarrow> None)"

definition hard_locked_of :: "json option \<Rightarrow> bool option" where
  "hard_locked_of v =
     (case v of None \<Rightarrow> Some False | Some JNull \<Rightarrow> Some False | Some (JBool b) \<Rightarrow> Some b | Some w \<Rightarrow> None)"

definition totp_from_json :: "json \<Rightarrow> totp_state option" where
  "totp_from_json v =
     (case v of
        JObj m \<Rightarrow>
          Option.bind (state_uint m ''last_step'') (\<lambda>last.
          Option.bind (state_uint m ''failures'') (\<lambda>fails.
          Option.bind (state_uint m ''lockouts'') (\<lambda>locks.
          Option.bind (state_uint m ''locked_until'') (\<lambda>until.
          Option.bind (recent_of (bget m ''recent_failures'')) (\<lambda>recent.
          Option.bind (hard_locked_of (bget m ''hard_locked'')) (\<lambda>hard.
            Some \<lparr>last_step = last, failures = counter_of fails, lockouts = counter_of locks, locked_until = until,
              recent_failures = recent, hard_locked = hard\<rparr>))))))
      | _ \<Rightarrow> None)"

fun json_opt_u64 :: "u64 option \<Rightarrow> json" where
  "json_opt_u64 None = JNull"
| "json_opt_u64 (Some n) = JNum (PosInt n)"

definition totp_to_json :: "totp_state \<Rightarrow> json" where
  "totp_to_json s = json_obj
     [(''last_step'', json_opt_u64 (last_step s)), (''failures'', JNum (PosInt (ucast (failures s)))),
      (''lockouts'', JNum (PosInt (ucast (lockouts s)))), (''locked_until'', json_opt_u64 (locked_until s)),
      (''recent_failures'', JArr (map (\<lambda>t. JNum (PosInt t)) (recent_failures s))),
      (''hard_locked'', JBool (hard_locked s))]"

section \<open>Attempts\<close>

datatype totp_refusal = HardLocked secret_name | Locked_for secret_name u64 | WrongCode | AlreadyUsed

datatype accepted_code = AcceptedCode (code_name: secret_name) (code_step: u64)

datatype attempt = Attempt (attempt_name: secret_name) (attempt_now: u64)

definition clear_lock :: "totp_state \<Rightarrow> totp_state" where
  "clear_lock s = s\<lparr>failures := 0, lockouts := 0, locked_until := None, recent_failures := [], hard_locked := False\<rparr>"

definition lock_reason :: "totp_state \<Rightarrow> secret_name \<Rightarrow> u64 \<Rightarrow> totp_refusal option" where
  "lock_reason s name now_secs =
     (if hard_locked s then Some (HardLocked name)
      else case locked_until s of
        Some until \<Rightarrow> if until > now_secs then Some (Locked_for name (sat_sub until now_secs)) else None
      | None \<Rightarrow> None)"

definition begin_attempt :: "totp_state \<Rightarrow> secret_name \<Rightarrow> u64 \<Rightarrow> (totp_refusal, attempt) result" where
  "begin_attempt s name now_secs =
     (case lock_reason s name now_secs of Some refusal \<Rightarrow> Err refusal | None \<Rightarrow> Ok (Attempt name now_secs))"

definition lockout_secs :: "u32 \<Rightarrow> u64" where
  "lockout_secs n = push_bit (unat (min (sat_sub n 1) MAX_LOCKOUT_SHIFT)) BASE_LOCKOUT_SECS"

definition attempt_window :: "attempt \<Rightarrow> u64 \<times> u64" where
  "attempt_window a =
     (let current = attempt_now a div STEP_SECS in (sat_sub current WINDOW_STEPS, sat_add current WINDOW_STEPS))"

definition fail_recent :: "u64 \<Rightarrow> u64 list \<Rightarrow> u64 list" where
  "fail_recent now recent =
     (let horizon = sat_sub now FAILURE_WINDOW_SECS;
          pushed = filter (\<lambda>t. t > horizon) recent @ [now];
          excess = length pushed - HARD_LOCK_FAILURES
      in drop excess pushed)"

definition totp_fail :: "attempt \<Rightarrow> totp_state \<Rightarrow> totp_state" where
  "totp_fail a s =
     (let now = attempt_now a;
          s1 = s\<lparr>recent_failures := fail_recent now (recent_failures s), failures := sat_add (failures s) 1\<rparr>;
          s2 = (if length (recent_failures s1) \<ge> HARD_LOCK_FAILURES then s1\<lparr>hard_locked := True\<rparr> else s1)
      in if failures s2 \<ge> MAX_FAILURES then
           let n = sat_add (lockouts s2) 1
           in s2\<lparr>failures := 0, lockouts := n, locked_until := Some (sat_add now (lockout_secs n))\<rparr>
         else s2)"

definition conclude :: "attempt \<Rightarrow> totp_state \<Rightarrow> u64 option \<Rightarrow> totp_state \<times> (totp_refusal, accepted_code) result" where
  "conclude a s matched =
     (let (first, last) = attempt_window a in
      case opt_filter (\<lambda>step. first \<le> step \<and> step \<le> last) matched of
        None \<Rightarrow> (totp_fail a s, Err WrongCode)
      | Some step \<Rightarrow>
          if is_some_and (\<lambda>l. step \<le> l) (last_step s) then (s, Err AlreadyUsed)
          else (s\<lparr>last_step := Some step, failures := 0, lockouts := 0, locked_until := None\<rparr>,
                Ok (AcceptedCode (attempt_name a) step)))"

section \<open>Sequences of attempts\<close>

text \<open>What happens to one secret: a code tried at a time, with the step its digits match if any, or
  root clearing the lock. An attempt is begun and concluded in one go, and the state is kept.\<close>

datatype totp_event = Try u64 "u64 option" | Clear

datatype totp_outcome = Accepted u64 | Refused_code totp_refusal | Cleared

definition try_code :: "secret_name \<Rightarrow> u64 \<Rightarrow> u64 option \<Rightarrow> totp_state \<Rightarrow> totp_state \<times> totp_outcome" where
  "try_code name now matched s =
     (case begin_attempt s name now of
        Err e \<Rightarrow> (s, Refused_code e)
      | Ok a \<Rightarrow>
          (case conclude a s matched of
             (s', Ok c) \<Rightarrow> (s', Accepted (code_step c))
           | (s', Err e) \<Rightarrow> (s', Refused_code e)))"

fun totp_handle :: "secret_name \<Rightarrow> totp_event \<Rightarrow> totp_state \<Rightarrow> totp_state \<times> totp_outcome" where
  "totp_handle name (Try now matched) s = try_code name now matched s"
| "totp_handle name Clear s = (clear_lock s, Cleared)"

fun totp_run :: "secret_name \<Rightarrow> totp_event list \<Rightarrow> totp_state \<Rightarrow> totp_outcome list" where
  "totp_run name [] s = []"
| "totp_run name (e # es) s = (case totp_handle name e s of (s', out) \<Rightarrow> out # totp_run name es s')"

section \<open>One attempt\<close>

definition open_at :: "totp_state \<Rightarrow> u64 \<Rightarrow> bool" where
  "open_at s now = (\<not> hard_locked s \<and> is_none_or (\<lambda>u. u \<le> now) (locked_until s))"

lemma begin_attempt_Ok: "(begin_attempt s name now = Inr a) = (open_at s now \<and> a = Attempt name now)"
  by (auto simp: begin_attempt_def lock_reason_def open_at_def split: option.splits if_splits)

lemma begin_attempt_Err:
  "begin_attempt s name now = Inl e \<Longrightarrow> \<not> open_at s now \<and> e \<noteq> WrongCode \<and> (hard_locked s \<longrightarrow> e = HardLocked name)"
  by (auto simp: begin_attempt_def lock_reason_def open_at_def split: option.splits if_splits)

lemma try_code_cases [consumes 1, case_names locked wrong used accepted]:
  assumes "try_code name now matched s = (s', out)"
  obtains e where "\<not> open_at s now" "s' = s" "out = Refused_code e" "e \<noteq> WrongCode" "hard_locked s \<longrightarrow> e = HardLocked name"
  | "open_at s now" "s' = totp_fail (Attempt name now) s" "out = Refused_code WrongCode"
  | "open_at s now" "s' = s" "out = Refused_code AlreadyUsed"
  | x where "open_at s now" "matched = Some x" "fst (attempt_window (Attempt name now)) \<le> x"
      "x \<le> snd (attempt_window (Attempt name now))" "is_none_or (\<lambda>l. l < x) (last_step s)"
      "s' = s\<lparr>last_step := Some x, failures := 0, lockouts := 0, locked_until := None\<rparr>" "out = Accepted x"
proof (cases "begin_attempt s name now")
  case (Inl e)
  then show thesis using assms begin_attempt_Err[OF Inl] by (intro that(1)[of e]) (auto simp: try_code_def)
next
  case (Inr a)
  then have a: "a = Attempt name now" "open_at s now" by (simp_all add: begin_attempt_Ok)
  let ?w = "attempt_window a"
  have w: "?w = (fst ?w, snd ?w)" by simp
  show thesis
  proof (cases "opt_filter (\<lambda>step. fst ?w \<le> step \<and> step \<le> snd ?w) matched")
    case None
    then show thesis using assms Inr a by (intro that(2)) (auto simp: try_code_def conclude_def split_beta)
  next
    case (Some x)
    show thesis
    proof (cases "is_some_and (\<lambda>l. x \<le> l) (last_step s)")
      case True
      then show thesis using assms Inr a Some by (intro that(3)) (auto simp: try_code_def conclude_def split_beta)
    next
      case False
      have fresh: "is_none_or (\<lambda>l. l < x) (last_step s)"
        using False by (cases "last_step s") auto
      have m: "matched = Some x" "fst ?w \<le> x" "x \<le> snd ?w" using Some by (auto simp: opt_filter_Some_iff)
      show thesis
        using assms Inr a Some False m fresh
        by (intro that(4)[of x]) (auto simp: try_code_def conclude_def split_beta)
    qed
  qed
qed

lemma fail_keeps [simp]: "last_step (totp_fail a s) = last_step s" "recent_failures (totp_fail a s) = fail_recent (attempt_now a) (recent_failures s)"
  by (simp_all add: totp_fail_def Let_def)

lemma hard_locked_fail:
  "hard_locked (totp_fail a s) = (hard_locked s \<or> HARD_LOCK_FAILURES \<le> length (fail_recent (attempt_now a) (recent_failures s)))"
  by (simp add: totp_fail_def Let_def)

lemma length_fail_recent: "length (fail_recent now r) \<le> HARD_LOCK_FAILURES"
  by (simp add: fail_recent_def Let_def)

lemma lockout_secs_exact: "unat (lockout_secs n) = 300 * 2 ^ min (unat n - 1) 8"
proof -
  have "unat (min (sat_sub n 1) MAX_LOCKOUT_SHIFT) = min (unat n - 1) 8"
    by (simp add: min_def word_le_nat_alt unat_sat_sub MAX_LOCKOUT_SHIFT_def)
  moreover have "unat (push_bit k (300 :: u64)) = 300 * 2 ^ k" if "k \<le> 8" for k
  proof -
    have "(2 :: nat) ^ k \<le> 2 ^ 8" using that by (intro power_increasing) auto
    then have "300 * (2 :: nat) ^ k < 2 ^ 64" by simp
    then show ?thesis
      by (subst unsigned_push_bit_eq) (simp add: take_bit_nat_eq_self push_bit_eq_mult)
  qed
  ultimately show ?thesis by (simp add: lockout_secs_def BASE_LOCKOUT_SECS_def)
qed

section \<open>Every sequence of attempts\<close>

definition totp_ok :: "totp_state \<Rightarrow> bool" where
  "totp_ok s = (length (recent_failures s) \<le> HARD_LOCK_FAILURES)"

definition steps_kept :: "totp_state \<Rightarrow> totp_state \<Rightarrow> bool" where
  "steps_kept s t = is_none_or (\<lambda>l. is_some_and (\<lambda>l'. l \<le> l') (last_step t)) (last_step s)"

lemma totp_handle_ok: "totp_ok s \<Longrightarrow> totp_ok (fst (totp_handle name e s))"
proof (cases e)
  case (Try now matched)
  obtain s' out where r: "try_code name now matched s = (s', out)" by (cases "try_code name now matched s")
  have s': "fst (totp_handle name e s) = s'" by (simp add: Try r)
  from r show "totp_ok s \<Longrightarrow> ?thesis"
    unfolding s' by (cases rule: try_code_cases) (auto simp: totp_ok_def length_fail_recent)
qed (simp add: clear_lock_def totp_ok_def)

lemma steps_kept_refl: "steps_kept s s"
  by (cases "last_step s") (auto simp: steps_kept_def)

lemma steps_kept_trans: "steps_kept s t \<Longrightarrow> steps_kept t u \<Longrightarrow> steps_kept s u"
  by (cases "last_step s"; cases "last_step t"; cases "last_step u") (auto simp: steps_kept_def)

lemma totp_handle_kept: "steps_kept s (fst (totp_handle name e s))"
proof (cases e)
  case (Try now matched)
  obtain s' out where r: "try_code name now matched s = (s', out)" by (cases "try_code name now matched s")
  have s': "fst (totp_handle name e s) = s'" by (simp add: Try r)
  from r show ?thesis
    unfolding s' by (cases rule: try_code_cases; cases "last_step s") (auto simp: steps_kept_def)
next
  case Clear
  then show ?thesis by (cases "last_step s") (auto simp: clear_lock_def steps_kept_def)
qed

interpretation totp: guarded_machine "\<lambda>e s. fst (totp_handle name e s)" totp_ok steps_kept for name
  by unfold_locales (simp_all add: totp_handle_ok steps_kept_refl totp_handle_kept, metis steps_kept_trans)

lemma totp_handle_accepted:
  assumes "totp_handle name e s = (s', Accepted x)"
  shows "is_none_or (\<lambda>l. l < x) (last_step s) \<and> last_step s' = Some x"
proof (cases e)
  case (Try now matched)
  with assms have "try_code name now matched s = (s', Accepted x)" by simp
  then show ?thesis by (cases rule: try_code_cases) auto
qed (use assms in auto)

fun accepted_steps :: "totp_outcome list \<Rightarrow> u64 list" where
  "accepted_steps [] = []"
| "accepted_steps (Accepted x # outs) = x # accepted_steps outs"
| "accepted_steps (out # outs) = accepted_steps outs"

lemma accepted_steps_above:
  "x \<in> set (accepted_steps (totp_run name es s)) \<Longrightarrow> is_none_or (\<lambda>l. l < x) (last_step s)"
proof (induction es arbitrary: s)
  case (Cons e es)
  obtain s' out where h: "totp_handle name e s = (s', out)" by (cases "totp_handle name e s")
  have kept: "steps_kept s s'" using totp_handle_kept[of s name e] h by simp
  show ?case
  proof (cases "\<exists>y. out = Accepted y \<and> x = y")
    case True
    then show ?thesis using totp_handle_accepted h by blast
  next
    case False
    then have "x \<in> set (accepted_steps (totp_run name es s'))"
      using Cons.prems h by (cases out) auto
    from Cons.IH[OF this] kept show ?thesis
      by (cases "last_step s"; cases "last_step s'") (auto simp: steps_kept_def)
  qed
qed simp

lemma accepted_steps_increase: "sorted_wrt (<) (accepted_steps (totp_run name es s))"
proof (induction es arbitrary: s)
  case (Cons e es)
  obtain s' out where h: "totp_handle name e s = (s', out)" by (cases "totp_handle name e s")
  then show ?case
    using Cons.IH[of s'] accepted_steps_above[of _ name es s'] totp_handle_accepted[of name e s s']
    by (cases out) fastforce+
qed simp

section \<open>Counting wrong codes\<close>

fun wrongs :: "totp_outcome list \<Rightarrow> nat" where
  "wrongs [] = 0"
| "wrongs (out # outs) = (if out = Refused_code WrongCode then Suc (wrongs outs) else wrongs outs)"

text \<open>The attempts of one window of thirty days, which begins after \<open>start\<close>.\<close>

fun within :: "nat \<Rightarrow> totp_event \<Rightarrow> bool" where
  "within start (Try t matched) = (start < unat t \<and> unat t \<le> start + 2592000)"
| "within start Clear = False"

definition window_failures :: "nat \<Rightarrow> totp_state \<Rightarrow> nat" where
  "window_failures start s = length (filter (\<lambda>t. start < unat t) (recent_failures s))"

lemma hard_locked_silent:
  "hard_locked s \<Longrightarrow> list_all (within start) es \<Longrightarrow> totp_run name es s = replicate (length es) (Refused_code (HardLocked name))"
proof (induction es)
  case (Cons e es)
  from Cons.prems obtain t m where e: "e = Try t m" by (cases e) auto
  obtain s' out where r: "try_code name t m s = (s', out)" by (cases "try_code name t m s")
  then have "s' = s \<and> out = Refused_code (HardLocked name)"
    using Cons.prems(1) by (cases rule: try_code_cases) (auto simp: open_at_def)
  then show ?case using Cons r by (simp add: e)
qed simp

lemma wrongs_replicate_locked: "wrongs (replicate n (Refused_code (HardLocked name))) = 0"
  by (induction n) auto

lemma window_failures_fail:
  assumes "start < unat now" "unat now \<le> start + 2592000"
    and small: "length (fail_recent now (recent_failures s)) < HARD_LOCK_FAILURES"
  shows "length (filter (\<lambda>t. start < unat t) (fail_recent now (recent_failures s))) = Suc (window_failures start s)"
proof -
  let ?horizon = "sat_sub now FAILURE_WINDOW_SECS"
  let ?pushed = "filter (\<lambda>t. t > ?horizon) (recent_failures s) @ [now]"
  have h: "unat ?horizon \<le> start" using assms by (simp add: unat_sat_sub FAILURE_WINDOW_SECS_def)
  have "length ?pushed \<le> HARD_LOCK_FAILURES" using small by (auto simp: fail_recent_def Let_def)
  then have "fail_recent now (recent_failures s) = ?pushed" by (simp add: fail_recent_def Let_def)
  moreover have "filter (\<lambda>t. start < unat t) (filter (\<lambda>t. t > ?horizon) r) = filter (\<lambda>t. start < unat t) r" for r
    using h by (induction r) (auto simp: word_less_nat_alt)
  ultimately show ?thesis using assms(1) by (simp add: window_failures_def)
qed

lemma wrongs_bounded:
  "totp_ok s \<Longrightarrow> list_all (within start) es \<Longrightarrow>
     wrongs (totp_run name es s) \<le> (if hard_locked s then 0 else max 1 (20 - window_failures start s))"
proof (induction es arbitrary: s)
  case (Cons e es)
  from Cons.prems obtain t m where e: "e = Try t m" and t: "start < unat t" "unat t \<le> start + 2592000"
    by (cases e) auto
  obtain s' out where r: "try_code name t m s = (s', out)" by (cases "try_code name t m s")
  have es: "list_all (within start) es" using Cons.prems by simp
  have run: "totp_run name (e # es) s = out # totp_run name es s'" by (simp add: e r)
  have ok: "totp_ok s'" using totp_handle_ok[of s name e] Cons.prems by (simp add: e r)
  note IH = Cons.IH[OF ok es]
  show ?case
  proof (cases "hard_locked s")
    case True
    then show ?thesis
      unfolding hard_locked_silent[OF True Cons.prems(2)] wrongs_replicate_locked by simp
  next
    case free: False
    from r have "wrongs (out # totp_run name es s') \<le> (if hard_locked s then 0 else max 1 (20 - window_failures start s))"
    proof (cases rule: try_code_cases)
      case wrong
      have recent: "recent_failures s' = fail_recent t (recent_failures s)" using wrong by simp
      show ?thesis
      proof (cases "hard_locked s'")
        case True
        then show ?thesis
          unfolding hard_locked_silent[OF True es] using free wrong by (simp add: wrongs_replicate_locked)
      next
        case False
        then have small: "length (fail_recent t (recent_failures s)) < HARD_LOCK_FAILURES"
          using wrong by (simp add: hard_locked_fail)
        have wf: "window_failures start s' = Suc (window_failures start s)"
          using window_failures_fail[OF t small] by (simp add: window_failures_def recent)
        have "window_failures start s' < 20"
          using le_less_trans[OF length_filter_le small]
          by (simp add: window_failures_def recent HARD_LOCK_FAILURES_def)
        then show ?thesis
          using IH False free wrong wf by simp
      qed
    next
      case (accepted x)
      then have same: "hard_locked s' = hard_locked s" "window_failures start s' = window_failures start s"
        by (simp_all add: window_failures_def)
      show ?thesis using IH accepted(7) unfolding same by simp
    qed (use IH in auto)
    then show ?thesis unfolding run .
  qed
qed simp

section \<open>The state file\<close>

lemma opt_map_u64: "opt_map as_u64 (map (\<lambda>t. JNum (PosInt t)) ts) = Some ts"
  by (induction ts) auto

lemma counter_of_ucast [simp]: "counter_of (Some (ucast n)) = n"
  by (simp add: counter_of_def)

lemma state_uint_opt: "bget m k = Some (json_opt_u64 x) \<Longrightarrow> state_uint m k = Some x"
  by (cases x) (simp_all add: state_uint_def)

lemma state_uint_num: "bget m k = Some (JNum (PosInt n)) \<Longrightarrow> state_uint m k = Some (Some n)"
  by (simp add: state_uint_def)

lemma totp_json_round_trip:
  assumes "totp_ok s"
  shows "totp_from_json (totp_to_json s) = Some s"
proof -
  obtain m where m: "totp_to_json s = JObj m" and b:
    "bget m ''last_step'' = Some (json_opt_u64 (last_step s))"
    "bget m ''failures'' = Some (JNum (PosInt (ucast (failures s))))"
    "bget m ''lockouts'' = Some (JNum (PosInt (ucast (lockouts s))))"
    "bget m ''locked_until'' = Some (json_opt_u64 (locked_until s))"
    "bget m ''recent_failures'' = Some (JArr (map (\<lambda>t. JNum (PosInt t)) (recent_failures s)))"
    "bget m ''hard_locked'' = Some (JBool (hard_locked s))"
    by (simp add: totp_to_json_def json_obj_def)
  have "recent_of (bget m ''recent_failures'') = Some (recent_failures s)"
    using assms by (simp add: b recent_of_def totp_ok_def take_map opt_map_u64)
  then show ?thesis
    by (simp add: totp_from_json_def m b state_uint_opt state_uint_num hard_locked_of_def)
qed

section \<open>A lock ends\<close>

definition settled :: "nat \<Rightarrow> totp_state \<Rightarrow> bool" where
  "settled t0 s =
     (is_none_or (\<lambda>l. unat l \<le> t0 div 30 + 1) (last_step s) \<and> is_none_or (\<lambda>u. unat u \<le> t0 + 76800) (locked_until s))"

fun until_time :: "nat \<Rightarrow> totp_event \<Rightarrow> bool" where
  "until_time t0 (Try t matched) = (unat t \<le> t0)"
| "until_time t0 Clear = True"

lemma window_bounds:
  "unat (snd (attempt_window (Attempt name now))) \<le> unat now div 30 + 1"
  "unat (fst (attempt_window (Attempt name now))) = unat now div 30 - 1"
  by (simp_all add: attempt_window_def Let_def unat_sat_add unat_sat_sub STEP_SECS_def WINDOW_STEPS_def unat_div_distrib)

lemma lockout_at_most: "unat (lockout_secs n) \<le> 76800"
proof -
  have "(2 :: nat) ^ min (unat n - 1) 8 \<le> 2 ^ 8" by (intro power_increasing) auto
  then show ?thesis by (simp add: lockout_secs_exact)
qed

lemma locked_until_fail:
  "locked_until (totp_fail a s) = Some u \<Longrightarrow> locked_until s = Some u \<or> unat u \<le> unat (attempt_now a) + 76800"
  using lockout_at_most[of "sat_add (lockouts s) 1"]
  by (auto simp: totp_fail_def Let_def unat_sat_add min_def split: if_splits)

lemma settled_step: "settled t0 s \<Longrightarrow> until_time t0 e \<Longrightarrow> settled t0 (fst (totp_handle name e s))"
proof (cases e)
  case (Try now matched)
  obtain s' out where r: "try_code name now matched s = (s', out)" by (cases "try_code name now matched s")
  have s': "fst (totp_handle name e s) = s'" by (simp add: Try r)
  assume s: "settled t0 s" and "until_time t0 e"
  then have t: "unat now \<le> t0" by (simp add: Try)
  from r show ?thesis unfolding s'
  proof (cases rule: try_code_cases)
    case wrong
    have "is_none_or (\<lambda>u. unat u \<le> t0 + 76800) (locked_until (totp_fail (Attempt name now) s))"
      using s t locked_until_fail[of "Attempt name now" s]
      by (cases "locked_until (totp_fail (Attempt name now) s)") (auto simp: settled_def)
    then show "settled t0 s'" using s wrong by (simp add: settled_def)
  next
    case (accepted x)
    have "unat x \<le> unat now div 30 + 1"
      using accepted window_bounds(1)[of name now] by (auto simp: word_le_nat_alt)
    also have "\<dots> \<le> t0 div 30 + 1" using t div_le_mono by simp
    finally show "settled t0 s'" using accepted by (simp add: settled_def)
  qed (use s in auto)
next
  case Clear
  then show "settled t0 s \<Longrightarrow> until_time t0 e \<Longrightarrow> ?thesis" by (simp add: clear_lock_def settled_def)
qed

lemma settled_run:
  "settled t0 s \<Longrightarrow> list_all (until_time t0) es \<Longrightarrow> settled t0 (fold (\<lambda>e s. fst (totp_handle name e s)) es s)"
  by (induction es arbitrary: s) (auto simp: settled_step)

lemma try_code_accepts:
  assumes "open_at s now" "fst (attempt_window (Attempt name now)) \<le> x" "x \<le> snd (attempt_window (Attempt name now))"
    and "is_none_or (\<lambda>l. l < x) (last_step s)"
  shows "snd (try_code name now (Some x) s) = Accepted x"
proof -
  have "begin_attempt s name now = Inr (Attempt name now)" using assms(1) by (simp add: begin_attempt_Ok)
  moreover have "\<not> is_some_and (\<lambda>l. x \<le> l) (last_step s)" using assms(4) by (cases "last_step s") auto
  ultimately show ?thesis using assms(2,3) by (simp add: try_code_def conclude_def split_beta)
qed

section \<open>Properties\<close>

text \<open>No code is accepted twice. In every sequence of attempts and lock clearings, at whatever
  times and from whatever state, the accepted steps are strictly increasing and later than the last
  one the state remembers; in particular clearing a lock never makes a code reusable.\<close>

theorem codes_used_once:
  "sorted_wrt (<) (accepted_steps (totp_run name es s))
   \<and> (\<forall>x. x \<in> set (accepted_steps (totp_run name es s)) \<longrightarrow> (\<forall>l. last_step s = Some l \<longrightarrow> l < x))"
proof -
  have "l < x" if "x \<in> set (accepted_steps (totp_run name es s))" "last_step s = Some l" for x l
    using accepted_steps_above[OF that(1)] that(2) by simp
  then show ?thesis using accepted_steps_increase by blast
qed

theorem codes_used_once_witness:
  "accepted_steps (totp_run (SecretName User Arm) [Try 60 (Some 2), Try 61 (Some 2), Try 90 (Some 3)] default_totp) = [2, 3]
   \<and> sorted_wrt (<) [2, 3 :: u64]"
proof -
  have run: "accepted_steps (totp_run (SecretName User Arm) [Try 60 (Some 2), Try 61 (Some 2), Try 90 (Some 3)] default_totp)
    = [2, 3]" by code_simp
  show ?thesis
    using codes_used_once[of "SecretName User Arm" "[Try 60 (Some 2), Try 61 (Some 2), Try 90 (Some 3)]" default_totp]
    unfolding run by blast
qed

text \<open>C23: At most twenty wrong codes are ever evaluated against a secret within thirty days, until root
  clears its lock: whatever the state before, however the attempts are spread over the window and
  whether or not right codes come in between.\<close>

theorem wrong_codes_bounded:
  assumes "totp_ok s" "list_all (within start) es"
  shows "wrongs (totp_run name es s) \<le> 20"
  using wrongs_bounded[OF assms, of name] by (auto split: if_splits)

theorem wrong_codes_bounded_witness:
  "totp_ok default_totp \<and> list_all (within 0) [Try 60 None, Try 61 None]
   \<and> wrongs (totp_run (SecretName Root Arm) [Try 60 None, Try 61 None] default_totp) \<le> 20"
proof -
  have ok: "totp_ok default_totp" by (simp add: totp_ok_def default_totp_def)
  have within: "list_all (within 0) [Try 60 None, Try 61 None]" by simp
  show ?thesis using wrong_codes_bounded[OF ok within] ok within by blast
qed

text \<open>C33: Every state a host reaches from any well-formed one survives its file: what is written is
  read back as the same state, so a restart forgets neither the last used step nor a lock.\<close>

theorem totp_state_survives_restart:
  assumes "totp_ok s"
  shows "totp_from_json (totp_to_json (fold (\<lambda>e s. fst (totp_handle name e s)) es s))
      = Some (fold (\<lambda>e s. fst (totp_handle name e s)) es s)
    \<and> steps_kept s (fold (\<lambda>e s. fst (totp_handle name e s)) es s)"
  using totp_json_round_trip[OF totp.run_inv[OF assms]] totp.run_below[OF assms] by blast

theorem totp_state_survives_restart_witness:
  "totp_ok default_totp \<and> totp_from_json (totp_to_json default_totp) = Some default_totp"
proof -
  have ok: "totp_ok default_totp" by (simp add: totp_ok_def default_totp_def)
  show ?thesis using totp_state_survives_restart[OF ok, of "SecretName User Arm" "[]"] ok by simp
qed

text \<open>C32: A lockout always ends: whatever was tried up to a moment, unless it led to a hard lock, a
  right code is accepted again from 76800 seconds (the longest lockout) after that moment on.\<close>

theorem lockout_ends:
  assumes "list_all (until_time t0) es"
    and "s = fold (\<lambda>e s. fst (totp_handle name e s)) es default_totp" "\<not> hard_locked s"
    and "t0 + 76800 \<le> unat now"
    and "fst (attempt_window (Attempt name now)) \<le> step" "step \<le> snd (attempt_window (Attempt name now))"
  shows "snd (try_code name now (Some step) s) = Accepted step"
proof (rule try_code_accepts)
  have s: "settled t0 s" unfolding assms(2) using assms(1) by (intro settled_run) (simp_all add: settled_def default_totp_def)
  then show "open_at s now"
    using assms(3,4) by (cases "locked_until s") (auto simp: open_at_def settled_def word_le_nat_alt)
  have "t0 div 30 + 2560 \<le> unat now div 30" using assms(4) div_le_mono[of "t0 + 76800" "unat now" 30] by simp
  moreover have "unat now div 30 - 1 \<le> unat step"
    using assms(5) window_bounds(2)[of name now] by (simp add: word_le_nat_alt)
  ultimately show "is_none_or (\<lambda>l. l < step) (last_step s)"
    using s by (cases "last_step s") (auto simp: settled_def word_less_nat_alt)
qed (use assms in auto)

theorem lockout_ends_witness:
  "list_all (until_time 60) [Try 60 None]
   \<and> \<not> hard_locked (fst (totp_handle (SecretName User Direct) (Try 60 None) default_totp))
   \<and> snd (try_code (SecretName User Direct) 76860 (Some 2562)
       (fst (totp_handle (SecretName User Direct) (Try 60 None) default_totp))) = Accepted 2562"
proof -
  let ?n = "SecretName User Direct"
  let ?s = "fst (totp_handle ?n (Try 60 None) default_totp)"
  have t: "list_all (until_time 60) [Try 60 None]" by simp
  have h: "\<not> hard_locked ?s"
    by (simp add: try_code_def begin_attempt_def lock_reason_def default_totp_def conclude_def attempt_window_def
        totp_fail_def fail_recent_def HARD_LOCK_FAILURES_def Let_def)
  have w: "fst (attempt_window (Attempt ?n 76860)) \<le> 2562" "2562 \<le> snd (attempt_window (Attempt ?n 76860))" by code_simp+
  have f: "?s = fold (\<lambda>e s. fst (totp_handle ?n e s)) [Try 60 None] default_totp" by simp
  show ?thesis using lockout_ends[OF t f h _ w] t h by simp
qed

end
