(* ===== verification/Hostd.thy ===== *)
theory Hostd
  imports Hostexec Totp
begin

text \<open>
  What a host's daemon decides with (\<open>core/src/hostd/mod.rs\<close> and \<open>core/src/hostd/policy.rs\<close>):
  refusals, times, identifiers, who approved a job and on what it is admitted, and the host's own
  policy. Times are 64-bit milliseconds. A digest is the text of a hash the caller computed.
\<close>

section \<open>Refusals, times and identifiers\<close>

text \<open>\<open>Refused\<close>: the plain texts, one constructor for a spec's error and one each for the texts with a
  JSON value or a dash in them.\<close>

datatype refused =
  Refused string
| Refused_spec spec_error
| Wrong_host "json option" string
| Not_armed tier string

type_synonym unix_millis = u64

definition plus_secs :: "unix_millis \<Rightarrow> u64 \<Rightarrow> unix_millis" where
  "plus_secs t secs = sat_add t (sat_mul secs 1000)"

definition millis_secs :: "unix_millis \<Rightarrow> u64" where
  "millis_secs t = t div 1000"

datatype lock_state = Unlocked | Locked

definition is_locked :: "lock_state \<Rightarrow> bool" where
  "is_locked l = (l = Locked)"

type_synonym local_id = string

definition lower_hex :: "char \<Rightarrow> bool" where
  "lower_hex c = (is_ascii_digit c \<or> (CHR ''a'' \<le> c \<and> c \<le> CHR ''f''))"

definition local_id_parse :: "string \<Rightarrow> (refused, local_id) result" where
  "local_id_parse s =
     (if 8 \<le> utf8_len s \<and> utf8_len s \<le> 64 \<and> list_all (\<lambda>c. lower_hex c \<or> c = CHR ''-'') s
      then Ok s else Err (Refused ''malformed job id''))"

definition local_id_from_value :: "json option \<Rightarrow> (refused, local_id) result" where
  "local_id_from_value v =
     (case v of Some (JStr s) \<Rightarrow> local_id_parse s | _ \<Rightarrow> Err (Refused ''malformed job id''))"

type_synonym spec_digest = string

definition spec_digest_parse :: "string \<Rightarrow> (refused, spec_digest) result" where
  "spec_digest_parse s =
     (if utf8_len s = 64 \<and> list_all lower_hex s then Ok s else Err (Refused ''malformed digest''))"

section \<open>Evidence\<close>

datatype source = Source_human | Source_rule | Source_llm | Source_policy | Source_desk

definition source_parse :: "string \<Rightarrow> source option" where
  "source_parse s =
     (if s = ''human'' then Some Source_human
      else if s = ''rule'' then Some Source_rule
      else if s = ''llm'' then Some Source_llm
      else if s = ''policy'' then Some Source_policy
      else None)"

fun source_as_str :: "source \<Rightarrow> string" where
  "source_as_str Source_human = ''human''"
| "source_as_str Source_rule = ''rule''"
| "source_as_str Source_llm = ''llm''"
| "source_as_str Source_policy = ''policy''"
| "source_as_str Source_desk = ''desk''"

definition from_evidence :: "string option \<Rightarrow> string option \<Rightarrow> source option" where
  "from_evidence src by_whom =
     (if is_some_and (prefix ''desktop:'') by_whom then Some Source_desk else Option.bind src source_parse)"

definition source_from_value :: "json option \<Rightarrow> source option" where
  "source_from_value v = Option.bind (Option.bind v as_str) source_parse"

datatype via = Via_totp | Via_desk | Via_auto | ArmedWindow | ArmedHuman | ArmedRule | ArmedLlm | ArmedPolicy | Via_shell

fun via_as_str :: "via \<Rightarrow> string" where
  "via_as_str Via_totp = ''totp''"
| "via_as_str Via_desk = ''desk''"
| "via_as_str Via_auto = ''auto''"
| "via_as_str ArmedWindow = ''armed+window''"
| "via_as_str ArmedHuman = ''armed+human''"
| "via_as_str ArmedRule = ''armed+rule''"
| "via_as_str ArmedLlm = ''armed+llm''"
| "via_as_str ArmedPolicy = ''armed+policy''"
| "via_as_str Via_shell = ''shell''"

definition via_is_armed :: "via \<Rightarrow> bool" where
  "via_is_armed v = (v \<in> {ArmedWindow, ArmedHuman, ArmedRule, ArmedLlm, ArmedPolicy})"

section \<open>The host's policy\<close>

record tier_policy =
  enable :: bool
  max_arm_secs :: u32
  accept_approve_all :: bool
  accept_machine_approvals :: bool
  shell_enable :: bool
  shell_max_duration_secs :: u32

definition default_tier_policy :: tier_policy where
  "default_tier_policy = \<lparr>enable = False, max_arm_secs = 3600, accept_approve_all = False,
     accept_machine_approvals = False, shell_enable = False, shell_max_duration_secs = 1800\<rparr>"

record host_policy =
  hp_name :: string
  hp_user :: tier_policy
  hp_root :: tier_policy
  hp_auto_commands :: "string list list"
  hp_deny_commands :: "string list list"
  hp_templates :: "(string, template) bmap"
  hp_env_allow :: "string bset"
  hp_default_timeout_secs :: u32
  hp_max_timeout_secs :: u32
  hp_desk_approve_user :: bool
  hp_desk_approve_root :: bool

definition connect_only :: "string \<Rightarrow> host_policy" where
  "connect_only name = \<lparr>hp_name = name, hp_user = default_tier_policy, hp_root = default_tier_policy,
     hp_auto_commands = [], hp_deny_commands = [], hp_templates = [],
     hp_env_allow = bset_of [''LANG'', ''LC_ALL'', ''TZ'', ''TERM''], hp_default_timeout_secs = 600,
     hp_max_timeout_secs = 3600, hp_desk_approve_user = False, hp_desk_approve_root = False\<rparr>"

fun hp_tier :: "host_policy \<Rightarrow> tier \<Rightarrow> tier_policy" where
  "hp_tier p User = hp_user p"
| "hp_tier p Root = hp_root p"

fun desk_approves :: "host_policy \<Rightarrow> tier \<Rightarrow> bool" where
  "desk_approves p User = hp_desk_approve_user p"
| "desk_approves p Root = hp_desk_approve_root p"

definition any_tier_enabled :: "host_policy \<Rightarrow> bool" where
  "any_tier_enabled p = (enable (hp_user p) \<or> enable (hp_root p))"

end
