(* ===== verification/Admission.thy ===== *)
theory Admission
  imports Hostd
begin

text \<open>
  Admission (\<open>core/src/hostd/admission.rs\<close>): a broker's spec re-validated against the host's policy,
  the host's own approvals (TOTP codes, desk answers), arming, the decision whether a job runs, and
  shells. The regular expressions of templates are the parameter \<open>re\<close>. The lemmas say on what
  evidence a job is admitted, that an approval is spent once, and that the precheck is exact.
\<close>

section \<open>Tier and spec\<close>

definition AUTHZ_TTL_SECS :: u64 where
  "AUTHZ_TTL_SECS = 300"

record arm_state =
  arm_user :: unix_millis
  arm_root :: unix_millis

record host_view =
  hv_policy :: host_policy
  hv_arm :: arm_state
  hv_lock :: lock_state
  hv_now :: unix_millis

record evidence =
  ev_source :: "source option"
  ev_window :: bool

definition tier_enabled :: "host_policy \<Rightarrow> tier \<Rightarrow> (refused, tier) result" where
  "tier_enabled p t =
     (if enable (hp_tier p t) then Ok t
      else Err (Refused (''the '' @ tier_as_str t @ '' tier is not enabled on '' @ hp_name p)))"

definition check_tier :: "host_policy \<Rightarrow> json option \<Rightarrow> (refused, tier) result" where
  "check_tier p v =
     bind (ok_or (Option.bind (Option.bind v as_str) tier_parse) (Refused ''tier must be user or root''))
       (tier_enabled p)"

definition locked_refusal :: "host_policy \<Rightarrow> refused" where
  "locked_refusal p = Refused (hp_name p @ '' is locked down'')"

definition has_dotdot :: "string \<Rightarrow> bool" where
  "has_dotdot arg = list_ex (\<lambda>seg. seg = ''..'') (split_char (CHR ''/'') arg)"

definition segments_match :: "string \<Rightarrow> string \<Rightarrow> bool" where
  "segments_match glob arg =
     (if CHR ''/'' \<notin> set glob then fnmatch arg glob
      else let globs = split_char (CHR ''/'') glob; args = split_char (CHR ''/'') arg
           in length globs = length args \<and> list_all (\<lambda>(g, a). fnmatch a g) (zip globs args))"

definition shape_matches :: "string list \<Rightarrow> string list \<Rightarrow> (string \<Rightarrow> string \<Rightarrow> bool) \<Rightarrow> bool" where
  "shape_matches pattern argv one =
     (let rest = (pattern \<noteq> [] \<and> last pattern = ''**'');
          fixed = (if rest then butlast pattern else pattern)
      in if length argv < length fixed \<or> (\<not> rest \<and> length argv \<noteq> length fixed) then False
         else list_all (\<lambda>(g, a). one g a) (zip fixed argv))"

definition auto_matches :: "string list \<Rightarrow> string list \<Rightarrow> bool" where
  "auto_matches pattern argv =
     (if list_ex has_dotdot argv then False else shape_matches pattern argv segments_match)"

definition deny_matches :: "string list \<Rightarrow> string list \<Rightarrow> bool" where
  "deny_matches pattern argv =
     (if match_argv pattern argv True then True
      else match_argv pattern (map (\<lambda>a. if CHR ''/'' \<in> set a then posix_normpath a else a) argv) True)"

record normalized =
  n_spec :: command_spec
  n_argv :: "string list"
  n_cwd :: "string option"
  n_env :: "(string, string) bmap"
  n_stdin :: "string option"

definition n_tier :: "normalized \<Rightarrow> tier" where
  "n_tier n = spec_tier (n_spec n)"

definition is_run :: "normalized \<Rightarrow> bool" where
  "is_run n = (case spec_command (n_spec n) of Run_command argv \<Rightarrow> True | _ \<Rightarrow> False)"

definition chars_of :: "string \<Rightarrow> json" where
  "chars_of s = JStr (''<'' @ show_nat (length s) @ '' chars>'')"

definition loggable :: "json \<Rightarrow> string list option \<Rightarrow> json" where
  "loggable spec argv =
     (case spec of
        JObj m \<Rightarrow>
          let m1 = (case bget m ''stdin'' of Some (JStr s) \<Rightarrow> binsert ''stdin'' (chars_of s) m | _ \<Rightarrow> m);
              m2 = (case argv of Some a \<Rightarrow> binsert ''argv'' (json_strs a) m1 | None \<Rightarrow> m1)
          in JObj m2
      | _ \<Rightarrow> JNull)"

definition n_loggable :: "normalized \<Rightarrow> json" where
  "n_loggable n =
     (case loggable (command_to_json (n_spec n)) (Some (n_argv n)) of
        JObj m \<Rightarrow>
          let m1 = binsert ''env'' (json_str_obj (n_env n)) (binsert ''cwd'' (json_opt_str (n_cwd n)) m)
          in JObj (case n_stdin n of Some s \<Rightarrow> binsert ''stdin'' (chars_of s) m1 | None \<Rightarrow> m1)
      | v \<Rightarrow> v)"

text \<open>What a command runs: itself, or the host's template of that name, with the directory, the
  environment and the input that go with it.\<close>

type_synonym resolved = "string list \<times> string option \<times> (string, string) bmap \<times> string option"

definition resolve :: "regex_lib \<Rightarrow> host_policy \<Rightarrow> command_spec \<Rightarrow> bool \<Rightarrow> (refused, resolved) result" where
  "resolve re p spec shell_command =
     (case spec_command spec of
        Run_command argv \<Rightarrow> Ok (argv, spec_cwd spec, spec_env spec, spec_stdin spec)
      | Template_command t params \<Rightarrow>
          if shell_command then Err (Refused ''templates don't run inside a shell'')
          else (case bget (hp_templates p) t of
             None \<Rightarrow> Err (Refused (''no template '' @ repr_string t @ '' on '' @ hp_name p))
           | Some ht \<Rightarrow>
               if t_tier ht \<noteq> spec_tier spec then
                 Err (Refused (''template '' @ repr_string t @ '' is a '' @ tier_as_str (t_tier ht) @ ''-tier template''))
               else if spec_cwd spec \<noteq> None then Err (Refused (''template '' @ repr_string t @ '' takes no cwd''))
               else if spec_env spec \<noteq> [] then Err (Refused (''template '' @ repr_string t @ '' takes no environment''))
               else if spec_stdin spec \<noteq> None then Err (Refused (''template '' @ repr_string t @ '' takes no stdin''))
               else map_ok (\<lambda>argv. (argv, t_cwd ht, t_env ht, t_stdin ht)) (map_err Refused_spec (expand re ht params))))"

definition is_command :: "json option \<Rightarrow> bool" where
  "is_command kind = (case Option.bind kind as_str of Some k \<Rightarrow> k = ''run'' \<or> k = ''tpl'' | None \<Rightarrow> False)"

definition within_policy :: "host_policy \<Rightarrow> command_spec \<Rightarrow> resolved \<Rightarrow> (refused, normalized) result" where
  "within_policy p spec what =
     (case what of (argv, cwd, env, stdin) \<Rightarrow>
        bind (tier_enabled p (spec_tier spec)) (\<lambda>_.
          let extra = filter (\<lambda>k. k \<notin> set (hp_env_allow p)) (bkeys (spec_env spec)) in
          if spec_timeout spec > hp_max_timeout_secs p then
            Err (Refused (''timeout exceeds this host's maximum ('' @ show_nat (unat (hp_max_timeout_secs p)) @ ''s)''))
          else if extra \<noteq> [] then
            Err (Refused (''environment variables not allowed on this host: '' @ join '', '' extra))
          else if list_ex (\<lambda>d. deny_matches d argv) (hp_deny_commands p) then
            Err (Refused ''that command is denied by this host's policy'')
          else Ok \<lparr>n_spec = spec, n_argv = argv, n_cwd = cwd, n_env = env, n_stdin = stdin\<rparr>))"

definition normalize :: "regex_lib \<Rightarrow> host_policy \<Rightarrow> json \<Rightarrow> bool \<Rightarrow> (refused, normalized) result" where
  "normalize re p raw shell_command =
     (case raw of
        JObj m \<Rightarrow>
          if Option.bind (bget m ''host'') as_str \<noteq> Some (hp_name p) then Err (Wrong_host (bget m ''host'') (hp_name p))
          else if \<not> is_command (bget m ''kind'') then Err (Refused ''not a runnable job'')
          else bind (map_err Refused_spec (job_from_json raw (hp_default_timeout_secs p))) (\<lambda>j.
            case j of
              Shell_job s \<Rightarrow> Err (Refused ''not a runnable job'')
            | Command_job spec \<Rightarrow> bind (resolve re p spec shell_command) (within_policy p spec))
      | _ \<Rightarrow> Err (Refused ''malformed job''))"

section \<open>The host's approvals\<close>

datatype approval_via = ApTotp | ApTotpShell | ApDesk | ApDeskShell

record totp_approval =
  ta_tier :: tier
  ta_digest :: spec_digest
  ta_purpose :: purpose

definition totp_approval_new :: "accepted_code \<Rightarrow> spec_digest \<Rightarrow> (refused, totp_approval) result" where
  "totp_approval_new code digest =
     (let name = code_name code in
      if secret_purpose name \<noteq> Direct then Err (Refused (secret_as_str name @ '' is not a direct approval code''))
      else Ok \<lparr>ta_tier = secret_tier name, ta_digest = digest, ta_purpose = Direct\<rparr>)"

definition totp_approval_for_shell :: "accepted_code \<Rightarrow> spec_digest \<Rightarrow> (refused, totp_approval) result" where
  "totp_approval_for_shell code digest =
     (let name = code_name code in
      if secret_purpose name \<noteq> Shell_code \<and> secret_purpose name \<noteq> Arm
      then Err (Refused (secret_as_str name @ '' doesn't open a shell''))
      else Ok \<lparr>ta_tier = secret_tier name, ta_digest = digest, ta_purpose = Shell_code\<rparr>)"

definition totp_approval_covers :: "totp_approval \<Rightarrow> tier \<Rightarrow> spec_digest \<Rightarrow> bool" where
  "totp_approval_covers a t digest = (ta_tier a = t \<and> ta_digest a = digest)"

record desk_approval_rec =
  da_tier :: tier
  da_digest :: spec_digest
  da_shell :: bool

record desk_prompt_rec =
  dp_job :: local_id
  dp_digest :: spec_digest
  dp_tier :: tier
  dp_message :: string
  dp_shell :: bool

definition needs_polkit :: "desk_prompt_rec \<Rightarrow> bool" where
  "needs_polkit prompt = (dp_tier prompt = Root \<or> dp_shell prompt)"

datatype polkit_confirmed = PolkitConfirmed

definition desk_prompt ::
  "host_view \<Rightarrow> local_id \<Rightarrow> spec_digest \<Rightarrow> normalized \<Rightarrow> string \<Rightarrow> (refused, desk_prompt_rec) result" where
  "desk_prompt hv job raw_digest n message =
     (if is_locked (hv_lock hv) then Err (locked_refusal (hv_policy hv))
      else if \<not> desk_approves (hv_policy hv) (n_tier n) then
        Err (Refused (''this desk doesn't approve '' @ tier_as_str (n_tier n) @ '' commands''))
      else Ok \<lparr>dp_job = job, dp_digest = raw_digest, dp_tier = n_tier n, dp_message = message, dp_shell = False\<rparr>)"

definition shells_off :: "host_policy \<Rightarrow> tier \<Rightarrow> refused" where
  "shells_off p t = Refused (tier_as_str t @ '' shells are not enabled on '' @ hp_name p)"

definition shell_too_long :: "host_policy \<Rightarrow> tier \<Rightarrow> refused" where
  "shell_too_long p t = Refused (''a '' @ tier_as_str t @ '' shell on '' @ hp_name p @ '' lasts at most ''
     @ show_nat (unat (shell_max_duration_secs (hp_tier p t))) @ ''s'')"

definition desk_shell_prompt ::
  "host_view \<Rightarrow> local_id \<Rightarrow> spec_digest \<Rightarrow> shell_spec \<Rightarrow> string \<Rightarrow> (refused, desk_prompt_rec) result" where
  "desk_shell_prompt hv shell digest spec message =
     (let p = hv_policy hv; t = shell_tier spec in
      if is_locked (hv_lock hv) then Err (locked_refusal p)
      else if \<not> desk_approves p t then Err (Refused (''this desk doesn't approve '' @ tier_as_str t @ '' shells''))
      else if \<not> shell_enable (hp_tier p t) then Err (shells_off p t)
      else if shell_duration spec > shell_max_duration_secs (hp_tier p t) then Err (shell_too_long p t)
      else Ok \<lparr>dp_job = shell, dp_digest = digest, dp_tier = t, dp_message = message, dp_shell = True\<rparr>)"

definition desk_approval ::
  "desk_prompt_rec \<Rightarrow> bool \<Rightarrow> lock_state \<Rightarrow> polkit_confirmed option
   \<Rightarrow> (desk_prompt_rec, local_id \<times> desk_approval_rec) result" where
  "desk_approval prompt from_current_helper lock polkit =
     (if \<not> (\<not> is_locked lock \<and> from_current_helper \<and> (\<not> needs_polkit prompt \<or> polkit \<noteq> None)) then Err prompt
      else Ok (dp_job prompt, \<lparr>da_tier = dp_tier prompt, da_digest = dp_digest prompt, da_shell = dp_shell prompt\<rparr>))"

record authorization =
  az_digest :: spec_digest
  az_tier :: tier
  az_via :: approval_via
  az_expires_at :: unix_millis

record authz_facts =
  fa_via :: approval_via
  fa_tier :: tier
  fa_digest_matches :: bool
  fa_unexpired :: bool

definition authorization_facts :: "authorization \<Rightarrow> spec_digest \<Rightarrow> unix_millis \<Rightarrow> authz_facts" where
  "authorization_facts a digest now = \<lparr>fa_via = az_via a, fa_tier = az_tier a,
     fa_digest_matches = (az_digest a = digest), fa_unexpired = (az_expires_at a > now)\<rparr>"

definition authorization_admits :: "authorization \<Rightarrow> tier \<Rightarrow> spec_digest \<Rightarrow> unix_millis \<Rightarrow> approval_via option" where
  "authorization_admits a t digest now =
     (let f = authorization_facts a digest now in
      if fa_unexpired f \<and> fa_digest_matches f \<and> fa_tier f = t then Some (az_via a) else None)"

type_synonym authorizations = "(local_id, authorization) bmap"

definition authorizations_insert :: "authorizations \<Rightarrow> local_id \<Rightarrow> authorization \<Rightarrow> unix_millis \<Rightarrow> authorizations" where
  "authorizations_insert auths job a now = binsert job a (filter (\<lambda>(k, v). az_expires_at v > now) auths)"

definition record_totp :: "authorizations \<Rightarrow> local_id \<Rightarrow> totp_approval \<Rightarrow> unix_millis \<Rightarrow> authorizations" where
  "record_totp auths job approval now =
     authorizations_insert auths job
       \<lparr>az_digest = ta_digest approval, az_tier = ta_tier approval,
        az_via = (if ta_purpose approval = Shell_code then ApTotpShell else ApTotp),
        az_expires_at = plus_secs now AUTHZ_TTL_SECS\<rparr> now"

definition record_desk :: "authorizations \<Rightarrow> local_id \<Rightarrow> desk_approval_rec \<Rightarrow> unix_millis \<Rightarrow> authorizations" where
  "record_desk auths job approval now =
     authorizations_insert auths job
       \<lparr>az_digest = da_digest approval, az_tier = da_tier approval,
        az_via = (if da_shell approval then ApDeskShell else ApDesk),
        az_expires_at = plus_secs now AUTHZ_TTL_SECS\<rparr> now"

definition authorizations_take :: "authorizations \<Rightarrow> local_id \<Rightarrow> authorization option \<times> authorizations" where
  "authorizations_take auths job = (bget auths job, bremove job auths)"

definition authorizations_clear :: "authorizations \<Rightarrow> authorizations" where
  "authorizations_clear auths = []"

section \<open>Arming\<close>

datatype local_caller = Caller_root | Caller_user

datatype arm_proof = Proof_totp accepted_code | Proof_local local_caller

fun armed_until :: "arm_state \<Rightarrow> tier \<Rightarrow> unix_millis" where
  "armed_until s User = arm_user s"
| "armed_until s Root = arm_root s"

definition armed :: "arm_state \<Rightarrow> tier \<Rightarrow> unix_millis \<Rightarrow> bool" where
  "armed s t now = (armed_until s t > now)"

definition check_can_arm :: "host_policy \<Rightarrow> tier \<Rightarrow> lock_state \<Rightarrow> (refused, unit) result" where
  "check_can_arm p t lock =
     bind (tier_enabled p t) (\<lambda>_. if is_locked lock then Err (locked_refusal p) else Ok ())"

fun arm_proof_ok :: "arm_proof \<Rightarrow> tier \<Rightarrow> (refused, unit) result" where
  "arm_proof_ok (Proof_totp code) t =
     (if code_name code \<noteq> SecretName t Arm
      then Err (Refused (''a '' @ secret_as_str (code_name code) @ '' code does not arm the '' @ tier_as_str t @ '' tier''))
      else Ok ())"
| "arm_proof_ok (Proof_local Caller_user) t = (if t \<noteq> User then Err (Refused ''arm needs root'') else Ok ())"
| "arm_proof_ok (Proof_local Caller_root) t = Ok ()"

fun set_armed :: "arm_state \<Rightarrow> tier \<Rightarrow> unix_millis \<Rightarrow> arm_state" where
  "set_armed s User until = s\<lparr>arm_user := until\<rparr>"
| "set_armed s Root until = s\<lparr>arm_root := until\<rparr>"

definition arm ::
  "arm_state \<Rightarrow> host_policy \<Rightarrow> tier \<Rightarrow> u64 \<Rightarrow> arm_proof \<Rightarrow> lock_state \<Rightarrow> unix_millis \<Rightarrow> (refused, arm_state \<times> unix_millis) result" where
  "arm s p t secs proof_given lock now =
     bind (arm_proof_ok proof_given t) (\<lambda>_.
     bind (check_can_arm p t lock) (\<lambda>_.
       let until = plus_secs now (min secs (ucast (max_arm_secs (hp_tier p t))))
       in Ok (set_armed s t until, until)))"

fun disarm :: "arm_state \<Rightarrow> tier option \<Rightarrow> arm_state" where
  "disarm s (Some User) = s\<lparr>arm_user := 0\<rparr>"
| "disarm s (Some Root) = s\<lparr>arm_root := 0\<rparr>"
| "disarm s None = s\<lparr>arm_user := 0, arm_root := 0\<rparr>"

fun check_unlock :: "arm_proof \<Rightarrow> (refused, unit) result" where
  "check_unlock (Proof_totp code) =
     (if code_name code = SecretName Root Unlock then Ok ()
      else Err (Refused (secret_as_str (code_name code) @ '' does not unlock; the root-unlock code does'')))"
| "check_unlock (Proof_local Caller_root) = Ok ()"
| "check_unlock (Proof_local Caller_user) = Err (Refused ''unlock needs root'')"

section \<open>The decision\<close>

record admission_facts =
  ad_locked :: bool
  ad_tier :: tier
  ad_kind_run :: bool
  ad_authorization :: "authz_facts option"
  ad_auto_match :: bool
  ad_source :: "source option"
  ad_window :: bool
  ad_armed :: bool
  ad_accept_approve_all :: bool
  ad_accept_machine_approvals :: bool

datatype refusal_kind = Host_locked | NoEvidence | NoWindows | Human_only source | NotArmed | DeskClick

text \<open>The host's own approval of exactly this digest and tier; a shell's approval admits no job.\<close>

definition own_approval :: "admission_facts \<Rightarrow> via option" where
  "own_approval f =
     (case ad_authorization f of
        Some a \<Rightarrow>
          if fa_unexpired a \<and> fa_digest_matches a \<and> fa_tier a = ad_tier f then
            (case fa_via a of ApTotp \<Rightarrow> Some Via_totp | ApDesk \<Rightarrow> Some Via_desk | ApTotpShell \<Rightarrow> None | ApDeskShell \<Rightarrow> None)
          else None
      | None \<Rightarrow> None)"

definition decide_armed :: "admission_facts \<Rightarrow> source \<Rightarrow> (refusal_kind, via) result" where
  "decide_armed f src =
     (if src = Source_human then Ok ArmedHuman
      else if \<not> ad_accept_machine_approvals f then Err (Human_only src)
      else case src of
        Source_rule \<Rightarrow> Ok ArmedRule
      | Source_llm \<Rightarrow> Ok ArmedLlm
      | Source_policy \<Rightarrow> Ok ArmedPolicy
      | Source_desk \<Rightarrow> Err DeskClick
      | Source_human \<Rightarrow> Ok ArmedHuman)"

definition decide_admission :: "admission_facts \<Rightarrow> (refusal_kind, via) result" where
  "decide_admission f =
     (if ad_locked f then Err Host_locked
      else case own_approval f of
        Some v \<Rightarrow> Ok v
      | None \<Rightarrow>
          if ad_kind_run f \<and> ad_tier f = User \<and> ad_auto_match f then Ok Via_auto
          else (case ad_source f of
             None \<Rightarrow> Err NoEvidence
           | Some src \<Rightarrow>
               if src = Source_desk then Err DeskClick
               else if \<not> ad_armed f then Err NotArmed
               else if ad_window f then (if ad_accept_approve_all f then Ok ArmedWindow else Err NoWindows)
               else decide_armed f src))"

fun refusal_text :: "host_policy \<Rightarrow> tier \<Rightarrow> refusal_kind \<Rightarrow> refused" where
  "refusal_text p t Host_locked = Refused (hp_name p @ '' is locked down'')"
| "refusal_text p t NoEvidence = Refused ''no approval evidence''"
| "refusal_text p t NoWindows =
     Refused (hp_name p @ '' does not accept approve-all windows for the '' @ tier_as_str t @ '' tier'')"
| "refusal_text p t (Human_only src) =
     Refused (hp_name p @ '' only accepts a human's approval for the '' @ tier_as_str t
       @ '' tier (this one came from '' @ source_as_str src @ '')'')"
| "refusal_text p t DeskClick =
     Refused (''a desk answer approves only a command that desk showed and approved itself; approve the ''
       @ tier_as_str t @ '' command on Discord or with a TOTP code'')"
| "refusal_text p t NotArmed = Not_armed t (hp_name p)"

definition facts_of :: "host_view \<Rightarrow> normalized \<Rightarrow> authz_facts option \<Rightarrow> evidence \<Rightarrow> admission_facts" where
  "facts_of hv job az ev =
     (let t = n_tier job; cfg = hp_tier (hv_policy hv) t in
      \<lparr>ad_locked = is_locked (hv_lock hv), ad_tier = t, ad_kind_run = is_run job, ad_authorization = az,
       ad_auto_match = list_ex (\<lambda>pat. auto_matches pat (n_argv job)) (hp_auto_commands (hv_policy hv)),
       ad_source = ev_source ev, ad_window = ev_window ev, ad_armed = armed (hv_arm hv) t (hv_now hv),
       ad_accept_approve_all = accept_approve_all cfg, ad_accept_machine_approvals = accept_machine_approvals cfg\<rparr>)"

record admitted_job =
  aj_id :: local_id
  aj_tier :: tier
  aj_argv :: "string list"
  aj_cwd :: "string option"
  aj_env :: "(string, string) bmap"
  aj_timeout :: u32
  aj_stdin :: "string option"
  aj_via :: via
  aj_shell :: "local_id option"
  aj_loggable :: json

definition admitted_job_new :: "local_id \<Rightarrow> normalized \<Rightarrow> via \<Rightarrow> local_id option \<Rightarrow> admitted_job" where
  "admitted_job_new i job v shell = \<lparr>aj_id = i, aj_tier = spec_tier (n_spec job), aj_argv = n_argv job, aj_cwd = n_cwd job,
     aj_env = n_env job, aj_timeout = spec_timeout (n_spec job), aj_stdin = n_stdin job, aj_via = v, aj_shell = shell,
     aj_loggable = n_loggable job\<rparr>"

text \<open>The approvals come back updated: the one under the job's id is taken unless the host is locked.\<close>

definition admit ::
  "host_view \<Rightarrow> local_id \<Rightarrow> normalized \<Rightarrow> spec_digest \<Rightarrow> evidence \<Rightarrow> authorizations
   \<Rightarrow> authorizations \<times> (refused, admitted_job) result" where
  "admit hv job_id job raw_digest ev auths =
     (let p = hv_policy hv; t = n_tier job in
      if is_locked (hv_lock hv) then (auths, Err (refusal_text p t Host_locked))
      else case authorizations_take auths job_id of (found, left) \<Rightarrow>
        let az = map_option (\<lambda>a. authorization_facts a raw_digest (hv_now hv)) found in
        (left, case decide_admission (facts_of hv job az ev) of
                 Ok v \<Rightarrow> Ok (admitted_job_new job_id job v None)
               | Err k \<Rightarrow> Err (refusal_text p t k)))"

definition peek_via ::
  "host_view \<Rightarrow> tier \<Rightarrow> spec_digest \<Rightarrow> local_id option \<Rightarrow> authorizations \<Rightarrow> via option" where
  "peek_via hv t raw_digest job_id auths =
     (case job_id of
        None \<Rightarrow> None
      | Some i \<Rightarrow>
          if is_locked (hv_lock hv) then None
          else (case Option.bind (bget auths i) (\<lambda>a. authorization_admits a t raw_digest (hv_now hv)) of
             Some ApDesk \<Rightarrow> Some Via_desk
           | Some ApTotp \<Rightarrow> Some Via_totp
           | Some ApTotpShell \<Rightarrow> None
           | Some ApDeskShell \<Rightarrow> None
           | None \<Rightarrow> None))"

definition precheck_job ::
  "regex_lib \<Rightarrow> host_view \<Rightarrow> json \<Rightarrow> spec_digest \<Rightarrow> bool \<Rightarrow> local_id option \<Rightarrow> evidence \<Rightarrow> authorizations
   \<Rightarrow> (refused, via) result" where
  "precheck_job re hv raw raw_digest totp job_id ev auths =
     bind (normalize re (hv_policy hv) raw False) (\<lambda>job.
       let t = n_tier job in
       if totp then (if is_locked (hv_lock hv) then Err (locked_refusal (hv_policy hv)) else Ok Via_totp)
       else (case peek_via hv t raw_digest job_id auths of
          Some v \<Rightarrow> Ok v
        | None \<Rightarrow> map_err (refusal_text (hv_policy hv) t) (decide_admission (facts_of hv job None ev))))"

section \<open>Shells\<close>

definition shell_secret :: "tier \<Rightarrow> bool \<Rightarrow> secret_name" where
  "shell_secret t shell_enrolled = SecretName t (if shell_enrolled then Shell_code else Arm)"

definition precheck_shell :: "host_policy \<Rightarrow> json option \<Rightarrow> json option \<Rightarrow> lock_state \<Rightarrow> (refused, unit) result" where
  "precheck_shell p t_value duration lock =
     bind (check_tier p t_value) (\<lambda>t.
       let cfg = hp_tier p t in
       if \<not> shell_enable cfg then Err (shells_off p t)
       else if is_locked lock then Err (locked_refusal p)
       else if is_some_and (\<lambda>d. d > ucast (shell_max_duration_secs cfg)) (Option.bind duration as_u64)
       then Err (shell_too_long p t)
       else Ok ())"

definition parse_shell_request :: "host_policy \<Rightarrow> json \<Rightarrow> (refused, shell_spec) result" where
  "parse_shell_request p raw =
     (case raw of
        JObj m \<Rightarrow>
          if Option.bind (bget m ''host'') as_str \<noteq> Some (hp_name p) then Err (Refused ''malformed shell request'')
          else bind (map_err Refused_spec (shell_spec_from (hp_name p) (bget m ''tier'') (bget m ''duration''))) (\<lambda>spec.
               bind (tier_enabled p (shell_tier spec)) (\<lambda>_. Ok spec))
      | _ \<Rightarrow> Err (Refused ''malformed shell request''))"

record open_shell_rec =
  os_id :: local_id
  os_tier :: tier
  os_expires_at :: unix_millis

definition open_shell ::
  "host_policy \<Rightarrow> local_id \<Rightarrow> shell_spec \<Rightarrow> spec_digest \<Rightarrow> authorizations \<Rightarrow> lock_state \<Rightarrow> unix_millis \<Rightarrow> bool
   \<Rightarrow> authorizations \<times> (refused, open_shell_rec) result" where
  "open_shell p shell_id spec digest auths lock now shell_enrolled =
     (let t = shell_tier spec; cfg = hp_tier p t in
      if is_locked lock then (auths, Err (locked_refusal p))
      else if \<not> shell_enable cfg then (auths, Err (shells_off p t))
      else if shell_duration spec > shell_max_duration_secs cfg then (auths, Err (shell_too_long p t))
      else case authorizations_take auths shell_id of (found, left) \<Rightarrow>
        (left,
         case Option.bind found (\<lambda>a. authorization_admits a t digest now) of
           None \<Rightarrow> Err (Refused ''a shell is opened with a TOTP code or at its own desk only'')
         | Some v \<Rightarrow>
             if v = ApTotpShell \<or> v = ApDeskShell then
               Ok \<lparr>os_id = shell_id, os_tier = t, os_expires_at = plus_secs now (ucast (shell_duration spec))\<rparr>
             else Err (Refused (''a '' @ tier_as_str t @ '' shell is opened with a ''
                    @ secret_as_str (shell_secret t shell_enrolled) @ '' code, or at this desk with your password''))))"

definition admit_shell_command ::
  "regex_lib \<Rightarrow> host_policy \<Rightarrow> open_shell_rec option \<Rightarrow> local_id \<Rightarrow> json \<Rightarrow> lock_state \<Rightarrow> unix_millis
   \<Rightarrow> (refused, admitted_job) result" where
  "admit_shell_command re p shell job_id raw lock now =
     (if is_locked lock then Err (locked_refusal p)
      else case opt_filter (\<lambda>s. os_expires_at s > now) shell of
        None \<Rightarrow> Err (Refused ''no such shell on this host (expired, closed, or hostd restarted)'')
      | Some s \<Rightarrow>
          bind (normalize re p raw True) (\<lambda>job.
            if n_tier job \<noteq> os_tier s then Err (Refused (''that is a '' @ tier_as_str (os_tier s) @ '' shell''))
            else Ok (admitted_job_new job_id job Via_shell (Some (os_id s)))))"

section \<open>The daemon over time\<close>

text \<open>What happens to the approvals and the arm state, as a relation between the history (newest
  event first) and the state it leads to. Every rule is one operation above, at any time and
  whatever the broker asks for. A command in a shell names one that was opened earlier or none; that the daemon
  forgets a shell once it is closed is not used.\<close>

record host_state =
  hs_auths :: authorizations
  hs_arm :: arm_state

definition host_start :: host_state where
  "host_start = \<lparr>hs_auths = [], hs_arm = \<lparr>arm_user = 0, arm_root = 0\<rparr>\<rparr>"

datatype host_event =
  Code_typed accepted_code local_id spec_digest unix_millis
| Shell_code_typed accepted_code local_id spec_digest unix_millis
| Desk_allowed desk_prompt_rec "polkit_confirmed option" unix_millis
| Arm_granted tier arm_proof unix_millis unix_millis
| Disarmed "tier option"
| Job_asked local_id normalized spec_digest unix_millis "(refused, admitted_job) result"
| Shell_asked local_id shell_spec spec_digest unix_millis "(refused, open_shell_rec) result"
| Shell_command "open_shell_rec option" local_id json unix_millis "(refused, admitted_job) result"
| Locked_down

text \<open>A prompt on this host's desk is one of the two kinds.\<close>

definition prompted :: "host_policy \<Rightarrow> desk_prompt_rec \<Rightarrow> bool" where
  "prompted p prompt =
     (\<exists>hv job digest message. hv_policy hv = p \<and>
        ((\<exists>n. desk_prompt hv job digest n message = Ok prompt)
         \<or> (\<exists>spec. desk_shell_prompt hv job digest spec message = Ok prompt)))"

inductive host_runs :: "host_policy \<Rightarrow> host_event list \<Rightarrow> host_state \<Rightarrow> bool" for p where
  start: "host_runs p [] host_start"
| code: "\<lbrakk>host_runs p tr s; totp_approval_new c digest = Ok a\<rbrakk> \<Longrightarrow>
    host_runs p (Code_typed c job digest now # tr) (s\<lparr>hs_auths := record_totp (hs_auths s) job a now\<rparr>)"
| shell_code: "\<lbrakk>host_runs p tr s; totp_approval_for_shell c digest = Ok a\<rbrakk> \<Longrightarrow>
    host_runs p (Shell_code_typed c job digest now # tr) (s\<lparr>hs_auths := record_totp (hs_auths s) job a now\<rparr>)"
| desk: "\<lbrakk>host_runs p tr s; prompted p prompt; desk_approval prompt helper lock polkit = Ok (job, a)\<rbrakk> \<Longrightarrow>
    host_runs p (Desk_allowed prompt polkit now # tr) (s\<lparr>hs_auths := record_desk (hs_auths s) job a now\<rparr>)"
| arms: "\<lbrakk>host_runs p tr s; arm (hs_arm s) p t secs pf lock now = Ok (arm', until)\<rbrakk> \<Longrightarrow>
    host_runs p (Arm_granted t pf now until # tr) (s\<lparr>hs_arm := arm'\<rparr>)"
| disarms: "host_runs p tr s \<Longrightarrow> host_runs p (Disarmed t # tr) (s\<lparr>hs_arm := disarm (hs_arm s) t\<rparr>)"
| job: "\<lbrakk>host_runs p tr s;
     admit \<lparr>hv_policy = p, hv_arm = hs_arm s, hv_lock = lock, hv_now = now\<rparr> i n digest ev (hs_auths s) = (auths', r)\<rbrakk> \<Longrightarrow>
    host_runs p (Job_asked i n digest now r # tr) (s\<lparr>hs_auths := auths'\<rparr>)"
| shell: "\<lbrakk>host_runs p tr s; open_shell p i spec digest (hs_auths s) lock now enrolled = (auths', r)\<rbrakk> \<Longrightarrow>
    host_runs p (Shell_asked i spec digest now r # tr) (s\<lparr>hs_auths := auths'\<rparr>)"
| shell_command: "\<lbrakk>host_runs p tr s; \<And>sh. shell = Some sh \<Longrightarrow> \<exists>i spec digest t0. Shell_asked i spec digest t0 (Ok sh) \<in> set tr\<rbrakk> \<Longrightarrow>
    host_runs p (Shell_command shell j raw now (admit_shell_command re p shell j raw lock now) # tr) s"
| lockdown: "host_runs p tr s \<Longrightarrow>
    host_runs p (Locked_down # tr) \<lparr>hs_auths = authorizations_clear (hs_auths s), hs_arm = disarm (hs_arm s) None\<rparr>"

inductive_cases host_runs_job: "host_runs p (Job_asked i n digest now r # tr) s"
inductive_cases host_runs_shell: "host_runs p (Shell_asked i spec digest now r # tr) s"
inductive_cases host_runs_command: "host_runs p (Shell_command shell j raw now r # tr) s"

section \<open>Lemmas on the decision\<close>

lemma own_approval_Some:
  "own_approval f = Some v \<Longrightarrow> \<exists>a. ad_authorization f = Some a \<and> fa_unexpired a \<and> fa_digest_matches a \<and> fa_tier a = ad_tier f
     \<and> (v = Via_totp \<and> fa_via a = ApTotp \<or> v = Via_desk \<and> fa_via a = ApDesk)"
  by (auto simp: own_approval_def split: option.splits if_splits approval_via.splits)

lemma decide_armed_Ok:
  "decide_armed f src = Inr v \<Longrightarrow> via_is_armed v \<and> (src = Source_human \<or> ad_accept_machine_approvals f)"
  by (cases src) (auto simp: decide_armed_def via_is_armed_def split: if_splits)

lemma decide_admission_Ok:
  assumes "decide_admission f = Inr v"
  obtains (own) a where "ad_authorization f = Some a" "fa_unexpired a" "fa_digest_matches a" "fa_tier a = ad_tier f"
      "v = Via_totp \<and> fa_via a = ApTotp \<or> v = Via_desk \<and> fa_via a = ApDesk" "\<not> ad_locked f"
  | (auto) "v = Via_auto" "ad_tier f = User" "ad_kind_run f" "ad_auto_match f" "\<not> ad_locked f"
  | (armed) src where "via_is_armed v" "ad_armed f" "ad_source f = Some src" "src \<noteq> Source_desk" "\<not> ad_locked f"
      "if ad_window f then ad_accept_approve_all f else src = Source_human \<or> ad_accept_machine_approvals f"
proof (cases "own_approval f")
  case (Some w)
  then have "w = v" "\<not> ad_locked f" using assms by (auto simp: decide_admission_def split: if_splits)
  then show thesis using own_approval_Some[OF Some] own by blast
next
  case None
  have unlocked: "\<not> ad_locked f" using assms by (auto simp: decide_admission_def split: if_splits)
  show thesis
  proof (cases "ad_kind_run f \<and> ad_tier f = User \<and> ad_auto_match f")
    case True
    then show thesis using assms None unlocked by (intro auto) (auto simp: decide_admission_def)
  next
    case False
    then obtain src where src: "ad_source f = Some src" "src \<noteq> Source_desk" "ad_armed f"
      "(if ad_window f then (if ad_accept_approve_all f then Ok ArmedWindow else Err NoWindows) else decide_armed f src) = Inr v"
      using assms None unlocked
      by (cases "ad_source f") (auto simp: decide_admission_def split: if_splits)
    have "via_is_armed v \<and> (if ad_window f then ad_accept_approve_all f else src = Source_human \<or> ad_accept_machine_approvals f)"
      using src(4) decide_armed_Ok[of f src v] by (auto simp: via_is_armed_def split: if_splits)
    then show thesis using armed src unlocked by blast
  qed
qed

lemma admit_Ok:
  assumes "admit hv i job digest ev auths = (left, Inr j)"
  obtains v where "left = bremove i auths" "\<not> is_locked (hv_lock hv)" "j = admitted_job_new i job v None"
    "decide_admission (facts_of hv job (map_option (\<lambda>a. authorization_facts a digest (hv_now hv)) (bget auths i)) ev) = Inr v"
  using assms
  by (auto simp: admit_def Let_def authorizations_take_def split: if_splits sum.splits)

lemma admit_left:
  "admit hv i job digest ev auths = (left, r) \<Longrightarrow> left = auths \<and> is_locked (hv_lock hv) \<and> (\<exists>e. r = Inl e) \<or> left = bremove i auths"
  by (auto simp: admit_def Let_def authorizations_take_def split: if_splits)

lemma open_shell_left:
  "open_shell p i spec digest auths lock now enr = (left, r) \<Longrightarrow> left = auths \<or> left = bremove i auths"
  by (auto simp: open_shell_def Let_def authorizations_take_def split: if_splits)

lemma aj_new [simp]:
  "aj_tier (admitted_job_new i job v sh) = n_tier job" "aj_via (admitted_job_new i job v sh) = v"
  "aj_id (admitted_job_new i job v sh) = i" "aj_argv (admitted_job_new i job v sh) = n_argv job"
  by (simp_all add: admitted_job_new_def n_tier_def)

section \<open>Where an approval comes from\<close>

fun auth_justified :: "host_policy \<Rightarrow> host_event list \<Rightarrow> local_id \<Rightarrow> tier \<Rightarrow> spec_digest \<Rightarrow> unix_millis \<Rightarrow> approval_via \<Rightarrow> bool" where
  "auth_justified p tr i t digest until ApTotp =
     (\<exists>step t0. Code_typed (AcceptedCode (SecretName t Direct) step) i digest t0 \<in> set tr \<and> until = plus_secs t0 AUTHZ_TTL_SECS)"
| "auth_justified p tr i t digest until ApTotpShell =
     (\<exists>purp step t0. Shell_code_typed (AcceptedCode (SecretName t purp) step) i digest t0 \<in> set tr
        \<and> (purp = Shell_code \<or> purp = Arm) \<and> until = plus_secs t0 AUTHZ_TTL_SECS)"
| "auth_justified p tr i t digest until ApDesk =
     (\<exists>prompt pol t0. Desk_allowed prompt pol t0 \<in> set tr \<and> dp_job prompt = i \<and> dp_digest prompt = digest
        \<and> dp_tier prompt = t \<and> \<not> dp_shell prompt \<and> desk_approves p t \<and> (t = Root \<longrightarrow> pol = Some PolkitConfirmed)
        \<and> until = plus_secs t0 AUTHZ_TTL_SECS)"
| "auth_justified p tr i t digest until ApDeskShell =
     (\<exists>prompt t0. Desk_allowed prompt (Some PolkitConfirmed) t0 \<in> set tr \<and> dp_job prompt = i \<and> dp_digest prompt = digest
        \<and> dp_tier prompt = t \<and> dp_shell prompt \<and> desk_approves p t \<and> until = plus_secs t0 AUTHZ_TTL_SECS)"

abbreviation justified_entry :: "host_policy \<Rightarrow> host_event list \<Rightarrow> local_id \<Rightarrow> authorization \<Rightarrow> bool" where
  "justified_entry p tr i a \<equiv> auth_justified p tr i (az_tier a) (az_digest a) (az_expires_at a) (az_via a)"

definition arm_justified :: "host_event list \<Rightarrow> tier \<Rightarrow> unix_millis \<Rightarrow> bool" where
  "arm_justified tr t until =
     (until = 0 \<or> (\<exists>pf t0. Arm_granted t pf t0 until \<in> set tr \<and> arm_proof_ok pf t = Ok ()))"

definition host_inv :: "host_policy \<Rightarrow> host_event list \<Rightarrow> host_state \<Rightarrow> bool" where
  "host_inv p tr s =
     (bmap_ok (hs_auths s) \<and> (\<forall>(i, a) \<in> set (hs_auths s). justified_entry p tr i a)
      \<and> (\<forall>t. arm_justified tr t (armed_until (hs_arm s) t)))"

lemma auth_justified_more: "auth_justified p tr i t d u v \<Longrightarrow> auth_justified p (e # tr) i t d u v"
  by (cases v) auto

lemma arm_justified_more: "arm_justified tr t u \<Longrightarrow> arm_justified (e # tr) t u"
  by (auto simp: arm_justified_def)

lemma host_inv_more: "host_inv p tr s \<Longrightarrow> host_inv p (e # tr) s"
  using auth_justified_more arm_justified_more unfolding host_inv_def by blast

lemma host_inv_fewer:
  assumes "host_inv p tr s" "bmap_ok auths" "set auths \<subseteq> set (hs_auths s)"
  shows "host_inv p tr (s\<lparr>hs_auths := auths\<rparr>)"
  using assms by (auto simp: host_inv_def)

lemma bmap_ok_filter: "bmap_ok m \<Longrightarrow> bmap_ok (filter P m)"
proof (induction m)
  case (Cons kv m)
  then show ?case by (cases kv) auto
qed simp

lemma host_inv_insert:
  assumes "host_inv p tr s" "justified_entry p tr i a"
  shows "host_inv p tr (s\<lparr>hs_auths := authorizations_insert (hs_auths s) i a now\<rparr>)"
proof -
  let ?m = "filter (\<lambda>(k, v). az_expires_at v > now) (hs_auths s)"
  have "bmap_ok ?m" using assms(1) by (simp add: host_inv_def bmap_ok_filter)
  moreover have "justified_entry p tr k v" if "(k, v) \<in> set (binsert i a ?m)" for k v
    using binsert_entries[OF that] assms by (auto simp: host_inv_def)
  ultimately show ?thesis
    using assms(1) by (auto simp: host_inv_def authorizations_insert_def)
qed

lemma prompted_facts:
  "prompted p prompt \<Longrightarrow> desk_approves p (dp_tier prompt)"
  by (auto simp: prompted_def desk_prompt_def desk_shell_prompt_def Let_def split: if_splits)

lemma polkit_eq [simp]: "(y :: polkit_confirmed) = PolkitConfirmed"
  by (cases y) auto

lemma desk_justified:
  assumes "prompted p prompt" "desk_approval prompt helper lock polkit = Inr (i, da)"
  shows "justified_entry p (Desk_allowed prompt polkit now # tr) i
    \<lparr>az_digest = da_digest da, az_tier = da_tier da, az_via = (if da_shell da then ApDeskShell else ApDesk),
     az_expires_at = plus_secs now AUTHZ_TTL_SECS\<rparr>"
proof -
  have i: "i = dp_job prompt" "da = \<lparr>da_tier = dp_tier prompt, da_digest = dp_digest prompt, da_shell = dp_shell prompt\<rparr>"
    and pol: "needs_polkit prompt \<longrightarrow> polkit = Some PolkitConfirmed"
    using assms(2) by (auto simp: desk_approval_def split: if_splits)
  then show ?thesis
    using prompted_facts[OF assms(1)] by (auto simp: needs_polkit_def)
qed

lemma arm_Ok:
  "arm s p t secs pf lock now = Inr (s', until) \<Longrightarrow>
     arm_proof_ok pf t = Ok () \<and> s' = set_armed s t until \<and> enable (hp_tier p t) \<and> \<not> is_locked lock
     \<and> until = plus_secs now (min secs (ucast (max_arm_secs (hp_tier p t))))"
  by (auto simp: arm_def Let_def bind_Ok_iff check_can_arm_def tier_enabled_def split: if_splits)

lemma armed_until_set [simp]: "armed_until (set_armed s t u) t' = (if t' = t then u else armed_until s t')"
  by (cases t; cases t') auto

lemma armed_until_disarm: "armed_until (disarm s t') t = 0 \<or> armed_until (disarm s t') t = armed_until s t"
  by (cases "(s, t')" rule: disarm.cases; cases t) auto

lemma host_runs_inv: "host_runs p tr s \<Longrightarrow> host_inv p tr s"
proof (induction rule: host_runs.induct)
  case start
  have "armed_until (hs_arm host_start) t = 0" for t by (cases t) (simp_all add: host_start_def)
  then show ?case by (simp add: host_inv_def host_start_def arm_justified_def)
next
  case (code tr s c digest a job now)
  then obtain step where "c = AcceptedCode (SecretName (ta_tier a) Direct) step" "ta_digest a = digest" "ta_purpose a = Direct"
    by (cases c; cases "code_name c") (auto simp: totp_approval_new_def Let_def split: if_splits)
  then show ?case unfolding record_totp_def
    using host_inv_more[OF code.IH] by (intro host_inv_insert) auto
next
  case (shell_code tr s c digest a job now)
  then obtain purp step where "c = AcceptedCode (SecretName (ta_tier a) purp) step" "purp = Shell_code \<or> purp = Arm"
    "ta_digest a = digest" "ta_purpose a = Shell_code"
    by (cases c; cases "code_name c") (auto simp: totp_approval_for_shell_def Let_def split: if_splits)
  then show ?case unfolding record_totp_def
    using host_inv_more[OF shell_code.IH] by (intro host_inv_insert) auto
next
  case (desk tr s prompt helper lock polkit job a now)
  then show ?case unfolding record_desk_def
    using host_inv_more[OF desk.IH] desk_justified[OF desk.hyps(2,3)] by (intro host_inv_insert)
next
  case (arms tr s t secs pf lock now arm' until)
  then show ?case
    using host_inv_more[OF arms.IH, of "Arm_granted t pf now until"] arm_Ok[OF arms.hyps(2)]
    by (auto simp: host_inv_def arm_justified_def)
next
  case (disarms tr s t)
  have old: "arm_justified tr t' (armed_until (hs_arm s) t')" for t' using disarms.IH by (simp add: host_inv_def)
  have "arm_justified tr t' (armed_until (disarm (hs_arm s) t) t')" for t'
    using armed_until_disarm[of "hs_arm s" t t'] old[of t'] by (elim disjE) (simp_all add: arm_justified_def)
  then show ?case using host_inv_more[OF disarms.IH, of "Disarmed t"] arm_justified_more by (simp add: host_inv_def)
next
  case (job tr s lock now i n digest ev auths' r)
  have "bmap_ok auths' \<and> set auths' \<subseteq> set (hs_auths s)"
    using admit_left[OF job.hyps(2)] job.IH bremove_entries by (auto simp: host_inv_def)
  then show ?case using host_inv_fewer[OF host_inv_more[OF job.IH]] by blast
next
  case (shell tr s i spec digest lock now enrolled auths' r)
  have "bmap_ok auths' \<and> set auths' \<subseteq> set (hs_auths s)"
    using open_shell_left[OF shell.hyps(2)] shell.IH bremove_entries by (auto simp: host_inv_def)
  then show ?case using host_inv_fewer[OF host_inv_more[OF shell.IH]] by blast
next
  case (shell_command tr s shell j raw now re lock)
  show ?case by (rule host_inv_more[OF shell_command.IH])
next
  case (lockdown tr s)
  have "armed_until (disarm (hs_arm s) None) t = 0" for t by (cases t) auto
  then show ?case by (simp add: host_inv_def authorizations_clear_def arm_justified_def)
qed

section \<open>An approval admits once\<close>

text \<open>How many codes were typed for a job's id, and how many jobs of that id were admitted on one.\<close>

fun codes_for :: "local_id \<Rightarrow> host_event list \<Rightarrow> nat" where
  "codes_for i [] = 0"
| "codes_for i (Code_typed c job d now # tr) = (if job = i then Suc (codes_for i tr) else codes_for i tr)"
| "codes_for i (e # tr) = codes_for i tr"

fun admitted_on_code :: "local_id \<Rightarrow> host_event list \<Rightarrow> nat" where
  "admitted_on_code i [] = 0"
| "admitted_on_code i (Job_asked job n d now (Inr j) # tr) =
     (if job = i \<and> aj_via j = Via_totp then Suc (admitted_on_code i tr) else admitted_on_code i tr)"
| "admitted_on_code i (e # tr) = admitted_on_code i tr"

definition pending :: "local_id \<Rightarrow> authorizations \<Rightarrow> nat" where
  "pending i auths = (if is_some_and (\<lambda>a. az_via a = ApTotp) (bget auths i) then 1 else 0)"

lemma bget_filter: "bmap_ok m \<Longrightarrow> bget (filter (\<lambda>(k, v). P v) m) i = opt_filter P (bget m i)"
proof (induction m)
  case (Cons kv m)
  obtain k v where kv: "kv = (k, v)" by (cases kv)
  have "i = k \<Longrightarrow> bget m i = None" using Cons.prems by (intro bget_below) (auto simp: kv)
  then show ?case using Cons by (cases "bget m i") (auto simp: kv)
qed simp

lemma pending_insert:
  assumes "bmap_ok auths"
  shows "pending i (authorizations_insert auths j a now)
    \<le> (if j = i then (if az_via a = ApTotp then 1 else 0) else pending i auths)"
  using assms by (cases "bget auths i") (auto simp: pending_def authorizations_insert_def bget_filter opt_filter_def)

lemma pending_record_totp:
  "bmap_ok auths \<Longrightarrow> pending i (record_totp auths job a now)
     \<le> (if job = i then (if ta_purpose a = Shell_code then 0 else 1) else pending i auths)"
  unfolding record_totp_def by (rule order_trans[OF pending_insert]) auto

lemma pending_record_desk:
  "bmap_ok auths \<Longrightarrow> pending i (record_desk auths job a now) \<le> pending i auths"
  unfolding record_desk_def by (rule order_trans[OF pending_insert]) auto

lemma pending_bremove: "bmap_ok auths \<Longrightarrow> pending i (bremove j auths) = (if i = j then 0 else pending i auths)"
  by (simp add: pending_def bget_bremove)

lemma pending_admit:
  assumes "bmap_ok auths" "admit hv j n digest ev auths = (left, r)"
  shows "pending i left + (case r of Inr aj \<Rightarrow> if j = i \<and> aj_via aj = Via_totp then 1 else 0 | Inl e \<Rightarrow> 0) \<le> pending i auths"
proof (cases r)
  case (Inl e)
  then show ?thesis using admit_left[OF assms(2)] assms(1) by (auto simp: pending_bremove)
next
  case (Inr aj)
  with assms(2) have adm: "admit hv j n digest ev auths = (left, Inr aj)" by simp
  then obtain v where v: "left = bremove j auths" "aj = admitted_job_new j n v None"
    "decide_admission (facts_of hv n (map_option (\<lambda>a. authorization_facts a digest (hv_now hv)) (bget auths j)) ev) = Inr v"
    by (rule admit_Ok)
  have "pending j auths = 1" if "v = Via_totp"
    using v(3) that
    by (cases rule: decide_admission_Ok)
       (auto simp: facts_of_def Let_def authorization_facts_def pending_def via_is_armed_def)
  then show ?thesis using v(1,2) assms(1) Inr by (auto simp: pending_bremove)
qed

lemma admitted_bounded: "host_runs p tr s \<Longrightarrow> admitted_on_code i tr + pending i (hs_auths s) \<le> codes_for i tr"
proof (induction rule: host_runs.induct)
  case start
  then show ?case by (simp add: pending_def host_start_def)
next
  case (code tr s c digest a job now)
  then have "bmap_ok (hs_auths s)" using host_runs_inv by (auto simp: host_inv_def)
  from pending_record_totp[OF this, of i job a now] code.IH show ?case by (auto split: if_splits)
next
  case (shell_code tr s c digest a job now)
  then have "bmap_ok (hs_auths s)" using host_runs_inv by (auto simp: host_inv_def)
  moreover have "ta_purpose a = Shell_code"
    using shell_code by (auto simp: totp_approval_for_shell_def Let_def split: if_splits)
  ultimately show ?case
    using pending_record_totp[of "hs_auths s" i job a now] shell_code.IH by (auto split: if_splits)
next
  case (desk tr s prompt helper lock polkit job a now)
  then have "bmap_ok (hs_auths s)" using host_runs_inv by (auto simp: host_inv_def)
  from pending_record_desk[OF this, of i job a now] desk.IH show ?case by simp
next
  case (job tr s lock now j n digest ev auths' r)
  then have "bmap_ok (hs_auths s)" using host_runs_inv by (auto simp: host_inv_def)
  from pending_admit[OF this job.hyps(2), of i] job.IH show ?case by (cases r) (auto split: if_splits)
next
  case (shell tr s j spec digest lock now enrolled auths' r)
  then have "bmap_ok (hs_auths s)" using host_runs_inv by (auto simp: host_inv_def)
  then have "pending i auths' \<le> pending i (hs_auths s)"
    using open_shell_left[OF shell.hyps(2)] by (auto simp: pending_bremove)
  then show ?case using shell.IH by simp
qed (simp_all add: pending_def authorizations_clear_def)

section \<open>Prechecks and policy\<close>

lemma own_approval_facts:
  "\<not> is_locked (hv_lock hv) \<Longrightarrow>
   own_approval (facts_of hv job (map_option (\<lambda>a. authorization_facts a digest (hv_now hv)) (bget auths i)) ev)
     = peek_via hv (n_tier job) digest (Some i) auths"
  by (auto simp: own_approval_def facts_of_def Let_def peek_via_def authorization_facts_def authorization_admits_def
      split: option.splits approval_via.splits)

lemma decide_without_own:
  assumes "own_approval (facts_of hv job az ev) = None"
  shows "decide_admission (facts_of hv job az ev) = decide_admission (facts_of hv job None ev)"
proof -
  have f: "facts_of hv job None ev = (facts_of hv job az ev)\<lparr>ad_authorization := None\<rparr>"
    by (simp add: facts_of_def Let_def)
  have "decide_admission g = decide_admission (g\<lparr>ad_authorization := None\<rparr>)" if "own_approval g = None" for g
  proof -
    have "own_approval (g\<lparr>ad_authorization := None\<rparr>) = None" by (simp add: own_approval_def)
    then show ?thesis using that by (cases "ad_source g") (simp_all add: decide_admission_def decide_armed_def)
  qed
  from this[OF assms] show ?thesis unfolding f .
qed

lemma precheck_is_admit:
  assumes n: "normalize re (hv_policy hv) raw False = Inr job"
  shows "precheck_job re hv raw digest False (Some i) ev auths = map_ok aj_via (snd (admit hv i job digest ev auths))"
proof (cases "is_locked (hv_lock hv)")
  case True
  then show ?thesis
    by (simp add: precheck_job_def n Let_def peek_via_def admit_def decide_admission_def facts_of_def)
next
  case False
  let ?f = "facts_of hv job (map_option (\<lambda>a. authorization_facts a digest (hv_now hv)) (bget auths i)) ev"
  have snd: "map_ok aj_via (snd (admit hv i job digest ev auths))
      = map_err (refusal_text (hv_policy hv) (n_tier job)) (decide_admission ?f)"
    using False by (cases "decide_admission ?f") (auto simp: admit_def Let_def authorizations_take_def)
  have own: "own_approval ?f = peek_via hv (n_tier job) digest (Some i) auths" by (rule own_approval_facts[OF False])
  show ?thesis
  proof (cases "peek_via hv (n_tier job) digest (Some i) auths")
    case None
    then show ?thesis using decide_without_own[of hv job _ ev] own
      unfolding snd by (simp add: precheck_job_def n Let_def)
  next
    case (Some v)
    have "decide_admission ?f = Inr v"
      using own Some False by (simp add: decide_admission_def) (simp add: facts_of_def Let_def)
    then show ?thesis unfolding snd using Some by (simp add: precheck_job_def n Let_def)
  qed
qed

definition runs_template :: "regex_lib \<Rightarrow> host_policy \<Rightarrow> normalized \<Rightarrow> string \<Rightarrow> (string, string) bmap \<Rightarrow> bool" where
  "runs_template re p n t params =
     (\<exists>ht. bget (hp_templates p) t = Some ht \<and> t_tier ht = n_tier n \<and> expand re ht params = Ok (n_argv n)
        \<and> n_cwd n = t_cwd ht \<and> n_env n = t_env ht \<and> n_stdin n = t_stdin ht)"

lemma within_policy_Ok:
  "within_policy p spec what = Inr n \<Longrightarrow>
     what = (n_argv n, n_cwd n, n_env n, n_stdin n) \<and> n_spec n = spec \<and> enable (hp_tier p (spec_tier spec))
     \<and> spec_timeout spec \<le> hp_max_timeout_secs p \<and> set (bkeys (spec_env spec)) \<subseteq> set (hp_env_allow p)
     \<and> (\<forall>d \<in> set (hp_deny_commands p). \<not> deny_matches d (n_argv n))"
  by (cases what)
    (auto simp: within_policy_def Let_def bind_Ok_iff tier_enabled_def filter_empty_conv list_ex_iff split: if_splits)

lemma resolve_Ok:
  assumes "resolve re p (n_spec n) sh = Inr (n_argv n, n_cwd n, n_env n, n_stdin n)"
  shows "case spec_command (n_spec n) of
      Run_command argv \<Rightarrow> n_argv n = argv \<and> n_cwd n = spec_cwd (n_spec n) \<and> n_env n = spec_env (n_spec n)
        \<and> n_stdin n = spec_stdin (n_spec n)
    | Template_command t params \<Rightarrow> \<not> sh \<and> runs_template re p n t params"
proof (cases "spec_command (n_spec n)")
  case (Template_command t params)
  then show ?thesis
    using assms by (auto simp: resolve_def runs_template_def n_tier_def map_ok_Ok_iff map_err_Ok_iff
        split: if_splits option.splits)
qed (use assms in \<open>simp add: resolve_def\<close>)

lemma normalize_Ok:
  assumes "normalize re p raw sh = Inr n"
  shows "within_policy p (n_spec n) (n_argv n, n_cwd n, n_env n, n_stdin n) = Inr n
    \<and> resolve re p (n_spec n) sh = Inr (n_argv n, n_cwd n, n_env n, n_stdin n)
    \<and> job_from_json raw (hp_default_timeout_secs p) = Inr (Command_job (n_spec n))"
proof -
  from assms obtain j where j: "job_from_json raw (hp_default_timeout_secs p) = Inr j"
    and rest: "(case j of Shell_job s \<Rightarrow> Err (Refused ''not a runnable job'')
      | Command_job spec \<Rightarrow> bind (resolve re p spec sh) (within_policy p spec)) = Inr n"
    unfolding normalize_def by (cases raw) (auto simp: bind_Ok_iff map_err_Ok_iff split: if_splits)
  from rest obtain spec what where spec: "j = Command_job spec"
    and what: "resolve re p spec sh = Inr what" "within_policy p spec what = Inr n"
    by (cases j) (auto simp: bind_Ok_iff)
  from within_policy_Ok[OF what(2)] j spec what show ?thesis by auto
qed

lemma zip_all: "length xs = length ys \<Longrightarrow> list_all (\<lambda>(x, y). P x y) (zip xs ys) \<Longrightarrow> k < length xs \<Longrightarrow> P (xs ! k) (ys ! k)"
  by (auto simp: list_all_length)

lemma shape_matches_nth:
  assumes "shape_matches pattern argv one" "k < length pattern" "pattern ! k \<noteq> ''**''"
  shows "k < length argv \<and> one (pattern ! k) (argv ! k)"
proof -
  define rest where "rest = (pattern \<noteq> [] \<and> last pattern = ''**'')"
  define fixed where "fixed = (if rest then butlast pattern else pattern)"
  have k: "k < length fixed" "fixed ! k = pattern ! k"
  proof -
    have "k \<noteq> length pattern - 1" if rest
      using that assms(2,3) by (auto simp: rest_def last_conv_nth)
    then show "k < length fixed" "fixed ! k = pattern ! k"
      using assms(2) by (auto simp: fixed_def nth_butlast)
  qed
  have "length fixed \<le> length argv" "list_all (\<lambda>(g, a). one g a) (zip fixed argv)"
    using assms(1) by (auto simp: shape_matches_def Let_def rest_def fixed_def split: if_splits)
  with k show ?thesis by (auto simp: list_all_length)
qed

lemma authorization_admits_Some:
  "authorization_admits a t digest now = Some v \<Longrightarrow>
     az_via a = v \<and> az_tier a = t \<and> az_digest a = digest \<and> now < az_expires_at a"
  by (auto simp: authorization_admits_def authorization_facts_def Let_def split: if_splits)

lemma open_shell_Ok:
  assumes "open_shell p i spec digest auths lock now enr = (left, Inr sh)"
  obtains a where "bget auths i = Some a" "az_via a = ApTotpShell \<or> az_via a = ApDeskShell" "az_tier a = shell_tier spec"
    "az_digest a = digest" "now < az_expires_at a" "\<not> is_locked lock" "shell_enable (hp_tier p (shell_tier spec))"
    "shell_duration spec \<le> shell_max_duration_secs (hp_tier p (shell_tier spec))" "left = bremove i auths"
    "sh = \<lparr>os_id = i, os_tier = shell_tier spec, os_expires_at = plus_secs now (ucast (shell_duration spec))\<rparr>"
proof -
  from assms obtain v where v: "Option.bind (bget auths i) (\<lambda>a. authorization_admits a (shell_tier spec) digest now) = Some v"
    "v = ApTotpShell \<or> v = ApDeskShell" "\<not> is_locked lock" "shell_enable (hp_tier p (shell_tier spec))"
    "shell_duration spec \<le> shell_max_duration_secs (hp_tier p (shell_tier spec))" "left = bremove i auths"
    "sh = \<lparr>os_id = i, os_tier = shell_tier spec, os_expires_at = plus_secs now (ucast (shell_duration spec))\<rparr>"
    by (auto simp: open_shell_def Let_def authorizations_take_def split: if_splits option.splits)
  then obtain a where "bget auths i = Some a" "authorization_admits a (shell_tier spec) digest now = Some v"
    by (cases "bget auths i") auto
  then show thesis using authorization_admits_Some[of a] v that by blast
qed

lemma host_inv_auth: "host_inv p tr s \<Longrightarrow> bget (hs_auths s) i = Some a \<Longrightarrow> justified_entry p tr i a"
  by (auto simp: host_inv_def bget_iff)

lemma arm_proof_root:
  "arm_proof_ok pf Root = Ok () \<Longrightarrow>
     pf = Proof_local Caller_root \<or> (\<exists>step. pf = Proof_totp (AcceptedCode (SecretName Root Arm) step))"
proof (cases pf)
  case (Proof_totp c)
  then show "arm_proof_ok pf Root = Ok () \<Longrightarrow> ?thesis" by (cases c) (auto split: if_splits)
next
  case (Proof_local c)
  then show "arm_proof_ok pf Root = Ok () \<Longrightarrow> ?thesis" by (cases c) auto
qed

lemma root_admitted:
  assumes "host_runs p (Job_asked i n digest now (Ok j) # tr) s" "aj_tier j = Root"
  shows "(\<exists>step t0. Code_typed (AcceptedCode (SecretName Root Direct) step) i digest t0 \<in> set tr
            \<and> now < plus_secs t0 AUTHZ_TTL_SECS)
    \<or> (\<exists>prompt t0. Desk_allowed prompt (Some PolkitConfirmed) t0 \<in> set tr \<and> \<not> dp_shell prompt \<and> dp_job prompt = i
            \<and> dp_digest prompt = digest \<and> dp_tier prompt = Root \<and> desk_approves p Root
            \<and> now < plus_secs t0 AUTHZ_TTL_SECS)
    \<or> (\<exists>pf t0 until. Arm_granted Root pf t0 until \<in> set tr \<and> now < until
            \<and> (pf = Proof_local Caller_root \<or> (\<exists>step. pf = Proof_totp (AcceptedCode (SecretName Root Arm) step))))"
proof -
  from assms(1) obtain s0 lock ev auths' where run: "host_runs p tr s0"
    and adm: "admit \<lparr>hv_policy = p, hv_arm = hs_arm s0, hv_lock = lock, hv_now = now\<rparr> i n digest ev (hs_auths s0) = (auths', Inr j)"
    by (auto elim!: host_runs_job)
  have inv: "host_inv p tr s0" by (rule host_runs_inv[OF run])
  from adm obtain v where v: "j = admitted_job_new i n v None"
    "decide_admission (facts_of \<lparr>hv_policy = p, hv_arm = hs_arm s0, hv_lock = lock, hv_now = now\<rparr> n
       (map_option (\<lambda>a. authorization_facts a digest now) (bget (hs_auths s0) i)) ev) = Inr v"
    by (rule admit_Ok) simp
  have root: "n_tier n = Root" using assms(2) v(1) by simp
  from v(2) show ?thesis
  proof (cases rule: decide_admission_Ok)
    case (own f)
    then obtain a where a: "bget (hs_auths s0) i = Some a" "f = authorization_facts a digest now"
      by (auto simp: facts_of_def Let_def)
    have "az_tier a = Root" "az_digest a = digest" and live: "now < az_expires_at a"
      and "az_via a = ApTotp \<or> az_via a = ApDesk"
      using own a root by (auto simp: facts_of_def Let_def authorization_facts_def)
    with host_inv_auth[OF inv a(1)] consider "auth_justified p tr i Root digest (az_expires_at a) ApTotp"
      | "auth_justified p tr i Root digest (az_expires_at a) ApDesk" by metis
    then show ?thesis
    proof cases
      case 1
      with live show ?thesis unfolding auth_justified.simps by metis
    next
      case 2
      with live show ?thesis unfolding auth_justified.simps by metis
    qed
  next
    case auto
    then show ?thesis using root by (simp add: facts_of_def Let_def)
  next
    case (armed src)
    then have armed: "now < armed_until (hs_arm s0) Root" using root by (simp add: facts_of_def Let_def armed_def)
    then have "armed_until (hs_arm s0) Root \<noteq> 0" by auto
    moreover have "arm_justified tr Root (armed_until (hs_arm s0) Root)" using inv unfolding host_inv_def by blast
    ultimately show ?thesis using armed arm_proof_root unfolding arm_justified_def by blast
  qed
qed

lemma shell_opened:
  assumes "host_runs p (Shell_asked i spec digest now (Ok sh) # tr) s"
  shows "((\<exists>purp step t0. Shell_code_typed (AcceptedCode (SecretName (os_tier sh) purp) step) i digest t0 \<in> set tr
             \<and> (purp = Shell_code \<or> purp = Arm) \<and> now < plus_secs t0 AUTHZ_TTL_SECS)
          \<or> (\<exists>prompt t0. Desk_allowed prompt (Some PolkitConfirmed) t0 \<in> set tr \<and> dp_shell prompt \<and> dp_job prompt = i
             \<and> dp_digest prompt = digest \<and> dp_tier prompt = os_tier sh \<and> desk_approves p (os_tier sh)
             \<and> now < plus_secs t0 AUTHZ_TTL_SECS))
    \<and> shell_enable (hp_tier p (os_tier sh))
    \<and> shell_duration spec \<le> shell_max_duration_secs (hp_tier p (os_tier sh))
    \<and> os_expires_at sh = plus_secs now (ucast (shell_duration spec))"
proof -
  from assms obtain s0 lock enr auths' where run: "host_runs p tr s0"
    and op: "open_shell p i spec digest (hs_auths s0) lock now enr = (auths', Inr sh)"
    by (auto elim!: host_runs_shell)
  from op obtain a where a: "bget (hs_auths s0) i = Some a" "az_via a = ApTotpShell \<or> az_via a = ApDeskShell"
    "az_tier a = shell_tier spec" "az_digest a = digest" "now < az_expires_at a"
    "shell_enable (hp_tier p (shell_tier spec))"
    "shell_duration spec \<le> shell_max_duration_secs (hp_tier p (shell_tier spec))"
    "sh = \<lparr>os_id = i, os_tier = shell_tier spec, os_expires_at = plus_secs now (ucast (shell_duration spec))\<rparr>"
    by (rule open_shell_Ok)
  have t: "os_tier sh = shell_tier spec" "os_expires_at sh = plus_secs now (ucast (shell_duration spec))"
    using a(8) by simp_all
  from a(2-4) host_inv_auth[OF host_runs_inv[OF run] a(1)]
  consider "auth_justified p tr i (os_tier sh) digest (az_expires_at a) ApTotpShell"
    | "auth_justified p tr i (os_tier sh) digest (az_expires_at a) ApDeskShell" unfolding t by metis
  then show ?thesis
  proof cases
    case 1
    with a(5-7) t show ?thesis unfolding auth_justified.simps by metis
  next
    case 2
    with a(5-7) t show ?thesis unfolding auth_justified.simps by metis
  qed
qed

lemma earlier_run:
  assumes "host_runs p tr s" "e \<in> set tr"
  shows "\<exists>tr' s'. host_runs p (e # tr') s' \<and> set tr' \<subseteq> set tr"
  using assms
proof (induction tr arbitrary: s)
  case (Cons x tr)
  obtain s0 where s0: "host_runs p tr s0" using Cons.prems(1) by (cases rule: host_runs.cases) auto
  show ?case
  proof (cases "e = x")
    case True
    with Cons.prems(1) show ?thesis by auto
  next
    case False
    with Cons.prems(2) Cons.IH[OF s0] show ?thesis by auto
  qed
qed simp

lemma shell_command_Ok:
  assumes "host_runs p (Shell_command shell i raw now (Ok j) # tr) s"
  shows "\<exists>sh k spec digest t0. shell = Some sh \<and> Shell_asked k spec digest t0 (Ok sh) \<in> set tr \<and> os_tier sh = aj_tier j
    \<and> now < os_expires_at sh \<and> aj_via j = Via_shell"
proof -
  from assms obtain re lock where c: "admit_shell_command re p shell i raw lock now = Inr j"
    and opened: "\<And>sh. shell = Some sh \<Longrightarrow> \<exists>k spec digest t0. Shell_asked k spec digest t0 (Ok sh) \<in> set tr"
    by (auto elim!: host_runs_command)
  from c obtain sh job where "shell = Some sh" "now < os_expires_at sh" "n_tier job = os_tier sh"
      "j = admitted_job_new i job Via_shell (Some (os_id sh))"
    by (auto simp: admit_shell_command_def opt_filter_Some_iff bind_Ok_iff split: if_splits option.splits)
  with opened show ?thesis by force
qed

text \<open>What an event let run.\<close>

fun ran :: "host_event \<Rightarrow> admitted_job option" where
  "ran (Job_asked i n digest now (Inr j)) = Some j"
| "ran (Shell_command shell i raw now (Inr j)) = Some j"
| "ran _ = None"

section \<open>Properties\<close>


text \<open>C15: A direct code approves at most one job: over every history of the daemon, the jobs admitted
  on a code under an id are never more than the codes typed for that id, whatever was asked in
  between, so a recorded approval cannot be replayed.\<close>

theorem approvals_spent_once:
  assumes "host_runs p tr s"
  shows "admitted_on_code i tr \<le> codes_for i tr"
  using admitted_bounded[OF assms, of i] by simp

text \<open>The precheck is exact: for a spec the host accepts, what it answers for a job id (the evidence
  it would be admitted on, or the refusal) is what admitting the job right then gives; and it
  changes no approval, being given none back.\<close>

theorem precheck_exact:
  assumes "normalize re (hv_policy hv) raw False = Ok job"
  shows "precheck_job re hv raw digest False (Some i) ev auths = map_ok aj_via (snd (admit hv i job digest ev auths))"
  by (rule precheck_is_admit[OF assms])

text \<open>C29: What a host agrees to run is within its own policy, whatever the broker sent: an enabled tier,
  a timeout within the host's maximum, only allowed environment variables, no denied command line;
  a template is the host's own of the job's tier, expanded by the host with the directory,
  environment and input it pins, and never inside a shell.\<close>

theorem normalized_within_policy:
  assumes "normalize re p raw sh = Ok n"
  shows "enable (hp_tier p (n_tier n)) \<and> spec_timeout (n_spec n) \<le> hp_max_timeout_secs p
    \<and> set (bkeys (spec_env (n_spec n))) \<subseteq> set (hp_env_allow p)
    \<and> (\<forall>d \<in> set (hp_deny_commands p). \<not> deny_matches d (n_argv n))
    \<and> (case spec_command (n_spec n) of
         Run_command argv \<Rightarrow> n_argv n = argv \<and> n_cwd n = spec_cwd (n_spec n) \<and> n_env n = spec_env (n_spec n)
           \<and> n_stdin n = spec_stdin (n_spec n)
       | Template_command t params \<Rightarrow> \<not> sh \<and> runs_template re p n t params)"
  using normalize_Ok[OF assms] within_policy_Ok resolve_Ok unfolding n_tier_def by blast

text \<open>C26: A shell opens only on its own approval, over every history of the daemon: a shell or arm code
  of its tier, or Allow with the user's password at a desk that approves the tier, for this very
  shell and digest within the last 300 seconds; its duration is within the tier's limit and it ends
  that long after it opened. A command's approval never opens a shell.\<close>

theorem shell_needs_its_approval:
  assumes "host_runs p (Shell_asked i spec digest now (Ok sh) # tr) s"
  shows "((\<exists>purp step t0. Shell_code_typed (AcceptedCode (SecretName (os_tier sh) purp) step) i digest t0 \<in> set tr
             \<and> (purp = Shell_code \<or> purp = Arm) \<and> now < plus_secs t0 AUTHZ_TTL_SECS)
          \<or> (\<exists>prompt t0. Desk_allowed prompt (Some PolkitConfirmed) t0 \<in> set tr \<and> dp_shell prompt \<and> dp_job prompt = i
             \<and> dp_digest prompt = digest \<and> dp_tier prompt = os_tier sh \<and> desk_approves p (os_tier sh)
             \<and> now < plus_secs t0 AUTHZ_TTL_SECS))
    \<and> shell_enable (hp_tier p (os_tier sh))
    \<and> shell_duration spec \<le> shell_max_duration_secs (hp_tier p (os_tier sh))
    \<and> os_expires_at sh = plus_secs now (ucast (shell_duration spec))"
  using shell_opened[OF assms] .

text \<open>C36: An automatic command cannot walk out of the directory its pattern names: in an argument
  matched by a pattern with a slash every path segment is matched by the pattern's segment in the
  same place, there are as many of them, and no argument of the command has a \<open>..\<close> segment.\<close>

theorem auto_commands_stay_put:
  assumes "auto_matches pattern argv" "k < length pattern" "pattern ! k \<noteq> ''**''" "CHR ''/'' \<in> set (pattern ! k)"
  shows "k < length argv
    \<and> length (split_char (CHR ''/'') (argv ! k)) = length (split_char (CHR ''/'') (pattern ! k))
    \<and> (\<forall>m < length (split_char (CHR ''/'') (pattern ! k)).
         fnmatch (split_char (CHR ''/'') (argv ! k) ! m) (split_char (CHR ''/'') (pattern ! k) ! m))
    \<and> (\<forall>arg \<in> set argv. ''..'' \<notin> set (split_char (CHR ''/'') arg))"
proof -
  have dots: "\<forall>arg \<in> set argv. ''..'' \<notin> set (split_char (CHR ''/'') arg)" and "shape_matches pattern argv segments_match"
    using assms(1) by (auto simp: auto_matches_def has_dotdot_def list_ex_iff split: if_splits)
  from shape_matches_nth[OF this(2) assms(2,3)] have k: "k < length argv" "segments_match (pattern ! k) (argv ! k)" by simp_all
  then have seg: "length (split_char (CHR ''/'') (pattern ! k)) = length (split_char (CHR ''/'') (argv ! k))"
    "list_all (\<lambda>(g, a). fnmatch a g) (zip (split_char (CHR ''/'') (pattern ! k)) (split_char (CHR ''/'') (argv ! k)))"
    using assms(4) by (simp_all add: segments_match_def Let_def)
  with zip_all[OF seg(1), of "\<lambda>g a. fnmatch a g"] k dots show ?thesis by simp
qed

section \<open>A host, a code and a job\<close>

definition sample_host :: host_policy where
  "sample_host = (connect_only ''h'')\<lparr>hp_root := default_tier_policy\<lparr>enable := True, shell_enable := True\<rparr>\<rparr>"

definition sample_spec :: command_spec where
  "sample_spec = \<lparr>spec_host = ''h'', spec_tier = Root, spec_command = Run_command [''id''], spec_cwd = None,
     spec_env = [], spec_timeout = 600, spec_stdin = None\<rparr>"

definition sample_job :: normalized where
  "sample_job = \<lparr>n_spec = sample_spec, n_argv = [''id''], n_cwd = None, n_env = [], n_stdin = None\<rparr>"

definition sample_raw :: json where
  "sample_raw = JObj [(''argv'', JArr [JStr ''id'']), (''host'', JStr ''h''), (''kind'', JStr ''run''), (''tier'', JStr ''root'')]"

definition any_regex :: regex_lib where
  "any_regex pattern = Ok (\<lambda>s. True)"

lemma sample_normalizes: "normalize any_regex sample_host sample_raw False = Ok sample_job"
proof -
  have argv: "validate_argv (Some (JArr [JStr ''id''])) = Ok [''id'']"
    using validate_argv_stored[of "[''id'']"]
    by (simp add: argv_ok_def NUL_def MAX_ARGS_def MAX_ARG_BYTES_def MAX_ARGV_BYTES_def utf8_len_def json_strs_def)
  have "job_from_json sample_raw 600 = Ok (Command_job sample_spec)"
    by (simp add: sample_raw_def sample_spec_def job_from_json_def job_keys_def job_fields_def make_spec_with_default_def
        command_from_def spec_tier_from_def tier_parse_def argv validate_cwd_def validate_env_def validate_timeout_def
        validate_stdin_def)
  then show ?thesis
    by (simp add: normalize_def sample_raw_def sample_host_def connect_only_def is_command_def resolve_def
        within_policy_def tier_enabled_def default_tier_policy_def sample_job_def Let_def)
      (simp add: sample_spec_def within_policy_def tier_enabled_def)
qed

abbreviation sample_code :: accepted_code where
  "sample_code \<equiv> AcceptedCode (SecretName Root Direct) 7"

definition sample_auths :: authorizations where
  "sample_auths = [(''job'', \<lparr>az_digest = ''d'', az_tier = Root, az_via = ApTotp, az_expires_at = 301000\<rparr>)]"

lemma sample_recorded:
  "totp_approval_new sample_code ''d'' = Ok \<lparr>ta_tier = Root, ta_digest = ''d'', ta_purpose = Direct\<rparr>"
  "record_totp [] ''job'' \<lparr>ta_tier = Root, ta_digest = ''d'', ta_purpose = Direct\<rparr> 1000 = sample_auths"
  by (simp_all add: totp_approval_new_def record_totp_def authorizations_insert_def plus_secs_def sat_mul_def sat_add_def
      AUTHZ_TTL_SECS_def sample_auths_def)

lemma sample_admitted:
  "admit \<lparr>hv_policy = sample_host, hv_arm = a, hv_lock = Unlocked, hv_now = 2000\<rparr> ''job'' sample_job ''d''
     \<lparr>ev_source = None, ev_window = False\<rparr> sample_auths
   = ([], Ok (admitted_job_new ''job'' sample_job Via_totp None))"
  by (simp add: admit_def is_locked_def authorizations_take_def sample_auths_def authorization_facts_def facts_of_def
      decide_admission_def own_approval_def n_tier_def sample_job_def sample_spec_def Let_def)

lemma sample_runs:
  "host_runs sample_host [Job_asked ''job'' sample_job ''d'' 2000 (Ok (admitted_job_new ''job'' sample_job Via_totp None)),
     Code_typed sample_code ''job'' ''d'' 1000] host_start"
proof -
  have "host_runs sample_host [Code_typed sample_code ''job'' ''d'' 1000] (host_start\<lparr>hs_auths := sample_auths\<rparr>)"
    using host_runs.code[OF host_runs.start sample_recorded(1), of sample_host "''job''" 1000] sample_recorded(2)
    by (simp add: host_start_def)
  from host_runs.job[OF this] sample_admitted[of "hs_arm host_start"] show ?thesis by (simp add: host_start_def)
qed


theorem approvals_spent_once_witness:
  "admitted_on_code ''job'' [Job_asked ''job'' sample_job ''d'' 2000 (Ok (admitted_job_new ''job'' sample_job Via_totp None)),
     Code_typed sample_code ''job'' ''d'' 1000] = 1
   \<and> 1 \<le> codes_for ''job'' [Job_asked ''job'' sample_job ''d'' 2000 (Ok (admitted_job_new ''job'' sample_job Via_totp None)),
     Code_typed sample_code ''job'' ''d'' 1000]"
  using approvals_spent_once[OF sample_runs, of "''job''"] by simp

theorem precheck_exact_witness:
  "normalize any_regex sample_host sample_raw False = Ok sample_job
   \<and> precheck_job any_regex \<lparr>hv_policy = sample_host, hv_arm = hs_arm host_start, hv_lock = Unlocked, hv_now = 2000\<rparr>
       sample_raw ''d'' False (Some ''job'') \<lparr>ev_source = None, ev_window = False\<rparr> sample_auths = Ok Via_totp"
  using precheck_exact[of any_regex "\<lparr>hv_policy = sample_host, hv_arm = hs_arm host_start, hv_lock = Unlocked, hv_now = 2000\<rparr>"
      sample_raw sample_job "''d''" "''job''" "\<lparr>ev_source = None, ev_window = False\<rparr>" sample_auths] sample_normalizes
  by (simp add: sample_admitted)

theorem normalized_within_policy_witness:
  "normalize any_regex sample_host sample_raw False = Ok sample_job \<and> enable (hp_tier sample_host (n_tier sample_job))"
  using normalized_within_policy[OF sample_normalizes] sample_normalizes by blast

theorem auto_commands_stay_put_witness:
  "auto_matches [''cat'', ''/var/log/*''] [''cat'', ''/var/log/messages'']
   \<and> length (split_char (CHR ''/'') ([''cat'', ''/var/log/messages''] ! 1)) = length (split_char (CHR ''/'') ''/var/log/*'')"
proof -
  have m: "auto_matches [''cat'', ''/var/log/*''] [''cat'', ''/var/log/messages'']" by code_simp
  show ?thesis using auto_commands_stay_put[OF m, of 1] m by simp
qed

theorem shell_needs_its_approval_witness:
  "\<exists>sh. host_runs sample_host [Shell_asked ''sh'' \<lparr>shell_host = ''h'', shell_tier = Root, shell_duration = 60\<rparr> ''d'' 2000 (Ok sh),
       Shell_code_typed (AcceptedCode (SecretName Root Arm) 7) ''sh'' ''d'' 1000] host_start
     \<and> shell_enable (hp_tier sample_host (os_tier sh)) \<and> os_expires_at sh = plus_secs 2000 60"
proof -
  let ?a = "\<lparr>ta_tier = Root, ta_digest = ''d'', ta_purpose = Shell_code\<rparr>"
  let ?auths = "[(''sh'', \<lparr>az_digest = ''d'', az_tier = Root, az_via = ApTotpShell, az_expires_at = 301000\<rparr>)]"
  let ?spec = "\<lparr>shell_host = ''h'', shell_tier = Root, shell_duration = 60\<rparr>"
  have a: "totp_approval_for_shell (AcceptedCode (SecretName Root Arm) 7) ''d'' = Ok ?a"
    by (simp add: totp_approval_for_shell_def)
  have auths: "record_totp [] ''sh'' ?a 1000 = ?auths"
    by (simp add: record_totp_def authorizations_insert_def plus_secs_def sat_mul_def sat_add_def AUTHZ_TTL_SECS_def)
  have "host_runs sample_host [Shell_code_typed (AcceptedCode (SecretName Root Arm) 7) ''sh'' ''d'' 1000]
      (host_start\<lparr>hs_auths := ?auths\<rparr>)"
    using host_runs.shell_code[OF host_runs.start a, of sample_host "''sh''" 1000] auths by (simp add: host_start_def)
  moreover have "open_shell sample_host ''sh'' ?spec ''d'' ?auths Unlocked 2000 False
      = ([], Ok \<lparr>os_id = ''sh'', os_tier = Root, os_expires_at = plus_secs 2000 60\<rparr>)"
    by (simp add: open_shell_def is_locked_def sample_host_def connect_only_def default_tier_policy_def Let_def
        authorizations_take_def authorization_admits_def authorization_facts_def)
  ultimately have run: "host_runs sample_host [Shell_asked ''sh'' ?spec ''d'' 2000
       (Ok \<lparr>os_id = ''sh'', os_tier = Root, os_expires_at = plus_secs 2000 60\<rparr>),
     Shell_code_typed (AcceptedCode (SecretName Root Arm) 7) ''sh'' ''d'' 1000] host_start"
    using host_runs.shell[where i = "''sh''" and spec = ?spec and digest = "''d''" and lock = Unlocked and now = 2000
        and enrolled = False] by (fastforce simp: host_start_def)
  show ?thesis using shell_needs_its_approval[OF run] run by auto
qed

end
