(* ===== verification/Output.thy ===== *)
theory Output
  imports Prelude
begin

text \<open>
  A running job's output, capped to its end (\<open>core/src/hostd/output.rs\<close>). Chunks are dropped whole from
  the front while the rest still covers the cap. Counters are 64-bit words (\<open>usize\<close> on the hosts the
  daemon runs on) with saturating arithmetic. The lemmas refine it to "the last \<open>cap\<close> bytes of all that
  was written".
\<close>

section \<open>The tail\<close>

record output_tail =
  ot_cap :: u64
  ot_chunks :: "byte list list"
  ot_held :: u64
  ot_produced :: u64

record kept_output =
  ko_bytes :: "byte list"
  ko_truncated :: bool
  ko_produced :: u64

definition len_u64 :: "'a list \<Rightarrow> u64" where
  "len_u64 xs = of_nat (length xs)"

definition output_new :: "u64 \<Rightarrow> output_tail" where
  "output_new cap = \<lparr>ot_cap = cap, ot_chunks = [], ot_held = 0, ot_produced = 0\<rparr>"

fun drop_covered :: "u64 \<Rightarrow> byte list list \<Rightarrow> u64 \<Rightarrow> byte list list \<times> u64" where
  "drop_covered cap [] held = ([], held)"
| "drop_covered cap (first # rest) held =
     (if sat_sub held (len_u64 first) \<ge> cap then drop_covered cap rest (sat_sub held (len_u64 first))
      else (first # rest, held))"

definition output_push :: "byte list \<Rightarrow> output_tail \<Rightarrow> output_tail" where
  "output_push chunk t =
     (if chunk = [] then t
      else case drop_covered (ot_cap t) (ot_chunks t @ [chunk]) (sat_add (ot_held t) (len_u64 chunk)) of
        (chunks, held) \<Rightarrow> t\<lparr>ot_chunks := chunks, ot_held := held,
          ot_produced := sat_add (ot_produced t) (len_u64 chunk)\<rparr>)"

definition output_finish :: "output_tail \<Rightarrow> kept_output" where
  "output_finish t =
     (let whole = concat (ot_chunks t);
          bytes = drop (unat (sat_sub (len_u64 whole) (ot_cap t))) whole
      in \<lparr>ko_bytes = bytes, ko_truncated = (ot_produced t > len_u64 bytes), ko_produced = ot_produced t\<rparr>)"

section \<open>Refinement\<close>

text \<open>The specification: of everything written, the last bytes up to the cap.\<close>

definition tail_spec :: "u64 \<Rightarrow> byte list \<Rightarrow> kept_output" where
  "tail_spec cap written =
     \<lparr>ko_bytes = drop (length written - unat cap) written, ko_truncated = (unat cap < length written),
      ko_produced = of_nat (length written)\<rparr>"

text \<open>What a tail stands for: some bytes went from the front, never one of the last \<open>cap\<close>.\<close>

definition tail_rel :: "u64 \<Rightarrow> byte list \<Rightarrow> output_tail \<Rightarrow> bool" where
  "tail_rel cap written t =
     (ot_cap t = cap \<and> unat (ot_held t) = length (concat (ot_chunks t)) \<and> unat (ot_produced t) = length written
      \<and> (\<exists>gone. written = gone @ concat (ot_chunks t) \<and> (gone \<noteq> [] \<longrightarrow> unat cap \<le> length (concat (ot_chunks t)))))"

lemma unat_len_u64: "length xs < 2 ^ 64 \<Longrightarrow> unat (len_u64 xs) = length xs"
  by (simp add: len_u64_def unat_of_nat take_bit_nat_eq_self_iff unsigned_of_nat)

lemma drop_covered_spec:
  assumes "unat held = length (concat chunks)" "length (concat chunks) < 2 ^ 64"
    and "drop_covered cap chunks held = (chunks', held')"
  shows "unat held' = length (concat chunks')
    \<and> (\<exists>gone. concat chunks = gone @ concat chunks' \<and> (gone \<noteq> [] \<longrightarrow> unat cap \<le> length (concat chunks')))"
  using assms
proof (induction cap chunks held rule: drop_covered.induct)
  case (2 cap first rest held)
  have len: "unat (len_u64 first) = length first" using "2.prems"(2) by (intro unat_len_u64) simp
  then have held: "unat (sat_sub held (len_u64 first)) = length (concat rest)"
    using "2.prems"(1) by (simp add: unat_sat_sub)
  show ?case
  proof (cases "sat_sub held (len_u64 first) \<ge> cap")
    case True
    then have cover: "unat cap \<le> length (concat rest)" using held by (simp add: word_le_nat_alt)
    from True "2.prems"(2,3) have "length (concat rest) < 2 ^ 64"
      "drop_covered cap rest (sat_sub held (len_u64 first)) = (chunks', held')" by simp_all
    from "2.IH"[OF True held this] obtain gone where IH: "unat held' = length (concat chunks')"
      "concat rest = gone @ concat chunks'" "gone \<noteq> [] \<longrightarrow> unat cap \<le> length (concat chunks')" by blast
    have "unat cap \<le> length (concat chunks')" using IH(2,3) cover by (cases "gone = []") auto
    then show ?thesis using IH(1,2) by (intro conjI exI[of _ "first @ gone"]) auto
  next
    case False
    then show ?thesis using "2.prems" by auto
  qed
qed simp

lemma push_rel:
  assumes "tail_rel cap written t" "length (written @ chunk) < 2 ^ 64"
  shows "tail_rel cap (written @ chunk) (output_push chunk t)"
proof (cases "chunk = []")
  case True
  then show ?thesis using assms by (simp add: output_push_def)
next
  case False
  from assms obtain gone where t: "ot_cap t = cap" "unat (ot_held t) = length (concat (ot_chunks t))"
    "unat (ot_produced t) = length written" "written = gone @ concat (ot_chunks t)"
    "gone \<noteq> [] \<longrightarrow> unat cap \<le> length (concat (ot_chunks t))" by (auto simp: tail_rel_def)
  have len: "unat (len_u64 chunk) = length chunk" using assms(2) by (intro unat_len_u64) simp
  obtain chunks' held' where dc:
    "drop_covered cap (ot_chunks t @ [chunk]) (sat_add (ot_held t) (len_u64 chunk)) = (chunks', held')"
    by (cases "drop_covered cap (ot_chunks t @ [chunk]) (sat_add (ot_held t) (len_u64 chunk))")
  have held: "unat (sat_add (ot_held t) (len_u64 chunk)) = length (concat (ot_chunks t @ [chunk]))"
    using assms(2) t(2,4) len by (simp add: unat_sat_add)
  have "length (concat (ot_chunks t @ [chunk])) < 2 ^ 64" using assms(2) t(4) by simp
  from drop_covered_spec[OF held this dc] obtain gone' where d: "unat held' = length (concat chunks')"
    "concat (ot_chunks t @ [chunk]) = gone' @ concat chunks'" "gone' \<noteq> [] \<longrightarrow> unat cap \<le> length (concat chunks')" by blast
  have "unat cap \<le> length (concat chunks')" if "gone @ gone' \<noteq> []"
  proof (cases "gone' = []")
    case True
    then have "length (concat chunks') = length (concat (ot_chunks t)) + length chunk"
      using arg_cong[OF d(2), of length] by simp
    then show ?thesis using True that t(5) by simp
  qed (use d(3) in simp)
  moreover have "written @ chunk = (gone @ gone') @ concat chunks'" using t(4) d(2) by simp
  moreover have "unat (sat_add (ot_produced t) (len_u64 chunk)) = length (written @ chunk)"
    using assms(2) t(3) len by (simp add: unat_sat_add)
  ultimately show ?thesis
    using False dc t(1) d(1) unfolding tail_rel_def by (auto simp: output_push_def)
qed

lemma finish_rel:
  assumes "tail_rel cap written t"
  shows "output_finish t = tail_spec cap written"
proof -
  from assms obtain gone where t: "ot_cap t = cap" "unat (ot_held t) = length (concat (ot_chunks t))"
    "unat (ot_produced t) = length written" "written = gone @ concat (ot_chunks t)"
    "gone \<noteq> [] \<longrightarrow> unat cap \<le> length (concat (ot_chunks t))" by (auto simp: tail_rel_def)
  let ?whole = "concat (ot_chunks t)"
  have small: "length written < 2 ^ 64" using t(3) unsigned_less[of "ot_produced t", where ?'a = nat] by simp
  then have "length ?whole < 2 ^ 64" using t(4) by simp
  then have cut: "unat (sat_sub (len_u64 ?whole) cap) = length ?whole - unat cap"
    by (simp add: unat_sat_sub unat_len_u64)
  have bytes: "drop (length written - unat cap) written = drop (length ?whole - unat cap) ?whole"
    using t(4,5) by (cases "gone = []") auto
  have kept: "unat (len_u64 (drop (length ?whole - unat cap) ?whole)) = min (unat cap) (length ?whole)"
    using \<open>length ?whole < 2 ^ 64\<close> by (subst unat_len_u64) auto
  have "(min (unat cap) (length ?whole) < length written) = (unat cap < length written)"
    using t(4,5) by (cases "gone = []") (auto simp: min_def)
  moreover have "ot_produced t = of_nat (length written)" unfolding t(3)[symmetric] by simp
  ultimately show ?thesis
    using t(1,3) by (simp add: output_finish_def tail_spec_def Let_def cut bytes word_less_nat_alt kept)
qed

section \<open>Properties\<close>

text \<open>C34: However a job's output is split into chunks, what is kept is exactly the last \<open>cap\<close> bytes of
  everything it wrote, \<open>truncated\<close> says whether anything is missing and \<open>produced\<close> counts all of it (as
  long as that is below \<open>2 ^ 64\<close> bytes), although whole chunks are dropped on the way.\<close>

theorem output_keeps_the_end:
  assumes "length (concat chunks) < 2 ^ 64"
  shows "output_finish (fold output_push chunks (output_new cap)) = tail_spec cap (concat chunks)"
proof -
  have "tail_rel cap (concat cs) (fold output_push cs (output_new cap))" if "length (concat cs) < 2 ^ 64" for cs
    using that
  proof (induction cs rule: rev_induct)
    case Nil
    show ?case by (simp add: tail_rel_def output_new_def)
  next
    case (snoc c cs)
    then show ?case using push_rel[of cap "concat cs" "fold output_push cs (output_new cap)" c] by simp
  qed
  from finish_rel[OF this[OF assms]] show ?thesis .
qed

theorem output_keeps_the_end_witness:
  "length (concat [[1, 2, 3], [4, 5 :: byte]]) < 2 ^ 64
   \<and> output_finish (fold output_push [[1, 2, 3], [4, 5]] (output_new 3))
       = \<lparr>ko_bytes = [3, 4, 5], ko_truncated = True, ko_produced = 5\<rparr>"
proof -
  have l: "length (concat [[1, 2, 3], [4, 5 :: byte]]) < 2 ^ 64" by simp
  show ?thesis using output_keeps_the_end[OF l, of 3] l by (simp add: tail_spec_def)
qed

end
