(* ===== verification/Sandbox.thy ===== *)
theory Sandbox
  imports Names
begin

text \<open>
  Agent virtual machines (\<open>core/src/sandbox.rs\<close>): the names both sides agree on, the rule for a mint
  resource, and the hold state machine (a lockdown of the whole machine and the containment of single
  agents) with the freeze and thaw decisions. The lemmas show that the machine-wide state moves every
  agent by the one-agent transition and that processes are frozen exactly while an agent is held.
\<close>

section \<open>Names\<close>

definition orchestrator_name :: "string \<Rightarrow> string" where
  "orchestrator_name host = ''orchestrator-'' @ host @ ''-sandbox''"

definition sandbox_agent_name :: "string \<Rightarrow> string \<Rightarrow> string \<Rightarrow> string" where
  "sandbox_agent_name runtime project host = runtime @ ''-'' @ project @ ''-'' @ host @ ''-sandbox''"

definition project_user :: "string \<Rightarrow> string" where
  "project_user project = ''p-'' @ project"

record mint_name =
  mint_name_text :: string
  mint_runtime :: string
  mint_project :: string

text \<open>The second text has a sign outside U+00FF, so an error is its values.\<close>

datatype mint_error = Not_a_mint_name string "string list" | Invalid_project string

definition mint_suffix :: "string \<Rightarrow> string" where
  "mint_suffix host = ''-'' @ host @ ''-sandbox''"

definition parse_mint_name :: "string \<Rightarrow> string list \<Rightarrow> string \<Rightarrow> (mint_error, mint_name) result" where
  "parse_mint_name resource runtimes host =
     (let name = to_lowercase (trim resource); suf = mint_suffix host in
      case find (\<lambda>r. prefix (r @ ''-'') name \<and> suffix suf name) runtimes of
        None \<Rightarrow> Err (Not_a_mint_name suf runtimes)
      | Some runtime \<Rightarrow>
          let start = length runtime + 1; end_at = length name - length suf;
              project = (if start \<le> end_at then take (end_at - start) (drop start name) else [])
          in (case sandbox_project_parse project of
                Err e \<Rightarrow> Err (Invalid_project (repr_string project))
              | Ok p \<Rightarrow> Ok \<lparr>mint_name_text = name, mint_runtime = runtime, mint_project = p\<rparr>))"

section \<open>Holds\<close>

record hold =
  hold_locked :: bool
  hold_contained :: bool

definition held :: "hold \<Rightarrow> bool" where
  "held h = (hold_locked h \<or> hold_contained h)"

datatype agent_hold_event = Agent_lockdown | Agent_unlock | Agent_contained bool

datatype unit_action = Freeze | Release | Keep

fun hold_after :: "hold \<Rightarrow> agent_hold_event \<Rightarrow> hold" where
  "hold_after before Agent_lockdown = \<lparr>hold_locked = True, hold_contained = hold_contained before\<rparr>"
| "hold_after before Agent_unlock = \<lparr>hold_locked = False, hold_contained = hold_contained before\<rparr>"
| "hold_after before (Agent_contained c) = \<lparr>hold_locked = hold_locked before, hold_contained = c\<rparr>"

definition transition :: "hold \<Rightarrow> agent_hold_event \<Rightarrow> hold \<times> unit_action" where
  "transition before event =
     (let after = hold_after before event in
      (after, case (held before, held after) of
                (False, True) \<Rightarrow> Freeze
              | (True, False) \<Rightarrow> Release
              | _ \<Rightarrow> Keep))"

datatype hold_event = Lockdown | Unlock_vm | Contained "string bset"

record holds =
  holds_locked :: bool
  holds_contained :: "string bset"

record applied =
  applied_before :: holds
  applied_after :: holds
  applied_event :: hold_event

definition is_contained :: "holds \<Rightarrow> string \<Rightarrow> bool" where
  "is_contained h agent = (agent \<in> set (holds_contained h))"

definition hold_of :: "holds \<Rightarrow> string \<Rightarrow> hold" where
  "hold_of h agent = \<lparr>hold_locked = holds_locked h, hold_contained = is_contained h agent\<rparr>"

definition is_held :: "holds \<Rightarrow> string \<Rightarrow> bool" where
  "is_held h agent = held (hold_of h agent)"

definition hold_refusal :: "holds \<Rightarrow> string \<Rightarrow> string option" where
  "hold_refusal h agent =
     (if holds_locked h then Some ''locked down''
      else if is_contained h agent then Some (agent @ '' is contained'')
      else None)"

fun event_for :: "hold_event \<Rightarrow> string \<Rightarrow> agent_hold_event" where
  "event_for Lockdown agent = Agent_lockdown"
| "event_for Unlock_vm agent = Agent_unlock"
| "event_for (Contained s) agent = Agent_contained (agent \<in> set s)"

definition applied_action :: "applied \<Rightarrow> string \<Rightarrow> unit_action" where
  "applied_action a agent = snd (transition (hold_of (applied_before a) agent) (event_for (applied_event a) agent))"

definition applied_changed :: "applied \<Rightarrow> bool" where
  "applied_changed a = (applied_before a \<noteq> applied_after a)"

fun holds_after :: "holds \<Rightarrow> hold_event \<Rightarrow> holds" where
  "holds_after h Lockdown = \<lparr>holds_locked = True, holds_contained = holds_contained h\<rparr>"
| "holds_after h Unlock_vm = \<lparr>holds_locked = False, holds_contained = holds_contained h\<rparr>"
| "holds_after h (Contained s) = \<lparr>holds_locked = holds_locked h, holds_contained = s\<rparr>"

definition holds_apply :: "holds \<Rightarrow> hold_event \<Rightarrow> applied" where
  "holds_apply h event = \<lparr>applied_before = h, applied_after = holds_after h event, applied_event = event\<rparr>"

section \<open>Processes\<close>

text \<open>What the actions do to an agent's processes, event by event.\<close>

fun act :: "unit_action \<Rightarrow> bool \<Rightarrow> bool" where
  "act Freeze frozen = True"
| "act Release frozen = False"
| "act Keep frozen = frozen"

text \<open>The virtual machine as the holds drive it: a freeze or a release takes effect at once and does not fail.\<close>

type_synonym vm_state = "holds \<times> (string \<Rightarrow> bool)"

definition vm_step :: "hold_event \<Rightarrow> vm_state \<Rightarrow> vm_state" where
  "vm_step event s =
     (let a = holds_apply (fst s) event in (applied_after a, \<lambda>agent. act (applied_action a agent) (snd s agent)))"

definition vm_synced :: "vm_state \<Rightarrow> bool" where
  "vm_synced s = (\<forall>agent. snd s agent = is_held (fst s) agent)"

lemma hold_of_apply: "hold_of (applied_after (holds_apply h e)) agent = fst (transition (hold_of h agent) (event_for e agent))"
  by (cases e) (simp_all add: holds_apply_def transition_def Let_def hold_of_def is_contained_def)

lemma transition_action:
  "snd (transition b e) = (if held b = held (fst (transition b e)) then Keep
     else if held (fst (transition b e)) then Freeze else Release)"
  by (auto simp: transition_def Let_def split: bool.splits)

lemma vm_step_synced:
  assumes "vm_synced s"
  shows "vm_synced (vm_step e s)"
  unfolding vm_synced_def
proof
  fix agent
  let ?a = "holds_apply (fst s) e"
  have before: "held (hold_of (applied_before ?a) agent) = snd s agent"
    using assms by (simp add: vm_synced_def is_held_def holds_apply_def)
  have after: "fst (transition (hold_of (applied_before ?a) agent) (event_for (applied_event ?a) agent))
      = hold_of (applied_after ?a) agent"
    using hold_of_apply[of "fst s" e agent] by (simp add: holds_apply_def)
  show "snd (vm_step e s) agent = is_held (fst (vm_step e s)) agent"
    unfolding vm_step_def Let_def fst_conv snd_conv applied_action_def transition_action after before is_held_def by simp
qed

interpretation vm: guarded_machine vm_step vm_synced "\<lambda>s t. True"
  by unfold_locales (simp_all add: vm_step_synced)

lemma refusal_iff_held: "(hold_refusal h agent \<noteq> None) = is_held h agent"
  by (simp add: hold_refusal_def is_held_def held_def hold_of_def)

lemma sandbox_project_Ok: "sandbox_project_parse s = Inr p \<Longrightarrow> p = s \<and> s \<noteq> []"
  by (cases s) (auto simp: sandbox_project_parse_def split: if_splits)

lemma between:
  assumes "name = a @ mid" "name = front @ suf" "length a \<le> length name - length suf"
  shows "front = a @ take (length name - length suf - length a) (drop (length a) name)"
proof -
  have "front = take (length name - length suf) name" by (simp add: assms(2))
  also have "\<dots> = a @ take (length name - length suf - length a) mid"
    using assms(3) unfolding assms(1) take_append by simp
  finally show ?thesis by (simp add: assms(1))
qed

section \<open>Properties\<close>

text \<open>C31: Held means held on every path: through any sequence of lockdowns, unlocks and replacements of
  the contained set, an agent's processes are frozen exactly while something holds it, and exactly
  then it is refused. So lifting a lockdown never thaws a contained agent, and lifting a containment
  during a lockdown thaws nothing.\<close>

theorem frozen_iff_held:
  assumes "vm_synced s"
  shows "snd (fold vm_step events s) agent = is_held (fst (fold vm_step events s)) agent
    \<and> (hold_refusal (fst (fold vm_step events s)) agent \<noteq> None) = snd (fold vm_step events s) agent"
  using vm.run_inv[OF assms, of events] refusal_iff_held by (auto simp: vm_synced_def)

theorem frozen_iff_held_witness:
  "vm_synced (\<lparr>holds_locked = False, holds_contained = []\<rparr>, \<lambda>_. False)
   \<and> snd (fold vm_step [Contained [''a''], Lockdown, Unlock_vm] (\<lparr>holds_locked = False, holds_contained = []\<rparr>, \<lambda>_. False)) ''a''"
proof -
  have s: "vm_synced (\<lparr>holds_locked = False, holds_contained = []\<rparr>, \<lambda>_. False)"
    by (simp add: vm_synced_def is_held_def held_def hold_of_def is_contained_def)
  show ?thesis
    using frozen_iff_held[OF s, of "[Contained [''a''], Lockdown, Unlock_vm]" "''a''"] s
    by (simp add: vm_step_def holds_apply_def is_held_def held_def hold_of_def is_contained_def)
qed

text \<open>A mint resource is read exactly: what is accepted is the normalised text, it is the agent name
  built from the runtime and project read out of it, the runtime is a configured one and the project
  a valid name; and a name built from a valid lower-case project is read back, unless an earlier
  runtime of the list also starts it.\<close>

theorem mint_name_exact:
  "(parse_mint_name resource runtimes host = Ok m \<longrightarrow>
      mint_name_text m = to_lowercase (trim resource) \<and> mint_runtime m \<in> set runtimes
      \<and> mint_name_text m = sandbox_agent_name (mint_runtime m) (mint_project m) host
      \<and> sandbox_project_parse (mint_project m) = Ok (mint_project m))
   \<and> (sandbox_project_parse project = Ok project
      \<and> to_lowercase (trim (sandbox_agent_name runtime project host)) = sandbox_agent_name runtime project host
      \<and> find (\<lambda>r. prefix (r @ ''-'') (sandbox_agent_name runtime project host)) runtimes = Some runtime
      \<longrightarrow> parse_mint_name (sandbox_agent_name runtime project host) runtimes host
        = Ok \<lparr>mint_name_text = sandbox_agent_name runtime project host, mint_runtime = runtime, mint_project = project\<rparr>)"
proof (intro conjI impI)
  assume ok: "parse_mint_name resource runtimes host = Ok m"
  let ?name = "to_lowercase (trim resource)" and ?suf = "mint_suffix host"
  from ok obtain runtime where r: "find (\<lambda>r. prefix (r @ ''-'') ?name \<and> suffix ?suf ?name) runtimes = Some runtime"
    by (auto simp: parse_mint_name_def Let_def split: option.splits)
  then have mem: "runtime \<in> set runtimes" and pre: "prefix (runtime @ ''-'') ?name" "suffix ?suf ?name"
    by (auto simp: find_Some_iff)
  define project where "project = (if length runtime + 1 \<le> length ?name - length ?suf
    then take (length ?name - length ?suf - (length runtime + 1)) (drop (length runtime + 1) ?name) else [])"
  have p: "sandbox_project_parse project = Ok (mint_project m)" "mint_runtime m = runtime" "mint_name_text m = ?name"
    using ok r by (auto simp: parse_mint_name_def Let_def project_def split: sum.splits)
  from sandbox_project_Ok[OF p(1)] have proj: "mint_project m = project" "project \<noteq> []" by simp_all
  then have room: "length runtime + 1 \<le> length ?name - length ?suf" by (auto simp: project_def split: if_splits)
  obtain mid where mid: "?name = (runtime @ ''-'') @ mid" using pre(1) by (auto simp: prefix_def)
  obtain front where front: "?name = front @ ?suf" using pre(2) by (auto simp: suffix_def)
  have "front = (runtime @ ''-'') @ project"
    using between[OF mid front] room by (simp add: project_def)
  then show "mint_name_text m = ?name" "mint_runtime m \<in> set runtimes"
    "mint_name_text m = sandbox_agent_name (mint_runtime m) (mint_project m) host"
    "sandbox_project_parse (mint_project m) = Ok (mint_project m)"
    using p mem proj front by (simp_all add: sandbox_agent_name_def mint_suffix_def)
next
  let ?n = "sandbox_agent_name runtime project host"
  assume a: "sandbox_project_parse project = Ok project \<and> to_lowercase (trim ?n) = ?n
    \<and> find (\<lambda>r. prefix (r @ ''-'') ?n) runtimes = Some runtime"
  have "suffix (mint_suffix host) ?n"
    unfolding suffix_def by (rule exI[of _ "runtime @ ''-'' @ project"]) (simp add: sandbox_agent_name_def mint_suffix_def)
  then show "parse_mint_name ?n runtimes host = Ok \<lparr>mint_name_text = ?n, mint_runtime = runtime, mint_project = project\<rparr>"
    using a by (simp add: parse_mint_name_def Let_def) (simp add: sandbox_agent_name_def mint_suffix_def)
qed

theorem mint_name_exact_witness:
  "parse_mint_name '' Claude-larder-box-sandbox '' [''claude'', ''codex''] ''box''
     = Ok \<lparr>mint_name_text = ''claude-larder-box-sandbox'', mint_runtime = ''claude'', mint_project = ''larder''\<rparr>
   \<and> ''claude-larder-box-sandbox'' = sandbox_agent_name ''claude'' ''larder'' ''box''"
proof -
  have p: "parse_mint_name '' Claude-larder-box-sandbox '' [''claude'', ''codex''] ''box''
     = Ok \<lparr>mint_name_text = ''claude-larder-box-sandbox'', mint_runtime = ''claude'', mint_project = ''larder''\<rparr>"
    by code_simp
  show ?thesis using mp[OF conjunct1[OF mint_name_exact] p] p unfolding mint_name.select_convs by blast
qed

end
