(* ===== verification/Display.thy ===== *)
theory Display
  imports Pyfmt Durations
begin

text \<open>
  What a human approving a host's command is shown (\<open>core/src/hostd/display.rs\<close>), over code points as in
  \<open>Pyfmt\<close>. The lemmas show that an argument within the basic multilingual plane reads back from its
  display, that a cut text says so and fits, and that the display is not injective beyond that plane.
\<close>

section \<open>Arguments\<close>

text \<open>\<open>{n:04x}\<close>: at least four hexadecimal digits, more for a code point above U+FFFF.\<close>

definition hex_4 :: "nat \<Rightarrow> codepoints" where
  "hex_4 n = (if n < 0x10000 then hex_fixed 4 n else if n < 0x100000 then hex_fixed 5 n else hex_fixed 6 n)"

definition needs_escape :: "nat \<Rightarrow> bool" where
  "needs_escape c = (\<not> is_display_safe c)"

definition display_char :: "nat \<Rightarrow> codepoints" where
  "display_char c =
     (if c = 10 then [92, 110]
      else if c = 9 then [92, 116]
      else if c = 13 then [92, 114]
      else if c = 92 then [92, 92]
      else if c = 39 then [92, 39]
      else if needs_escape c then (if c \<le> 0xff then [92, 120] @ hex_fixed 2 c else [92, 117] @ hex_4 c)
      else [c])"

definition display_arg :: "codepoints \<Rightarrow> codepoints" where
  "display_arg s =
     (if \<not> list_ex needs_escape s then shlex_quote s
      else [36, 39] @ concat (map display_char s) @ [39])"

definition display_argv :: "codepoints list \<Rightarrow> codepoints" where
  "display_argv argv = join_words (map display_arg argv)"

definition command_extras ::
  "codepoints option \<Rightarrow> (codepoints \<times> codepoints) list \<Rightarrow> codepoints option \<Rightarrow> codepoints list" where
  "command_extras cwd env stdin =
     (case cwd of None \<Rightarrow> [] | Some d \<Rightarrow> [cps ''in '' @ display_arg d])
     @ (if env = [] then [] else [cps ''env '' @ join_words (map (\<lambda>(k, v). k @ cps ''='' @ display_arg v) env)])
     @ (case stdin of None \<Rightarrow> [] | Some s \<Rightarrow>
          [cps (''stdin ('' @ show_nat (length s) @ '' chars): '') @ display_arg s])"

section \<open>Fitting\<close>

definition cut_notice :: "nat \<Rightarrow> codepoints \<Rightarrow> nat \<Rightarrow> codepoints" where
  "cut_notice total_chars short shown =
     [32, 0x2026] @ cps ('' [cut: '' @ show_nat shown @ '' of '' @ show_nat total_chars
       @ '' characters shown; the approval covers all of it, sha256 '') @ short @ [0x2026, 93]"

definition fit :: "codepoints \<Rightarrow> nat \<Rightarrow> codepoints \<Rightarrow> codepoints" where
  "fit txt limit digest =
     (let total_chars = length txt in
      if total_chars \<le> limit then txt
      else let short = take 16 digest;
               room = limit - length (cut_notice total_chars short total_chars);
               shown_text = take room txt
           in shown_text @ cut_notice total_chars short (length shown_text))"

text \<open>\<open>split_whitespace\<close> and \<open>join(" ")\<close>: the words, then the first characters.\<close>

fun cp_words :: "codepoints \<Rightarrow> codepoints \<Rightarrow> codepoints list" where
  "cp_words [] word = (if word = [] then [] else [word])"
| "cp_words (c # s) word =
     (if cp_is_whitespace c then (if word = [] then cp_words s [] else word # cp_words s [])
      else cp_words s (word @ [c]))"

definition one_line :: "codepoints \<Rightarrow> nat \<Rightarrow> codepoints" where
  "one_line txt limit = take limit (join_words (cp_words txt []))"

section \<open>Lemmas\<close>

lemma shell_word_display_char:
  "0 < c \<Longrightarrow> c < 0x10000 \<Longrightarrow>
   shell_word Ansi (display_char c @ r) = map_option ((#) c) (shell_word Ansi r)"
  by (auto simp: display_char_def needs_escape_def hex_4_def read_hex_fixed numeral_nat(7) is_display_safe_def)

lemma shell_word_display:
  "list_all (\<lambda>c. 0 < c \<and> c < 0x10000) s \<Longrightarrow> shell_word Ansi (concat (map display_char s) @ [39]) = Some s"
  by (induction s) (auto simp: shell_word_display_char)

lemma shell_word_safe_quote:
  assumes "list_all is_display_safe s"
  shows "shell_word Bare (shlex_quote s) = Some s"
  using assms shell_word_bare[of s] shell_word_single[of s] by (auto simp: shlex_quote_def)

lemma display_char_safe: "list_all is_display_safe (display_char c)"
  by (auto simp: display_char_def needs_escape_def hex_4_def ascii_safe)

text \<open>The first four digits of a long escape, and the rest of them.\<close>

definition escape_head :: "nat \<Rightarrow> nat" where
  "escape_head c = (if c < 0x100000 then c div 16 else c div 16 div 16)"

definition escape_tail :: "nat \<Rightarrow> codepoints" where
  "escape_tail c = (if c < 0x100000 then [hex_digit (c mod 16)] else [hex_digit (c div 16 mod 16), hex_digit (c mod 16)])"

lemma hex_4_split: "0x10000 \<le> c \<Longrightarrow> c < 0x110000 \<Longrightarrow> hex_4 c = hex_4 (escape_head c) @ escape_tail c"
proof -
  assume c: "0x10000 \<le> c" "c < 0x110000"
  have five: "hex_fixed 5 n = hex_fixed 4 (n div 16) @ [hex_digit (n mod 16)]" for n
    using hex_fixed.simps(2)[of 4 n] by simp
  have six: "hex_fixed 6 n = hex_fixed 5 (n div 16) @ [hex_digit (n mod 16)]" for n
    using hex_fixed.simps(2)[of 5 n] by simp
  show "hex_4 c = hex_4 (escape_head c) @ escape_tail c"
  proof (cases "c < 0x100000")
    case True
    then have "c div 16 < 0x10000" by auto
    with True c five[of c] show ?thesis by (simp add: hex_4_def escape_head_def escape_tail_def)
  next
    case False
    then have "c div 16 div 16 < 0x10000" using c by auto
    with False c six[of c] five[of "c div 16"] show ?thesis by (simp add: hex_4_def escape_head_def escape_tail_def)
  qed
qed

lemma display_hex_digit: "n < 16 \<Longrightarrow> display_char (hex_digit n) = [hex_digit n]"
proof -
  assume n: "n < 16"
  then have "48 \<le> hex_digit n" "hex_digit n \<noteq> 92" by (auto simp: hex_digit_def)
  with hex_digit_safe[OF n] show "display_char (hex_digit n) = [hex_digit n]" by (simp add: display_char_def needs_escape_def)
qed

lemma display_char_split:
  assumes "0x10000 \<le> c" "c < 0x110000" "needs_escape c" "needs_escape (escape_head c)"
  shows "display_char c = display_char (escape_head c) @ concat (map display_char (escape_tail c))"
proof -
  have head: "0x1000 \<le> escape_head c" using assms(1) by (auto simp: escape_head_def)
  have "concat (map display_char (escape_tail c)) = escape_tail c" by (simp add: escape_tail_def display_hex_digit)
  with head assms hex_4_split[OF assms(1,2)] show ?thesis by (simp add: display_char_def)
qed

lemma length_show_nat_mono: "m \<le> n \<Longrightarrow> length (show_nat m) \<le> length (show_nat n)"
proof (induction n arbitrary: m rule: less_induct)
  case (less n)
  show ?case
  proof (cases "m < 10")
    case True
    then show ?thesis using show_nat_not_Nil[of n] by (cases "show_nat n") (auto simp: show_nat.simps[of m])
  next
    case False
    then have "length (show_nat (m div 10)) \<le> length (show_nat (n div 10))"
      using less by (intro less.IH) (auto simp: div_le_mono)
    then show ?thesis using False less.prems by (simp add: show_nat.simps[of m] show_nat.simps[of n])
  qed
qed

lemma shell_word_ansi_open: "shell_word Bare (36 # 39 # s) = shell_word Ansi s"
  by simp

section \<open>Properties\<close>

text \<open>What an approver reads is what runs, for every argument within the basic multilingual plane:
  the shown text holds only display-safe characters, and reading it as a shell word (a hexadecimal
  escape standing for its code point) gives the argument back, so no two such arguments look alike.\<close>

theorem display_arg_round_trip:
  assumes "list_all (\<lambda>c. 0 < c \<and> c < 0x10000) s"
  shows "shell_word Bare (display_arg s) = Some s \<and> list_all is_display_safe (display_arg s)"
proof (cases "list_ex needs_escape s")
  case True
  have "shell_word Bare (display_arg s) = Some s"
    using True shell_word_display[OF assms] unfolding display_arg_def append_Cons append_Nil shell_word_ansi_open by simp
  then show ?thesis using True
    by (simp add: display_arg_def list_all_concat_map display_char_safe ascii_safe list_all_iff[of _ s])
next
  case False
  then have "list_all is_display_safe s" by (auto simp: needs_escape_def list_ex_iff list_all_iff)
  then show ?thesis using False shell_word_safe_quote shlex_quote_safe by (simp add: display_arg_def)
qed

theorem display_arg_round_trip_witness:
  "list_all (\<lambda>c. 0 < c \<and> c < 0x10000) [104 :: nat, 10, 0x202e]
   \<and> shell_word Bare (display_arg [104, 10, 0x202e]) = Some [104, 10, 0x202e]"
  using display_arg_round_trip[of "[104, 10, 0x202e]"] by simp

text \<open>C39: Beyond the basic multilingual plane two arguments can look alike. The escape of a code point above U+FFFF has
  five or six digits; whenever the code point its first four digits spell would be escaped too, the
  argument is displayed, wherever it stands, exactly as the one with that code point and the remaining digits in its place.\<close>

theorem display_arg_ambiguous:
  assumes "0x10000 \<le> c" "c < 0x110000" "needs_escape c" "needs_escape (escape_head c)"
  shows "display_arg (s @ c # t) = display_arg (s @ escape_head c # escape_tail c @ t)
    \<and> s @ c # t \<noteq> s @ escape_head c # escape_tail c @ t"
proof -
  have "display_char c = display_char (escape_head c) @ concat (map display_char (escape_tail c))"
    using display_char_split[OF assms] .
  moreover have "escape_head c \<noteq> c" using assms(1) by (auto simp: escape_head_def)
  ultimately show ?thesis using assms(3,4) by (auto simp: display_arg_def)
qed

theorem display_arg_ambiguous_witness:
  "needs_escape 0xe0001 \<and> needs_escape 0xe000 \<and> display_arg [0xe0001] = display_arg [0xe000, 49]"
proof -
  have e: "needs_escape 0xe0001" "needs_escape 0xe000"
    by (simp_all add: needs_escape_def is_display_safe_def is_printable_def format_char_def private_use_def)
  have "escape_head 0xe0001 = 0xe000" "escape_tail 0xe0001 = [49]"
    by (simp_all add: escape_head_def escape_tail_def hex_digit_def)
  with display_arg_ambiguous[of "0xe0001" "[]" "[]"] e show ?thesis by simp
qed

text \<open>A shown text never silently loses its end: it is the whole text when that fits, and otherwise
  a beginning of it followed by a notice with the number of characters shown, the number there are
  and the digest the approval is for; with a limit of at least 160 it stays within the limit.\<close>

theorem fit_within_limit:
  assumes "160 \<le> limit" "length txt < 2 ^ 64"
  shows "length (fit txt limit digest) \<le> limit
    \<and> (fit txt limit digest = txt
       \<or> (\<exists>shown < length txt. fit txt limit digest = take shown txt @ cut_notice (length txt) (take 16 digest) shown))"
proof (cases "length txt \<le> limit")
  case False
  let ?t = "length txt"
  let ?short = "take 16 digest"
  let ?room = "limit - length (cut_notice ?t ?short ?t)"
  have digits: "length (show_nat ?t) \<le> 20" using assms(2) by (intro length_show_nat) simp_all
  have notice: "length (cut_notice ?t ?short ?t) \<le> 160"
    using digits by (simp add: cut_notice_def cps_def)
  have room: "?room < ?t" "length (take ?room txt) = ?room" using False by auto
  have "length (cut_notice ?t ?short ?room) \<le> length (cut_notice ?t ?short ?t)"
    using length_show_nat_mono[of ?room ?t] room(1) by (simp add: cut_notice_def cps_def)
  then have "length (fit txt limit digest) \<le> limit"
    using False notice assms(1) room(2) by (simp add: fit_def Let_def)
  moreover have "fit txt limit digest = take ?room txt @ cut_notice ?t ?short ?room"
    using False room(2) by (simp add: fit_def Let_def)
  ultimately show ?thesis using room(1) by blast
qed (simp add: fit_def)

theorem fit_within_limit_witness:
  "length (replicate 200 (120 :: nat)) < 2 ^ 64 \<and> length (fit (replicate 200 120) 160 (replicate 64 97)) \<le> 160"
  using fit_within_limit[of 160 "replicate 200 120" "replicate 64 97"] by simp

end
