(* ===== verification/Canonical_Json.thy ===== *)
theory Canonical_Json
  imports Pool Pyfmt
begin

text \<open>
  JSON text as Python's \<open>json.dumps\<close> writes it (\<open>core/src/canonical_json.rs\<close>): the canonical form that
  digests are computed over, and the length of the default form. The text is a list of code points,
  all of them ASCII. A double is its shortest decimal, as in \<open>Json\<close>. The lemmas show that the canonical
  text determines the value.
\<close>

section \<open>Writing\<close>

datatype canonical_error = NonInteger

datatype style = Canonical | PythonDefault

fun item_sep :: "style \<Rightarrow> codepoints" where
  "item_sep Canonical = cps '',''"
| "item_sep PythonDefault = cps '', ''"

fun key_sep :: "style \<Rightarrow> codepoints" where
  "key_sep Canonical = cps '':''"
| "key_sep PythonDefault = cps '': ''"

text \<open>\<open>repr(float)\<close>: the digits and the place of the decimal point decide the notation.\<close>

definition python_float_repr :: "f64 \<Rightarrow> codepoints" where
  "python_float_repr f =
     (let written = show_nat (f64_mantissa f);
          digits = (if f64_mantissa f = 0 then written else rev (dropWhile (\<lambda>d. d = CHR ''0'') (rev written)));
          decpt = f64_exponent f + int (length written);
          sign = (if f64_negative f then ''-'' else '''')
      in cps (sign @
        (if decpt \<le> -4 \<or> decpt > 16 then
           let shown = decpt - 1; magnitude = nat (abs shown) in
           take 1 digits @ (if drop 1 digits \<noteq> [] then ''.'' @ drop 1 digits else '''')
           @ ''e'' @ (if shown < 0 then ''-'' else ''+'') @ (if magnitude < 10 then ''0'' else '''') @ show_nat magnitude
         else if decpt \<le> 0 then ''0.'' @ replicate (nat (- decpt)) (CHR ''0'') @ digits
         else let point = nat decpt in
           if point < length digits then take point digits @ ''.'' @ drop point digits
           else digits @ replicate (point - length digits) (CHR ''0'') @ ''.0'')))"

definition write_number :: "style \<Rightarrow> number \<Rightarrow> (canonical_error, codepoints) result" where
  "write_number st n =
     (case number_as_i64 n of
        Some i \<Rightarrow> Ok (cps (show_i64 i))
      | None \<Rightarrow>
          (case n of
             PosInt u \<Rightarrow> Ok (cps (show_nat (unat u)))
           | Float f \<Rightarrow> (case st of Canonical \<Rightarrow> Err NonInteger | PythonDefault \<Rightarrow> Ok (python_float_repr f))
           | NegInt u \<Rightarrow> Ok (cps (show_nat (unat u)))))"

definition write_string :: "string \<Rightarrow> codepoints" where
  "write_string s = [34] @ concat (map json_char (cps s)) @ [34]"

fun join_sep :: "codepoints \<Rightarrow> codepoints list \<Rightarrow> codepoints" where
  "join_sep sep [] = []"
| "join_sep sep [t] = t"
| "join_sep sep (t # u # ts) = t @ sep @ join_sep sep (u # ts)"

lemma try_map_cong [fundef_cong]:
  "xs = ys \<Longrightarrow> (\<And>y. y \<in> set ys \<Longrightarrow> f y = g y) \<Longrightarrow> try_map f xs = try_map g ys"
  by (induction xs arbitrary: ys) auto

fun write_value :: "style \<Rightarrow> json \<Rightarrow> (canonical_error, codepoints) result" where
  "write_value st JNull = Ok (cps ''null'')"
| "write_value st (JBool b) = Ok (cps (if b then ''true'' else ''false''))"
| "write_value st (JNum n) = write_number st n"
| "write_value st (JStr s) = Ok (write_string s)"
| "write_value st (JArr items) =
     map_ok (\<lambda>ts. cps ''['' @ join_sep (item_sep st) ts @ cps '']'') (try_map (write_value st) items)"
| "write_value st (JObj m) =
     map_ok (\<lambda>ts. cps ''{'' @ join_sep (item_sep st) ts @ cps ''}'')
       (try_map (\<lambda>(k, v). map_ok (\<lambda>t. write_string k @ key_sep st @ t) (write_value st v)) (sort_key fst m))"

definition to_canonical_string :: "json \<Rightarrow> (canonical_error, codepoints) result" where
  "to_canonical_string v = write_value Canonical v"

definition to_python_default_string :: "json \<Rightarrow> codepoints" where
  "to_python_default_string v = (case write_value PythonDefault v of Ok t \<Rightarrow> t | Err e \<Rightarrow> [])"

definition python_dumps_len :: "json \<Rightarrow> nat" where
  "python_dumps_len v = length (to_python_default_string v)"

section \<open>Numbers and strings read back\<close>

text \<open>What may follow a value in a canonical text.\<close>

definition delim :: "codepoints \<Rightarrow> bool" where
  "delim r = (r = [] \<or> hd r \<in> {44, 93, 125})"

fun numbers_ok :: "json \<Rightarrow> bool" where
  "numbers_ok (JNum (NegInt n)) = (sint n < 0)"
| "numbers_ok (JArr vs) = list_all numbers_ok vs"
| "numbers_ok (JObj m) = list_all (\<lambda>(k, v). numbers_ok v) m"
| "numbers_ok v = True"

definition cp_digit :: "nat \<Rightarrow> bool" where
  "cp_digit c = (48 \<le> c \<and> c \<le> 57)"

lemma cps_digits: "list_all cp_digit (cps (show_nat n))"
  using show_nat_digits[of n]
  by (auto simp: cps_def list_all_iff cp_digit_def is_ascii_digit_def less_eq_char_def)

lemma cps_inj [simp]: "(cps s = cps t) = (s = t)"
proof -
  have "inj (of_char :: char \<Rightarrow> nat)" by (rule injI) simp
  then show ?thesis by (simp add: cps_def inj_map_eq_map)
qed

lemma cps_simps [simp]: "cps [] = []" "cps (c # s) = of_char c # cps s" "cps (s @ t) = cps s @ cps t"
  by (simp_all add: cps_def)

lemma show_nat_inj [simp]: "(show_nat m = show_nat n) = (m = n)"
  by (metis read_show_nat)

lemma digits_then_delim: "list_all cp_digit d \<Longrightarrow> delim r \<Longrightarrow> takeWhile cp_digit (d @ r) = d"
  by (cases r) (auto simp: delim_def cp_digit_def list_all_iff takeWhile_append2)

lemma digits_apart:
  assumes "cps (show_nat m) @ r = cps (show_nat n) @ r'" "delim r" "delim r'"
  shows "m = n \<and> r = r'"
  using digits_then_delim[OF cps_digits[of m] assms(2)] digits_then_delim[OF cps_digits[of n] assms(3)] assms(1)
  by (metis append_same_eq cps_inj same_append_eq show_nat_inj)

text \<open>The number a canonical number text stands for.\<close>

fun number_int :: "number \<Rightarrow> int option" where
  "number_int (PosInt n) = Some (uint n)"
| "number_int (NegInt n) = Some (sint n)"
| "number_int (Float f) = None"

definition show_int :: "int \<Rightarrow> codepoints" where
  "show_int i = (if i < 0 then 45 # cps (show_nat (nat (- i))) else cps (show_nat (nat i)))"

lemma show_int_apart:
  assumes "show_int i @ r = show_int j @ r'" "delim r" "delim r'"
  shows "i = j \<and> r = r'"
proof -
  have digit: "hd (cps (show_nat n) @ y) \<noteq> 45" for n y
    using cps_digits[of n] show_nat_not_Nil[of n] by (cases "show_nat n") (auto simp: cp_digit_def)
  have sign: "(hd (show_int k @ y) = 45) = (k < 0)" for k y
    using digit[of "nat k" y] by (simp add: show_int_def)
  have same: "(i < 0) = (j < 0)" using arg_cong[OF assms(1), of hd] sign by metis
  show ?thesis
  proof (cases "i < 0")
    case True
    then have "cps (show_nat (nat (- i))) @ r = cps (show_nat (nat (- j))) @ r'"
      using assms(1) same by (simp add: show_int_def)
    from digits_apart[OF this assms(2,3)] show ?thesis using True same by auto
  next
    case False
    then have "cps (show_nat (nat i)) @ r = cps (show_nat (nat j)) @ r'"
      using assms(1) same by (simp add: show_int_def)
    from digits_apart[OF this assms(2,3)] show ?thesis using False same by auto
  qed
qed

lemma sint_small:
  fixes n :: u64
  assumes "n \<le> 0x7fffffffffffffff"
  shows "sint n = uint n"
proof -
  have "uint n < 2 ^ 63" using assms by (simp add: word_le_def)
  moreover have "- (2 ^ 63) \<le> uint n" by (rule order_trans[OF _ unsigned_greater_eq]) simp
  ultimately show ?thesis by (simp add: sint_uint signed_take_bit_int_eq_self_iff)
qed

lemma write_number_canonical:
  assumes "numbers_ok (JNum n)"
  shows "(write_number Canonical n = Inr t) = (\<exists>i. number_int n = Some i \<and> t = show_int i)"
proof (cases n)
  case (PosInt u)
  have "show_i64 u = show_nat (unat u)" if "u \<le> 0x7fffffffffffffff"
    using sint_small[OF that] by (simp add: show_i64_def nat_uint_eq)
  then show ?thesis by (auto simp: PosInt write_number_def show_int_def nat_uint_eq)
next
  case (NegInt u)
  then show ?thesis using assms by (auto simp: write_number_def show_int_def show_i64_def)
qed (simp add: write_number_def)

lemma number_int_inj:
  assumes "numbers_ok (JNum n)" "numbers_ok (JNum n')" "number_int n = Some i" "number_int n' = Some i"
  shows "n = n'"
proof -
  have same: "x = y" if "sint x = sint y" for x y :: u64 by (rule signed_word_eqI[OF that])
  have mixed: "uint x \<noteq> sint y" if "sint y < 0" for x y :: u64
    using that unsigned_greater_eq[of x, where ?'a = int] by linarith
  show ?thesis
  proof (cases n)
    case (PosInt x)
    then show ?thesis using assms mixed[of _ x] by (cases n') (auto simp: word_uint_eq_iff)
  next
    case (NegInt x)
    then show ?thesis using assms mixed[of x] same[of x] by (cases n') auto
  qed (use assms in simp)
qed

text \<open>Reading one character of a string literal back.\<close>

fun json_unchar :: "codepoints \<Rightarrow> (nat \<times> codepoints) option" where
  "json_unchar [] = None"
| "json_unchar (c # s) =
     (if c \<noteq> 92 then Some (c, s)
      else case s of [] \<Rightarrow> None | e # r \<Rightarrow>
        if e = 117 then read_hex 4 0 r
        else Some (if e = 110 then 10 else if e = 114 then 13 else if e = 116 then 9 else if e = 98 then 8
                   else if e = 102 then 12 else e, r))"

lemma json_unchar_char: "c < 0x10000 \<Longrightarrow> json_unchar (json_char c @ x) = Some (c, x)"
  by (simp add: json_char_def encode_utf16_def read_hex_fixed)

lemma json_char_apart:
  assumes "c < 0x10000" "c' < 0x10000" "json_char c @ x = json_char c' @ x'"
  shows "c = c' \<and> x = x'"
  using arg_cong[OF assms(3), of json_unchar] assms(1,2) by (simp add: json_unchar_char)

lemma json_char_head: "c < 0x10000 \<Longrightarrow> \<exists>h t. json_char c = h # t \<and> h \<noteq> 34"
  by (auto simp: json_char_def encode_utf16_def)

lemma string_body_apart:
  assumes "list_all (\<lambda>c. c < 0x10000) s" "list_all (\<lambda>c. c < 0x10000) s'"
    and "concat (map json_char s) @ 34 # r = concat (map json_char s') @ 34 # r'"
  shows "s = s' \<and> r = r'"
  using assms
proof (induction s arbitrary: s')
  case Nil
  then show ?case using json_char_head by (cases s') fastforce+
next
  case (Cons c s)
  show ?case
  proof (cases s')
    case Nil
    then show ?thesis using Cons.prems json_char_head[of c] by fastforce
  next
    case (Cons c' s'')
    have "c = c' \<and> concat (map json_char s) @ 34 # r = concat (map json_char s'') @ 34 # r'"
      using Cons.prems Cons by (intro json_char_apart) auto
    then show ?thesis using Cons.IH[of s''] Cons.prems Cons by auto
  qed
qed

lemma write_string_apart:
  assumes "write_string s @ r = write_string s' @ r'"
  shows "s = s' \<and> r = r'"
proof -
  have small: "list_all (\<lambda>c. c < 0x10000) (cps s)" for s
  proof -
    have "(of_char c :: nat) < 0x10000" for c :: char by (rule less_trans[of _ 256]) simp_all
    then show ?thesis by (simp add: cps_def list_all_iff)
  qed
  show ?thesis
    using string_body_apart[OF small[of s] small[of s'], of r r'] assms by (simp add: write_string_def)
qed

section \<open>A canonical text determines its value\<close>

text \<open>The first character says which kind of value follows.\<close>

fun first_ok :: "json \<Rightarrow> nat \<Rightarrow> bool" where
  "first_ok JNull h = (h = 110)"
| "first_ok (JBool b) h = (h = (if b then 116 else 102))"
| "first_ok (JNum n) h = (h = 45 \<or> cp_digit h)"
| "first_ok (JStr s) h = (h = 34)"
| "first_ok (JArr vs) h = (h = 91)"
| "first_ok (JObj m) h = (h = 123)"

lemma show_int_first: "\<exists>h t. show_int i = h # t \<and> (h = 45 \<or> cp_digit h)"
  using cps_digits[of "nat i"] show_nat_not_Nil[of "nat i"]
  by (cases "show_nat (nat i)") (auto simp: show_int_def)

lemma write_value_first:
  assumes "write_value Canonical v = Inr t" "numbers_ok v"
  shows "\<exists>h u. t = h # u \<and> first_ok v h"
proof (cases v)
  case (JNum n)
  then show ?thesis using assms write_number_canonical[of n t] show_int_first by auto
qed (use assms in \<open>auto simp: map_ok_Ok_iff write_string_def\<close>)

lemma first_ok_not_close: "first_ok v h \<Longrightarrow> h \<noteq> 93 \<and> h \<noteq> 125"
  by (cases v) (auto simp: cp_digit_def)

text \<open>Two lists of texts, each text telling itself apart from what may follow, joined by commas and
  closed by one bracket.\<close>

definition told_apart :: "('a \<Rightarrow> codepoints \<Rightarrow> bool) \<Rightarrow> 'a \<Rightarrow> bool" where
  "told_apart W x =
     (\<forall>y t u r r'. W x t \<longrightarrow> W y u \<longrightarrow> delim r \<longrightarrow> delim r' \<longrightarrow> t @ r = u @ r' \<longrightarrow> x = y \<and> r = r')"

lemma join_apart:
  assumes "\<And>x. x \<in> set xs \<Longrightarrow> told_apart W x"
    and "\<And>x t. W x t \<Longrightarrow> \<exists>h u. t = h # u \<and> h \<noteq> close"
    and "close \<in> {93, 125}"
    and "list_all2 W xs ts" "list_all2 W ys us"
    and "join_sep [44] ts @ close # r = join_sep [44] us @ close # r'"
  shows "xs = ys \<and> r = r'"
  using assms(1,4-6)
proof (induction xs arbitrary: ts ys us)
  case Nil
  then have ts: "ts = []" by simp
  show ?case
  proof (cases us)
    case (Cons u us')
    then obtain y ys' where y: "W y u" using Nil.prems(3) by (auto simp: list_all2_Cons2)
    obtain h v where "u = h # v" "h \<noteq> close" using assms(2)[OF y] by blast
    then have "hd (join_sep [44] us @ close # r') \<noteq> close" using Cons by (cases us') auto
    then show ?thesis using Nil.prems(4) ts by (metis append_Nil join_sep.simps(1) list.sel(1))
  qed (use Nil ts in auto)
next
  case (Cons x xs)
  from Cons.prems(2) obtain t ts' where ts: "ts = t # ts'" "W x t" "list_all2 W xs ts'" by (auto simp: list_all2_Cons1)
  have rest: "\<exists>q. join_sep [44] (a # as) @ close # z = a @ q \<and> delim q
      \<and> q = (if as = [] then close # z else 44 # join_sep [44] as @ close # z)" for a as z
    using assms(3) by (cases as) (auto simp: delim_def)
  show ?case
  proof (cases us)
    case Nil
    obtain h v where "t = h # v" "h \<noteq> close" using assms(2)[OF ts(2)] by blast
    then have "hd (join_sep [44] ts @ close # r) \<noteq> close" using ts(1) by (cases ts') auto
    then show ?thesis using Cons.prems(4) Nil by (metis append_Nil join_sep.simps(1) list.sel(1))
  next
    case us: (Cons u us')
    from Cons.prems(3) us obtain y ys' where y: "ys = y # ys'" "W y u" "list_all2 W ys' us'" by (auto simp: list_all2_Cons2)
    define q where "q = (if ts' = [] then close # r else 44 # join_sep [44] ts' @ close # r)"
    define q' where "q' = (if us' = [] then close # r' else 44 # join_sep [44] us' @ close # r')"
    have eq: "t @ q = u @ q'" and d: "delim q" "delim q'"
      using rest[of t ts' r] rest[of u us' r'] Cons.prems(4) by (auto simp: ts us q_def q'_def)
    have "told_apart W x" using Cons.prems(1) by simp
    then have xy: "x = y" "q = q'" using ts(2) y(2) d eq unfolding told_apart_def by blast+
    then have "join_sep [44] ts' @ close # r = join_sep [44] us' @ close # r'"
      using assms(3) by (auto simp: q_def q'_def split: if_splits)
    then have "xs = ys' \<and> r = r'" using Cons.IH[of ts' ys' us'] Cons.prems(1) ts(3) y(3) by simp
    then show ?thesis using xy y(1) by simp
  qed
qed

lemma try_map_list_all2: "(try_map f xs = Inr ys) = list_all2 (\<lambda>x y. f x = Inr y) xs ys"
  by (induction xs arbitrary: ys) (auto simp: bind_Ok_iff list_all2_Cons1)

definition canonical_text :: "json \<Rightarrow> codepoints \<Rightarrow> bool" where
  "canonical_text v t = (write_value Canonical v = Inr t \<and> json_ok v \<and> numbers_ok v)"

definition entry_text :: "string \<times> json \<Rightarrow> codepoints \<Rightarrow> bool" where
  "entry_text kv t = (\<exists>u. canonical_text (snd kv) u \<and> t = write_string (fst kv) @ [58] @ u)"

lemma canonical_text_first: "canonical_text v t \<Longrightarrow> \<exists>h u. t = h # u \<and> first_ok v h"
  using write_value_first by (simp add: canonical_text_def)

lemma canonical_JArr:
  assumes "canonical_text (JArr vs) t"
  shows "\<exists>ts. list_all2 canonical_text vs ts \<and> t = 91 # join_sep [44] ts @ [93]"
proof -
  have ok: "\<forall>v \<in> set vs. json_ok v \<and> numbers_ok v" using assms by (auto simp: canonical_text_def list_all_iff)
  obtain ts where t: "t = 91 # join_sep [44] ts @ [93]" and ts: "list_all2 (\<lambda>v t. write_value Canonical v = Inr t) vs ts"
    using assms by (auto simp: canonical_text_def map_ok_Ok_iff try_map_list_all2)
  have "list_all2 canonical_text vs ts"
    using ts by (rule list.rel_mono_strong) (use ok in \<open>simp add: canonical_text_def\<close>)
  with t show ?thesis by blast
qed

lemma sorted_entries: "bmap_ok m \<Longrightarrow> sort_key fst m = m"
  using bmap_ok_sorted_distinct by (intro sort_key_id_if_sorted) blast

lemma canonical_JObj:
  assumes "canonical_text (JObj m) t"
  shows "\<exists>ts. list_all2 entry_text m ts \<and> t = 123 # join_sep [44] ts @ [125]"
proof -
  have ok: "bmap_ok m" "\<forall>(k, v) \<in> set m. json_ok v \<and> numbers_ok v"
    using assms by (auto simp: canonical_text_def list_all_iff)
  obtain ts where t: "t = 123 # join_sep [44] ts @ [125]"
    and ts: "list_all2 (\<lambda>kv t. (case kv of (k, v) \<Rightarrow> map_ok (\<lambda>t. write_string k @ cps '':'' @ t) (write_value Canonical v)) = Inr t) m ts"
    using assms by (auto simp: canonical_text_def map_ok_Ok_iff try_map_list_all2 sorted_entries[OF ok(1)])
  have "list_all2 entry_text m ts"
    using ts by (rule list.rel_mono_strong)
      (use ok(2) in \<open>auto simp: entry_text_def canonical_text_def map_ok_Ok_iff\<close>)
  with t show ?thesis by blast
qed

lemma canonical_same_kind:
  assumes "canonical_text x t" "canonical_text y u" "t @ r = u @ r'"
  obtains h where "first_ok x h" "first_ok y h"
  using canonical_text_first[OF assms(1)] canonical_text_first[OF assms(2)] assms(3) by auto

lemma entry_text_first: "entry_text kv t \<Longrightarrow> \<exists>h u. t = h # u \<and> h \<noteq> 125"
  by (auto simp: entry_text_def write_string_def)

lemma entry_apart:
  assumes "told_apart canonical_text v"
  shows "told_apart entry_text (k, v)"
  unfolding told_apart_def
proof (intro allI impI)
  fix kv' t u r r'
  assume a: "entry_text (k, v) t" "entry_text kv' u" "delim r" "delim r'" "t @ r = u @ r'"
  obtain k' v' where kv': "kv' = (k', v')" by (cases kv')
  from a kv' obtain tv uv where t: "canonical_text v tv" "t = write_string k @ 58 # tv"
    and u: "canonical_text v' uv" "u = write_string k' @ 58 # uv" by (auto simp: entry_text_def)
  have "write_string k @ 58 # tv @ r = write_string k' @ 58 # uv @ r'" using a(5) t(2) u(2) by simp
  from write_string_apart[OF this] have "k = k'" "tv @ r = uv @ r'" by simp_all
  moreover from this(2) have "v = v' \<and> r = r'" using assms t(1) u(1) a(3,4) unfolding told_apart_def by blast
  ultimately show "(k, v) = kv' \<and> r = r'" using kv' by simp
qed

lemma not_close: "canonical_text x t \<Longrightarrow> \<exists>h u. t = h # u \<and> h \<noteq> 93"
  using canonical_text_first first_ok_not_close by blast

lemma canonical_apartI:
  assumes "\<And>y h t u r r'. \<lbrakk>canonical_text x t; canonical_text y u; delim r; delim r'; t @ r = u @ r'; first_ok x h; first_ok y h\<rbrakk>
      \<Longrightarrow> x = y \<and> r = r'"
  shows "told_apart canonical_text x"
  unfolding told_apart_def using assms canonical_same_kind by metis

lemma apart_JNum: "told_apart canonical_text (JNum n)"
proof (rule canonical_apartI)
  fix y h t u r r'
  assume a: "canonical_text (JNum n) t" "canonical_text y u" "delim r" "delim r'" "t @ r = u @ r'"
    and "first_ok (JNum n) h" "first_ok y h"
  then obtain n' where y: "y = JNum n'" by (cases y) (auto simp: cp_digit_def split: if_splits)
  from a y obtain i j where ij: "number_int n = Some i" "t = show_int i" "number_int n' = Some j" "u = show_int j"
    and ok: "numbers_ok (JNum n)" "numbers_ok (JNum n')"
    using write_number_canonical[of n t] write_number_canonical[of n' u] by (auto simp: canonical_text_def)
  then have "i = j \<and> r = r'" using show_int_apart a(3-5) by blast
  then show "JNum n = y \<and> r = r'" using number_int_inj[OF ok] ij y by simp
qed

lemma apart_JArr:
  assumes "\<And>v. v \<in> set vs \<Longrightarrow> told_apart canonical_text v"
  shows "told_apart canonical_text (JArr vs)"
proof (rule canonical_apartI)
  fix y h t u r r'
  assume a: "canonical_text (JArr vs) t" "canonical_text y u" "t @ r = u @ r'" and "first_ok (JArr vs) h" "first_ok y h"
  then obtain ws where y: "y = JArr ws" by (cases y) (auto simp: cp_digit_def split: if_splits)
  obtain ts us where t: "list_all2 canonical_text vs ts" "t = 91 # join_sep [44] ts @ [93]"
    and u: "list_all2 canonical_text ws us" "u = 91 # join_sep [44] us @ [93]"
    using canonical_JArr a(1,2) y by metis
  have "join_sep [44] ts @ 93 # r = join_sep [44] us @ 93 # r'" using a(3) t(2) u(2) by simp
  from join_apart[OF assms not_close _ t(1) u(1) this] show "JArr vs = y \<and> r = r'" using y by simp
qed

lemma apart_JObj:
  assumes "\<And>kv. kv \<in> set m \<Longrightarrow> told_apart canonical_text (snd kv)"
  shows "told_apart canonical_text (JObj m)"
proof (rule canonical_apartI)
  fix y h t u r r'
  assume a: "canonical_text (JObj m) t" "canonical_text y u" "t @ r = u @ r'" and "first_ok (JObj m) h" "first_ok y h"
  then obtain m' where y: "y = JObj m'" by (cases y) (auto simp: cp_digit_def split: if_splits)
  obtain ts us where t: "list_all2 entry_text m ts" "t = 123 # join_sep [44] ts @ [125]"
    and u: "list_all2 entry_text m' us" "u = 123 # join_sep [44] us @ [125]"
    using canonical_JObj a(1,2) y by metis
  have "join_sep [44] ts @ 125 # r = join_sep [44] us @ 125 # r'" using a(3) t(2) u(2) by simp
  moreover have "told_apart entry_text kv" if "kv \<in> set m" for kv
    using assms[OF that] entry_apart[of "snd kv" "fst kv"] by (cases kv) auto
  ultimately have "m = m' \<and> r = r'" by (intro join_apart[OF _ entry_text_first _ t(1) u(1)]) auto
  then show "JObj m = y \<and> r = r'" using y by simp
qed

lemma apart_atom:
  assumes "x = JNull \<or> x = JBool b \<or> x = JStr s"
  shows "told_apart canonical_text x"
proof (rule canonical_apartI)
  fix y h t u r r'
  assume a: "canonical_text x t" "canonical_text y u" "t @ r = u @ r'" "first_ok x h" "first_ok y h"
  then have "y = x \<or> (\<exists>s s'. x = JStr s \<and> y = JStr s')"
    using assms by (cases y) (auto simp: cp_digit_def split: if_splits)
  then show "x = y \<and> r = r'"
  proof (elim disjE exE conjE)
    assume "y = x"
    then show ?thesis using a(1-3) by (simp add: canonical_text_def)
  next
    fix s s'
    assume "x = JStr s" "y = JStr s'"
    then show ?thesis using a(1-3) write_string_apart[of s r s' r'] by (simp add: canonical_text_def)
  qed
qed

lemma canonical_apart: "told_apart canonical_text v"
proof (induction v)
  case (JObj m)
  then show ?case by (intro apart_JObj) (auto intro: snds.intros)
qed (auto intro!: apart_JNum apart_JArr intro: apart_atom)

section \<open>When there is a canonical text\<close>

fun integral :: "json \<Rightarrow> bool" where
  "integral (JNum (Float f)) = False"
| "integral (JArr vs) = list_all integral vs"
| "integral (JObj m) = list_all (\<lambda>(k, v). integral v) m"
| "integral v = True"

lemma try_map_is_ok: "is_ok (try_map f xs) = list_all (\<lambda>x. is_ok (f x)) xs"
  by (induction xs) (auto simp: is_ok_iff bind_Ok_iff)

lemma is_ok_map_ok [simp]: "is_ok (map_ok f r) = is_ok r"
  by (cases r) auto

lemma list_all_sort_key: "list_all P (sort_key f xs) = list_all P xs"
  by (simp add: list_all_iff)

lemma canonical_iff_integral: "is_ok (write_value Canonical v) = integral v"
proof (induction v)
  case (JNum n)
  then show ?case by (cases n) (auto simp: write_number_def split: option.splits)
next
  case (JArr vs)
  then show ?case by (simp add: try_map_is_ok list_all_iff)
next
  case (JObj m)
  then have "is_ok (write_value Canonical (snd kv)) = integral (snd kv)" if "kv \<in> set m" for kv
    using that by (cases kv) (auto intro: snds.intros)
  then show ?case by (simp add: try_map_is_ok list_all_sort_key) (auto simp: list_all_iff)
qed simp_all

lemma default_always_written: "is_ok (write_value PythonDefault v)"
proof (induction v)
  case (JNum n)
  then show ?case by (cases n) (auto simp: write_number_def split: option.splits)
next
  case (JObj m)
  then have "is_ok (write_value PythonDefault (snd kv))" if "kv \<in> set m" for kv
    using that by (cases kv) (auto intro: snds.intros)
  then show ?case by (simp add: try_map_is_ok list_all_sort_key) (auto simp: list_all_iff)
qed (simp_all add: try_map_is_ok list_all_iff)

lemma canonical_text_unique:
  assumes "to_canonical_string v = Inr t" "to_canonical_string v' = Inr t"
    and "json_ok v" "json_ok v'" "numbers_ok v" "numbers_ok v'"
  shows "v = v'"
proof -
  have "canonical_text v t" "canonical_text v' t" using assms by (simp_all add: canonical_text_def to_canonical_string_def)
  then show ?thesis using canonical_apart[of v] unfolding told_apart_def delim_def by blast
qed

section \<open>Properties\<close>

text \<open>The canonical text identifies the value: a value without fractional numbers always has one, any
  other is refused, and no other well-formed value has the same text. So a digest of the text is a
  digest of the value.\<close>

theorem canonical_identifies:
  assumes "json_ok v" "numbers_ok v" "json_ok v'" "numbers_ok v'"
  shows "(if integral v then \<exists>t. to_canonical_string v = Ok t \<and> (to_canonical_string v' = Ok t \<longleftrightarrow> v' = v)
          else to_canonical_string v = Err NonInteger)"
proof (cases "to_canonical_string v")
  case (Inl e)
  then show ?thesis using canonical_iff_integral[of v] by (cases e) (simp add: to_canonical_string_def)
next
  case (Inr t)
  then have "integral v" using canonical_iff_integral[of v] by (simp add: to_canonical_string_def)
  then show ?thesis using Inr canonical_text_unique[OF Inr _ assms(1,3,2,4)] by auto
qed

theorem canonical_identifies_witness:
  "json_ok (JObj [(''a'', JNum (NegInt (- 3)))]) \<and> numbers_ok (JObj [(''a'', JNum (NegInt (- 3)))])
   \<and> (\<exists>t. to_canonical_string (JObj [(''a'', JNum (NegInt (- 3)))]) = Ok t \<and> to_canonical_string (JArr []) \<noteq> Ok t)"
proof -
  have v: "json_ok (JObj [(''a'', JNum (NegInt (- 3)))])" "numbers_ok (JObj [(''a'', JNum (NegInt (- 3)))])" by simp_all
  have e: "json_ok (JArr [])" "numbers_ok (JArr [])" by simp_all
  show ?thesis using canonical_identifies[OF v e] v by auto
qed

end
