(* ===== verification/Prompt.thy ===== *)
theory Prompt
  imports Pyfmt
begin

text \<open>
  Untrusted text inside an LLM prompt's tags (\<open>core/src/prompt.rs\<close>), over code points. No angle bracket
  or look-alike survives, and the text can be read back from its inert form.
\<close>

section \<open>Inert text\<close>

definition ANGLES :: "nat list" where
  "ANGLES = [60, 62, 0xFF1C, 0xFF1E, 0xFE64, 0xFE65, 0x2039, 0x203A, 0x3008, 0x3009, 0x27E8, 0x27E9, 0x2329,
     0x232A, 0x276C, 0x276D, 0x29FC, 0x29FD, 0x02C2, 0x02C3, 0x1438, 0x1433]"

definition angle :: "nat \<Rightarrow> bool" where
  "angle c = (c \<in> set ANGLES)"

text \<open>\<open>{:X}\<close>: as many upper-case hexadecimal digits as the number has.\<close>

definition hex_upper_digit :: "nat \<Rightarrow> nat" where
  "hex_upper_digit d = (if d < 10 then 48 + d else 55 + d)"

fun hex_upper :: "nat \<Rightarrow> codepoints" where
  "hex_upper n = (if n < 16 then [hex_upper_digit n] else hex_upper (n div 16) @ [hex_upper_digit (n mod 16)])"

declare hex_upper.simps [simp del]

definition inert_char :: "nat \<Rightarrow> codepoints" where
  "inert_char c =
     (if c = 38 then cps ''&amp;''
      else if c = 60 then cps ''&lt;''
      else if c = 62 then cps ''&gt;''
      else if angle c then cps ''&#x'' @ hex_upper c @ cps '';''
      else [c])"

definition inert_text :: "codepoints \<Rightarrow> codepoints" where
  "inert_text plain = concat (map inert_char plain)"

definition inert_json :: "codepoints \<Rightarrow> codepoints" where
  "inert_json json_text = concat (map (\<lambda>c. if angle c then [92, 117] @ hex_fixed 4 c else [c]) json_text)"

section \<open>Reading it back\<close>

definition hex_upper_val :: "nat \<Rightarrow> nat option" where
  "hex_upper_val d = (if 48 \<le> d \<and> d \<le> 57 then Some (d - 48) else if 65 \<le> d \<and> d \<le> 70 then Some (d - 55) else None)"

text \<open>The entities of a text: \<open>None\<close> for an ampersand that starts none.\<close>

fun read_reference :: "nat \<Rightarrow> codepoints \<Rightarrow> (nat \<times> codepoints) option" where
  "read_reference acc [] = None"
| "read_reference acc (d # s) =
     (if d = 59 then Some (acc, s)
      else case hex_upper_val d of None \<Rightarrow> None | Some v \<Rightarrow> read_reference (16 * acc + v) s)"

fun read_entity :: "codepoints \<Rightarrow> (nat \<times> codepoints) option" where
  "read_entity [] = None"
| "read_entity (c # s) =
     (if c \<noteq> 38 then Some (c, s)
      else if take 4 s = cps ''amp;'' then Some (38, drop 4 s)
      else if take 3 s = cps ''lt;'' then Some (60, drop 3 s)
      else if take 3 s = cps ''gt;'' then Some (62, drop 3 s)
      else if take 2 s = cps ''#x'' then read_reference 0 (drop 2 s)
      else None)"

text \<open>At most one character is read for each code point of the text.\<close>

fun read_text :: "nat \<Rightarrow> codepoints \<Rightarrow> codepoints option" where
  "read_text n [] = Some []"
| "read_text 0 (c # s) = None"
| "read_text (Suc n) (c # s) =
     (case read_entity (c # s) of
        None \<Rightarrow> None
      | Some (d, rest) \<Rightarrow> map_option ((#) d) (read_text n rest))"

lemma hex_upper_val_digit: "d < 16 \<Longrightarrow> hex_upper_val (hex_upper_digit d) = Some d \<and> hex_upper_digit d \<noteq> 59"
  by (auto simp: hex_upper_val_def hex_upper_digit_def)

lemma read_reference_hex: "read_reference acc (hex_upper n @ r) = read_reference (16 ^ length (hex_upper n) * acc + n) r"
proof (induction n arbitrary: acc r rule: hex_upper.induct)
  case (1 n)
  show ?case
  proof (cases "n < 16")
    case True
    then show ?thesis by (simp add: hex_upper.simps[of n] hex_upper_val_digit)
  next
    case False
    have "16 * (n div 16) + n mod 16 = n" by simp
    then show ?thesis using False "1.IH"[OF False, of acc "hex_upper_digit (n mod 16) # r"] hex_upper_val_digit[of "n mod 16"]
      by (simp add: hex_upper.simps[of n] algebra_simps)
  qed
qed

lemma read_entity_inert: "read_entity (inert_char c @ r) = Some (c, r)"
  using read_reference_hex[of 0 c "59 # r"] by (simp add: inert_char_def cps_def)

lemma inert_char_not_Nil: "\<exists>h t. inert_char c = h # t"
  by (simp add: inert_char_def cps_def)

lemma read_inert_text: "length plain \<le> n \<Longrightarrow> read_text n (inert_text plain) = Some plain"
proof (induction plain arbitrary: n)
  case (Cons c plain)
  then obtain m where n: "n = Suc m" "length plain \<le> m" by (cases n) auto
  obtain h t where h: "inert_char c = h # t" using inert_char_not_Nil by blast
  have "read_entity (inert_char c @ inert_text plain) = Some (c, inert_text plain)" by (rule read_entity_inert)
  then show ?case using Cons.IH[OF n(2)] by (simp add: inert_text_def h n(1))
qed (simp add: inert_text_def)

lemma hex_upper_ascii: "c \<in> set (hex_upper n) \<Longrightarrow> 48 \<le> c \<and> c \<le> 57 \<or> 65 \<le> c \<and> c \<le> 70"
proof (induction n rule: hex_upper.induct)
  case (1 n)
  then show ?case
    using mod_less_divisor[of 16 n]
    by (cases "n < 16") (auto simp: hex_upper.simps[of n] hex_upper_digit_def split: if_splits)
qed

lemma hex_fixed_ascii: "c \<in> set (hex_fixed w n) \<Longrightarrow> 48 \<le> c \<and> c \<le> 57 \<or> 97 \<le> c \<and> c \<le> 102"
proof (induction w arbitrary: n)
  case (Suc w)
  then show ?case using mod_less_divisor[of 16 n] by (auto simp: hex_digit_def split: if_splits)
qed simp

lemma angle_cases: "angle c \<Longrightarrow> c = 60 \<or> c = 62 \<or> 128 \<le> c"
  by (auto simp: angle_def ANGLES_def)

lemma inert_char_chars:
  assumes "x \<in> set (inert_char c)"
  shows "x = c \<and> \<not> angle c \<or> x < 128 \<and> x \<noteq> 60 \<and> x \<noteq> 62"
proof -
  have texts: "cps ''&amp;'' = [38, 97, 109, 112, 59]" "cps ''&lt;'' = [38, 108, 116, 59]" "cps ''&gt;'' = [38, 103, 116, 59]"
    "cps ''&#x'' = [38, 35, 120]" "cps '';'' = [59]" by (simp_all add: cps_def)
  consider "c = 38" | "c = 60" | "c = 62" | "c \<notin> {38, 60, 62}" "angle c" | "c \<notin> {38, 60, 62}" "\<not> angle c" by blast
  then show ?thesis
  proof cases
    case 4
    then show ?thesis using assms hex_upper_ascii[of x c] by (auto simp: inert_char_def texts)
  qed (use assms in \<open>auto simp: inert_char_def texts\<close>)
qed

lemma inert_char_no_angle: "x \<in> set (inert_char c) \<Longrightarrow> \<not> angle x"
  using inert_char_chars[of x c] angle_cases[of x] by auto

lemma hex_fixed_no_angle: "list_all (\<lambda>c. \<not> angle c) (hex_fixed w n)"
proof -
  have "\<not> angle x" if "x \<in> set (hex_fixed w n)" for x
    using hex_fixed_ascii[OF that] angle_cases[of x] by linarith
  then show ?thesis unfolding list_all_iff by blast
qed

section \<open>Properties\<close>

text \<open>Nothing an agent writes can open or close a tag of the prompt: in the inert form of any text,
  plain or JSON, no angle bracket and none of the twenty look-alikes is left, and the plain form
  reads back as exactly the text, so an entity the agent wrote itself stays text.\<close>

theorem inert_text_is_inert:
  "list_all (\<lambda>c. \<not> angle c) (inert_text plain) \<and> list_all (\<lambda>c. \<not> angle c) (inert_json json_text)
   \<and> read_text (length plain) (inert_text plain) = Some plain"
proof -
  have "list_all (\<lambda>c. \<not> angle c) (if angle c then [92, 117] @ hex_fixed 4 c else [c])" for c
    using hex_fixed_no_angle[of 4 c] by (simp add: angle_def ANGLES_def list_all_append)
  then have "list_all (\<lambda>c. \<not> angle c) (inert_json json_text)"
    unfolding inert_json_def list_all_concat_map by (simp add: list_all_iff[of _ json_text])
  moreover have "list_all (\<lambda>c. \<not> angle c) (inert_char c)" for c
    using inert_char_no_angle by (simp add: list_all_iff)
  then have "list_all (\<lambda>c. \<not> angle c) (inert_text plain)"
    unfolding inert_text_def list_all_concat_map by (simp add: list_all_iff[of _ plain])
  ultimately show ?thesis using read_inert_text by blast
qed

end
