(* ===== verification/Totp_Code.thy ===== *)
theory Totp_Code
  imports Canonical_Json
begin

unbundle bit_operations_syntax

text \<open>
  Codes and digests of the cryptography crate (\<open>crypto/src/totp.rs\<close>, \<open>crypto/src/digest.rs\<close>): the six
  digits of a step, the window a code is looked for in, the base32 text of a secret, the enrolment
  URI, and the digest of a JSON value. HMAC-SHA1 and SHA-256 are the \<open>ring\<close> crate and are parameters;
  a \<open>Secret\<close> is its content, and comparing in constant time is comparing.
\<close>

section \<open>Digests\<close>

text \<open>\<open>sha256_hex\<close> is the parameter \<open>sha\<close>. The canonical text is ASCII, so its bytes are its characters.\<close>

definition digest :: "(codepoints \<Rightarrow> string) \<Rightarrow> json \<Rightarrow> (canonical_error, string) result" where
  "digest sha value = map_ok sha (to_canonical_string value)"

section \<open>Secrets in base32\<close>

definition B32 :: string where
  "B32 = ''ABCDEFGHIJKLMNOPQRSTUVWXYZ234567''"

definition sym_of :: "u32 \<Rightarrow> char" where
  "sym_of idx = (if unat idx < length B32 then B32 ! unat idx else CHR ''A'')"

text \<open>The inner loop: symbols are taken off while five bits are there.\<close>

function take_symbols :: "u32 \<Rightarrow> u32 \<Rightarrow> string \<times> u32" where
  "take_symbols buffer bits =
     (if bits \<ge> 5 then
        let bits' = sat_sub bits 5; (out, left) = take_symbols buffer bits'
        in (sym_of (drop_bit (unat bits') buffer AND 0x1f) # out, left)
      else ([], bits))"
  by auto
termination
  by (relation "measure (\<lambda>(buffer, bits). unat bits)") (auto simp: unat_sat_sub word_le_nat_alt)

fun encode_loop :: "u32 \<Rightarrow> u32 \<Rightarrow> byte list \<Rightarrow> string" where
  "encode_loop buffer bits [] =
     (if bits > 0 then [sym_of (push_bit (unat (sat_sub 5 bits)) buffer AND 0x1f)] else [])"
| "encode_loop buffer bits (b # bs) =
     (let buffer = push_bit 8 buffer OR ucast b; bits = sat_add bits 8;
          (out, bits) = take_symbols buffer bits
      in out @ encode_loop (buffer AND (push_bit (unat bits) 1 - 1)) bits bs)"

definition base32_encode :: "byte list \<Rightarrow> string" where
  "base32_encode data = encode_loop 0 0 data"

definition to_ascii_uppercase :: "char \<Rightarrow> char" where
  "to_ascii_uppercase c = (if is_ascii_lowercase c then char_of (of_char c - 32 :: nat) else c)"

definition symbol_value :: "char \<Rightarrow> byte option" where
  "symbol_value c =
     (let c = to_ascii_uppercase c in
      if is_ascii_uppercase c then Some (of_char c - of_char CHR ''A'')
      else if CHR ''2'' \<le> c \<and> c \<le> CHR ''7'' then Some (of_char c - of_char CHR ''2'' + 26)
      else None)"

fun decode_loop :: "u32 \<Rightarrow> u32 \<Rightarrow> string \<Rightarrow> byte list option" where
  "decode_loop buffer bits [] = Some []"
| "decode_loop buffer bits (c # cs) =
     (case symbol_value c of
        None \<Rightarrow> None
      | Some v \<Rightarrow>
          (let buffer = (push_bit 5 buffer OR ucast v) AND 0xffff; bits = sat_add bits 5 in
           if bits \<ge> 8 then
             let bits = sat_sub bits 8
             in map_option (Cons (ucast (drop_bit (unat bits) buffer AND 0xff))) (decode_loop buffer bits cs)
           else decode_loop buffer bits cs))"

definition base32_decode :: "string \<Rightarrow> byte list option" where
  "base32_decode text =
     (let body = rev (dropWhile (\<lambda>c. c = CHR ''='') (rev text)) in
      if utf8_len body mod 8 \<notin> {0, 2, 4, 5, 7} then None
      else if utf8_len text mod 8 \<noteq> 0 \<and> utf8_len body \<noteq> utf8_len text then None
      else decode_loop 0 0 body)"

datatype totp_secret_error = NotBase32 | TooShort nat

type_synonym totp_secret = "byte list"

definition MIN_SECRET_BYTES :: nat where "MIN_SECRET_BYTES = 16"

definition from_bytes :: "byte list \<Rightarrow> (totp_secret_error, totp_secret) result" where
  "from_bytes raw = (if length raw < MIN_SECRET_BYTES then Err (TooShort (length raw)) else Ok raw)"

definition from_base32 :: "string \<Rightarrow> (totp_secret_error, totp_secret) result" where
  "from_base32 text = bind (ok_or (base32_decode (trim text)) NotBase32) from_bytes"

definition to_base32 :: "totp_secret \<Rightarrow> string" where
  "to_base32 secret = base32_encode secret"

section \<open>Codes\<close>

definition CODE_STEP_SECS :: u64 where "CODE_STEP_SECS = 30"
definition DIGITS :: nat where "DIGITS = 6"
definition CODE_WINDOW_STEPS :: u64 where "CODE_WINDOW_STEPS = 1"

definition to_be_bytes :: "u64 \<Rightarrow> byte list" where
  "to_be_bytes n = map (\<lambda>i. ucast (drop_bit (8 * i) n)) (rev [0..<8])"

definition from_be_bytes :: "byte list \<Rightarrow> u32" where
  "from_be_bytes bs = foldl (\<lambda>n b. push_bit 8 n OR ucast b) 0 bs"

definition pad6 :: "string \<Rightarrow> string" where
  "pad6 s = replicate (6 - length s) CHR ''0'' @ s"

definition truncate :: "byte list \<Rightarrow> string" where
  "truncate mac =
     (let offset = (if mac = [] then 0 else unat (last mac AND 0x0f));
          w = (if offset + 4 \<le> length mac then take 4 (drop offset mac) else [0, 0, 0, 0]);
          number = from_be_bytes w AND 0x7fffffff
      in pad6 (show_nat (unat number mod 1000000)))"

type_synonym hmac = "byte list \<Rightarrow> byte list \<Rightarrow> byte list"

definition code_at :: "hmac \<Rightarrow> totp_secret \<Rightarrow> u64 \<Rightarrow> string" where
  "code_at hmac secret step = truncate (hmac secret (to_be_bytes step))"

datatype totp_error = Wrong_code | Already_used

text \<open>\<open>for step in first..=last\<close>.\<close>

definition steps_between :: "u64 \<Rightarrow> u64 \<Rightarrow> u64 list" where
  "steps_between first final = map of_nat [unat first..<Suc (unat final)]"

definition verify :: "hmac \<Rightarrow> totp_secret \<Rightarrow> string \<Rightarrow> u64 \<Rightarrow> u64 option \<Rightarrow> (totp_error, u64) result" where
  "verify hmac secret code now_unix_secs last_step =
     (let digits = filter is_ascii_digit code;
          current = now_unix_secs div CODE_STEP_SECS;
          first = sat_sub current CODE_WINDOW_STEPS;
          final = sat_add current CODE_WINDOW_STEPS;
          matched = fold (\<lambda>step matched. if length digits = DIGITS \<and> code_at hmac secret step = digits
                                         then Some step else matched) (steps_between first final) None
      in bind (ok_or matched Wrong_code) (\<lambda>step.
         if is_some_and (\<lambda>l. step \<le> l) last_step then Err Already_used else Ok step))"

section \<open>The enrolment URI\<close>

definition utf8_bytes :: "string \<Rightarrow> byte list" where
  "utf8_bytes s = concat (map (\<lambda>c. let n = of_char c :: nat in
     if n < 128 then [of_nat n] else [of_nat (192 + n div 64), of_nat (128 + n mod 64)]) s)"

definition hex_upper_char :: "nat \<Rightarrow> char" where
  "hex_upper_char n = (if n < 10 then char_of (48 + n) else char_of (55 + n))"

definition percent_byte :: "byte \<Rightarrow> string" where
  "percent_byte b =
     (let c = char_of (unat b) in
      if is_ascii_alphanumeric c \<or> c \<in> set ''_.-~/'' then [c]
      else [CHR ''%'', hex_upper_char (unat b div 16), hex_upper_char (unat b mod 16)])"

definition percent_encode :: "string \<Rightarrow> string" where
  "percent_encode s = concat (map percent_byte (utf8_bytes s))"

definition otpauth_uri :: "totp_secret \<Rightarrow> string \<Rightarrow> string \<Rightarrow> string" where
  "otpauth_uri secret host name =
     (let label = percent_encode (''agent-auth:'' @ host @ '' '' @ name)
      in ''otpauth://totp/'' @ label @ ''?secret='' @ to_base32 secret @ ''&issuer=agent-auth&digits=''
         @ show_nat DIGITS @ ''&period='' @ show_nat (unat CODE_STEP_SECS))"

section \<open>Bits in order\<close>

text \<open>The low \<open>k\<close> bits of a word, the highest first.\<close>

definition msb_bits :: "nat \<Rightarrow> 'w::len word \<Rightarrow> bool list" where
  "msb_bits k w = map (bit w) (rev [0..<k])"

lemma length_msb_bits [simp]: "length (msb_bits k w) = k"
  by (simp add: msb_bits_def)

lemma msb_bits_add: "msb_bits (n + m) w = msb_bits n (drop_bit m w) @ msb_bits m w"
proof -
  have "rev [0..<n + m] = map (\<lambda>i. i + m) (rev [0..<n]) @ rev [0..<m]"
    using upt_add_eq_append[of 0 m n] by (simp add: rev_map[symmetric] map_add_upt add.commute)
  then show ?thesis by (simp add: msb_bits_def bit_drop_bit_eq add.commute)
qed

lemma msb_bits_eqI: "(\<And>i. i < k \<Longrightarrow> bit v i = bit w i) \<Longrightarrow> msb_bits k v = msb_bits k w"
  by (simp add: msb_bits_def)

lemma msb_bits_inj: "msb_bits LENGTH('w) v = msb_bits LENGTH('w) w \<Longrightarrow> v = w" for v w :: "'w::len word"
  by (rule bit_word_eqI) (auto simp: msb_bits_def)

lemma msb_bits_push:
  fixes v w :: "'w::len word"
  assumes "n + m \<le> LENGTH('w)" "\<And>i. m \<le> i \<Longrightarrow> \<not> bit v i"
  shows "msb_bits (n + m) (push_bit m w OR v) = msb_bits n w @ msb_bits m v"
  using assms unfolding msb_bits_add
  by (intro arg_cong2[where f = append] msb_bits_eqI) (auto simp: bit_simps)

lemma msb_bits_zero: "msb_bits k 0 = replicate k False"
  by (rule nth_equalityI) (simp_all add: msb_bits_def)

lemma bit_small: "bit (v :: 8 word) i \<Longrightarrow> i < 8"
  using bit_imp_le_length[of v i] by simp

declare take_symbols.simps [simp del]

section \<open>Base32 round trip\<close>

definition symbol_bits :: "char \<Rightarrow> bool list" where
  "symbol_bits c = msb_bits 5 (the (symbol_value c))"

lemma symbol_value_sym:
  assumes "unat idx < 32"
  shows "symbol_value (sym_of idx) = Some (ucast idx)" "sym_of idx \<in> set B32"
proof -
  have "list_all (\<lambda>n. symbol_value (sym_of (of_nat n)) = Some (of_nat n) \<and> sym_of (of_nat n) \<in> set B32) [0..<32]"
    by code_simp
  with assms have "symbol_value (sym_of (of_nat (unat idx))) = Some (of_nat (unat idx)) \<and> sym_of (of_nat (unat idx)) \<in> set B32"
    unfolding list_all_iff by (metis atLeast0LessThan atLeastLessThan_upt lessThan_iff)
  then show "symbol_value (sym_of idx) = Some (ucast idx)" "sym_of idx \<in> set B32"
    by simp_all
qed

lemma symbol_bits_sym:
  "symbol_bits (sym_of (w AND 0x1f)) = msb_bits 5 w" "sym_of (w AND 0x1f) \<in> set B32"
proof -
  have m: "(0x1f :: u32) = mask 5" by (simp add: mask_eq_exp_minus_1)
  have lt: "unat (w AND 0x1f) < 32"
    unfolding m using take_bit_nat_less_exp[of 5 "unat w"] by (simp add: take_bit_eq_mask[symmetric] unsigned_take_bit_eq)
  show "symbol_bits (sym_of (w AND 0x1f)) = msb_bits 5 w"
    using symbol_value_sym(1)[OF lt] unfolding symbol_bits_def m
    by (intro msb_bits_eqI) (auto simp: bit_simps)
  show "sym_of (w AND 0x1f) \<in> set B32" by (rule symbol_value_sym(2)[OF lt])
qed

lemma take_symbols_bits:
  "take_symbols buffer bits = (out, left) \<Longrightarrow>
   concat (map symbol_bits out) @ msb_bits (unat left) buffer = msb_bits (unat bits) buffer
   \<and> unat left < 5 \<and> set out \<subseteq> set B32 \<and> left \<le> bits"
proof (induction buffer bits arbitrary: out left rule: take_symbols.induct)
  case (1 buffer bits)
  show ?case
  proof (cases "bits \<ge> 5")
    case True
    then have b: "unat bits = 5 + unat (sat_sub bits 5)" by (simp add: unat_sat_sub word_le_nat_alt)
    obtain out' where o: "take_symbols buffer (sat_sub bits 5) = (out', left)"
      "out = sym_of (drop_bit (unat (sat_sub bits 5)) buffer AND 0x1f) # out'"
      using "1.prems" True by (subst (asm) take_symbols.simps) (auto simp: Let_def split: prod.splits)
    then have ih: "concat (map symbol_bits out') @ msb_bits (unat left) buffer = msb_bits (unat (sat_sub bits 5)) buffer"
      "unat left < 5" "set out' \<subseteq> set B32" "left \<le> sat_sub bits 5"
      using "1.IH"[OF True refl] by auto
    have "left \<le> bits" using ih(4) True by (simp add: word_le_nat_alt unat_sat_sub)
    then show ?thesis unfolding b msb_bits_add ih(1)[symmetric] o(2) using ih(2,3) by (simp add: symbol_bits_sym)
  next
    case False
    then show ?thesis using "1.prems" by (subst (asm) take_symbols.simps) (auto simp: word_le_nat_alt)
  qed
qed

lemma encode_loop_bits:
  "unat bits < 5 \<Longrightarrow> \<exists>pad. concat (map symbol_bits (encode_loop buffer bits bs))
      = msb_bits (unat bits) buffer @ concat (map (msb_bits 8) bs) @ replicate pad False
    \<and> pad < 5 \<and> set (encode_loop buffer bits bs) \<subseteq> set B32"
proof (induction bs arbitrary: buffer bits)
  case Nil
  show ?case
  proof (cases "bits = 0")
    case False
    have p: "unat (sat_sub 5 bits) = 5 - unat bits" by (simp add: unat_sat_sub)
    have "msb_bits (unat bits + (5 - unat bits)) (push_bit (5 - unat bits) buffer OR 0)
        = msb_bits (unat bits) buffer @ msb_bits (5 - unat bits) (0 :: u32)"
      using Nil by (intro msb_bits_push) auto
    with Nil have "msb_bits 5 (push_bit (5 - unat bits) buffer) = msb_bits (unat bits) buffer @ replicate (5 - unat bits) False"
      by (simp add: msb_bits_zero)
    with False Nil show ?thesis
      by (intro exI[of _ "5 - unat bits"]) (auto simp: symbol_bits_sym p word_neq_0_conv unat_gt_0)
  qed (simp add: msb_bits_def)
next
  case (Cons b bs)
  let ?buffer = "push_bit 8 buffer OR ucast b"
  obtain out left where t: "take_symbols ?buffer (sat_add bits 8) = (out, left)" by fastforce
  have b: "unat (sat_add bits 8) = unat bits + 8" using Cons.prems by (simp add: unat_sat_add)
  have "msb_bits (unat bits + 8) ?buffer = msb_bits (unat bits) buffer @ msb_bits 8 (ucast b :: u32)"
    using Cons.prems by (intro msb_bits_push) (auto simp: bit_simps dest: bit_small)
  also have "msb_bits 8 (ucast b :: u32) = msb_bits 8 b" by (rule msb_bits_eqI) (auto simp: bit_simps)
  finally have t': "concat (map symbol_bits out) @ msb_bits (unat left) ?buffer = msb_bits (unat bits) buffer @ msb_bits 8 b"
    "unat left < 5" "set out \<subseteq> set B32"
    using take_symbols_bits[OF t] by (simp_all add: b)
  define kept where "kept = ?buffer AND (push_bit (unat left) 1 - 1)"
  have same: "msb_bits (unat left) kept = msb_bits (unat left) ?buffer"
    unfolding kept_def
    by (rule msb_bits_eqI) (use t'(2) in \<open>auto simp: bit_simps push_bit_of_1 mask_eq_exp_minus_1[symmetric]\<close>)
  obtain pad where "concat (map symbol_bits (encode_loop kept left bs))
      = msb_bits (unat left) kept @ concat (map (msb_bits 8) bs) @ replicate pad False"
    "pad < 5" "set (encode_loop kept left bs) \<subseteq> set B32"
    using Cons.IH[OF t'(2)] by blast
  with t' show ?case by (intro exI[of _ pad]) (simp add: t same Let_def flip: kept_def push_bit_of_1)
qed

lemma B32_values:
  assumes "c \<in> set B32"
  obtains v where "symbol_value c = Some v" "\<And>i. bit v i \<Longrightarrow> i < 5"
proof -
  have "list_all (\<lambda>c. is_some_and (\<lambda>v. take_bit 5 v = v) (symbol_value c)) B32" by code_simp
  with assms obtain v where v: "symbol_value c = Some v" "take_bit 5 v = v"
    by (cases "symbol_value c") (auto simp: list_all_iff)
  have "i < 5" if "bit v i" for i using that by (subst (asm) v(2)[symmetric]) (simp add: bit_simps)
  with v(1) show thesis by (rule that)
qed

lemma decode_loop_bits:
  "unat bits < 8 \<Longrightarrow> set cs \<subseteq> set B32 \<Longrightarrow> \<exists>out rest. decode_loop buffer bits cs = Some out
    \<and> concat (map (msb_bits 8) out) @ rest = msb_bits (unat bits) buffer @ concat (map symbol_bits cs)
    \<and> length rest < 8"
proof (induction cs arbitrary: buffer bits)
  case Nil
  then show ?case by (intro exI[of _ "[]"] exI[of _ "msb_bits (unat bits) buffer"]) simp
next
  case (Cons c cs)
  then obtain v where v: "symbol_value c = Some v" "\<And>i. bit v i \<Longrightarrow> i < 5"
    by (auto elim: B32_values)
  define buffer' where "buffer' = (push_bit 5 buffer OR ucast v) AND (0xffff :: u32)"
  have b: "unat (sat_add bits 5) = unat bits + 5" using Cons.prems by (simp add: unat_sat_add)
  have m: "(0xffff :: u32) = mask 16" by (simp add: mask_eq_exp_minus_1)
  have "msb_bits (unat bits + 5) buffer' = msb_bits (unat bits + 5) (push_bit 5 buffer OR ucast v)"
    unfolding buffer'_def m using Cons.prems by (intro msb_bits_eqI) (auto simp: bit_simps)
  also have "\<dots> = msb_bits (unat bits) buffer @ msb_bits 5 (ucast v :: u32)"
    using Cons.prems by (intro msb_bits_push) (auto simp: bit_simps dest: v(2))
  also have "msb_bits 5 (ucast v :: u32) = symbol_bits c"
    unfolding symbol_bits_def v option.sel by (rule msb_bits_eqI) (auto simp: bit_simps)
  finally have pushed: "msb_bits (unat bits + 5) buffer' = msb_bits (unat bits) buffer @ symbol_bits c" .
  show ?case
  proof (cases "sat_add bits 5 \<ge> 8")
    case True
    define left where "left = sat_sub (sat_add bits 5) 8"
    have l: "unat bits + 5 = 8 + unat left" "unat left < 8"
      using True Cons.prems b by (auto simp: left_def unat_sat_sub word_le_nat_alt)
    define x :: byte where "x = ucast (drop_bit (unat left) buffer' AND 0xff)"
    have ff: "(0xff :: u32) = mask 8" by (simp add: mask_eq_exp_minus_1)
    have "msb_bits 8 (drop_bit (unat left) buffer') = msb_bits 8 x"
      unfolding x_def ff by (rule msb_bits_eqI) (auto simp: bit_simps)
    then have split: "msb_bits 8 x @ msb_bits (unat left) buffer' = msb_bits (unat bits) buffer @ symbol_bits c"
      unfolding pushed[symmetric] l msb_bits_add by simp
    obtain out rest where "decode_loop buffer' left cs = Some out"
      "concat (map (msb_bits 8) out) @ rest = msb_bits (unat left) buffer' @ concat (map symbol_bits cs)" "length rest < 8"
      using Cons.IH[OF l(2)] Cons.prems by fastforce
    with split True v show ?thesis
      by (intro exI[of _ "x # out"] exI[of _ rest]) (simp add: Let_def flip: buffer'_def left_def x_def)
  next
    case False
    then have l: "unat (sat_add bits 5) < 8" by (simp add: word_le_nat_alt)
    obtain out rest where "decode_loop buffer' (sat_add bits 5) cs = Some out"
      "concat (map (msb_bits 8) out) @ rest = msb_bits (unat bits + 5) buffer' @ concat (map symbol_bits cs)" "length rest < 8"
      using Cons.IH[OF l] Cons.prems unfolding b by fastforce
    with False v show ?thesis
      by (intro exI[of _ out] exI[of _ rest]) (simp add: Let_def pushed flip: buffer'_def)
  qed
qed

lemma concat_msb_bits_inj:
  "concat (map (msb_bits 8) xs) = concat (map (msb_bits 8) ys) \<Longrightarrow> xs = ys" for xs ys :: "byte list"
proof (induction xs arbitrary: ys)
  case Nil
  then show ?case by (cases ys) (auto simp: msb_bits_def)
next
  case (Cons x xs)
  then obtain y ys' where ys: "ys = y # ys'" by (cases ys) (auto simp: msb_bits_def)
  with Cons.prems have "msb_bits 8 x = msb_bits 8 y" "concat (map (msb_bits 8) xs) = concat (map (msb_bits 8) ys')"
    by simp_all
  with Cons.IH show ?case using msb_bits_inj[of x y] by (simp add: ys)
qed

lemma length_concat_const: "(\<And>x. x \<in> set xs \<Longrightarrow> length (f x) = k) \<Longrightarrow> length (concat (map f xs)) = k * length xs"
  by (induction xs) auto

lemma length_concat_msb_bits [simp]:
  "length (concat (map (msb_bits k) xs)) = k * length xs" "length (concat (map symbol_bits cs)) = 5 * length cs"
  by (simp_all only: length_concat_const length_msb_bits symbol_bits_def)

lemma decode_loop_encode: "decode_loop 0 0 (base32_encode data) = Some data"
proof -
  obtain pad where e: "concat (map symbol_bits (base32_encode data)) = concat (map (msb_bits 8) data) @ replicate pad False"
    "pad < 5" "set (base32_encode data) \<subseteq> set B32"
    using encode_loop_bits[of 0 0 data] by (auto simp: base32_encode_def msb_bits_def)
  obtain out rest where d: "decode_loop 0 0 (base32_encode data) = Some out"
    "concat (map (msb_bits 8) out) @ rest = concat (map (msb_bits 8) data) @ replicate pad False" "length rest < 8"
    using decode_loop_bits[OF _ e(3), of 0 0] e(1) by (auto simp: msb_bits_def)
  have "8 * length out + length rest = 8 * length data + pad" using arg_cong[OF d(2), of length] by simp
  then have "length out = length data" using d(3) e(2) by presburger
  then have "concat (map (msb_bits 8) out) = concat (map (msb_bits 8) data)" using d(2) by simp
  with d(1) show ?thesis using concat_msb_bits_inj by simp
qed

lemma length_base32_encode: "\<exists>pad < 5. 5 * length (base32_encode data) = 8 * length data + pad"
proof -
  obtain pad where e: "concat (map symbol_bits (base32_encode data)) = concat (map (msb_bits 8) data) @ replicate pad False"
    "pad < 5"
    using encode_loop_bits[of 0 0 data] by (auto simp: base32_encode_def msb_bits_def)
  have "5 * length (base32_encode data) = 8 * length data + pad" using arg_cong[OF e(1), of length] by simp
  with e(2) show ?thesis by blast
qed

lemma B32_plain:
  assumes "set s \<subseteq> set B32"
  shows "utf8_len s = length s" "trim (s @ [CHR 0x0A]) = s" "trim s = s" "dropWhile (\<lambda>c. c = CHR ''='') (rev s) = rev s"
proof -
  have "list_all (\<lambda>c. (of_char c :: nat) < 128 \<and> \<not> is_whitespace c \<and> c \<noteq> CHR ''='') B32" by code_simp
  with assms have c: "(of_char c :: nat) < 128" "\<not> is_whitespace c" "c \<noteq> CHR ''=''" if "c \<in> set s" for c
    using that by (auto simp: list_all_iff)
  show "utf8_len s = length s" unfolding utf8_len_def using c(1) by (induction s) auto
  have keep: "dropWhile is_whitespace s = s" "dropWhile is_whitespace (rev s) = rev s"
    using c(2) last_in_set[of s] by (auto simp: dropWhile_eq_self_iff hd_rev)
  have nl: "is_whitespace (CHR 0x0A)" by code_simp
  show "trim s = s" by (simp add: trim_def keep)
  show "trim (s @ [CHR 0x0A]) = s" using nl c(2) keep by (cases s) (auto simp: trim_def)
  show "dropWhile (\<lambda>c. c = CHR ''='') (rev s) = rev s" using c(3) by (cases s rule: rev_cases) auto
qed

lemma base32_encode_B32: "set (base32_encode data) \<subseteq> set B32"
  using encode_loop_bits[of 0 0 data] by (auto simp: base32_encode_def)

lemma whole_bytes:
  assumes "5 * n = 8 * d + pad" "pad < 5"
  shows "n mod 8 \<in> {0, 2, 4, 5, 7 :: nat}"
proof -
  have "5 * n mod 8 = pad" using assms by simp
  then have "5 * (n mod 8) mod 8 < 5" using assms(2) by (simp add: mod_mult_right_eq)
  moreover have "n mod 8 \<in> set [0..<8]" by simp
  moreover have "list_all (\<lambda>r. 5 * r mod 8 < 5 \<longrightarrow> r \<in> {0, 2, 4, 5, 7}) [0..<8 :: nat]" by code_simp
  ultimately show ?thesis unfolding list_all_iff by blast
qed

lemma base32_decode_encode: "base32_decode (base32_encode data) = Some data"
proof -
  have n: "length (base32_encode data) mod 8 \<in> {0, 2, 4, 5, 7}"
    using length_base32_encode[of data] whole_bytes by blast
  show ?thesis
    unfolding base32_decode_def Let_def B32_plain(4)[OF base32_encode_B32] rev_rev_ident
      B32_plain(1)[OF base32_encode_B32] decode_loop_encode
    using n by (simp only: if_False simp_thms)
qed

section \<open>The window\<close>

lemma fold_last_match:
  "fold (\<lambda>x m. if P x then Some x else m) xs m = (if filter P xs = [] then m else Some (last (filter P xs)))"
  by (induction xs arbitrary: m) auto

lemma unat_of_nat_below: "n \<le> unat b \<Longrightarrow> unat (of_nat n :: u64) = n" for b :: u64
  using unsigned_less[of b, where 'a = nat] by (simp add: unsigned_of_nat take_bit_nat_eq_self)

lemma steps_between_sorted: "sorted_wrt (<) (steps_between first final)"
proof -
  show ?thesis
    unfolding steps_between_def sorted_wrt_map
    by (rule sorted_wrt_mono_rel[OF _ sorted_wrt_upt])
      (auto simp: word_less_nat_alt unat_of_nat_below[of _ final])
qed

lemma set_steps_between: "set (steps_between first final) = {first..final}"
proof -
  have "x \<in> of_nat ` {unat first..unat final}" if "first \<le> x" "x \<le> final" for x
    using that by (intro image_eqI[of _ _ "unat x"]) (auto simp: word_le_nat_alt)
  moreover have "set (steps_between first final) = of_nat ` {unat first..unat final}"
    by (simp only: steps_between_def set_map set_upt atLeastLessThanSuc_atLeastAtMost)
  ultimately show ?thesis by (auto simp: word_le_nat_alt unat_of_nat_below[of _ final])
qed

lemma sorted_last: "sorted_wrt (<) xs \<Longrightarrow> x \<in> set xs \<Longrightarrow> x \<le> last xs" for xs :: "'a::linorder list"
  by (induction xs rule: rev_induct) (auto simp: sorted_wrt_append)

definition window :: "u64 \<Rightarrow> u64 set" where
  "window now = {sat_sub (now div CODE_STEP_SECS) CODE_WINDOW_STEPS..sat_add (now div CODE_STEP_SECS) CODE_WINDOW_STEPS}"

definition is_code_for :: "hmac \<Rightarrow> totp_secret \<Rightarrow> string \<Rightarrow> u64 \<Rightarrow> bool" where
  "is_code_for hmac secret code step = (filter is_ascii_digit code = code_at hmac secret step)"

lemma length_show_nat_le: "n < 10 ^ Suc k \<Longrightarrow> length (show_nat n) \<le> Suc k"
proof (induction k arbitrary: n)
  case 0
  then show ?case by (subst show_nat.simps) simp
next
  case (Suc k)
  then have "n div 10 < 10 ^ Suc k" by (simp add: less_mult_imp_div_less)
  with Suc.IH[of "n div 10"] show ?case by (subst show_nat.simps) simp
qed

lemma code_at_digits: "length (code_at hmac secret step) = DIGITS \<and> list_all is_ascii_digit (code_at hmac secret step)"
proof -
  have "length (show_nat (n mod 1000000)) \<le> 6" for n using length_show_nat_le[of "n mod 1000000" 5] by simp
  moreover have "is_ascii_digit CHR ''0''" by code_simp
  ultimately show ?thesis
    using show_nat_digits by (auto simp: code_at_def truncate_def Let_def pad6_def DIGITS_def list_all_iff)
qed

lemma verify_cases:
  "verify hmac secret code now last_used =
     (let found = filter (is_code_for hmac secret code) (steps_between (sat_sub (now div CODE_STEP_SECS) CODE_WINDOW_STEPS)
                    (sat_add (now div CODE_STEP_SECS) CODE_WINDOW_STEPS))
      in if found = [] then Err Wrong_code
         else if is_some_and (\<lambda>l. last found \<le> l) last_used then Err Already_used else Ok (last found))"
proof -
  have "(length (filter is_ascii_digit code) = DIGITS \<and> code_at hmac secret step = filter is_ascii_digit code)
      = is_code_for hmac secret code step" for step
    using code_at_digits[of hmac secret step] by (auto simp: is_code_for_def)
  then show ?thesis by (simp add: verify_def Let_def fold_last_match cong: if_cong)
qed

lemma window_found:
  "set (filter P (steps_between (sat_sub (now div CODE_STEP_SECS) CODE_WINDOW_STEPS)
     (sat_add (now div CODE_STEP_SECS) CODE_WINDOW_STEPS))) = {step \<in> window now. P step}"
  by (auto simp: set_steps_between window_def)

lemma greatest_unique: "x \<in> M \<Longrightarrow> \<forall>y \<in> M. y \<le> x \<Longrightarrow> z \<in> M \<Longrightarrow> \<forall>y \<in> M. y \<le> z \<Longrightarrow> x = (z :: 'a::order)"
  by (meson antisym)

lemma unat_window: "x \<in> window now \<Longrightarrow> unat now div 30 - 1 \<le> unat x \<and> unat x \<le> unat now div 30 + 1"
  by (auto simp: window_def CODE_STEP_SECS_def CODE_WINDOW_STEPS_def word_le_nat_alt unat_sat_sub unat_sat_add unat_div)

lemma verify_Ok:
  assumes "verify hmac secret code now last_used = Inr x"
  shows "x \<in> window now \<and> is_code_for hmac secret code x"
proof -
  let ?found = "filter (is_code_for hmac secret code) (steps_between (sat_sub (now div CODE_STEP_SECS) CODE_WINDOW_STEPS)
    (sat_add (now div CODE_STEP_SECS) CODE_WINDOW_STEPS))"
  have "?found \<noteq> []" "x = last ?found" using assms by (auto simp: verify_cases Let_def split: if_splits)
  then have "x \<in> set ?found" using last_in_set by metis
  then show ?thesis unfolding window_found by simp
qed

lemma verify_wrong_length:
  assumes "length (filter is_ascii_digit code) \<noteq> DIGITS"
  shows "verify hmac secret code now last_used = Inl Wrong_code"
proof -
  have "\<not> is_code_for hmac secret code step" for step
    using assms code_at_digits[of hmac secret step] by (auto simp: is_code_for_def)
  then have "filter (is_code_for hmac secret code) steps = []" for steps by simp
  then show ?thesis by (simp add: verify_cases Let_def)
qed

lemma from_base32_to_base32:
  "from_base32 (to_base32 secret) = (if length secret < 16 then Inl (TooShort (length secret)) else Inr secret)"
  using B32_plain[OF base32_encode_B32, of secret]
  by (simp add: from_base32_def to_base32_def base32_decode_encode from_bytes_def MIN_SECRET_BYTES_def)

text \<open>With a MAC that is always empty every code is six zeros.\<close>

lemma zeros_are_code: "is_code_for (\<lambda>k m. []) secret ''000 000'' step"
proof -
  have "pad6 (show_nat 0) = ''000000''" by code_simp
  then have "truncate [] = ''000000''" by (simp add: truncate_def from_be_bytes_def)
  moreover have "filter is_ascii_digit ''000 000'' = ''000000''" by code_simp
  ultimately show ?thesis by (simp only: is_code_for_def code_at_def)
qed

lemma window_sample:
  "sat_sub (60 div CODE_STEP_SECS) CODE_WINDOW_STEPS = 1" "sat_add (60 div CODE_STEP_SECS) CODE_WINDOW_STEPS = 3"
  by code_simp+

lemma sample_verify: "verify (\<lambda>k m. []) secret ''000 000'' 60 None = Inr 3"
proof -
  have "steps_between 1 3 = [1, 2, 3]" by code_simp
  then show ?thesis by (simp add: verify_cases window_sample zeros_are_code Let_def)
qed

section \<open>Properties\<close>

text \<open>A code is looked for at the step before, at and after the current one, whatever else the
  text holds beside digits. The step answered is the latest of those the code is right for, and only
  if it is later than the last used one; a text that is the code of none of them is a wrong code, and
  a right code that is not later is reported as used, not as wrong.\<close>

theorem verify_exact:
  assumes "M = {step \<in> window now. is_code_for hmac secret code step}"
  shows "(verify hmac secret code now last_used = Ok x
            \<longleftrightarrow> x \<in> M \<and> (\<forall>y \<in> M. y \<le> x) \<and> is_none_or (\<lambda>l. l < x) last_used)
    \<and> (verify hmac secret code now last_used = Err Wrong_code \<longleftrightarrow> M = {})
    \<and> (verify hmac secret code now last_used = Err Already_used \<longleftrightarrow> M \<noteq> {} \<and> (\<exists>l. last_used = Some l \<and> (\<forall>y \<in> M. y \<le> l)))"
proof -
  define found where "found = filter (is_code_for hmac secret code) (steps_between
    (sat_sub (now div CODE_STEP_SECS) CODE_WINDOW_STEPS) (sat_add (now div CODE_STEP_SECS) CODE_WINDOW_STEPS))"
  have M: "set found = M" using window_found[of "is_code_for hmac secret code" now] assms by (simp add: found_def)
  have v: "verify hmac secret code now last_used = (if found = [] then Err Wrong_code
      else if is_some_and (\<lambda>l. last found \<le> l) last_used then Err Already_used else Ok (last found))"
    by (simp add: verify_cases Let_def found_def)
  show ?thesis
  proof (cases "found = []")
    case True
    then show ?thesis using v M by auto
  next
    case False
    have "sorted_wrt (<) found" unfolding found_def by (rule sorted_wrt_filter[OF steps_between_sorted])
    then have top: "last found \<in> M" "\<forall>y \<in> M. y \<le> last found"
      using last_in_set[OF False] sorted_last unfolding M[symmetric] by blast+
    have le: "(\<forall>y \<in> M. y \<le> l) = (last found \<le> l)" for l using top by (meson order_trans)
    have eq: "(x \<in> M \<and> (\<forall>y \<in> M. y \<le> x)) = (x = last found)" using top greatest_unique[of x M "last found"] by blast
    have "M \<noteq> {}" using top by blast
    then show ?thesis using False v eq le by (cases last_used) (auto simp: not_le)
  qed
qed

theorem verify_exact_witness:
  "verify (\<lambda>k m. []) [] ''000 000'' 60 (Some 2) = Ok 3
   \<and> verify (\<lambda>k m. []) [] ''000 000'' 60 (Some 3) = Err Already_used"
proof -
  have M: "{1..3} = {step \<in> window 60. is_code_for (\<lambda>k m. []) [] ''000 000'' step}"
    using zeros_are_code by (auto simp: window_def window_sample)
  have top: "3 \<in> {1..3 :: u64}" "\<forall>y \<in> {1..3 :: u64}. y \<le> 3" "{1..3 :: u64} \<noteq> {}" "is_none_or (\<lambda>l. l < 3) (Some (2 :: u64))"
    by simp_all
  show ?thesis
    using verify_exact[OF M, of "Some 2" 3] verify_exact[OF M, of "Some 3" 3] top by blast
qed

text \<open>The base32 text of a secret is read back as the same bytes, also with the newline its file
  ends with, and a secret of fewer than sixteen bytes is refused.\<close>

theorem base32_round_trip:
  "from_base32 (to_base32 secret @ [CHR 0x0A]) = (if length secret < 16 then Err (TooShort (length secret)) else Ok secret)
   \<and> from_base32 (to_base32 secret) = from_base32 (to_base32 secret @ [CHR 0x0A])"
  using B32_plain[OF base32_encode_B32, of secret] from_base32_to_base32[of secret]
  by (simp add: from_base32_def to_base32_def)

end
