(* ===== verification/Totp_Store.thy ===== *)
theory Totp_Store
  imports Totp Totp_Code "HOL-Library.Countable"
begin

text \<open>
  The TOTP secrets of a host and their state files (\<open>hostd/src/totp_store.rs\<close>, over
  \<open>hostd/src/fsutil.rs\<close>): where the codes of \<open>Totp_Code\<close> meet the counting of \<open>Totp\<close>. The file system is
  a value of the state, and what a write does to it is an input, so every failure of a write is a
  case. The text of a JSON value is \<open>serde_json\<close>'s and a parameter, with reading back what was written
  as its law. One secret is used by one caller at a time (its mutex), so an operation is one step.
\<close>

section \<open>Files\<close>

datatype secret_file = No_secret | Irregular_secret | Unopenable_secret | Unreadable_secret | Secret_text string

datatype state_file = No_state | Unreadable_state | State_bytes string

text \<open>What \<open>private_dir\<close> followed by \<open>write_atomic\<close> did: everything; nothing that a reader sees; or the
  rename, with the directory not known to be synced. The last two are errors to the caller.\<close>

datatype write_outcome = Written | Not_written | Renamed_only

record serde_json =
  js_read :: "string \<Rightarrow> json option"
  js_write :: "json \<Rightarrow> string"

definition serde_ok :: "serde_json \<Rightarrow> bool" where
  "serde_ok js = (\<forall>v. json_ok v \<longrightarrow> js_read js (js_write js v) = Some v)"

section \<open>The store\<close>

datatype store_error = NotEnrolled secret_name | AlreadyEnrolled secret_name | Refused_totp totp_refusal | Io_error

record totp_store =
  secret_files :: "secret_name \<Rightarrow> secret_file"
  state_files :: "secret_name \<Rightarrow> state_file"
  unwritten :: "bool list"

definition secret_index :: "secret_name \<Rightarrow> nat" where
  "secret_index name = (if name \<in> set every_secret then length (takeWhile (\<lambda>n. n \<noteq> name) every_secret) else 0)"

definition store_new :: "(secret_name \<Rightarrow> secret_file) \<Rightarrow> (secret_name \<Rightarrow> state_file) \<Rightarrow> totp_store" where
  "store_new secrets states = \<lparr>secret_files = secrets, state_files = states, unwritten = replicate 7 False\<rparr>"

definition enrolled :: "totp_store \<Rightarrow> secret_name \<Rightarrow> bool" where
  "enrolled st name = (secret_files st name \<noteq> No_secret)"

definition read_secret :: "totp_store \<Rightarrow> secret_name \<Rightarrow> (store_error, totp_secret) result" where
  "read_secret st name =
     (case secret_files st name of
        No_secret \<Rightarrow> Err (NotEnrolled name)
      | Irregular_secret \<Rightarrow> Err Io_error
      | Unopenable_secret \<Rightarrow> Err (NotEnrolled name)
      | Unreadable_secret \<Rightarrow> Err Io_error
      | Secret_text t \<Rightarrow> map_err (\<lambda>e. Io_error) (from_base32 t))"

definition read_state :: "serde_json \<Rightarrow> totp_store \<Rightarrow> secret_name \<Rightarrow> totp_state option" where
  "read_state js st name =
     (case state_files st name of
        No_state \<Rightarrow> Some default_totp
      | Unreadable_state \<Rightarrow> None
      | State_bytes bytes \<Rightarrow> Option.bind (js_read js bytes) totp_from_json)"

definition locked_in_memory :: "totp_store \<Rightarrow> secret_name \<Rightarrow> bool" where
  "locked_in_memory st name =
     (let i = secret_index name in if i < length (unwritten st) then unwritten st ! i else True)"

definition set_unwritten :: "secret_name \<Rightarrow> bool \<Rightarrow> totp_store \<Rightarrow> totp_store" where
  "set_unwritten name flag st = st\<lparr>unwritten := (unwritten st)[secret_index name := flag]\<rparr>"

definition write_state ::
  "serde_json \<Rightarrow> write_outcome \<Rightarrow> secret_name \<Rightarrow> totp_state \<Rightarrow> totp_store \<Rightarrow> totp_store \<times> (store_error, unit) result" where
  "write_state js w name state st =
     (let st1 = (if w = Not_written then st
                 else st\<lparr>state_files := (state_files st)(name := State_bytes (js_write js (totp_to_json state)))\<rparr>)
      in if w = Written then (st1, Ok ()) else (set_unwritten name True st1, Err Io_error))"

definition store_verify ::
  "serde_json \<Rightarrow> hmac \<Rightarrow> write_outcome \<Rightarrow> secret_name \<Rightarrow> string \<Rightarrow> u64 \<Rightarrow> totp_store
   \<Rightarrow> totp_store \<times> (store_error, accepted_code) result" where
  "store_verify js hmac w name code now_secs st =
     (case read_secret st name of
        Err e \<Rightarrow> (st, Err e)
      | Ok secret \<Rightarrow>
          if locked_in_memory st name then (st, Err (Refused_totp (HardLocked name)))
          else case read_state js st name of
            None \<Rightarrow> (st, Err (Refused_totp (HardLocked name)))
          | Some state \<Rightarrow>
              (case begin_attempt state name now_secs of
                 Err r \<Rightarrow> (st, Err (Refused_totp r))
               | Ok attempt \<Rightarrow>
                   (let matched = (case verify hmac secret code now_secs None of Ok step \<Rightarrow> Some step | Err e \<Rightarrow> None);
                        (state', r) = conclude attempt state matched
                    in if r \<noteq> Err AlreadyUsed then
                         (case write_state js w name state' st of
                            (st', Err e) \<Rightarrow> (st', Err e)
                          | (st', Ok u) \<Rightarrow> (st', map_err Refused_totp r))
                       else (st, map_err Refused_totp r))))"

definition store_clear_lock ::
  "serde_json \<Rightarrow> write_outcome \<Rightarrow> secret_name \<Rightarrow> u64 \<Rightarrow> totp_store \<Rightarrow> totp_store \<times> (store_error, unit) result" where
  "store_clear_lock js w name now_secs st =
     (let state = (case read_state js st name of
                     Some s \<Rightarrow> s
                   | None \<Rightarrow> default_totp\<lparr>last_step := Some (sat_add (now_secs div STEP_SECS) WINDOW_STEPS)\<rparr>)
      in case write_state js w name (clear_lock state) st of
           (st', Err e) \<Rightarrow> (st', Err e)
         | (st', Ok u) \<Rightarrow> (set_unwritten name False st', Ok ()))"

definition store_locked :: "serde_json \<Rightarrow> totp_store \<Rightarrow> secret_name \<Rightarrow> u64 \<Rightarrow> bool" where
  "store_locked js st name now_secs =
     (if locked_in_memory st name then True
      else case read_state js st name of None \<Rightarrow> True | Some s \<Rightarrow> lock_reason s name now_secs \<noteq> None)"

text \<open>Enrolling goes through the file system call by call; each call's success is an input, and so are
  the random bytes and the text a failed write leaves.\<close>

record enroll_io =
  io_dir :: bool
  io_removed :: bool
  io_random :: "byte list option"
  io_created :: bool
  io_wrote :: "string option"
  io_state_removed :: "bool \<times> bool"

definition enroll ::
  "enroll_io \<Rightarrow> secret_name \<Rightarrow> bool \<Rightarrow> totp_store \<Rightarrow> totp_store \<times> (store_error, totp_secret) result" where
  "enroll io name replace st =
     (if \<not> io_dir io then (st, Err Io_error)
      else if enrolled st name \<and> \<not> replace then (st, Err (AlreadyEnrolled name))
      else if enrolled st name \<and> \<not> io_removed io then (st, Err Io_error)
      else
        let st1 = (if enrolled st name then st\<lparr>secret_files := (secret_files st)(name := No_secret)\<rparr> else st)
        in case io_random io of
             None \<Rightarrow> (st1, Err Io_error)
           | Some secret \<Rightarrow>
               if \<not> io_created io then (st1, Err Io_error)
               else
                 let put = (\<lambda>t. st1\<lparr>secret_files := (secret_files st1)(name := Secret_text t)\<rparr>)
                 in case io_wrote io of
                      Some part \<Rightarrow> (put part, Err Io_error)
                    | None \<Rightarrow>
                        let st2 = put (to_base32 secret @ [CHR 0x0A]);
                            st3 = (if fst (io_state_removed io) then st2\<lparr>state_files := (state_files st2)(name := No_state)\<rparr>
                                   else st2)
                        in (st3, if snd (io_state_removed io) then Ok secret else Err Io_error))"

section \<open>What happens to one secret\<close>

text \<open>A code tried, a lock cleared, the daemon restarted, or the state file damaged.\<close>

datatype store_event = Code_tried string u64 write_outcome | Lock_cleared u64 write_outcome | Restarted | State_damaged

fun store_handle ::
  "serde_json \<Rightarrow> hmac \<Rightarrow> secret_name \<Rightarrow> store_event \<Rightarrow> totp_store \<Rightarrow> totp_store \<times> u64 option" where
  "store_handle js hmac name (Code_tried code now w) st =
     (case store_verify js hmac w name code now st of
        (st', Ok c) \<Rightarrow> (st', Some (code_step c))
      | (st', Err e) \<Rightarrow> (st', None))"
| "store_handle js hmac name (Lock_cleared now w) st = (fst (store_clear_lock js w name now st), None)"
| "store_handle js hmac name Restarted st = (store_new (secret_files st) (state_files st), None)"
| "store_handle js hmac name State_damaged st = (st\<lparr>state_files := (state_files st)(name := Unreadable_state)\<rparr>, None)"

fun store_accepted :: "serde_json \<Rightarrow> hmac \<Rightarrow> secret_name \<Rightarrow> store_event list \<Rightarrow> totp_store \<Rightarrow> u64 list" where
  "store_accepted js hmac name [] st = []"
| "store_accepted js hmac name (e # es) st =
     (case store_handle js hmac name e st of
        (st', Some x) \<Rightarrow> x # store_accepted js hmac name es st'
      | (st', None) \<Rightarrow> store_accepted js hmac name es st')"

text \<open>The clock does not go back.\<close>

fun in_order :: "u64 \<Rightarrow> store_event list \<Rightarrow> bool" where
  "in_order t [] = True"
| "in_order t (Code_tried code now w # es) = (t \<le> now \<and> in_order now es)"
| "in_order t (Lock_cleared now w # es) = (t \<le> now \<and> in_order now es)"
| "in_order t (e # es) = in_order t es"

section \<open>Files read back\<close>

lemma recent_of_bound: "recent_of v = Some r \<Longrightarrow> length r \<le> HARD_LOCK_FAILURES"
  by (auto simp: recent_of_def dest!: opt_map_length split: option.splits json.splits)

lemma totp_from_json_ok: "totp_from_json v = Some s \<Longrightarrow> totp_ok s"
  by (auto simp: totp_from_json_def totp_ok_def bind_eq_Some_conv dest: recent_of_bound split: json.splits)

lemma read_state_ok: "read_state js st name = Some s \<Longrightarrow> totp_ok s"
  by (auto simp: read_state_def bind_eq_Some_conv totp_ok_def default_totp_def dest: totp_from_json_ok[unfolded totp_ok_def]
      split: state_file.splits)

lemma json_ok_totp: "json_ok (totp_to_json s)"
proof -
  have "json_ok (json_opt_u64 x)" for x by (cases x) simp_all
  then show ?thesis unfolding totp_to_json_def by (intro json_obj_ok) (simp add: list_all_iff)
qed

lemma unwritten_elsewhere [simp]:
  "read_state js (set_unwritten n f st) name = read_state js st name"
  "secret_files (set_unwritten n f st) = secret_files st" "state_files (set_unwritten n f st) = state_files st"
  by (simp_all add: set_unwritten_def read_state_def)

lemma read_written:
  assumes "serde_ok js" "totp_ok s"
  shows "read_state js (fst (write_state js w name s st)) name = (if w = Not_written then read_state js st name else Some s)"
proof -
  have "js_read js (js_write js (totp_to_json s)) = Some (totp_to_json s)" using assms json_ok_totp by (simp add: serde_ok_def)
  then show ?thesis
    using totp_json_round_trip[OF assms(2)] by (simp add: write_state_def Let_def) (simp add: read_state_def)
qed

lemma write_state_result: "snd (write_state js w name s st) = (if w = Written then Ok () else Err Io_error)"
  by (simp add: write_state_def Let_def)

lemma totp_ok_try: "totp_ok s \<Longrightarrow> try_code name now m s = (s', out) \<Longrightarrow> totp_ok s'"
  using totp_handle_ok[of s name "Try now m"] by simp

lemma totp_ok_clear: "totp_ok s \<Longrightarrow> totp_ok (clear_lock s)"
  by (simp add: totp_ok_def clear_lock_def)

section \<open>One code\<close>

definition matched_step :: "hmac \<Rightarrow> totp_secret \<Rightarrow> string \<Rightarrow> u64 \<Rightarrow> u64 option" where
  "matched_step hmac secret code now = (case verify hmac secret code now None of Ok step \<Rightarrow> Some step | Err e \<Rightarrow> None)"

fun outcome_result :: "secret_name \<Rightarrow> totp_outcome \<Rightarrow> (store_error, accepted_code) result" where
  "outcome_result name (Accepted x) = Ok (AcceptedCode name x)"
| "outcome_result name (Refused_code e) = Err (Refused_totp e)"
| "outcome_result name Cleared = Err Io_error"

lemma store_verify_cases [consumes 1, case_names same wrote]:
  assumes "store_verify js hmac w name code now st = (st', r)"
  obtains e where "st' = st" "r = Err e"
  | secret s s' out where "read_secret st name = Ok secret" "\<not> locked_in_memory st name" "read_state js st name = Some s"
      "try_code name now (matched_step hmac secret code now) s = (s', out)"
      "out = Refused_code WrongCode \<or> (\<exists>x. out = Accepted x)" "st' = fst (write_state js w name s' st)"
      "r = (if w = Written then outcome_result name out else Err Io_error)"
proof -
  show thesis
  proof (cases "\<exists>e. st' = st \<and> r = Err e")
    case False
    then obtain secret s where ok: "read_secret st name = Ok secret" "\<not> locked_in_memory st name" "read_state js st name = Some s"
      using assms by (auto simp: store_verify_def split: sum.splits option.splits if_splits)
    obtain a where a: "begin_attempt s name now = Ok a"
      using assms False ok by (cases "begin_attempt s name now") (auto simp: store_verify_def)
    then have an: "a = Attempt name now" by (simp add: begin_attempt_Ok)
    obtain s' c where c: "conclude a s (matched_step hmac secret code now) = (s', c)" by fastforce
    have used: "c \<noteq> Err AlreadyUsed"
      using assms False ok a c by (auto simp: store_verify_def matched_step_def[symmetric])
    have r: "(st', r) = (case write_state js w name s' st of
        (st', Err e) \<Rightarrow> (st', Err e) | (st', Ok u) \<Rightarrow> (st', map_err Refused_totp c))"
      using assms ok a c used by (simp add: store_verify_def matched_step_def[symmetric])
    define out where "out = snd (try_code name now (matched_step hmac secret code now) s)"
    have t: "try_code name now (matched_step hmac secret code now) s = (s', out)"
      using a c by (auto simp: try_code_def out_def split: sum.splits)
    have out: "map_err Refused_totp c = outcome_result name out"
      using a c an by (auto simp: out_def try_code_def conclude_def split_beta split: sum.splits option.splits if_splits)
    have kinds: "out = Refused_code WrongCode \<or> (\<exists>x. out = Accepted x)"
      using a c used by (auto simp: out_def try_code_def conclude_def split_beta split: option.splits if_splits)
    show thesis
      using r out write_state_result[of js w name s' st]
      by (intro that(2)[OF ok t kinds]) (auto split: prod.splits sum.splits if_splits)
  qed (use that in blast)
qed

section \<open>Every history\<close>

text \<open>No readable state forgets a used step \<open>b\<close>.\<close>

definition remembers :: "serde_json \<Rightarrow> secret_name \<Rightarrow> u64 option \<Rightarrow> totp_store \<Rightarrow> bool" where
  "remembers js name b st =
     is_none_or (\<lambda>s. is_none_or (\<lambda>b. is_some_and (\<lambda>l. b \<le> l) (last_step s)) b) (read_state js st name)"

definition used_by :: "u64 \<Rightarrow> u64 option \<Rightarrow> bool" where
  "used_by t b = is_none_or (\<lambda>b. unat b \<le> unat t div 30 + 1) b"

lemma used_by_mono: "used_by t b \<Longrightarrow> t \<le> now \<Longrightarrow> used_by now b"
  using div_le_mono[of "unat t" "unat now" 30] by (cases b) (auto simp: used_by_def word_le_nat_alt)

lemma remembers_written:
  assumes "serde_ok js" "totp_ok s" "remembers js name b st" "is_none_or (\<lambda>b. is_some_and (\<lambda>l. b \<le> l) (last_step s)) b"
  shows "remembers js name b (fst (write_state js w name s st))"
  using assms by (simp add: remembers_def read_written)

lemma code_keeps:
  assumes "serde_ok js" "remembers js name b st" "store_handle js hmac name (Code_tried code now w) st = (st', None)"
  shows "remembers js name b st'"
proof -
  obtain r where v: "store_verify js hmac w name code now st = (st', r)" and r: "\<And>c. r \<noteq> Ok c"
    using assms(3) by (auto split: prod.splits sum.splits)
  from v show ?thesis
  proof (cases rule: store_verify_cases)
    case (wrote secret s s' out)
    have ok: "totp_ok s'" using totp_ok_try[OF read_state_ok wrote(4)] wrote(3) by simp
    have "is_none_or (\<lambda>b. is_some_and (\<lambda>l. b \<le> l) (last_step s)) b" using assms(2) wrote(3) by (simp add: remembers_def)
    moreover have "steps_kept s s'" using totp_handle_kept[of s name "Try now (matched_step hmac secret code now)"] wrote(4) by simp
    ultimately have "is_none_or (\<lambda>b. is_some_and (\<lambda>l. b \<le> l) (last_step s')) b"
      by (cases b; cases "last_step s"; cases "last_step s'") (auto simp: steps_kept_def)
    with ok show ?thesis unfolding wrote(6) using assms(1,2) by (intro remembers_written)
  qed (use assms(2) in simp)
qed

lemma code_accepted:
  assumes "serde_ok js" "store_verify js hmac w name code now st = (st', Ok c)"
  obtains secret s s' where "read_secret st name = Ok secret" "read_state js st name = Some s" "c = AcceptedCode name (code_step c)"
    "is_code_for hmac secret code (code_step c)" "code_step c \<in> window now" "is_none_or (\<lambda>l. l < code_step c) (last_step s)"
    "read_state js st' name = Some s'" "last_step s' = Some (code_step c)" "secret_files st' = secret_files st"
  using assms(2)
proof (cases rule: store_verify_cases)
  case (wrote secret s s' out)
  then have w: "w = Written" and out: "out = Accepted (code_step c)" "c = AcceptedCode name (code_step c)"
    by (cases out; auto split: if_splits)+
  from wrote(4) out(1) have x: "matched_step hmac secret code now = Some (code_step c)" "is_none_or (\<lambda>l. l < code_step c) (last_step s)"
    "last_step s' = Some (code_step c)"
    by (cases rule: try_code_cases; simp)+
  then have "verify hmac secret code now None = Ok (code_step c)"
    by (auto simp: matched_step_def split: sum.splits)
  then have m: "code_step c \<in> window now" "is_code_for hmac secret code (code_step c)"
    by (auto dest: verify_Ok)
  have "read_state js st' name = Some s'"
    unfolding wrote(6) using read_written[OF assms(1) totp_ok_try[OF read_state_ok[OF wrote(3)] wrote(4)]] w by simp
  moreover have "secret_files st' = secret_files st" unfolding wrote(6) by (simp add: write_state_def Let_def)
  ultimately show thesis using that[OF wrote(1,3) out(2) m(2,1) x(2) _ x(3)] by simp
qed simp

lemma clear_keeps:
  assumes "serde_ok js" "remembers js name b st" "used_by now b"
  shows "remembers js name b (fst (store_clear_lock js w name now st))"
proof -
  define s where "s = (case read_state js st name of Some s \<Rightarrow> s
    | None \<Rightarrow> default_totp\<lparr>last_step := Some (sat_add (now div STEP_SECS) WINDOW_STEPS)\<rparr>)"
  have ok: "totp_ok (clear_lock s)"
    unfolding s_def using read_state_ok[of js st name]
    by (intro totp_ok_clear) (auto simp: totp_ok_def default_totp_def split: option.splits)
  have "unat (sat_add (now div STEP_SECS) WINDOW_STEPS) = unat now div 30 + 1"
  proof -
    have "unat now div 30 + 1 < 2 ^ 64" using unsigned_less[of now, where 'a = nat] by simp
    then show ?thesis by (simp add: unat_sat_add STEP_SECS_def WINDOW_STEPS_def unat_div_distrib)
  qed
  then have "is_none_or (\<lambda>b. is_some_and (\<lambda>l. b \<le> l) (last_step s)) b"
    using assms(2,3) unfolding s_def
    by (cases b; cases "read_state js st name") (auto simp: remembers_def used_by_def word_le_nat_alt)
  then have "remembers js name b (fst (write_state js w name (clear_lock s) st))"
    using ok assms(1,2) by (intro remembers_written) (simp_all add: clear_lock_def)
  then show ?thesis
    unfolding store_clear_lock_def s_def[symmetric] Let_def
    by (auto simp: remembers_def split: prod.splits sum.splits)
qed

lemma b_below: "remembers js name b st \<Longrightarrow> read_state js st name = Some s \<Longrightarrow> is_none_or (\<lambda>l. l < x) (last_step s)
    \<Longrightarrow> is_none_or (\<lambda>b. b < x) b"
  by (cases b; cases "last_step s") (auto simp: remembers_def)

lemma store_accepted_increase:
  assumes "serde_ok js"
  shows "in_order t es \<Longrightarrow> remembers js name b st \<Longrightarrow> used_by t b \<Longrightarrow>
    sorted_wrt (<) (store_accepted js hmac name es st) \<and> (\<forall>x \<in> set (store_accepted js hmac name es st). is_none_or (\<lambda>b. b < x) b)"
proof (induction es arbitrary: t b st)
  case (Cons e es)
  show ?case
  proof (cases e)
    case (Code_tried code now w)
    then have t: "in_order now es" "used_by now b" using Cons.prems used_by_mono by auto
    obtain st' r where h: "store_handle js hmac name e st = (st', r)" by fastforce
    show ?thesis
    proof (cases r)
      case None
      have "remembers js name b st'" using code_keeps[OF assms Cons.prems(2)] h None Code_tried by metis
      then show ?thesis using Cons.IH[OF t(1) _ t(2)] h None by simp
    next
      case (Some x)
      then obtain c where "store_verify js hmac w name code now st = (st', Inr c)" and x: "x = code_step c"
        using h Code_tried by (auto split: prod.splits sum.splits)
      then obtain s s' where s: "read_state js st name = Some s" "code_step c \<in> window now"
        "is_none_or (\<lambda>l. l < code_step c) (last_step s)" "read_state js st' name = Some s'" "last_step s' = Some (code_step c)"
        using code_accepted[OF assms] by metis
      have "remembers js name (Some x) st'" "used_by now (Some x)"
        using s x unat_window[of x now] by (auto simp: remembers_def used_by_def)
      note ih = Cons.IH[OF t(1) this]
      have "is_none_or (\<lambda>b. b < x) b" using b_below[OF Cons.prems(2) s(1,3)] x by simp
      then show ?thesis using ih h Some by (cases b) auto
    qed
  next
    case (Lock_cleared now w)
    then have t: "in_order now es" "used_by now b" using Cons.prems used_by_mono by auto
    show ?thesis using Cons.IH[OF t(1) clear_keeps[OF assms Cons.prems(2) t(2)] t(2)] Lock_cleared by simp
  next
    case Restarted
    then have "remembers js name b (store_new (secret_files st) (state_files st))"
      using Cons.prems(2) by (simp add: remembers_def read_state_def store_new_def)
    then show ?thesis using Cons.IH[of t] Cons.prems Restarted by simp
  next
    case State_damaged
    have "remembers js name b (st\<lparr>state_files := (state_files st)(name := Unreadable_state)\<rparr>)"
      by (simp add: remembers_def read_state_def)
    then show ?thesis using Cons.IH[of t] Cons.prems State_damaged by simp
  qed
qed simp

lemma secret_index_bound: "secret_index name < 7"
  by (cases name rule: secret_as_str.cases) (simp_all add: secret_index_def every_secret_def ALL_SECRETS_def OPTIONAL_SECRETS_def)

lemma failed_write_locks:
  assumes "read_secret st name = Inr secret" "store_verify js hmac w name code now st = (st', Inl Io_error)"
  shows "(length (unwritten st) = 7 \<longrightarrow> locked_in_memory st' name) \<and> secret_files st' = secret_files st"
proof -
  have "map_err Refused_totp r \<noteq> Inl Io_error" for r :: "(totp_refusal, accepted_code) result" by (cases r) simp_all
  then obtain s' where s': "write_state js w name s' st = (st', Inl Io_error)"
    using assms by (auto simp: store_verify_def Let_def split: sum.splits option.splits if_splits prod.splits)
  then show ?thesis
    using secret_index_bound[of name]
    by (auto simp: write_state_def Let_def locked_in_memory_def set_unwritten_def split: if_splits)
qed

text \<open>One printer and reader of JSON that keeps the law, to show that it can hold: a value as its number
  in an enumeration of all values.\<close>

instance f64 :: countable
  by countable_datatype

instance number :: countable
  by countable_datatype

instance json :: countable
  by countable_datatype

definition counted_json :: serde_json where
  "counted_json = \<lparr>js_read = (\<lambda>t. Some (from_nat (length t))), js_write = (\<lambda>v. replicate (to_nat v) CHR ''x'')\<rparr>"

lemma counted_json_ok: "serde_ok counted_json"
  by (simp add: serde_ok_def counted_json_def)

text \<open>A host with every secret enrolled and no state file yet, for the witnesses.\<close>

definition sample_store :: totp_store where
  "sample_store = store_new (\<lambda>n. Secret_text (to_base32 (replicate 20 0))) (\<lambda>n. No_state)"

lemma sample_secret: "read_secret sample_store name = Inr (replicate 20 0)"
  by (simp add: sample_store_def store_new_def read_secret_def from_base32_to_base32)

lemma sample_state: "read_state js sample_store name = Some default_totp" "\<not> locked_in_memory sample_store name"
  "begin_attempt default_totp name now = Inr (Attempt name now)"
  using secret_index_bound[of name]
  by (simp_all add: sample_store_def store_new_def read_state_def locked_in_memory_def begin_attempt_def lock_reason_def default_totp_def)

lemma sample_wrong_code:
  "\<exists>st'. store_verify counted_json (\<lambda>k m. []) Not_written name ''1'' 60 sample_store = (st', Inl Io_error)"
proof -
  have "filter is_ascii_digit ''1'' = ''1''" by code_simp
  then have "verify (\<lambda>k m. []) secret ''1'' 60 None = Inl Wrong_code" for secret by (intro verify_wrong_length) (simp add: DIGITS_def)
  then show ?thesis
    by (simp add: store_verify_def sample_secret sample_state conclude_def split_beta write_state_def)
qed

lemma sample_right_code:
  "\<exists>st'. store_verify counted_json (\<lambda>k m. []) Written name ''000 000'' 60 sample_store = (st', Inr (AcceptedCode name 3))"
proof -
  have w: "attempt_window (Attempt name 60) = (1, 3)" by (simp add: attempt_window_def) code_simp
  have "last_step default_totp = None" by (simp add: default_totp_def)
  then show ?thesis
    by (simp add: store_verify_def sample_secret sample_state sample_verify conclude_def w write_state_def)
qed

section \<open>Properties\<close>

text \<open>C13: No TOTP code opens anything twice on a host, through restarts, cleared locks, damaged state
  files and writes that fail at any point: along every history in which the clock does not go back,
  the accepted steps of a secret are strictly increasing.\<close>

theorem store_codes_used_once:
  assumes "serde_ok js" "in_order t es"
  shows "sorted_wrt (<) (store_accepted js hmac name es st)"
proof -
  have "remembers js name None st" by (cases "read_state js st name") (auto simp: remembers_def)
  then show ?thesis using store_accepted_increase[OF assms, of name None] by (simp add: used_by_def)
qed

theorem store_codes_used_once_witness:
  "in_order 0 [Code_tried ''000 000'' 60 Written, Restarted, Code_tried ''000 000'' 61 Renamed_only]
   \<and> sorted_wrt (<) (store_accepted counted_json (\<lambda>k m. []) (SecretName User Arm)
       [Code_tried ''000 000'' 60 Written, Restarted, Code_tried ''000 000'' 61 Renamed_only]
       sample_store)"
proof -
  have o: "in_order 0 [Code_tried ''000 000'' 60 Written, Restarted, Code_tried ''000 000'' 61 Renamed_only]" by simp
  show ?thesis using store_codes_used_once[OF counted_json_ok o] o by blast
qed

text \<open>C14: A code is accepted only when it is the code of the enrolled secret for a step at most one away
  from now that is later than every step used before, and the state that remembers it is on disk when
  it is accepted: a crash right after finds it used.\<close>

theorem accepted_code_recorded:
  assumes "serde_ok js" "store_verify js hmac w name code now st = (st', Ok c)"
  shows "w = Written \<and> code_name c = name \<and>
    (\<exists>secret s s'. read_secret st name = Ok secret \<and> is_code_for hmac secret code (code_step c)
      \<and> unat now div 30 - 1 \<le> unat (code_step c) \<and> unat (code_step c) \<le> unat now div 30 + 1
      \<and> read_state js st name = Some s \<and> is_none_or (\<lambda>l. l < code_step c) (last_step s)
      \<and> read_state js (store_new (secret_files st') (state_files st')) name = Some s' \<and> last_step s' = Some (code_step c))"
proof -
  obtain secret s s' where c: "read_secret st name = Ok secret" "read_state js st name = Some s"
    "c = AcceptedCode name (code_step c)" "is_code_for hmac secret code (code_step c)" "code_step c \<in> window now"
    "is_none_or (\<lambda>l. l < code_step c) (last_step s)" "read_state js st' name = Some s'" "last_step s' = Some (code_step c)"
    using code_accepted[OF assms] by metis
  have "w = Written" using assms(2) by (cases rule: store_verify_cases) (auto split: if_splits)
  moreover have "read_state js (store_new (secret_files st') (state_files st')) name = Some s'"
    using c(7) by (simp add: read_state_def store_new_def)
  moreover have "code_name c = name" using arg_cong[OF c(3), of code_name] by simp
  ultimately show ?thesis using c unat_window[OF c(5)] by blast
qed

theorem accepted_code_recorded_witness:
  "\<exists>st' s'. store_verify counted_json (\<lambda>k m. []) Written (SecretName User Arm) ''000 000'' 60 sample_store
       = (st', Ok (AcceptedCode (SecretName User Arm) 3))
     \<and> read_state counted_json (store_new (secret_files st') (state_files st')) (SecretName User Arm) = Some s' \<and> last_step s' = Some 3"
proof -
  obtain st' where st': "store_verify counted_json (\<lambda>k m. []) Written (SecretName User Arm) ''000 000'' 60 sample_store
    = (st', Ok (AcceptedCode (SecretName User Arm) 3))" using sample_right_code by blast
  show ?thesis using accepted_code_recorded[OF counted_json_ok st'] st' by auto
qed

text \<open>A state that could not be written locks its secret in memory: when trying a code ends in an I/O
  error of the write, no code of that secret is even compared afterwards, at any time, until root clears
  the lock, so a failure that is not on disk does not give a guesser a fresh count.\<close>

theorem unwritten_failure_locks:
  assumes "read_secret st name = Ok secret" "length (unwritten st) = 7"
    and "store_verify js hmac w name code now st = (st', Err Io_error)"
  shows "store_verify js hmac' w' name code' now' st' = (st', Err (Refused_totp (HardLocked name))) \<and> store_locked js st' name now'"
proof -
  have "locked_in_memory st' name" "secret_files st' = secret_files st"
    using failed_write_locks[OF assms(1,3)] assms(2) by simp_all
  then show ?thesis using assms(1) by (simp add: store_verify_def store_locked_def read_secret_def)
qed

theorem unwritten_failure_locks_witness:
  "snd (store_verify counted_json (\<lambda>k m. []) Written (SecretName User Arm) ''000000'' 90
     (fst (store_verify counted_json (\<lambda>k m. []) Not_written (SecretName User Arm) ''1'' 60 sample_store)))
   = Err (Refused_totp (HardLocked (SecretName User Arm)))"
proof -
  obtain st' where st': "store_verify counted_json (\<lambda>k m. []) Not_written (SecretName User Arm) ''1'' 60 sample_store = (st', Err Io_error)"
    using sample_wrong_code by blast
  have seven: "length (unwritten sample_store) = 7" by (simp add: sample_store_def store_new_def)
  show ?thesis unfolding st' using unwritten_failure_locks[OF sample_secret seven st'] by simp
qed

end
