(* ===== verification/Store_Base.thy ===== *)
theory Store_Base
  imports Policy_Eval Containment
begin

text \<open>
  The broker's database (\<open>store/src\<close>): the rows of its tables, a transaction, and the conversions
  between columns and domain values (\<open>store/src/values.rs\<close>). A table is the list of its rows in the
  order they were inserted; a row is held as it is read. A transaction is a function of the database
  that either fails, and then leaves no trace (it rolls back), or gives a result and the database it
  commits: the row locks and the containment lock the code takes make its transactions take effect one
  after the other. Times are nanoseconds, durations and counts numbers checked against their
  32-bit columns.
\<close>

section \<open>Identifiers and errors\<close>

datatype grant_id = GrantId string
datatype session_id = SessionId string
datatype thread_id = ThreadId string
datatype daemon_id = DaemonId string
datatype message_id = MessageId string

text \<open>\<open>StoreError\<close>, the refusals of the service (\<open>broker/src/service/mod.rs\<close>), and, of the failures of
  the database itself, the constraints the model needs: unique keys and integer columns. The detail of a
  corrupt row names the column, without the value the message goes on to quote.\<close>

datatype db_error = Unique_violation | Integer_out_of_range | Corrupt string string | OutOfRange string | WrongProof

datatype service_error = Transition_refused string | NotEnabled platform | Provision_error string | Store db_error

section \<open>Rows\<close>

record store_delegation =
  del_thread :: thread_id
  del_delegator :: agent_id

record approved_edit =
  ed_resource :: string
  ed_authority :: authority

record discord_refs =
  dc_channel :: "int option"
  dc_message :: "int option"
  dc_thread :: "int option"

record request_row =
  rr_id :: request_id
  rr_agent :: agent_id
  rr_session :: "session_id option"
  rr_delegation :: "store_delegation option"
  rr_platform :: platform
  rr_resource :: string
  rr_capability :: string
  rr_scope :: json
  rr_authority :: "authority option"
  rr_justification :: string
  rr_requested_secs :: nat
  rr_notes :: "codepoints list"
  rr_status :: request_status
  rr_attempt :: nat
  rr_source :: "decision_source option"
  rr_decided_by :: "string option"
  rr_reason :: "string option"
  rr_approved_secs :: "nat option"
  rr_edit :: "approved_edit option"
  rr_decided_at :: "int option"
  rr_discord :: discord_refs
  rr_created_at :: int
  rr_updated_at :: int

definition final_resource :: "request_row \<Rightarrow> string" where
  "final_resource r = (case rr_edit r of None \<Rightarrow> rr_resource r | Some e \<Rightarrow> ed_resource e)"

definition final_authority :: "request_row \<Rightarrow> authority option" where
  "final_authority r = (case rr_edit r of Some e \<Rightarrow> Some (ed_authority e) | None \<Rightarrow> rr_authority r)"

record grant_row =
  gr_id :: grant_id
  gr_request :: request_id
  gr_agent :: agent_id
  gr_session :: "session_id option"
  gr_delegation :: "store_delegation option"
  gr_platform :: platform
  gr_resource :: string
  gr_authority :: authority
  gr_granted_at :: int
  gr_expires_at :: int
  gr_status :: grant_status
  gr_state :: json
  gr_revoked_at :: "int option"
  gr_revoke_reason :: "string option"
  gr_created_at :: int

definition grant_is_live :: "grant_row \<Rightarrow> int \<Rightarrow> bool" where
  "grant_is_live g now = (gr_status g = GActive \<and> gr_expires_at g > now)"

datatype disable_reason = By_operator | Lease_ended | Unpaired

text \<open>The columns of an agent that decisions read; keys, webhooks and accounts are not among them.\<close>

record agent_row =
  ag_id :: agent_id
  ag_name :: string
  ag_disabled :: bool
  ag_disabled_reason :: "disable_reason option"
  ag_kind :: agent_kind
  ag_parent :: "agent_id option"
  ag_sandbox :: "daemon_id option"
  ag_runtime :: "string option"
  ag_project :: "string option"
  ag_host :: "string option"
  ag_placement :: placement
  ag_lease_expires_at :: "int option"
  ag_created_at :: int

datatype thread_state = PendingOpen | Open_thread | Closed_thread

fun thread_state_as_str :: "thread_state \<Rightarrow> string" where
  "thread_state_as_str PendingOpen = ''pending_open''"
| "thread_state_as_str Open_thread = ''open''"
| "thread_state_as_str Closed_thread = ''closed''"

datatype close_reason = Close_rejected | Close_closed | Close_open_timeout | Close_idle_timeout | Close_peer_gone | Close_grant_revoked

fun close_reason_as_str :: "close_reason \<Rightarrow> string" where
  "close_reason_as_str Close_rejected = ''rejected''"
| "close_reason_as_str Close_closed = ''closed''"
| "close_reason_as_str Close_open_timeout = ''open_timeout''"
| "close_reason_as_str Close_idle_timeout = ''idle_timeout''"
| "close_reason_as_str Close_peer_gone = ''peer_gone''"
| "close_reason_as_str Close_grant_revoked = ''grant_revoked''"

record thread_row =
  th_id :: thread_id
  th_initiator :: agent_id
  th_initiator_session :: "session_id option"
  th_responder :: agent_id
  th_responder_session :: "session_id option"
  th_topic :: "string option"
  th_grant :: "grant_id option"
  th_state :: thread_state
  th_accepted_at :: "int option"
  th_closed_at :: "int option"
  th_close_reason :: "close_reason option"
  th_closed_by :: "agent_id option"
  th_close_note :: "string option"
  th_last_activity_at :: int
  th_last_seq :: nat
  th_created_at :: int

record message_row =
  ms_id :: message_id
  ms_thread :: thread_id
  ms_seq :: nat
  ms_sender :: agent_id
  ms_sender_session :: "session_id option"
  ms_recipient :: agent_id
  ms_grant :: "grant_id option"
  ms_payload :: string
  ms_created_at :: int

datatype containment_source = From_operator | From_agent | From_lockdown | Unspecified

record containment_entry =
  ce_id :: string
  ce_match :: json
  ce_reason :: string
  ce_evidence :: string
  ce_by :: string
  ce_source :: containment_source
  ce_at :: int

record rule_row =
  ru_id :: rule_id
  ru_action :: saved_rule_action
  ru_agent_pattern :: string
  ru_delegator_pattern :: "string option"
  ru_platform :: platform
  ru_resource_pattern :: string
  ru_authority :: "authority option"
  ru_max_secs :: "nat option"
  ru_enabled :: bool
  ru_created_by :: string
  ru_notes :: string
  ru_expires_at :: "int option"
  ru_created_at :: int

datatype verdict = Verdict_approve | Verdict_deny

record evaluation_row =
  ev_request :: request_id
  ev_attempt :: nat
  ev_model :: string
  ev_verdict :: verdict
  ev_reasoning :: string
  ev_suggested :: "nat option"
  ev_at :: int

record db =
  db_requests :: "request_row list"
  db_grants :: "grant_row list"
  db_agents :: "agent_row list"
  db_threads :: "thread_row list"
  db_messages :: "message_row list"
  db_entries :: "containment_entry list"
  db_rules :: "rule_row list"
  db_evaluations :: "evaluation_row list"
  db_daemons :: "(daemon_id \<times> string) list"
  db_aliases :: "(string \<times> agent_id) list"

section \<open>Transactions\<close>

type_synonym 'a tx = "db \<Rightarrow> (service_error, 'a \<times> db) result"

definition tx_return :: "'a \<Rightarrow> 'a tx" where
  "tx_return x = (\<lambda>s. Ok (x, s))"

definition tx_fail :: "service_error \<Rightarrow> 'a tx" where
  "tx_fail e = (\<lambda>s. Err e)"

definition tx_bind :: "'a tx \<Rightarrow> ('a \<Rightarrow> 'b tx) \<Rightarrow> 'b tx" where
  "tx_bind m f = (\<lambda>s. case m s of Err e \<Rightarrow> Err e | Ok (x, s') \<Rightarrow> f x s')"

definition tx_get :: "(db \<Rightarrow> 'a) \<Rightarrow> 'a tx" where
  "tx_get f = (\<lambda>s. Ok (f s, s))"

definition tx_put :: "(db \<Rightarrow> db) \<Rightarrow> unit tx" where
  "tx_put f = (\<lambda>s. Ok ((), f s))"

definition tx_lift :: "(service_error, 'a) result \<Rightarrow> 'a tx" where
  "tx_lift r = (\<lambda>s. map_ok (\<lambda>x. (x, s)) r)"

definition tx_unless :: "bool \<Rightarrow> service_error \<Rightarrow> unit tx" where
  "tx_unless c e = (if c then tx_fail e else tx_return ())"

text \<open>A transaction run to its end on a database: what it answers, and the database afterwards.\<close>

definition run_tx :: "'a tx \<Rightarrow> db \<Rightarrow> (service_error, 'a) result \<times> db" where
  "run_tx m s = (case m s of Err e \<Rightarrow> (Err e, s) | Ok (x, s') \<Rightarrow> (Ok x, s'))"

lemma tx_simps [simp]:
  "tx_return x s = Inr (x, s)" "tx_fail e s = Inl e" "tx_get f s = Inr (f s, s)" "tx_put g s = Inr ((), g s)"
  by (simp_all add: tx_return_def tx_fail_def tx_get_def tx_put_def)

lemma tx_bind_Ok [simp]:
  "(tx_bind m f s = Inr (y, s')) = (\<exists>x t. m s = Inr (x, t) \<and> f x t = Inr (y, s'))"
  by (auto simp: tx_bind_def split: sum.splits)

lemma tx_lift_Ok [simp]: "(tx_lift r s = Inr (x, s')) = (r = Inr x \<and> s' = s)"
  by (cases r) (auto simp: tx_lift_def)

lemma tx_unless_Ok [simp]: "(tx_unless c e s = Inr (u, s')) = (\<not> c \<and> s' = s)"
  by (auto simp: tx_unless_def)

section \<open>Columns\<close>

definition I32_MAX :: nat where "I32_MAX = 2147483647"

definition to_i32 :: "nat \<Rightarrow> (service_error, int) result" where
  "to_i32 n = (if n \<le> I32_MAX then Ok (int n) else Err (Store (OutOfRange (show_nat n))))"

definition opt_to_i32 :: "nat option \<Rightarrow> (service_error, int option) result" where
  "opt_to_i32 n = (case n of None \<Rightarrow> Ok None | Some n \<Rightarrow> map_ok Some (to_i32 n))"

definition unsigned_column :: "string \<Rightarrow> int \<Rightarrow> (service_error, nat) result" where
  "unsigned_column table n =
     (if n < 0 then Err (Store (Corrupt table ''negative value'')) else Ok (nat n))"

definition opt_unsigned :: "string \<Rightarrow> int option \<Rightarrow> (service_error, nat option) result" where
  "opt_unsigned table n = (case n of None \<Rightarrow> Ok None | Some n \<Rightarrow> map_ok Some (unsigned_column table n))"

definition platform_column :: "string \<Rightarrow> string \<Rightarrow> (service_error, platform) result" where
  "platform_column table s = ok_or (platform_parse s) (Store (Corrupt table ''platform''))"

definition request_status_column :: "string \<Rightarrow> (service_error, request_status) result" where
  "request_status_column s = ok_or (request_status_parse s) (Store (Corrupt ''access_requests'' ''status''))"

definition grant_status_column :: "string \<Rightarrow> (service_error, grant_status) result" where
  "grant_status_column s = ok_or (grant_status_parse s) (Store (Corrupt ''grants'' ''status''))"

definition decision_source_column :: "string option \<Rightarrow> (service_error, decision_source option) result" where
  "decision_source_column s =
     (case s of
        None \<Rightarrow> Ok None
      | Some s \<Rightarrow> map_ok Some (ok_or (decision_source_parse s)
                     (Store (Corrupt ''access_requests'' ''decision_source''))))"

definition authority_column :: "time_lib \<Rightarrow> string \<Rightarrow> platform \<Rightarrow> json \<Rightarrow> (service_error, authority) result" where
  "authority_column tm table p value = map_err (\<lambda>e. Store (Corrupt table ''authority'')) (from_json tm p value)"

definition delegation_columns ::
  "string \<Rightarrow> string option \<Rightarrow> string option \<Rightarrow> (service_error, store_delegation option) result" where
  "delegation_columns table thread delegator =
     (case (thread, delegator) of
        (None, None) \<Rightarrow> Ok None
      | (Some t, Some d) \<Rightarrow> Ok (Some \<lparr>del_thread = ThreadId t, del_delegator = AgentId d\<rparr>)
      | _ \<Rightarrow> Err (Store (Corrupt table ''half a delegation'')))"

end
