(* ===== verification/Store_Requests.thy ===== *)
theory Store_Requests
  imports Store_Base
begin

text \<open>
  The requests table and its state machine (\<open>store/src/requests.rs\<close>). A typed handle \<open>Request<S>\<close> is the
  row it was loaded as, whose status is \<open>S\<close>; entering a state is a value of \<open>entry\<close>, one constructor per
  target with the data that takes; \<open>transition\<close> is the compare-and-swap on the status. That only edges
  of the state machine are used is a theorem here, where the code has it from its types.
\<close>

section \<open>Rows as stored\<close>

record raw_request =
  rw_id :: string
  rw_agent :: string
  rw_session :: "string option"
  rw_thread :: "string option"
  rw_delegator :: "string option"
  rw_platform :: string
  rw_resource :: string
  rw_capability :: string
  rw_scope :: json
  rw_authority :: "json option"
  rw_justification :: string
  rw_requested_secs :: int
  rw_notes :: "codepoints list option"
  rw_status :: string
  rw_attempt :: int
  rw_source :: "string option"
  rw_decided_by :: "string option"
  rw_reason :: "string option"
  rw_approved_secs :: "int option"
  rw_approved_authority :: "json option"
  rw_approved_resource :: "string option"
  rw_decided_at :: "int option"
  rw_discord_channel :: "int option"
  rw_discord_message :: "int option"
  rw_discord_thread :: "int option"
  rw_created_at :: int
  rw_updated_at :: int

text \<open>The notes are a JSON column: \<open>None\<close> is a value that is not a list of strings.\<close>

definition approved_edit_columns ::
  "time_lib \<Rightarrow> platform \<Rightarrow> raw_request \<Rightarrow> (service_error, approved_edit option) result" where
  "approved_edit_columns tm p r =
     (case (rw_approved_resource r, rw_approved_authority r) of
        (None, None) \<Rightarrow> Ok None
      | (Some res, Some a) \<Rightarrow>
          map_ok (\<lambda>auth. Some \<lparr>ed_resource = res, ed_authority = auth\<rparr>) (authority_column tm ''access_requests'' p a)
      | _ \<Rightarrow> Err (Store (Corrupt ''access_requests'' ''half an approved edit'')))"

definition request_try_from :: "time_lib \<Rightarrow> raw_request \<Rightarrow> (service_error, request_row) result" where
  "request_try_from tm r =
     bind (platform_column ''access_requests'' (rw_platform r)) (\<lambda>p.
     bind (case rw_authority r of None \<Rightarrow> Ok None | Some a \<Rightarrow> map_ok Some (authority_column tm ''access_requests'' p a)) (\<lambda>authority.
     bind (approved_edit_columns tm p r) (\<lambda>edit.
     bind (request_status_column (rw_status r)) (\<lambda>status.
     if authority = None \<and> status \<noteq> Pending \<and> status \<noteq> Denied
     then Err (Store (Corrupt ''access_requests'' ''no authority past pending''))
     else
       bind (delegation_columns ''access_requests'' (rw_thread r) (rw_delegator r)) (\<lambda>delegation.
       bind (unsigned_column ''access_requests'' (rw_requested_secs r)) (\<lambda>requested.
       bind (ok_or (rw_notes r) (Store (Corrupt ''access_requests'' ''not a list of strings''))) (\<lambda>notes.
       bind (unsigned_column ''access_requests'' (rw_attempt r)) (\<lambda>attempt.
       bind (decision_source_column (rw_source r)) (\<lambda>src.
       bind (opt_unsigned ''access_requests'' (rw_approved_secs r)) (\<lambda>approved.
       Ok \<lparr>rr_id = RequestId (rw_id r), rr_agent = AgentId (rw_agent r),
           rr_session = map_option SessionId (rw_session r), rr_delegation = delegation, rr_platform = p,
           rr_resource = rw_resource r, rr_capability = rw_capability r, rr_scope = rw_scope r, rr_authority = authority,
           rr_justification = rw_justification r, rr_requested_secs = requested, rr_notes = notes, rr_status = status,
           rr_attempt = attempt, rr_source = src, rr_decided_by = rw_decided_by r, rr_reason = rw_reason r,
           rr_approved_secs = approved, rr_edit = edit, rr_decided_at = rw_decided_at r,
           rr_discord = \<lparr>dc_channel = rw_discord_channel r, dc_message = rw_discord_message r, dc_thread = rw_discord_thread r\<rparr>,
           rr_created_at = rw_created_at r, rr_updated_at = rw_updated_at r\<rparr>))))))))))"

section \<open>Entering a state\<close>

record entry_proof =
  pf_request :: request_id
  pf_authority :: "authority option"
  pf_from :: "request_status list"

record changes =
  ch_proof :: "entry_proof option"
  ch_bump_attempt :: bool
  ch_justification :: "string option"
  ch_source :: "decision_source option"
  ch_decided_by :: "string option"
  ch_reason :: "string option"
  ch_reason_suffix :: "string option"
  ch_approved_secs :: "nat option"
  ch_decided :: bool
  ch_note :: "codepoints option"

definition no_changes :: changes where
  "no_changes = \<lparr>ch_proof = None, ch_bump_attempt = False, ch_justification = None, ch_source = None, ch_decided_by = None,
     ch_reason = None, ch_reason_suffix = None, ch_approved_secs = None, ch_decided = False, ch_note = None\<rparr>"

datatype basis = Basis_auto auto_clearance | Basis_llm llm_clearance | Basis_human human_approval

record approval =
  ap_basis :: basis
  ap_decided_by :: string
  ap_reason :: string
  ap_secs :: nat

definition approval_auto :: "auto_clearance \<Rightarrow> string \<Rightarrow> string \<Rightarrow> nat \<Rightarrow> approval" where
  "approval_auto clearance who reason dur = \<lparr>ap_basis = Basis_auto clearance, ap_decided_by = who, ap_reason = reason, ap_secs = dur\<rparr>"

definition approval_llm :: "llm_clearance \<Rightarrow> string \<Rightarrow> string \<Rightarrow> nat \<Rightarrow> approval" where
  "approval_llm clearance model reason dur = \<lparr>ap_basis = Basis_llm clearance, ap_decided_by = model, ap_reason = reason, ap_secs = dur\<rparr>"

definition approval_human :: "human_approval \<Rightarrow> string \<Rightarrow> nat \<Rightarrow> approval" where
  "approval_human h reason dur = \<lparr>ap_basis = Basis_human h, ap_decided_by = decided_by h, ap_reason = reason, ap_secs = dur\<rparr>"

fun basis_source :: "basis \<Rightarrow> decision_source" where
  "basis_source (Basis_auto c) = auto_source c"
| "basis_source (Basis_llm c) = Llm_source"
| "basis_source (Basis_human h) = Human_source"

definition approval_source :: "approval \<Rightarrow> decision_source" where
  "approval_source a = basis_source (ap_basis a)"

record denial =
  dn_source :: decision_source
  dn_decided_by :: "string option"
  dn_reason :: string

datatype entry =
  Enter_llm llm_clearance "string option"
| Enter_llm_denied string string
| Enter_human "codepoints option"
| Enter_approved approval
| Enter_denied denial
| Enter_provisioning
| Enter_granted
| Enter_failed string

fun target :: "entry \<Rightarrow> request_status" where
  "target (Enter_llm c j) = LlmEvaluating"
| "target (Enter_llm_denied model reasoning) = LlmDenied"
| "target (Enter_human note) = AwaitingHuman"
| "target (Enter_approved a) = Approved"
| "target (Enter_denied d) = Denied"
| "target Enter_provisioning = Provisioning"
| "target Enter_granted = Granted"
| "target (Enter_failed why) = ProvisionFailed"

fun basis_proof :: "basis \<Rightarrow> entry_proof" where
  "basis_proof (Basis_auto c) = \<lparr>pf_request = auto_request c, pf_authority = Some (auto_authority c),
     pf_from = (if auto_source c = Human_source then [] else [Pending, AwaitingHuman])\<rparr>"
| "basis_proof (Basis_llm c) = \<lparr>pf_request = llm_request c, pf_authority = Some (llm_authority c), pf_from = [LlmEvaluating]\<rparr>"
| "basis_proof (Basis_human h) = \<lparr>pf_request = approved_request h, pf_authority = None, pf_from = [AwaitingHuman]\<rparr>"

fun changes_of :: "entry \<Rightarrow> changes" where
  "changes_of (Enter_llm c j) = no_changes\<lparr>
     ch_proof := Some \<lparr>pf_request = llm_request c, pf_authority = Some (llm_authority c), pf_from = [Pending, LlmDenied]\<rparr>,
     ch_bump_attempt := True, ch_justification := j\<rparr>"
| "changes_of (Enter_llm_denied model reasoning) = no_changes\<lparr>
     ch_source := Some Llm_source, ch_decided_by := Some model, ch_reason := Some reasoning\<rparr>"
| "changes_of (Enter_human note) = no_changes\<lparr>ch_note := note\<rparr>"
| "changes_of (Enter_approved a) = no_changes\<lparr>
     ch_proof := Some (basis_proof (ap_basis a)), ch_source := Some (approval_source a), ch_decided_by := Some (ap_decided_by a),
     ch_reason := Some (ap_reason a), ch_approved_secs := Some (ap_secs a), ch_decided := True\<rparr>"
| "changes_of (Enter_denied d) = no_changes\<lparr>
     ch_source := Some (dn_source d), ch_decided_by := dn_decided_by d, ch_reason := Some (dn_reason d), ch_decided := True\<rparr>"
| "changes_of Enter_provisioning = no_changes"
| "changes_of Enter_granted = no_changes"
| "changes_of (Enter_failed why) = no_changes\<lparr>ch_reason_suffix := Some ('' | provisioning failed: '' @ why)\<rparr>"

section \<open>Transitions\<close>

datatype lost = Lost request_id

definition proof_ok :: "entry_proof \<Rightarrow> request_row \<Rightarrow> bool" where
  "proof_ok p r = (pf_request p = rr_id r \<and> is_none_or (\<lambda>a. rr_authority r = Some a) (pf_authority p)
     \<and> rr_status r \<in> set (pf_from p))"

definition coalesce :: "'a option \<Rightarrow> 'a option \<Rightarrow> 'a option" where
  "coalesce a b = (case a of None \<Rightarrow> b | Some x \<Rightarrow> Some x)"

definition apply_changes :: "entry \<Rightarrow> int \<Rightarrow> request_row \<Rightarrow> request_row" where
  "apply_changes e now r =
     (let ch = changes_of e in
      r\<lparr>rr_status := target e, rr_updated_at := now,
        rr_attempt := rr_attempt r + (if ch_bump_attempt ch then 1 else 0),
        rr_justification := (case ch_justification ch of None \<Rightarrow> rr_justification r | Some j \<Rightarrow> j),
        rr_source := coalesce (ch_source ch) (rr_source r),
        rr_decided_by := coalesce (ch_decided_by ch) (rr_decided_by r),
        rr_reason := (case ch_reason_suffix ch of
                        None \<Rightarrow> coalesce (ch_reason ch) (rr_reason r)
                      | Some tail \<Rightarrow> Some ((case coalesce (ch_reason ch) (rr_reason r) of None \<Rightarrow> [] | Some t \<Rightarrow> t) @ tail)),
        rr_approved_secs := coalesce (ch_approved_secs ch) (rr_approved_secs r),
        rr_decided_at := coalesce (if ch_decided ch then Some now else None) (rr_decided_at r),
        rr_notes := (case ch_note ch of None \<Rightarrow> rr_notes r | Some n \<Rightarrow> rr_notes r @ [n])\<rparr>)"

definition find_request :: "request_id \<Rightarrow> db \<Rightarrow> request_row option" where
  "find_request i s = find (\<lambda>r. rr_id r = i) (db_requests s)"

definition update_requests :: "(request_row \<Rightarrow> bool) \<Rightarrow> (request_row \<Rightarrow> request_row) \<Rightarrow> db \<Rightarrow> db" where
  "update_requests P f s = s\<lparr>db_requests := map (\<lambda>r. if P r then f r else r) (db_requests s)\<rparr>"

definition transition :: "request_row \<Rightarrow> entry \<Rightarrow> int \<Rightarrow> (lost, request_row) result tx" where
  "transition request e now =
     (let i = rr_id request; ch = changes_of e in
      tx_bind (tx_unless (is_some_and (\<lambda>p. \<not> proof_ok p request) (ch_proof ch)) (Store WrongProof)) (\<lambda>_.
      tx_bind (tx_lift (opt_to_i32 (ch_approved_secs ch))) (\<lambda>_.
      tx_bind (tx_get (find_request i)) (\<lambda>found.
        case opt_filter (\<lambda>r. rr_status r = rr_status request) found of
          None \<Rightarrow> tx_return (Err (Lost i))
        | Some r \<Rightarrow>
            tx_bind (tx_unless (rr_attempt (apply_changes e now r) > I32_MAX) (Store Integer_out_of_range)) (\<lambda>_.
            tx_bind (tx_put (update_requests (\<lambda>r. rr_id r = i \<and> rr_status r = rr_status request) (apply_changes e now))) (\<lambda>_.
            tx_return (Ok (apply_changes e now r))))))))"

section \<open>Other writes\<close>

record new_request =
  nr_id :: request_id
  nr_agent :: agent_id
  nr_session :: "session_id option"
  nr_delegation :: "store_delegation option"
  nr_platform :: platform
  nr_resource :: string
  nr_capability :: string
  nr_scope :: json
  nr_authority :: "authority option"
  nr_justification :: string
  nr_requested_secs :: nat
  nr_notes :: "codepoints list"
  nr_now :: int

definition new_row :: "new_request \<Rightarrow> request_row" where
  "new_row n = \<lparr>rr_id = nr_id n, rr_agent = nr_agent n, rr_session = nr_session n, rr_delegation = nr_delegation n,
     rr_platform = nr_platform n, rr_resource = nr_resource n, rr_capability = nr_capability n, rr_scope = nr_scope n,
     rr_authority = nr_authority n, rr_justification = nr_justification n, rr_requested_secs = nr_requested_secs n,
     rr_notes = nr_notes n, rr_status = Pending, rr_attempt = 0, rr_source = None, rr_decided_by = None, rr_reason = None,
     rr_approved_secs = None, rr_edit = None, rr_decided_at = None,
     rr_discord = \<lparr>dc_channel = None, dc_message = None, dc_thread = None\<rparr>,
     rr_created_at = nr_now n, rr_updated_at = nr_now n\<rparr>"

definition insert_request :: "new_request \<Rightarrow> request_row tx" where
  "insert_request n =
     tx_bind (tx_unless (is_some_and (\<lambda>a. authority_platform a \<noteq> nr_platform n) (nr_authority n))
       (Store (OutOfRange (''an authority of another platform than '' @ platform_as_str (nr_platform n))))) (\<lambda>_.
     tx_bind (tx_lift (to_i32 (nr_requested_secs n))) (\<lambda>_.
     tx_bind (tx_get (find_request (nr_id n))) (\<lambda>taken.
     tx_bind (tx_unless (taken \<noteq> None) (Store Unique_violation)) (\<lambda>_.
     tx_bind (tx_put (\<lambda>s. s\<lparr>db_requests := db_requests s @ [new_row n]\<rparr>)) (\<lambda>_.
     tx_return (new_row n))))))"

text \<open>The row as the caller's handle has it afterwards, when the update found it still approved. The
  database's own clock, which is all that \<open>updated_at\<close> gets here, is an argument.\<close>

definition set_approved_edit :: "request_row \<Rightarrow> approved_edit \<Rightarrow> int \<Rightarrow> (lost, request_row) result tx" where
  "set_approved_edit request edit clock =
     tx_bind (tx_unless (authority_platform (ed_authority edit) \<noteq> rr_platform request)
       (Store (OutOfRange ''an approved authority of another platform''))) (\<lambda>_.
     tx_bind (tx_get (\<lambda>s. opt_filter (\<lambda>r. rr_status r = Approved) (find_request (rr_id request) s))) (\<lambda>found.
       if found = None then tx_return (Err (Lost (rr_id request)))
       else tx_bind (tx_put (update_requests (\<lambda>r. rr_id r = rr_id request \<and> rr_status r = Approved)
                        (\<lambda>r. r\<lparr>rr_edit := Some edit, rr_updated_at := clock\<rparr>))) (\<lambda>_.
            tx_return (Ok (request\<lparr>rr_edit := Some edit\<rparr>)))))"

definition append_note :: "request_id \<Rightarrow> codepoints \<Rightarrow> int \<Rightarrow> bool tx" where
  "append_note i note clock =
     tx_bind (tx_get (\<lambda>s. find_request i s \<noteq> None)) (\<lambda>there.
     tx_bind (tx_put (update_requests (\<lambda>r. rr_id r = i) (\<lambda>r. r\<lparr>rr_notes := rr_notes r @ [note], rr_updated_at := clock\<rparr>))) (\<lambda>_.
     tx_return there))"

definition set_discord :: "request_id \<Rightarrow> discord_refs \<Rightarrow> bool tx" where
  "set_discord i refs =
     tx_bind (tx_get (\<lambda>s. find_request i s \<noteq> None)) (\<lambda>there.
     tx_bind (tx_put (update_requests (\<lambda>r. rr_id r = i) (\<lambda>r. r\<lparr>rr_discord :=
        \<lparr>dc_channel = coalesce (dc_channel refs) (dc_channel (rr_discord r)),
         dc_message = coalesce (dc_message refs) (dc_message (rr_discord r)),
         dc_thread = coalesce (dc_thread refs) (dc_thread (rr_discord r))\<rparr>\<rparr>))) (\<lambda>_.
     tx_return there))"

section \<open>Reads\<close>

definition get_owned_request :: "agent_id \<Rightarrow> request_id \<Rightarrow> db \<Rightarrow> request_row option" where
  "get_owned_request agent i s = find (\<lambda>r. rr_id r = i \<and> rr_agent r = agent) (db_requests s)"

definition decidable_of :: "agent_id list \<Rightarrow> db \<Rightarrow> request_id list" where
  "decidable_of agents s =
     map rr_id (sort_key rr_created_at
       (filter (\<lambda>r. rr_agent r \<in> set agents \<and> rr_status r \<in> {AwaitingHuman, LlmEvaluating, LlmDenied}) (db_requests s)))"

definition awaiting_human_on :: "platform \<Rightarrow> db \<Rightarrow> request_row list" where
  "awaiting_human_on p s =
     sort_key rr_created_at (filter (\<lambda>r. rr_status r = AwaitingHuman \<and> rr_platform r = p) (db_requests s))"

definition stale_llm_evaluating :: "int \<Rightarrow> db \<Rightarrow> request_id list" where
  "stale_llm_evaluating cutoff s =
     map rr_id (sort_key rr_updated_at
       (filter (\<lambda>r. rr_status r = LlmEvaluating \<and> rr_updated_at r \<le> cutoff) (db_requests s)))"

definition by_delegation_thread :: "thread_id \<Rightarrow> db \<Rightarrow> request_row list" where
  "by_delegation_thread t s =
     sort_key rr_created_at (filter (\<lambda>r. is_some_and (\<lambda>d. del_thread d = t) (rr_delegation r)) (db_requests s))"

definition count_by_delegation_threads :: "thread_id list \<Rightarrow> db \<Rightarrow> (thread_id \<times> nat) list" where
  "count_by_delegation_threads ts s =
     filter (\<lambda>(t, n). n > 0) (map (\<lambda>t. (t, length (by_delegation_thread t s))) (remdups ts))"

end
