(* ===== verification/Store_Lockdown.thy ===== *)
theory Store_Lockdown
  imports Store_Requests
begin

text \<open>
  Agents (\<open>store/src/agents.rs\<close>) and containment (\<open>store/src/lockdown.rs\<close>): who minted whom, and the check
  every granting operation passes inside its own transaction. The proof \<open>NotHeld\<close> is the agent's row
  as the check read it. Lists come in the order of names, compared as texts.
\<close>

section \<open>Agents\<close>

definition facts :: "agent_row \<Rightarrow> agent_facts" where
  "facts a = AgentFacts (ag_name a) (ag_kind a) (ag_runtime a) (ag_project a) (ag_host a) (ag_placement a) []"

definition facts_with :: "agent_row \<Rightarrow> agent_facts list \<Rightarrow> agent_facts" where
  "facts_with a ancestors =
     AgentFacts (ag_name a) (ag_kind a) (ag_runtime a) (ag_project a) (ag_host a) (ag_placement a) ancestors"

definition policy_ref :: "agent_row \<Rightarrow> agent_ref" where
  "policy_ref a = \<lparr>agent_name = ag_name a, runtime = ag_runtime a, project = ag_project a, host = ag_host a,
     placement = ag_placement a, kind = ag_kind a\<rparr>"

fun disable_reason_as_str :: "disable_reason \<Rightarrow> string" where
  "disable_reason_as_str By_operator = ''operator''"
| "disable_reason_as_str Lease_ended = ''lease''"
| "disable_reason_as_str Unpaired = ''unpaired''"

definition disable_reason_parse :: "string \<Rightarrow> disable_reason option" where
  "disable_reason_parse t =
     (if t = ''operator'' then Some By_operator else if t = ''lease'' then Some Lease_ended
      else if t = ''unpaired'' then Some Unpaired else None)"

definition find_agent :: "agent_id \<Rightarrow> db \<Rightarrow> agent_row option" where
  "find_agent i s = find (\<lambda>a. ag_id a = i) (db_agents s)"

definition agent_by_name :: "string \<Rightarrow> db \<Rightarrow> agent_row option" where
  "agent_by_name name s = find (\<lambda>a. ag_name a = name) (db_agents s)"

definition list_agents :: "db \<Rightarrow> agent_row list" where
  "list_agents s = sort_key ag_name (db_agents s)"

definition list_in_sandbox :: "daemon_id \<Rightarrow> db \<Rightarrow> agent_row list" where
  "list_in_sandbox sandbox s = sort_key ag_name (filter (\<lambda>a. ag_sandbox a = Some sandbox) (db_agents s))"

definition children :: "agent_id \<Rightarrow> db \<Rightarrow> agent_id list" where
  "children parent s = map ag_id (filter (\<lambda>a. ag_parent a = Some parent) (db_agents s))"

definition lease_expired :: "int \<Rightarrow> db \<Rightarrow> agent_id list" where
  "lease_expired now s =
     map ag_id (filter (\<lambda>a. is_some_and (\<lambda>l. l \<le> now) (ag_lease_expires_at a) \<and> \<not> ag_disabled a) (db_agents s))"

definition update_agents :: "(agent_row \<Rightarrow> bool) \<Rightarrow> (agent_row \<Rightarrow> agent_row) \<Rightarrow> bool tx" where
  "update_agents P f =
     tx_bind (tx_get (\<lambda>s. list_ex P (db_agents s))) (\<lambda>hit.
     tx_bind (tx_put (\<lambda>s. s\<lparr>db_agents := map (\<lambda>a. if P a then f a else a) (db_agents s)\<rparr>)) (\<lambda>_. tx_return hit))"

definition insert_agent :: "agent_row \<Rightarrow> agent_row tx" where
  "insert_agent a =
     tx_bind (tx_get (\<lambda>s. list_ex (\<lambda>b. ag_id b = ag_id a \<or> ag_name b = ag_name a) (db_agents s))) (\<lambda>taken.
     tx_bind (tx_unless taken (Store Unique_violation)) (\<lambda>_.
     tx_bind (tx_put (\<lambda>s. s\<lparr>db_agents := db_agents s @ [a]\<rparr>)) (\<lambda>_. tx_return a)))"

definition set_attributes ::
  "agent_id \<Rightarrow> string option \<Rightarrow> string option \<Rightarrow> string option \<Rightarrow> placement \<Rightarrow> bool tx" where
  "set_attributes i rt pr ho pl =
     update_agents (\<lambda>a. ag_id a = i \<and> ag_kind a \<noteq> Operator)
       (\<lambda>a. a\<lparr>ag_runtime := rt, ag_project := pr, ag_host := ho, ag_placement := pl\<rparr>)"

definition rename :: "agent_id \<Rightarrow> string \<Rightarrow> bool tx" where
  "rename i new_name =
     tx_bind (tx_get (\<lambda>s. list_ex (\<lambda>b. ag_name b = new_name \<and> ag_id b \<noteq> i) (db_agents s))) (\<lambda>taken.
     tx_bind (tx_unless taken (Store Unique_violation)) (\<lambda>_.
     update_agents (\<lambda>a. ag_id a = i \<and> ag_kind a \<noteq> Operator) (\<lambda>a. a\<lparr>ag_name := new_name\<rparr>)))"

definition set_kind :: "agent_id \<Rightarrow> agent_kind \<Rightarrow> bool tx" where
  "set_kind i k =
     (if k = Operator then tx_return False
      else update_agents (\<lambda>a. ag_id a = i \<and> ag_kind a \<noteq> Operator) (\<lambda>a. a\<lparr>ag_kind := k\<rparr>))"

definition set_disabled :: "agent_id \<Rightarrow> bool \<Rightarrow> bool tx" where
  "set_disabled i disabled =
     update_agents (\<lambda>a. ag_id a = i)
       (\<lambda>a. a\<lparr>ag_disabled := disabled, ag_disabled_reason := (if disabled then ag_disabled_reason a else None)\<rparr>)"

definition set_lease :: "agent_id \<Rightarrow> int option \<Rightarrow> bool tx" where
  "set_lease i lease = update_agents (\<lambda>a. ag_id a = i) (\<lambda>a. a\<lparr>ag_lease_expires_at := lease\<rparr>)"

definition adopt_orchestrator :: "agent_id \<Rightarrow> daemon_id \<Rightarrow> string \<Rightarrow> bool tx" where
  "adopt_orchestrator i sandbox ho =
     update_agents (\<lambda>a. ag_id a = i \<and> ag_runtime a = Some ''orchestrator'' \<and> is_none_or (\<lambda>d. d = sandbox) (ag_sandbox a))
       (\<lambda>a. a\<lparr>ag_sandbox := Some sandbox, ag_host := Some ho, ag_placement := Sandbox_placement, ag_disabled := False,
           ag_disabled_reason := None\<rparr>)"

definition reenable_after_lease :: "agent_id \<Rightarrow> int \<Rightarrow> bool tx" where
  "reenable_after_lease i lease =
     update_agents (\<lambda>a. ag_id a = i \<and> ag_disabled a \<and> ag_disabled_reason a = Some Lease_ended)
       (\<lambda>a. a\<lparr>ag_disabled := False, ag_disabled_reason := None, ag_lease_expires_at := Some lease\<rparr>)"

definition MAX_CHAIN :: nat where "MAX_CHAIN = 64"

function chain_loop :: "(agent_id \<Rightarrow> agent_row option) \<Rightarrow> agent_id \<Rightarrow> agent_row list \<Rightarrow> agent_id option \<Rightarrow> agent_row list" where
  "chain_loop lookup self out next =
     (case next of
        None \<Rightarrow> out
      | Some i \<Rightarrow>
          if length out \<ge> MAX_CHAIN \<or> i = self \<or> list_ex (\<lambda>a. ag_id a = i) out then out
          else (case lookup i of None \<Rightarrow> out | Some p \<Rightarrow> chain_loop lookup self (out @ [p]) (ag_parent p)))"
  by auto
termination
  by (relation "measure (\<lambda>(lookup, self, out, next). MAX_CHAIN - length out)") auto

declare chain_loop.simps [simp del]

definition chain_in :: "agent_row \<Rightarrow> (agent_id \<Rightarrow> agent_row option) \<Rightarrow> agent_row list" where
  "chain_in agent by_id = chain_loop by_id (ag_id agent) [] (ag_parent agent)"

definition chain :: "agent_row \<Rightarrow> db \<Rightarrow> agent_row list" where
  "chain agent s = chain_loop (\<lambda>i. find_agent i s) (ag_id agent) [] (ag_parent agent)"

section \<open>Containment entries\<close>

fun containment_source_as_str :: "containment_source \<Rightarrow> string" where
  "containment_source_as_str From_operator = ''operator''"
| "containment_source_as_str From_agent = ''agent''"
| "containment_source_as_str From_lockdown = ''lockdown''"
| "containment_source_as_str Unspecified = []"

definition held_text :: "containment_entry \<Rightarrow> string" where
  "held_text e = ''contained ('' @ ce_id e @ ''): '' @ (if ce_reason e = [] then ''by the operator'' else ce_reason e)"

definition describe_entry :: "containment_entry \<Rightarrow> string \<Rightarrow> string" where
  "describe_entry e at =
     (let who = (case cont_parse (ce_match e) of
                   Ok m \<Rightarrow> if m \<noteq> everyone then cont_pattern_text m else ''every agent''
                 | Err x \<Rightarrow> ''every agent'');
          reason = (if ce_reason e = [] then ''no reason given'' else ce_reason e)
      in who @ '': '' @ reason @ '' (by '' @ ce_by e @ '', '' @ at @ '')'')"

definition holding :: "agent_row \<Rightarrow> db \<Rightarrow> containment_entry option" where
  "holding a s = first_holding (db_entries s) ce_match (facts_with a (map facts (chain a s)))"

definition held_in :: "daemon_id \<Rightarrow> db \<Rightarrow> string list" where
  "held_in sandbox s = sort (map ag_name (filter (\<lambda>a. holding a s \<noteq> None) (list_in_sandbox sandbox s)))"

definition record_entry :: "containment_entry \<Rightarrow> (match_error, containment_entry) result tx" where
  "record_entry e =
     (case cont_parse (ce_match e) of
        Err err \<Rightarrow> tx_return (Err err)
      | Ok m \<Rightarrow>
          tx_bind (tx_get (\<lambda>s. list_ex (\<lambda>x. ce_id x = ce_id e) (db_entries s))) (\<lambda>taken.
          tx_bind (tx_unless taken (Store Unique_violation)) (\<lambda>_.
          tx_bind (tx_put (\<lambda>s. s\<lparr>db_entries := db_entries s @ [e]\<rparr>)) (\<lambda>_. tx_return (Ok e)))))"

definition delete_entries :: "(containment_entry \<Rightarrow> bool) \<Rightarrow> containment_entry list tx" where
  "delete_entries P =
     tx_bind (tx_get (\<lambda>s. filter P (db_entries s))) (\<lambda>gone.
     tx_bind (tx_put (\<lambda>s. s\<lparr>db_entries := filter (\<lambda>e. \<not> P e) (db_entries s)\<rparr>)) (\<lambda>_. tx_return gone))"

definition lift :: "string option \<Rightarrow> containment_entry list tx" where
  "lift i = delete_entries (\<lambda>e. is_none_or (\<lambda>x. ce_id e = x) i)"

definition lift_lockdown :: "string option \<Rightarrow> containment_entry list tx" where
  "lift_lockdown h = delete_entries (\<lambda>e. ce_source e = From_lockdown
     \<and> is_none_or (\<lambda>x. ce_match e = JObj [(''host'', JStr x)]) h)"

section \<open>The check\<close>

datatype held_why = Held_contained containment_entry | Held_disabled | Held_unknown

fun held_why_text :: "held_why \<Rightarrow> string" where
  "held_why_text (Held_contained e) = held_text e"
| "held_why_text Held_disabled = ''agent is disabled''"
| "held_why_text Held_unknown = ''unknown agent''"

definition agent_held :: "agent_row option \<Rightarrow> agent_row list \<Rightarrow> containment_entry list \<Rightarrow> int \<Rightarrow> held_why option" where
  "agent_held agent chn entries now =
     (case agent of
        None \<Rightarrow> Some Held_unknown
      | Some a \<Rightarrow>
          if ag_disabled a \<or> is_some_and (\<lambda>l. l \<le> now) (ag_lease_expires_at a) then Some Held_disabled
          else map_option Held_contained (first_holding entries ce_match (facts_with a (map facts chn))))"

definition check :: "agent_id \<Rightarrow> int \<Rightarrow> db \<Rightarrow> (held_why, agent_row) result" where
  "check agent now s =
     (let row = find_agent agent s; chn = (case row of Some r \<Rightarrow> chain r s | None \<Rightarrow> []) in
      case agent_held row chn (db_entries s) now of
        Some h \<Rightarrow> Err h
      | None \<Rightarrow> (case row of None \<Rightarrow> Err Held_unknown | Some a \<Rightarrow> Ok a))"

text \<open>\<open>NotHeld::verify\<close>: a proof for another agent is refused (one of another transaction cannot be
  had here, where a check's answer is used in the transaction that made it).\<close>

definition verify_not_held :: "agent_row \<Rightarrow> agent_id \<Rightarrow> unit tx" where
  "verify_not_held not_held agent = tx_unless (ag_id not_held \<noteq> agent) (Store WrongProof)"

definition check_pair :: "agent_id \<Rightarrow> agent_id \<Rightarrow> int \<Rightarrow> db \<Rightarrow> (agent_id \<times> held_why, agent_row \<times> agent_row) result" where
  "check_pair a b now s =
     (case (find_agent a s, if a = b then None else find_agent b s) of
        (Some ra, Some rb) \<Rightarrow>
          (let op = (ag_kind ra = Operator \<or> ag_kind rb = Operator);
               entries = (if op then [] else db_entries s);
               why = (\<lambda>r. agent_held (Some r) (if op then [] else chain r s) entries now)
           in case why ra of
                Some h \<Rightarrow> Err (ag_id ra, h)
              | None \<Rightarrow> (case why rb of Some h \<Rightarrow> Err (ag_id rb, h) | None \<Rightarrow> Ok (ra, rb)))
      | _ \<Rightarrow> Err (a, Held_unknown))"

end
