(* ===== verification/Store_Grants.thy ===== *)
theory Store_Grants
  imports Store_Lockdown
begin

text \<open>
  The grants table (\<open>store/src/grants.rs\<close>), the saved rules (\<open>store/src/rules.rs\<close>) and the recorded verdicts
  of the reviewer (\<open>store/src/llm.rs\<close>). A grant row is made only by \<open>begin_grant\<close>, for a request being
  provisioned and an agent the containment check of the same transaction passed; \<open>load_provisioning\<close>
  gives the row that \<open>activate\<close> and \<open>fail_provisioning\<close> move, each by compare-and-swap on the status.
\<close>

section \<open>Rows as stored\<close>

record raw_grant =
  rg_id :: string
  rg_request :: string
  rg_agent :: string
  rg_session :: "string option"
  rg_thread :: "string option"
  rg_delegator :: "string option"
  rg_platform :: string
  rg_resource :: string
  rg_authority :: json
  rg_granted_at :: int
  rg_expires_at :: int
  rg_status :: string
  rg_state :: json
  rg_revoked_at :: "int option"
  rg_revoke_reason :: "string option"
  rg_created_at :: int

definition grant_try_from :: "time_lib \<Rightarrow> raw_grant \<Rightarrow> (service_error, grant_row) result" where
  "grant_try_from tm r =
     bind (platform_column ''grants'' (rg_platform r)) (\<lambda>p.
     bind (delegation_columns ''grants'' (rg_thread r) (rg_delegator r)) (\<lambda>delegation.
     bind (authority_column tm ''grants'' p (rg_authority r)) (\<lambda>auth.
     bind (grant_status_column (rg_status r)) (\<lambda>status.
     Ok \<lparr>gr_id = GrantId (rg_id r), gr_request = RequestId (rg_request r), gr_agent = AgentId (rg_agent r),
         gr_session = map_option SessionId (rg_session r), gr_delegation = delegation, gr_platform = p,
         gr_resource = rg_resource r, gr_authority = auth, gr_granted_at = rg_granted_at r,
         gr_expires_at = rg_expires_at r, gr_status = status, gr_state = rg_state r, gr_revoked_at = rg_revoked_at r,
         gr_revoke_reason = rg_revoke_reason r, gr_created_at = rg_created_at r\<rparr>))))"

section \<open>Making a grant\<close>

datatype begin_refused = DelegationClosed | DelegatorDisabled

fun begin_refused_text :: "begin_refused \<Rightarrow> string" where
  "begin_refused_text DelegationClosed = ''delegation thread is no longer open''"
| "begin_refused_text DelegatorDisabled = ''delegator agent is disabled''"

definition find_grant :: "grant_id \<Rightarrow> db \<Rightarrow> grant_row option" where
  "find_grant i s = find (\<lambda>g. gr_id g = i) (db_grants s)"

definition find_thread :: "thread_id \<Rightarrow> db \<Rightarrow> thread_row option" where
  "find_thread i s = find (\<lambda>t. th_id t = i) (db_threads s)"

text \<open>The end a delegated grant is capped by; \<open>None\<close> for a thread of the operator's.\<close>

definition delegation_backing :: "store_delegation \<Rightarrow> int \<Rightarrow> db \<Rightarrow> (begin_refused, int option) result" where
  "delegation_backing d now s =
     (case find_thread (del_thread d) s of
        None \<Rightarrow> Err DelegationClosed
      | Some t \<Rightarrow>
          (case opt_filter (\<lambda>a. \<not> ag_disabled a) (find_agent (del_delegator d) s) of
             None \<Rightarrow> Err DelegatorDisabled
           | Some delegator \<Rightarrow>
               (case th_grant t of
                  None \<Rightarrow>
                    if ag_kind delegator \<noteq> Operator then Err DelegationClosed
                    else if th_initiator t = del_delegator d \<and> th_state t = Open_thread then Ok None
                    else Err DelegationClosed
                | Some b \<Rightarrow>
                    (case opt_filter (\<lambda>g. gr_status g = GActive \<and> gr_expires_at g > now) (find_grant b s) of
                       None \<Rightarrow> Err DelegationClosed
                     | Some backing \<Rightarrow>
                         if th_state t \<noteq> Open_thread then Err DelegationClosed
                         else Ok (Some (gr_expires_at backing))))))"

text \<open>The last moment \<open>OffsetDateTime\<close> can hold, the end of the year 9999.\<close>

definition TIME_MAX :: int where "TIME_MAX = 253402300799999999999"

definition checked_add_secs :: "int \<Rightarrow> nat \<Rightarrow> int option" where
  "checked_add_secs now n = (let t = now + int n * 1000000000 in if t \<le> TIME_MAX then Some t else None)"

definition new_grant :: "request_row \<Rightarrow> authority \<Rightarrow> grant_id \<Rightarrow> int \<Rightarrow> int \<Rightarrow> grant_row" where
  "new_grant row auth i now expires = \<lparr>gr_id = i, gr_request = rr_id row, gr_agent = rr_agent row, gr_session = rr_session row,
     gr_delegation = rr_delegation row, gr_platform = rr_platform row, gr_resource = final_resource row, gr_authority = auth,
     gr_granted_at = now, gr_expires_at = expires, gr_status = GProvisioning, gr_state = JObj [], gr_revoked_at = None,
     gr_revoke_reason = None, gr_created_at = now\<rparr>"

definition insert_grant :: "grant_row \<Rightarrow> unit tx" where
  "insert_grant g =
     tx_bind (tx_get (\<lambda>s. list_ex (\<lambda>h. gr_id h = gr_id g \<or> gr_request h = gr_request g) (db_grants s))) (\<lambda>taken.
     tx_bind (tx_unless taken (Store Unique_violation)) (\<lambda>_.
     tx_put (\<lambda>s. s\<lparr>db_grants := db_grants s @ [g]\<rparr>)))"

definition begin_grant :: "request_row \<Rightarrow> agent_row \<Rightarrow> grant_id \<Rightarrow> int \<Rightarrow> (begin_refused, grant_row) result tx" where
  "begin_grant row not_held i now =
     tx_bind (verify_not_held not_held (rr_agent row)) (\<lambda>_.
     tx_bind (tx_lift (ok_or (final_authority row) (Store (Corrupt ''access_requests'' ''provisioning without authority'')))) (\<lambda>auth.
     tx_bind (tx_lift (ok_or (rr_approved_secs row) (Store (Corrupt ''access_requests'' ''provisioning without duration'')))) (\<lambda>n.
     tx_bind (tx_lift (ok_or (checked_add_secs now n) (Store (OutOfRange (show_nat n @ '' s from now''))))) (\<lambda>own.
     tx_bind (tx_get (\<lambda>s. case rr_delegation row of None \<Rightarrow> Ok None | Some d \<Rightarrow> delegation_backing d now s)) (\<lambda>backing.
       case backing of
         Err refused \<Rightarrow> tx_return (Err refused)
       | Ok cap \<Rightarrow>
           (let g = new_grant row auth i now (case cap of None \<Rightarrow> own | Some e \<Rightarrow> min own e) in
            tx_bind (insert_grant g) (\<lambda>_. tx_return (Ok g))))))))"

section \<open>Moving a grant\<close>

datatype grant_lost = GrantLost grant_id

definition load_provisioning :: "grant_id \<Rightarrow> db \<Rightarrow> grant_row option" where
  "load_provisioning i s = opt_filter (\<lambda>g. gr_status g = GProvisioning) (find_grant i s)"

definition update_grants :: "(grant_row \<Rightarrow> bool) \<Rightarrow> (grant_row \<Rightarrow> grant_row) \<Rightarrow> db \<Rightarrow> db" where
  "update_grants P f s = s\<lparr>db_grants := map (\<lambda>g. if P g then f g else g) (db_grants s)\<rparr>"

text \<open>\<open>UPDATE \<dots> WHERE id = \<dots> AND status = \<dots> RETURNING *\<close>: the row as changed, or nothing.\<close>

definition move_grant :: "grant_id \<Rightarrow> grant_status \<Rightarrow> (grant_row \<Rightarrow> grant_row) \<Rightarrow> (grant_lost, grant_row) result tx" where
  "move_grant i from f =
     tx_bind (tx_get (\<lambda>s. opt_filter (\<lambda>g. gr_status g = from) (find_grant i s))) (\<lambda>found.
       case found of
         None \<Rightarrow> tx_return (Err (GrantLost i))
       | Some g \<Rightarrow> tx_bind (tx_put (update_grants (\<lambda>g. gr_id g = i \<and> gr_status g = from) f)) (\<lambda>_. tx_return (Ok (f g))))"

definition activate :: "grant_row \<Rightarrow> agent_row \<Rightarrow> json \<Rightarrow> (grant_lost, grant_row) result tx" where
  "activate grant not_held provisioner_state =
     tx_bind (verify_not_held not_held (gr_agent grant)) (\<lambda>_.
     move_grant (gr_id grant) GProvisioning (\<lambda>g. g\<lparr>gr_status := GActive, gr_state := provisioner_state\<rparr>))"

definition fail_provisioning :: "grant_row \<Rightarrow> string \<Rightarrow> int option \<Rightarrow> (grant_lost, grant_row) result tx" where
  "fail_provisioning grant reason reverted_at =
     move_grant (gr_id grant) GProvisioning (\<lambda>g. g\<lparr>gr_status := GProvisionFailed, gr_revoke_reason := Some reason,
        gr_revoked_at := coalesce reverted_at (gr_revoked_at g)\<rparr>)"

datatype grant_end = Revoked_end string | Expired_end

definition end_grant :: "grant_id \<Rightarrow> grant_end \<Rightarrow> int \<Rightarrow> (grant_lost, grant_row) result tx" where
  "end_grant i how now =
     (let (status, reason) = (case how of Revoked_end r \<Rightarrow> (GRevoked, r) | Expired_end \<Rightarrow> (GExpired, ''expired'')) in
      move_grant i GActive (\<lambda>g. g\<lparr>gr_status := status, gr_revoked_at := Some now, gr_revoke_reason := Some reason\<rparr>))"

definition touch_grants :: "(grant_row \<Rightarrow> bool) \<Rightarrow> (grant_row \<Rightarrow> grant_row) \<Rightarrow> nat tx" where
  "touch_grants P f =
     tx_bind (tx_get (\<lambda>s. length (filter P (db_grants s)))) (\<lambda>n.
     tx_bind (tx_put (update_grants P f)) (\<lambda>_. tx_return n))"

definition expire_now :: "grant_id \<Rightarrow> int \<Rightarrow> bool tx" where
  "expire_now i now =
     tx_bind (touch_grants (\<lambda>g. gr_id g = i \<and> gr_status g = GActive) (\<lambda>g. g\<lparr>gr_expires_at := min (gr_expires_at g) now\<rparr>))
       (\<lambda>n. tx_return (n = 1))"

definition expire_now_of_agent :: "agent_id \<Rightarrow> int \<Rightarrow> nat tx" where
  "expire_now_of_agent agent now =
     touch_grants (\<lambda>g. gr_agent g = agent \<and> gr_status g = GActive) (\<lambda>g. g\<lparr>gr_expires_at := min (gr_expires_at g) now\<rparr>)"

definition set_provisioner_state :: "grant_id \<Rightarrow> json \<Rightarrow> bool tx" where
  "set_provisioner_state i st =
     tx_bind (touch_grants (\<lambda>g. gr_id g = i \<and> gr_status g \<in> {GProvisioning, GActive}) (\<lambda>g. g\<lparr>gr_state := st\<rparr>))
       (\<lambda>n. tx_return (n = 1))"

definition rename_a2a_target :: "string \<Rightarrow> string \<Rightarrow> nat tx" where
  "rename_a2a_target old new =
     touch_grants (\<lambda>g. gr_platform g = A2a \<and> gr_resource g = old \<and> gr_status g = GActive) (\<lambda>g. g\<lparr>gr_resource := new\<rparr>)"

section \<open>Issuing a credential\<close>

datatype not_issuable = UnknownGrant | Held_agent held_why | Delegation_closed | NotActive platform

definition is_not_found :: "not_issuable \<Rightarrow> bool" where
  "is_not_found n = (n = UnknownGrant)"

fun not_issuable_detail :: "not_issuable \<Rightarrow> string" where
  "not_issuable_detail UnknownGrant = ''unknown grant''"
| "not_issuable_detail (Held_agent (Held_contained e)) = ''contained ('' @ ce_id e @ ''): credentials are not issued''"
| "not_issuable_detail (Held_agent h) = held_why_text h @ '': credentials are not issued''"
| "not_issuable_detail Delegation_closed = ''delegation thread is closed; credential no longer issuable''"
| "not_issuable_detail (NotActive p) =
     (if p = Github \<or> p = Kubernetes then ''grant is not active; refusing to mint a token'' else ''grant is not active'')"

definition get_owned_grant :: "agent_id \<Rightarrow> grant_id \<Rightarrow> db \<Rightarrow> grant_row option" where
  "get_owned_grant agent i s = find (\<lambda>g. gr_id g = i \<and> gr_agent g = agent) (db_grants s)"

definition thread_backed :: "thread_row \<Rightarrow> int \<Rightarrow> db \<Rightarrow> bool" where
  "thread_backed t now s =
     (th_state t = Open_thread
      \<and> ((th_grant t = None \<and> list_ex (\<lambda>a. ag_id a = th_initiator t \<and> ag_kind a = Operator) (db_agents s))
         \<or> list_ex (\<lambda>b. th_grant t = Some (gr_id b) \<and> gr_status b = GActive \<and> gr_expires_at b > now) (db_grants s)))"

definition issuable :: "agent_id \<Rightarrow> grant_id \<Rightarrow> int \<Rightarrow> db \<Rightarrow> (not_issuable, grant_row) result" where
  "issuable agent grant now s =
     (case get_owned_grant agent grant s of
        None \<Rightarrow> Err UnknownGrant
      | Some row \<Rightarrow>
          (case check agent now s of
             Err h \<Rightarrow> Err (Held_agent h)
           | Ok n \<Rightarrow>
               if is_some_and (\<lambda>d. \<not> is_some_and (\<lambda>t. thread_backed t now s) (find_thread (del_thread d) s)) (gr_delegation row)
               then Err Delegation_closed
               else if \<not> grant_is_live row now then Err (NotActive (gr_platform row))
               else Ok row))"

section \<open>Reads\<close>

definition by_request :: "request_id \<Rightarrow> db \<Rightarrow> grant_row option" where
  "by_request r s = find (\<lambda>g. gr_request g = r) (db_grants s)"

definition active_of_agents :: "agent_id list \<Rightarrow> db \<Rightarrow> grant_id list" where
  "active_of_agents agents s =
     map gr_id (sort_key gr_granted_at (filter (\<lambda>g. gr_status g = GActive \<and> gr_agent g \<in> set agents) (db_grants s)))"

definition stale_provisioning :: "int \<Rightarrow> db \<Rightarrow> grant_id list" where
  "stale_provisioning cutoff s =
     map gr_id (sort_key gr_created_at (filter (\<lambda>g. gr_status g = GProvisioning \<and> gr_created_at g \<le> cutoff) (db_grants s)))"

definition due :: "int \<Rightarrow> db \<Rightarrow> grant_id list" where
  "due now s =
     map gr_id (sort_key gr_expires_at (filter (\<lambda>g. gr_status g = GActive \<and> gr_expires_at g \<le> now) (db_grants s)))"

definition delegated_on_closed_threads :: "db \<Rightarrow> (grant_id \<times> string option) list" where
  "delegated_on_closed_threads s =
     concat (map (\<lambda>g. case gr_delegation g of
         None \<Rightarrow> []
       | Some d \<Rightarrow> map (\<lambda>t. (gr_id g, map_option close_reason_as_str (th_close_reason t)))
           (filter (\<lambda>t. th_id t = del_thread d \<and> gr_status g = GActive \<and> th_state t = Closed_thread) (db_threads s)))
       (db_grants s))"

definition active_a2a_targeting :: "string \<Rightarrow> db \<Rightarrow> grant_id list" where
  "active_a2a_targeting name s =
     map gr_id (filter (\<lambda>g. gr_platform g = A2a \<and> gr_resource g = name \<and> gr_status g = GActive) (db_grants s))"

definition grants_by_delegation_thread :: "thread_id \<Rightarrow> db \<Rightarrow> grant_row list" where
  "grants_by_delegation_thread t s =
     sort_key gr_granted_at (filter (\<lambda>g. is_some_and (\<lambda>d. del_thread d = t) (gr_delegation g)) (db_grants s))"

definition ended_on :: "platform \<Rightarrow> string \<Rightarrow> int \<Rightarrow> db \<Rightarrow> grant_row list" where
  "ended_on p resource after_time s =
     sort_key (\<lambda>g. case gr_revoked_at g of Some t \<Rightarrow> t | None \<Rightarrow> 0)
       (filter (\<lambda>g. gr_platform g = p \<and> gr_resource g = resource \<and> gr_status g \<in> {GRevoked, GExpired}
                    \<and> is_some_and (\<lambda>t. t > after_time) (gr_revoked_at g)) (db_grants s))"

section \<open>Saved rules\<close>

definition rule_is_live :: "rule_row \<Rightarrow> int \<Rightarrow> bool" where
  "rule_is_live r now = (ru_enabled r \<and> is_none_or (\<lambda>e. e > now) (ru_expires_at r))"

definition find_rule :: "rule_id \<Rightarrow> db \<Rightarrow> rule_row option" where
  "find_rule i s = find (\<lambda>r. ru_id r = i) (db_rules s)"

text \<open>A new rule is given as the row it becomes, which is enabled.\<close>

definition insert_rule :: "rule_row \<Rightarrow> rule_row tx" where
  "insert_rule r =
     tx_bind (tx_unless (is_some_and (\<lambda>a. authority_platform a \<noteq> ru_platform r) (ru_authority r))
       (Store (OutOfRange ''a rule authority of another platform''))) (\<lambda>_.
     tx_bind (tx_lift (opt_to_i32 (ru_max_secs r))) (\<lambda>_.
     tx_bind (tx_get (find_rule (ru_id r))) (\<lambda>taken.
     tx_bind (tx_unless (taken \<noteq> None) (Store Unique_violation)) (\<lambda>_.
     tx_bind (tx_put (\<lambda>s. s\<lparr>db_rules := db_rules s @ [r\<lparr>ru_enabled := True\<rparr>]\<rparr>)) (\<lambda>_.
     tx_return (r\<lparr>ru_enabled := True\<rparr>))))))"

text \<open>Newest first; rows of one moment in the reverse of their insertion.\<close>

definition newest_first :: "rule_row list \<Rightarrow> rule_row list" where
  "newest_first rules = sort_key (\<lambda>r. - ru_created_at r) (rev rules)"

definition live_for :: "platform \<Rightarrow> int \<Rightarrow> db \<Rightarrow> rule_row list" where
  "live_for p now s =
     newest_first (filter (\<lambda>r. ru_enabled r \<and> ru_platform r = p \<and> is_none_or (\<lambda>e. e > now) (ru_expires_at r)) (db_rules s))"

definition list_rules :: "db \<Rightarrow> rule_row list" where
  "list_rules s = newest_first (db_rules s)"

definition set_rule_enabled :: "rule_id \<Rightarrow> bool \<Rightarrow> bool tx" where
  "set_rule_enabled i on =
     tx_bind (tx_get (\<lambda>s. find_rule i s \<noteq> None)) (\<lambda>hit.
     tx_bind (tx_put (\<lambda>s. s\<lparr>db_rules := map (\<lambda>r. if ru_id r = i then r\<lparr>ru_enabled := on\<rparr> else r) (db_rules s)\<rparr>)) (\<lambda>_.
     tx_return hit))"

definition delete_rule :: "rule_id \<Rightarrow> bool tx" where
  "delete_rule i =
     tx_bind (tx_get (\<lambda>s. find_rule i s \<noteq> None)) (\<lambda>hit.
     tx_bind (tx_put (\<lambda>s. s\<lparr>db_rules := filter (\<lambda>r. ru_id r \<noteq> i) (db_rules s)\<rparr>)) (\<lambda>_. tx_return hit))"

definition touch_rules :: "(rule_row \<Rightarrow> bool) \<Rightarrow> (rule_row \<Rightarrow> rule_row) \<Rightarrow> nat tx" where
  "touch_rules P f =
     tx_bind (tx_get (\<lambda>s. length (filter P (db_rules s)))) (\<lambda>n.
     tx_bind (tx_put (\<lambda>s. s\<lparr>db_rules := map (\<lambda>r. if P r then f r else r) (db_rules s)\<rparr>)) (\<lambda>_. tx_return n))"

definition rename_agent_in_rules :: "string \<Rightarrow> string \<Rightarrow> (nat \<times> nat \<times> nat) tx" where
  "rename_agent_in_rules old new =
     tx_bind (touch_rules (\<lambda>r. ru_agent_pattern r = old) (\<lambda>r. r\<lparr>ru_agent_pattern := new\<rparr>)) (\<lambda>a.
     tx_bind (touch_rules (\<lambda>r. ru_delegator_pattern r = Some old) (\<lambda>r. r\<lparr>ru_delegator_pattern := Some new\<rparr>)) (\<lambda>d.
     tx_bind (touch_rules (\<lambda>r. ru_platform r = A2a \<and> ru_resource_pattern r = old) (\<lambda>r. r\<lparr>ru_resource_pattern := new\<rparr>)) (\<lambda>t.
     tx_return (a, d, t))))"

section \<open>Recorded verdicts\<close>

fun verdict_as_str :: "verdict \<Rightarrow> string" where
  "verdict_as_str Verdict_approve = ''approve''"
| "verdict_as_str Verdict_deny = ''deny''"

definition insert_evaluation :: "evaluation_row \<Rightarrow> unit tx" where
  "insert_evaluation e =
     tx_bind (tx_lift (to_i32 (ev_attempt e))) (\<lambda>_.
     tx_bind (tx_lift (opt_to_i32 (ev_suggested e))) (\<lambda>_.
     tx_bind (tx_get (\<lambda>s. list_ex (\<lambda>x. ev_request x = ev_request e \<and> ev_attempt x = ev_attempt e) (db_evaluations s))) (\<lambda>taken.
     tx_bind (tx_unless taken (Store Unique_violation)) (\<lambda>_.
     tx_put (\<lambda>s. s\<lparr>db_evaluations := db_evaluations s @ [e]\<rparr>)))))"

definition evaluations_for_request :: "request_id \<Rightarrow> db \<Rightarrow> evaluation_row list" where
  "evaluations_for_request r s = sort_key ev_attempt (filter (\<lambda>e. ev_request e = r) (db_evaluations s))"

end
