(* ===== verification/Service_Routing.thy ===== *)
theory Service_Routing
  imports Store_Grants Canonical_Json
begin

text \<open>
  From a request to a route (\<open>broker/src/service/routing.rs\<close>), the resolution of a delegation
  (\<open>broker/src/a2a/delegation.rs\<close>) and what the service depends on (\<open>broker/src/service/mod.rs\<close>). What other
  parts provide is the record \<open>app_state\<close>: the loaded policy, the platforms with their validators (the
  \<open>Provisioner\<close> trait), whether there is a reviewer, which platforms have an approval gate, how a thread's UUID is read and
  the wording of a refused capability or scope.
\<close>

section \<open>What the service runs with\<close>

record validated =
  va_resource :: string
  va_authority :: authority
  va_notes :: "codepoints list"

record app_state =
  app_policy :: policy
  app_time :: time_lib
  app_platforms :: "platform list"
  app_retired :: "platform list"
  app_validate :: "platform \<Rightarrow> agent_row \<Rightarrow> string \<Rightarrow> authority \<Rightarrow> int \<Rightarrow> db \<Rightarrow> (service_error, (string, validated) result) result"
  app_parse_thread :: "string \<Rightarrow> thread_id option"
  app_error_text :: "authority_error \<Rightarrow> string"
  app_llm :: bool
  app_gates :: "platform list"

definition not_enabled :: "platform \<Rightarrow> string" where
  "not_enabled p = ''platform '' @ [CHR 0x27] @ platform_as_str p @ [CHR 0x27] @ '' is not enabled on this broker''"

definition agent_ref_of :: "agent_row \<Rightarrow> agent_ref" where
  "agent_ref_of a = \<lparr>agent_name = ag_name a, runtime = ag_runtime a, project = ag_project a, host = ag_host a,
     placement = ag_placement a, kind = ag_kind a\<rparr>"

definition policy_cap :: "policy \<Rightarrow> nat \<Rightarrow> nat option \<Rightarrow> nat" where
  "policy_cap p requested rule_max = cap_duration requested (d_max_duration (pol_defaults p)) rule_max"

section \<open>Delegators\<close>

datatype delegator = No_delegator | Delegator_gone | Delegator_agent agent_row

fun as_policy :: "delegator \<Rightarrow> delegation" where
  "as_policy No_delegator = NotDelegated"
| "as_policy Delegator_gone = Gone"
| "as_policy (Delegator_agent a) = OnBehalfOf (agent_ref_of a)"

fun delegator_name :: "delegator \<Rightarrow> string option" where
  "delegator_name (Delegator_agent a) = Some (ag_name a)"
| "delegator_name d = None"

definition load_delegator :: "agent_id \<Rightarrow> db \<Rightarrow> delegator" where
  "load_delegator i s = (case find_agent i s of Some a \<Rightarrow> Delegator_agent a | None \<Rightarrow> Delegator_gone)"

definition delegator_of :: "request_row \<Rightarrow> db \<Rightarrow> delegator" where
  "delegator_of request s =
     (case rr_delegation request of None \<Rightarrow> No_delegator | Some d \<Rightarrow> load_delegator (del_delegator d) s)"

record agent_caller =
  caller_agent :: agent_row
  caller_session :: "session_id option"

definition topic_text :: "string option \<Rightarrow> codepoints" where
  "topic_text tp = (case tp of None \<Rightarrow> cps ''(none)'' | Some t \<Rightarrow> to_python_default_string (JStr t))"

text \<open>\<open>resolve\<close>: the delegation a request may carry with the note to add, or why it is refused.\<close>

definition resolve_delegation ::
  "app_state \<Rightarrow> agent_caller \<Rightarrow> platform \<Rightarrow> string \<Rightarrow> db \<Rightarrow> (string, store_delegation \<times> codepoints) result" where
  "resolve_delegation app caller p cited s =
     (let me = ag_id (caller_agent caller);
          unknown = ''unknown thread (you must be a participant of the thread you cite)'' in
      if p = A2a then Err ''a2a access cannot be requested on behalf of another agent''
      else case app_parse_thread app cited of
        None \<Rightarrow> Err unknown
      | Some i \<Rightarrow>
        (case opt_filter (\<lambda>t. th_initiator t = me \<or> th_responder t = me) (find_thread i s) of
           None \<Rightarrow> Err unknown
         | Some t \<Rightarrow>
             if th_state t \<noteq> Open_thread then
               Err (''thread is '' @ thread_state_as_str (th_state t)
                    @ ''; delegation requires an OPEN thread (the other side must have accepted)'')
             else if th_responder t \<noteq> me then
               Err (''you opened this thread; only the responder may act on a thread'' @ [CHR 0x27]
                    @ ''s behalf (the delegator must be the side that asked)'')
             else if is_some_and (\<lambda>b. caller_session caller \<noteq> Some b) (th_responder_session t) then
               Err ''thread belongs to a different session of this agent''
             else case opt_filter (\<lambda>a. \<not> ag_disabled a) (find_agent (th_initiator t) s) of
               None \<Rightarrow> Err ''delegator agent is disabled''
             | Some d \<Rightarrow>
                 Ok (\<lparr>del_thread = th_id t, del_delegator = ag_id d\<rparr>,
                     cps (''on behalf of '' @ ag_name d @ '' (a2a thread topic '') @ topic_text (th_topic t) @ cps '')'')))"

section \<open>Zones\<close>

definition daemon_name :: "agent_row \<Rightarrow> db \<Rightarrow> string option" where
  "daemon_name a s = (case ag_sandbox a of None \<Rightarrow> None | Some d \<Rightarrow> map_of (db_daemons s) d)"

definition zone_facts_of :: "agent_row \<Rightarrow> authority \<Rightarrow> string \<Rightarrow> db \<Rightarrow> zone_facts" where
  "zone_facts_of a auth resource s =
     (case authority_platform auth of
        A2a \<Rightarrow> A2a_peer (map_option agent_ref_of (agent_by_name resource s))
      | Sandbox_platform \<Rightarrow>
          Sandbox_facts (daemon_name a s)
            (map agent_ref_of (case ag_sandbox a of
               None \<Rightarrow> []
             | Some d \<Rightarrow> filter (\<lambda>b. ag_project b = Some resource) (list_in_sandbox d s)))
      | Agents_platform \<Rightarrow> Agents_facts (daemon_name a s)
      | _ \<Rightarrow> No_facts)"

definition zone_check_db ::
  "policy \<Rightarrow> agent_row \<Rightarrow> authority \<Rightarrow> string \<Rightarrow> db \<Rightarrow> (zone_denied, zone_passed) result" where
  "zone_check_db p a auth resource s =
     (if pol_restricted p = [] then zone_check p (agent_ref_of a) auth resource No_facts
      else zone_check p (agent_ref_of a) auth resource (zone_facts_of a auth resource s))"

section \<open>Saved rules\<close>

definition clamp_duration :: "nat \<Rightarrow> nat" where
  "clamp_duration n =
     (case from_secs (int (max 1 (min n MAX_DURATION_SECS))) of Ok d \<Rightarrow> d | Err e \<Rightarrow> MAX_DURATION_SECS)"

definition saved_rule_of :: "rule_row \<Rightarrow> saved_rule" where
  "saved_rule_of r = \<lparr>sr_id = ru_id r, sr_action = ru_action r, sr_agent_pattern = Glob (ru_agent_pattern r),
     sr_delegator_pattern = map_option Glob (ru_delegator_pattern r), sr_platform = ru_platform r,
     sr_resource_pattern = Glob (ru_resource_pattern r), sr_authority = ru_authority r,
     sr_max_duration = map_option clamp_duration (ru_max_secs r), sr_enabled = ru_enabled r, sr_notes = ru_notes r,
     sr_expires_at = ru_expires_at r, sr_created_at = ru_created_at r\<rparr>"

definition saved_rules :: "platform \<Rightarrow> int \<Rightarrow> db \<Rightarrow> saved_rule list" where
  "saved_rules p now s = sort_saved_rules (map saved_rule_of (live_for p now s))"

section \<open>Routing\<close>

definition alias_creator :: "string \<Rightarrow> db \<Rightarrow> agent_id option" where
  "alias_creator address s = map_of (db_aliases s) (to_lowercase address)"

fun mail_action_of :: "authority \<Rightarrow> mail_action option" where
  "mail_action_of (AuthMail m) = Some (mail_action m)"
| "mail_action_of a = None"

definition created_for_another :: "agent_id \<Rightarrow> authority \<Rightarrow> string \<Rightarrow> db \<Rightarrow> string option" where
  "created_for_another agent auth resource s =
     (case mail_action_of auth of
        None \<Rightarrow> None
      | Some act \<Rightarrow>
          if act = MailCreate then None
          else map_option (\<lambda>c. resource @ '' was created for another agent: always a human'')
                 (opt_filter (\<lambda>c. c \<noteq> agent) (alias_creator resource s)))"

definition stored_gates :: "agent_row \<Rightarrow> authority \<Rightarrow> string \<Rightarrow> db \<Rightarrow> routed_request \<Rightarrow> routed_request" where
  "stored_gates a auth resource s routed =
     (case created_for_another (ag_id a) auth resource s of
        Some note \<Rightarrow>
          if is_auto (route_action (rq_route routed))
          then routed\<lparr>rq_route := RSurface, rq_notes := rq_notes routed @ [cps note]\<rparr>
          else routed
      | None \<Rightarrow> routed)"

record rerouted =
  ro_decision :: policy_decision
  ro_routed :: "routed_request option"

text \<open>What routing sees of a request: the arguments are the fields of \<open>Subject\<close>.\<close>

definition subject_input :: "agent_row \<Rightarrow> delegator \<Rightarrow> string \<Rightarrow> authority \<Rightarrow> policy_input" where
  "subject_input a d resource auth =
     \<lparr>in_agent = agent_ref_of a, in_delegation = as_policy d, in_resource = resource, in_authority = auth\<rparr>"

definition reroute ::
  "policy \<Rightarrow> request_id \<Rightarrow> agent_row \<Rightarrow> delegator \<Rightarrow> string \<Rightarrow> authority \<Rightarrow> int \<Rightarrow> db \<Rightarrow> rerouted" where
  "reroute p request a d resource auth now s =
     (let saved = saved_rules (authority_platform auth) now s; i = subject_input a d resource auth in
      case zone_check_db p a auth resource s of
        Ok zone \<Rightarrow>
          (let (decision, routed) = evaluate_and_route p request i saved zone now in
           \<lparr>ro_decision = decision, ro_routed = Some (stored_gates a auth resource s routed)\<rparr>)
      | Err denied \<Rightarrow> \<lparr>ro_decision = evaluate p i saved now, ro_routed = None\<rparr>)"

definition ro_route :: "rerouted \<Rightarrow> route option" where
  "ro_route r = map_option rq_route (ro_routed r)"

datatype typical_disposition = AutoApprove_disposition | HumanReview | LlmReview | Denied_disposition

definition disposition :: "policy \<Rightarrow> agent_row \<Rightarrow> authority \<Rightarrow> int \<Rightarrow> db \<Rightarrow> typical_disposition" where
  "disposition p a auth now s =
     (let d = evaluate p (subject_input a No_delegator ''*'' auth) (saved_rules (authority_platform auth) now s) now in
      if is_auto (pd_action d) \<and> \<not> pd_explicit d \<and> needs_explicit_rule auth then HumanReview
      else case pd_action d of
        Approve \<Rightarrow> AutoApprove_disposition
      | Surface \<Rightarrow> HumanReview
      | Llm \<Rightarrow> LlmReview
      | Deny \<Rightarrow> Denied_disposition)"

end
