(* ===== verification/Service.thy ===== *)
theory Service
  imports Service_Routing
begin

text \<open>
  Approving, provisioning in two phases and ending grants (\<open>broker/src/service/provision.rs\<close>). One definition is one transaction of the code; where a function
  runs several, it goes from database to database. What a provisioner answers is an argument: of the
  tables here a provisioner writes only the alias it created and that grant's resource
  (\<open>store/src/mail.rs\<close>). New ids and the time are arguments too.
\<close>

section \<open>Moving a request\<close>

definition CONCURRENT :: string where "CONCURRENT = ''request changed state concurrently''"

definition step :: "request_row \<Rightarrow> entry \<Rightarrow> int \<Rightarrow> request_row tx" where
  "step request e now =
     tx_bind (transition request e now) (\<lambda>moved. tx_lift (map_err (\<lambda>l. Transition_refused CONCURRENT) moved))"

definition begin_provision :: "request_row \<Rightarrow> grant_id \<Rightarrow> int \<Rightarrow> grant_id option tx" where
  "begin_provision request gid now =
     tx_bind (step request Enter_provisioning now) (\<lambda>r.
     tx_bind (tx_get (check (rr_agent r) now)) (\<lambda>held.
       case held of
         Err h \<Rightarrow> tx_bind (step r (Enter_failed (held_why_text h)) now) (\<lambda>_. tx_return None)
       | Ok not_held \<Rightarrow>
           tx_bind (begin_grant r not_held gid now) (\<lambda>begun.
             case begun of
               Ok g \<Rightarrow> tx_return (Some (gr_id g))
             | Err refused \<Rightarrow> tx_bind (step r (Enter_failed (begin_refused_text refused)) now) (\<lambda>_. tx_return None))))"

text \<open>Both move the request of a grant, if it is still being provisioned.\<close>

definition move_provisioning :: "request_id \<Rightarrow> entry \<Rightarrow> int \<Rightarrow> unit tx" where
  "move_provisioning i e now =
     tx_bind (tx_get (\<lambda>s. opt_filter (\<lambda>r. rr_status r = Provisioning) (find_request i s))) (\<lambda>found.
       case found of
         None \<Rightarrow> tx_return ()
       | Some r \<Rightarrow> tx_bind (step r e now) (\<lambda>_. tx_return ()))"

definition fail_request :: "request_id \<Rightarrow> string \<Rightarrow> int \<Rightarrow> unit tx" where
  "fail_request i why now = move_provisioning i (Enter_failed why) now"

definition grant_succeeded :: "request_id \<Rightarrow> int \<Rightarrow> unit tx" where
  "grant_succeeded i now = move_provisioning i Enter_granted now"

section \<open>Finishing\<close>

datatype provision_error = Failed string | NotImplemented

fun provision_error_text :: "provision_error \<Rightarrow> string" where
  "provision_error_text (Failed t) = t"
| "provision_error_text NotImplemented = ''not implemented''"

definition contains_text :: "string \<Rightarrow> string \<Rightarrow> bool" where
  "contains_text t part = list_ex (\<lambda>n. take (length part) (drop n t) = part) [0..<Suc (length t)]"

definition TRANSPORT :: "string list" where
  "TRANSPORT = [''error sending request'', ''error decoding'', ''error trying to connect'', ''connection'', ''timed out'',
     ''dns error'', ''tcp connect'', ''certificate'', ''request or response body error'']"

definition agent_visible :: "provision_error \<Rightarrow> string" where
  "agent_visible e =
     (let t = provision_error_text e in
      if list_ex (contains_text (to_lowercase t)) TRANSPORT then ''the platform could not be reached; try again later''
      else take 300 t)"

definition TOO_SLOW :: string where "TOO_SLOW = ''the platform did not answer in time; try again later''"

text \<open>What the provisioner did: the state it keeps, an error (of \<open>prepare\<close> or \<open>provision\<close>), or no answer in time
  and then whether undoing it worked.\<close>

datatype provision_outcome = Provisioned json | Provision_failed provision_error | Timed_out bool

definition set_created_alias :: "grant_row \<Rightarrow> string \<Rightarrow> unit tx" where
  "set_created_alias g address =
     tx_bind (tx_put (\<lambda>s. s\<lparr>db_aliases :=
        (if map_of (db_aliases s) (to_lowercase address) = None then db_aliases s @ [(to_lowercase address, gr_agent g)]
         else db_aliases s)\<rparr>)) (\<lambda>_.
     tx_put (update_grants (\<lambda>h. gr_id h = gr_id g \<and> gr_status h = GProvisioning) (\<lambda>h. h\<lparr>gr_resource := address\<rparr>)))"

definition provisioner_writes :: "grant_row \<Rightarrow> string option \<Rightarrow> unit tx" where
  "provisioner_writes g created = (case created of None \<Rightarrow> tx_return () | Some address \<Rightarrow> set_created_alias g address)"

definition record_failure :: "grant_row \<Rightarrow> string \<Rightarrow> int option \<Rightarrow> int \<Rightarrow> unit tx" where
  "record_failure g why reverted_at now =
     tx_bind (fail_provisioning g why reverted_at) (\<lambda>_. fail_request (gr_request g) why now)"

text \<open>The failure recorded in a transaction of its own, when the provisioner's broke the first.\<close>

definition record_failure_fresh :: "grant_id \<Rightarrow> request_id \<Rightarrow> string \<Rightarrow> int \<Rightarrow> unit tx" where
  "record_failure_fresh gid rid why now =
     tx_bind (tx_get (load_provisioning gid)) (\<lambda>loaded.
     tx_bind (case loaded of None \<Rightarrow> tx_return () | Some g \<Rightarrow> tx_bind (fail_provisioning g why None) (\<lambda>_. tx_return ())) (\<lambda>_.
     fail_request rid why now))"

definition finish_inner :: "app_state \<Rightarrow> grant_id \<Rightarrow> provision_outcome \<Rightarrow> string option \<Rightarrow> int \<Rightarrow> unit tx" where
  "finish_inner app gid outcome created now =
     tx_bind (tx_get (\<lambda>s. (load_provisioning gid s, map_option (\<lambda>g. check (gr_agent g) now s) (find_grant gid s)))) (\<lambda>loaded.
       case loaded of
         (Some g, Some (Err held)) \<Rightarrow> record_failure g (held_why_text held) None now
       | (Some g, Some (Ok not_held)) \<Rightarrow>
           if gr_platform g \<notin> set (app_platforms app) then record_failure g (not_enabled (gr_platform g)) None now
           else (case outcome of
             Timed_out undone \<Rightarrow>
               if undone then tx_bind (provisioner_writes g created) (\<lambda>_. record_failure g TOO_SLOW (Some now) now)
               else tx_return ()
           | Provision_failed e \<Rightarrow>
               (\<lambda>s. case tx_bind (provisioner_writes g created) (\<lambda>_. record_failure g (agent_visible e) None now) s of
                      Ok done \<Rightarrow> Ok done
                    | Err broken \<Rightarrow> record_failure_fresh gid (gr_request g) (agent_visible e) now s)
           | Provisioned st \<Rightarrow>
               tx_bind (provisioner_writes g created) (\<lambda>_.
               tx_bind (activate g not_held st) (\<lambda>moved.
                 case moved of
                   Ok g' \<Rightarrow> grant_succeeded (gr_request g) now
                 | Err l \<Rightarrow> tx_return ())))
       | _ \<Rightarrow> tx_return ())"

section \<open>Ending grants\<close>

definition RETIRED :: string where "RETIRED = ''platform no longer configured''"

definition revoke_external :: "app_state \<Rightarrow> grant_row \<Rightarrow> (provision_error, unit) result \<Rightarrow> (service_error, bool) result" where
  "revoke_external app g answer =
     (if gr_platform g \<in> set (app_platforms app)
      then map_ok (\<lambda>_. True) (map_err (\<lambda>e. Provision_error (provision_error_text e)) answer)
      else if gr_platform g \<in> set (app_retired app) then Ok False
      else Err (NotEnabled (gr_platform g)))"

record reap_why =
  why_grant :: string
  why_request :: string

definition interrupted :: reap_why where
  "interrupted = \<lparr>why_grant = ''provisioning interrupted; external state reverted'',
     why_request = ''interrupted (broker restarted mid-provision)''\<rparr>"

definition contained_while :: reap_why where
  "contained_while = \<lparr>why_grant = ''contained while provisioning; external state reverted'',
     why_request = ''contained while provisioning''\<rparr>"

definition reap_one :: "app_state \<Rightarrow> grant_id \<Rightarrow> (provision_error, unit) result \<Rightarrow> reap_why \<Rightarrow> int \<Rightarrow> request_id option tx" where
  "reap_one app gid answer why now =
     tx_bind (tx_get (load_provisioning gid)) (\<lambda>loaded.
       case loaded of
         None \<Rightarrow> tx_return None
       | Some g \<Rightarrow>
           tx_bind (tx_lift (revoke_external app g answer)) (\<lambda>external.
           tx_bind (fail_provisioning g (if external then why_grant why else RETIRED) (Some now)) (\<lambda>moved.
             case moved of
               Err l \<Rightarrow> tx_return None
             | Ok g' \<Rightarrow> tx_bind (fail_request (gr_request g) (why_request why) now) (\<lambda>_. tx_return (Some (gr_request g))))))"

text \<open>Which grants the two reapers take: those older than an age, and those of agents just contained.\<close>

definition reapable_of :: "agent_id list \<Rightarrow> int \<Rightarrow> db \<Rightarrow> grant_id list" where
  "reapable_of agents now s =
     filter (\<lambda>i. is_some_and (\<lambda>g. gr_agent g \<in> set agents) (find_grant i s)) (stale_provisioning now s)"

fun reap_each ::
  "app_state \<Rightarrow> (grant_id \<Rightarrow> (provision_error, unit) result) \<Rightarrow> reap_why \<Rightarrow> int \<Rightarrow> grant_id list \<Rightarrow> db \<Rightarrow> request_id list \<times> db" where
  "reap_each app answers why now [] s = ([], s)"
| "reap_each app answers why now (i # is) s =
     (case run_tx (reap_one app i (answers i) why now) s of
        (Ok (Some r), s') \<Rightarrow> (let (rs, t) = reap_each app answers why now is s' in (r # rs, t))
      | (_, s') \<Rightarrow> reap_each app answers why now is s')"

definition reap_stale_provisioning ::
  "app_state \<Rightarrow> (grant_id \<Rightarrow> (provision_error, unit) result) \<Rightarrow> int \<Rightarrow> int \<Rightarrow> db \<Rightarrow> nat \<times> db" where
  "reap_stale_provisioning app answers max_age now s =
     (let (rs, t) = reap_each app answers interrupted now (stale_provisioning (now - max_age) s) s in (length rs, t))"

definition reap_provisioning_of ::
  "app_state \<Rightarrow> (grant_id \<Rightarrow> (provision_error, unit) result) \<Rightarrow> agent_id list \<Rightarrow> int \<Rightarrow> db \<Rightarrow> db" where
  "reap_provisioning_of app answers agents now s = snd (reap_each app answers contained_while now (reapable_of agents now s) s)"

definition NOT_ACTIVE :: string where "NOT_ACTIVE = ''grant is not active''"

text \<open>The transaction of a revoke; \<open>Inl\<close> in its result is the provisioner's failure, after which the code
  lets go of this transaction and expires the grant in another.\<close>

definition revoke_inner ::
  "app_state \<Rightarrow> grant_id \<Rightarrow> string \<Rightarrow> string \<Rightarrow> (provision_error, unit) result \<Rightarrow> int \<Rightarrow> (service_error, grant_row) result tx" where
  "revoke_inner app gid reason revoked_by answer now =
     tx_bind (tx_get (\<lambda>s. opt_filter (\<lambda>g. gr_status g = GActive) (find_grant gid s))) (\<lambda>found.
       case found of
         None \<Rightarrow> tx_fail (Transition_refused NOT_ACTIVE)
       | Some g \<Rightarrow>
           (case revoke_external app g answer of
              Err e \<Rightarrow> tx_return (Err e)
            | Ok external \<Rightarrow>
                tx_bind (end_grant gid (Revoked_end
                    (if \<not> external then RETIRED else if revoked_by = [] then reason
                     else reason @ '' ('' @ revoked_by @ '')'')) now) (\<lambda>ended.
                tx_bind (tx_lift (map_err (\<lambda>l. Transition_refused NOT_ACTIVE) ended)) (\<lambda>g'. tx_return (Ok g')))))"

definition revoke_grant ::
  "app_state \<Rightarrow> grant_id \<Rightarrow> string \<Rightarrow> string \<Rightarrow> (provision_error, unit) result \<Rightarrow> int \<Rightarrow> db
   \<Rightarrow> (service_error, grant_row) result \<times> db" where
  "revoke_grant app gid reason revoked_by answer now s =
     (case run_tx (revoke_inner app gid reason revoked_by answer now) s of
        (Err e, s') \<Rightarrow> (Err e, s')
      | (Ok (Ok g), s') \<Rightarrow> (Ok g, s')
      | (Ok (Err e), s') \<Rightarrow> (Err e, snd (run_tx (expire_now gid now) s')))"

definition revoke_if_held ::
  "app_state \<Rightarrow> grant_id \<Rightarrow> (provision_error, unit) result \<Rightarrow> int \<Rightarrow> int \<Rightarrow> db \<Rightarrow> (service_error, unit) result \<times> db" where
  "revoke_if_held app gid answer now later s =
     (case opt_filter (\<lambda>g. gr_status g = GActive) (find_grant gid s) of
        None \<Rightarrow> (Ok (), s)
      | Some g \<Rightarrow>
          (case check (gr_agent g) now s of
             Ok n \<Rightarrow> (Ok (), s)
           | Err held \<Rightarrow>
               (case revoke_grant app gid (held_why_text held) ''containment'' answer later s of
                  (Ok ended, s') \<Rightarrow> (Ok (), s')
                | (Err (Transition_refused t), s') \<Rightarrow> (Ok (), s')
                | (Err e, s') \<Rightarrow> (case run_tx (expire_now gid now) s' of (r, s'') \<Rightarrow> (map_ok (\<lambda>_. ()) r, s'')))))"

text \<open>Phase two: what goes wrong in either part is logged and left to the reaper or the expiry pass.\<close>

definition finish_provision ::
  "app_state \<Rightarrow> grant_id \<Rightarrow> provision_outcome \<Rightarrow> string option \<Rightarrow> (provision_error, unit) result \<Rightarrow> int \<Rightarrow> int \<Rightarrow> int \<Rightarrow> db \<Rightarrow> db" where
  "finish_provision app gid outcome created answer now later latest s =
     snd (revoke_if_held app gid answer later latest (snd (run_tx (finish_inner app gid outcome created now) s)))"

definition expire_one :: "app_state \<Rightarrow> grant_id \<Rightarrow> (provision_error, unit) result \<Rightarrow> int \<Rightarrow> grant_row option tx" where
  "expire_one app gid answer now =
     tx_bind (tx_get (\<lambda>s. opt_filter (\<lambda>g. gr_status g = GActive \<and> gr_expires_at g \<le> now) (find_grant gid s))) (\<lambda>found.
       case found of
         None \<Rightarrow> tx_return None
       | Some g \<Rightarrow>
           tx_bind (tx_lift (revoke_external app g answer)) (\<lambda>external.
           tx_bind (end_grant gid (if external then Expired_end else Revoked_end RETIRED) now) (\<lambda>ended.
           tx_return (case ended of Ok g' \<Rightarrow> Some g' | Err l \<Rightarrow> None))))"

fun expire_each ::
  "app_state \<Rightarrow> (grant_id \<Rightarrow> (provision_error, unit) result) \<Rightarrow> int \<Rightarrow> grant_id list \<Rightarrow> db \<Rightarrow> nat \<times> db" where
  "expire_each app answers now [] s = (0, s)"
| "expire_each app answers now (i # is) s =
     (let (r, s') = run_tx (expire_one app i (answers i) now) s; (n, t) = expire_each app answers now is s' in
      (case r of Ok (Some g) \<Rightarrow> n + 1 | _ \<Rightarrow> n, t))"

definition expire_due_grants ::
  "app_state \<Rightarrow> (grant_id \<Rightarrow> (provision_error, unit) result) \<Rightarrow> int \<Rightarrow> db \<Rightarrow> nat \<times> db" where
  "expire_due_grants app answers now s = expire_each app answers now (due now s) s"

definition closed_reason :: "string option \<Rightarrow> string" where
  "closed_reason why = ''delegation thread closed ('' @ (case why of Some w \<Rightarrow> w | None \<Rightarrow> ''closed'') @ '')''"

fun revoke_each ::
  "app_state \<Rightarrow> (grant_id \<Rightarrow> (provision_error, unit) result) \<Rightarrow> int \<Rightarrow> (grant_id \<times> string option) list \<Rightarrow> db \<Rightarrow> nat \<times> db" where
  "revoke_each app answers now [] s = (0, s)"
| "revoke_each app answers now ((i, why) # rest) s =
     (let (r, s') = revoke_grant app i (closed_reason why) ''scheduler'' (answers i) now s;
          (n, t) = revoke_each app answers now rest s' in
      (case r of Ok g \<Rightarrow> n + 1 | Err e \<Rightarrow> n, t))"

definition revoke_delegated_for_closed_threads ::
  "app_state \<Rightarrow> (grant_id \<Rightarrow> (provision_error, unit) result) \<Rightarrow> int \<Rightarrow> db \<Rightarrow> nat \<times> db" where
  "revoke_delegated_for_closed_threads app answers now s = revoke_each app answers now (delegated_on_closed_threads s) s"

end
