(* ===== verification/Service_Create.thy ===== *)
theory Service_Create
  imports Service
begin

text \<open>
  Creating a request (\<open>broker/src/service/create.rs\<close>): one transaction that checks containment, resolves a
  delegation, parses and validates what is asked, checks zones, evaluates the policy and takes the
  route. What happens after its commit is \<open>after\<close>. A refusal is a request recorded denied.
\<close>

section \<open>Drafts\<close>

record request_create =
  rc_platform :: platform
  rc_resource :: string
  rc_capability :: string
  rc_scope :: json_map
  rc_justification :: string
  rc_secs :: nat
  rc_thread :: "string option"

record draft =
  dr_id :: request_id
  dr_agent :: agent_row
  dr_session :: "session_id option"
  dr_delegation :: "store_delegation option"
  dr_body :: request_create
  dr_notes :: "codepoints list"
  dr_now :: int

definition draft_insert :: "draft \<Rightarrow> string \<Rightarrow> authority option \<Rightarrow> request_row tx" where
  "draft_insert d resource auth =
     insert_request \<lparr>nr_id = dr_id d, nr_agent = ag_id (dr_agent d), nr_session = dr_session d, nr_delegation = dr_delegation d,
       nr_platform = rc_platform (dr_body d), nr_resource = resource, nr_capability = rc_capability (dr_body d),
       nr_scope = JObj (rc_scope (dr_body d)), nr_authority = auth, nr_justification = rc_justification (dr_body d),
       nr_requested_secs = rc_secs (dr_body d), nr_notes = dr_notes d, nr_now = dr_now d\<rparr>"

definition refuse :: "draft \<Rightarrow> string \<Rightarrow> authority option \<Rightarrow> string \<Rightarrow> request_row tx" where
  "refuse d resource auth reason =
     tx_bind (draft_insert d resource auth) (\<lambda>p.
     step p (Enter_denied \<lparr>dn_source = Policy_source, dn_decided_by = None, dn_reason = reason\<rparr>) (dr_now d))"

datatype after = After_nothing | After_llm | After_surface | After_rule_applied rule_id | After_policy_approved

type_synonym created = "request_row \<times> after \<times> grant_id option"

definition created_refused :: "draft \<Rightarrow> string \<Rightarrow> authority option \<Rightarrow> string \<Rightarrow> created tx" where
  "created_refused d resource auth reason =
     tx_bind (refuse d resource auth reason) (\<lambda>row. tx_return (row, After_nothing, None))"

section \<open>Taking the route\<close>

definition rule_id_text :: "rule_id \<Rightarrow> string" where
  "rule_id_text i = (case i of RuleId n \<Rightarrow>
     (let h = map (\<lambda>c. char_of c) (hex_fixed 32 n) in
      take 8 h @ ''-'' @ take 4 (drop 8 h) @ ''-'' @ take 4 (drop 12 h) @ ''-'' @ take 4 (drop 16 h) @ ''-'' @ drop 20 h))"

definition window_or_policy :: "policy_decision \<Rightarrow> string" where
  "window_or_policy d =
     (case (pd_window d, decision_rule_id d) of (True, Some i) \<Rightarrow> ''window:'' @ rule_id_text i | _ \<Rightarrow> ''policy'')"

definition applied_rule :: "policy_decision \<Rightarrow> route \<Rightarrow> rule_id option" where
  "applied_rule d route =
     opt_filter (\<lambda>i. decision_source_of d = Rule_source \<and> route_action route \<in> {Approve, Deny}) (decision_rule_id d)"

definition take_route ::
  "app_state \<Rightarrow> request_row \<Rightarrow> nat \<Rightarrow> policy_decision \<Rightarrow> route \<Rightarrow> grant_id \<Rightarrow> int \<Rightarrow> created tx" where
  "take_route app pending requested d route gid now =
     (case route of
        RDeny \<Rightarrow>
          tx_bind (step pending (Enter_denied \<lparr>dn_source = decision_source_of d, dn_decided_by = None, dn_reason = pd_reason d\<rparr>) now) (\<lambda>r.
          tx_return (r, case applied_rule d route of None \<Rightarrow> After_nothing | Some i \<Rightarrow> After_rule_applied i, None))
      | RApprove clearance \<Rightarrow>
          tx_bind (step pending (Enter_approved (approval_auto clearance (window_or_policy d) (pd_reason d)
              (policy_cap (app_policy app) (clamp_duration requested) (Some (pd_max_duration d))))) now) (\<lambda>approved.
          tx_bind (begin_provision approved gid now) (\<lambda>grant.
          tx_bind (tx_get (find_request (rr_id approved))) (\<lambda>found.
          tx_bind (tx_lift (ok_or found (Transition_refused CONCURRENT))) (\<lambda>row.
          tx_return (row,
            case applied_rule d route of
              Some i \<Rightarrow> After_rule_applied i
            | None \<Rightarrow> if decision_source_of d = Policy_source then After_policy_approved else After_nothing,
            grant)))))
      | RLlm clearance \<Rightarrow>
          if \<not> app_llm app then
            tx_bind (step pending (Enter_human (Some (cps ''llm evaluator unavailable''))) now) (\<lambda>r. tx_return (r, After_surface, None))
          else tx_bind (step pending (Enter_llm clearance None) now) (\<lambda>r. tx_return (r, After_llm, None))
      | RSurface \<Rightarrow>
          tx_bind (step pending (Enter_human None) now) (\<lambda>r. tx_return (r, After_surface, None)))"

section \<open>Creating\<close>

text \<open>Once validated: zones, the saved rules, the policy, the gates, the row and its first move.\<close>

definition create_validated ::
  "app_state \<Rightarrow> draft \<Rightarrow> delegator \<Rightarrow> validated \<Rightarrow> grant_id \<Rightarrow> created tx" where
  "create_validated app d delegator v gid =
     (let p = app_policy app; a = dr_agent d; now = dr_now d; body = dr_body d in
      tx_bind (tx_unless (authority_platform (va_authority v) \<noteq> rc_platform body)
        (Store (OutOfRange (''a validator returned another platform'' @ [CHR 0x27] @ ''s authority'')))) (\<lambda>_.
      tx_bind (tx_get (zone_check_db p a (va_authority v) (va_resource v))) (\<lambda>zone.
        case zone of
          Err denied \<Rightarrow> created_refused d (va_resource v) (Some (va_authority v)) (request_reason denied)
        | Ok z \<Rightarrow>
            tx_bind (tx_get (\<lambda>s.
              let (decision, routed) = evaluate_and_route p (dr_id d)
                    (subject_input a delegator (va_resource v) (va_authority v)) (saved_rules (rc_platform body) now s) z now
              in (decision, stored_gates a (va_authority v) (va_resource v) s routed))) (\<lambda>(decision, routed).
            tx_bind (draft_insert (d\<lparr>dr_notes := dr_notes d @ va_notes v @ rq_notes routed\<rparr>) (va_resource v) (Some (va_authority v)))
              (\<lambda>pending. take_route app pending (rc_secs body) decision (rq_route routed) gid now)))))"

definition create_delegated :: "app_state \<Rightarrow> draft \<Rightarrow> delegator \<Rightarrow> grant_id \<Rightarrow> created tx" where
  "create_delegated app d delegator gid =
     (let body = dr_body d; p = rc_platform body; resource = rc_resource body in
      tx_bind (tx_unless (p \<notin> set (app_platforms app)) (NotEnabled p)) (\<lambda>_.
        case from_wire (app_time app) p (rc_capability body) (rc_scope body) of
          Err e \<Rightarrow> created_refused d resource None (''validator: '' @ app_error_text app e)
        | Ok auth \<Rightarrow>
            tx_bind (tx_get (app_validate app p (dr_agent d) resource auth (dr_now d))) (\<lambda>answer.
            tx_bind (tx_lift answer) (\<lambda>outcome.
              case outcome of
                Err why \<Rightarrow> created_refused d resource (Some auth) (''validator: '' @ why)
              | Ok v \<Rightarrow> create_validated app d delegator v gid))))"

definition create ::
  "app_state \<Rightarrow> agent_caller \<Rightarrow> request_create \<Rightarrow> request_id \<Rightarrow> grant_id \<Rightarrow> int \<Rightarrow> created tx" where
  "create app caller body rid gid now =
     (let d = \<lparr>dr_id = rid, dr_agent = caller_agent caller, dr_session = caller_session caller, dr_delegation = None,
               dr_body = body, dr_notes = [], dr_now = now\<rparr>;
          resource = rc_resource body in
      tx_bind (tx_get (check (ag_id (caller_agent caller)) now)) (\<lambda>held.
        case held of
          Err h \<Rightarrow> created_refused d resource None (held_why_text h)
        | Ok agent \<Rightarrow>
            (case opt_filter (\<lambda>t. t \<noteq> []) (rc_thread body) of
               None \<Rightarrow> create_delegated app (d\<lparr>dr_agent := agent\<rparr>) No_delegator gid
             | Some cited \<Rightarrow>
                 tx_bind (tx_get (resolve_delegation app caller (rc_platform body) cited)) (\<lambda>resolved.
                   case resolved of
                     Err problem \<Rightarrow> created_refused (d\<lparr>dr_agent := agent\<rparr>) resource None (''delegation: '' @ problem)
                   | Ok (delegation, note) \<Rightarrow>
                       tx_bind (tx_get (load_delegator (del_delegator delegation))) (\<lambda>delegator.
                       create_delegated app (d\<lparr>dr_agent := agent, dr_delegation := Some delegation, dr_notes := [note]\<rparr>)
                         delegator gid)))))"

end
