(* ===== verification/Service_Decide.thy ===== *)
theory Service_Decide
  imports Service_Create
begin

text \<open>
  Human decisions, containment's denials and a new window applied to waiting requests
  (\<open>broker/src/service/decide.rs\<close>), and the reviewer's task with retry and escalation
  (\<open>broker/src/service/llm_task.rs\<close>). A function that reads, then asks someone, then writes is its two
  transactions: the gate is asked between \<open>run_gate\<close> and \<open>decide_inner\<close>, the reviewer between
  \<open>review_read\<close> and \<open>review_act\<close>, and the database may have changed in between.
\<close>

section \<open>Decisions\<close>

record rule_from_decision =
  rf_action :: saved_rule_action
  rf_resource_pattern :: "string option"
  rf_any_authority :: bool

record human_decision =
  hd_approve :: bool
  hd_reason :: string
  hd_secs :: "nat option"
  hd_resource :: "string option"
  hd_scope :: "json_map option"
  hd_rule :: "rule_from_decision option"
  hd_totp :: "string option"
  hd_desk :: "string option"

definition deny_decision :: "string \<Rightarrow> human_decision" where
  "deny_decision reason = \<lparr>hd_approve = False, hd_reason = reason, hd_secs = None, hd_resource = None, hd_scope = None,
     hd_rule = None, hd_totp = None, hd_desk = None\<rparr>"

datatype decider = Decider_human string | Decider_containment string

fun decider_label :: "decider \<Rightarrow> string" where
  "decider_label (Decider_human who) = who"
| "decider_label (Decider_containment by_whom) = by_whom"

definition resolved_error :: "request_status \<Rightarrow> service_error" where
  "resolved_error st = Transition_refused (''request already resolved (status '' @ request_status_as_str st @ '')'')"

definition UNKNOWN_REQUEST :: service_error where "UNKNOWN_REQUEST = Transition_refused ''unknown request''"

definition NO_AUTHORITY :: service_error where "NO_AUTHORITY = Transition_refused ''request has no authority''"

fun asks_shell :: "authority option \<Rightarrow> bool" where
  "asks_shell (Some (AuthHostexec (Shell t m))) = True"
| "asks_shell a = False"

text \<open>What the gate is asked, if it is: nothing for a platform without one, or an agent that is held.\<close>

definition run_gate ::
  "app_state \<Rightarrow> request_id \<Rightarrow> human_decision \<Rightarrow> int \<Rightarrow> db \<Rightarrow> (service_error, (request_row \<times> agent_row) option) result" where
  "run_gate app i decision now s =
     (case find_request i s of
        None \<Rightarrow> Err UNKNOWN_REQUEST
      | Some r \<Rightarrow>
          if \<not> is_human_decidable (rr_status r) then Err (resolved_error (rr_status r))
          else if asks_shell (rr_authority r) \<and> hd_desk decision \<noteq> Some (rr_resource r)
                  \<and> is_none_or (\<lambda>t. trim t = []) (hd_totp decision)
          then Err (Transition_refused (''a shell is approved with a TOTP code (Approve with TOTP) or at its host''
                      @ [CHR 0x27] @ ''s desk''))
          else if rr_platform r \<notin> set (app_gates app) then
            (if rr_platform r = Hostexec_platform
             then Err (Transition_refused ''host approvals are unavailable: this broker has no hostexec gate running'')
             else Ok None)
          else if \<not> is_ok (check (rr_agent r) now s) then Ok None
          else case find_agent (rr_agent r) s of
            None \<Rightarrow> Err UNKNOWN_REQUEST
          | Some a \<Rightarrow> Ok (Some (r, a)))"

definition rejected :: "string \<Rightarrow> service_error" where
  "rejected why = Transition_refused (''edited approval rejected by validator: '' @ why)"

definition revalidate ::
  "app_state \<Rightarrow> agent_row \<Rightarrow> request_row \<Rightarrow> human_decision \<Rightarrow> int \<Rightarrow> db \<Rightarrow> (service_error, approved_edit) result" where
  "revalidate app a row decision now s =
     bind (ok_or (rr_authority row) NO_AUTHORITY) (\<lambda>current.
     bind (case hd_scope decision of
             Some scope \<Rightarrow> map_err (\<lambda>e. rejected (app_error_text app e))
                              (from_wire (app_time app) (rr_platform row) (capability current) scope)
           | None \<Rightarrow> Ok current) (\<lambda>auth.
     if rr_platform row \<notin> set (app_platforms app) then Err (NotEnabled (rr_platform row))
     else bind (app_validate app (rr_platform row) a
                  (case hd_resource decision of Some r \<Rightarrow> r | None \<Rightarrow> rr_resource row) auth now s) (\<lambda>outcome.
          bind (map_err rejected outcome) (\<lambda>v.
          if authority_platform (va_authority v) \<noteq> rr_platform row
          then Err (rejected (''another platform'' @ [CHR 0x27] @ ''s authority''))
          else bind (map_err (\<lambda>z. rejected (denied_text z)) (zone_check_db (app_policy app) a (va_authority v) (va_resource v) s))
                 (\<lambda>_. Ok \<lparr>ed_resource = va_resource v, ed_authority = va_authority v\<rparr>)))))"

text \<open>To the state a human decides from: the reviewer's states hop through it.\<close>

definition to_human :: "request_row \<Rightarrow> int \<Rightarrow> request_row tx" where
  "to_human r now =
     (if rr_status r = AwaitingHuman then tx_return r
      else if rr_status r = LlmEvaluating \<or> rr_status r = LlmDenied then step r (Enter_human None) now
      else tx_fail (resolved_error (rr_status r)))"

definition decision_rule ::
  "agent_row \<Rightarrow> request_row \<Rightarrow> delegator \<Rightarrow> human_decision \<Rightarrow> rule_from_decision \<Rightarrow> approved_edit option \<Rightarrow> string \<Rightarrow> rule_id \<Rightarrow> int \<Rightarrow> rule_row" where
  "decision_rule a row del decision rule edit who rid now =
     \<lparr>ru_id = rid, ru_action = rf_action rule, ru_agent_pattern = ag_name a, ru_delegator_pattern = delegator_name del,
      ru_platform = rr_platform row,
      ru_resource_pattern = (case rf_resource_pattern rule of
          Some p \<Rightarrow> p
        | None \<Rightarrow> glob_literal (case edit of None \<Rightarrow> rr_resource row | Some e \<Rightarrow> ed_resource e)),
      ru_authority = (case edit of Some e \<Rightarrow> if rf_any_authority rule then None else Some (ed_authority e) | None \<Rightarrow> None),
      ru_max_secs = map_option (\<lambda>d. min d MAX_DURATION_SECS) (hd_secs decision), ru_enabled = True, ru_created_by = who,
      ru_notes = (if hd_reason decision = [] then ''created from decision'' else hd_reason decision),
      ru_expires_at = None, ru_created_at = now\<rparr>"

definition approve_human ::
  "request_row \<Rightarrow> string \<Rightarrow> human_approval option \<Rightarrow> string \<Rightarrow> nat \<Rightarrow> int \<Rightarrow> request_row tx" where
  "approve_human request who attested reason dur now =
     tx_bind (tx_lift (case attested of
         Some a \<Rightarrow>
           if approved_request a = rr_id request \<and> decided_by a = who then Ok a
           else Err (Transition_refused ''the approval is for another request or person'')
       | None \<Rightarrow> Ok (attest (rr_id request) who))) (\<lambda>attestation.
     step request (Enter_approved (approval_human attestation reason dur)) now)"

definition human_secs :: "app_state \<Rightarrow> human_decision \<Rightarrow> request_row \<Rightarrow> nat" where
  "human_secs app decision row =
     (let base = (case hd_secs decision of
                    Some d \<Rightarrow> d
                  | None \<Rightarrow> policy_cap (app_policy app) (clamp_duration (rr_requested_secs row)) None)
      in max 1 (min base MAX_DURATION_SECS))"

definition decide_inner ::
  "app_state \<Rightarrow> request_id \<Rightarrow> decider \<Rightarrow> human_approval option \<Rightarrow> human_decision \<Rightarrow> rule_id \<Rightarrow> grant_id \<Rightarrow> int \<Rightarrow> int
   \<Rightarrow> grant_id option tx" where
  "decide_inner app i who attested decision rid gid now clock =
     tx_bind (tx_get (find_request i)) (\<lambda>loaded.
     tx_bind (tx_lift (ok_or loaded UNKNOWN_REQUEST)) (\<lambda>r.
     tx_bind (to_human r now) (\<lambda>awaiting.
     tx_bind (tx_get (find_agent (rr_agent awaiting))) (\<lambda>found.
     tx_bind (tx_lift (ok_or found UNKNOWN_REQUEST)) (\<lambda>a.
     (let approving = (case who of Decider_human h \<Rightarrow> hd_approve decision | Decider_containment h \<Rightarrow> False) in
     tx_bind (if approving then tx_bind (tx_get (revalidate app a awaiting decision now)) (\<lambda>e. tx_lift (map_ok Some e))
              else tx_return None) (\<lambda>edit.
     tx_bind (case hd_rule decision of
         None \<Rightarrow> tx_return ()
       | Some rule \<Rightarrow>
           tx_bind (tx_get (delegator_of awaiting)) (\<lambda>del.
           tx_bind (insert_rule (decision_rule a awaiting del decision rule edit (decider_label who) rid now)) (\<lambda>_. tx_return ()))) (\<lambda>_.
       case edit of
         Some e \<Rightarrow>
           tx_bind (approve_human awaiting (decider_label who) attested (hd_reason decision) (human_secs app decision awaiting) now) (\<lambda>approved.
           tx_bind (set_approved_edit approved e clock) (\<lambda>set.
           tx_bind (tx_lift (map_err (\<lambda>l. Transition_refused CONCURRENT) set)) (\<lambda>edited.
           begin_provision edited gid now)))
       | None \<Rightarrow>
           tx_bind (step awaiting (Enter_denied \<lparr>dn_source = Human_source, dn_decided_by = Some (decider_label who),
              dn_reason = hd_reason decision\<rparr>) now) (\<lambda>_. tx_return None)))))))))"

text \<open>Containment: each waiting request is denied on its own; a request that moved meanwhile is left.\<close>

fun deny_each :: "app_state \<Rightarrow> string \<Rightarrow> string \<Rightarrow> int \<Rightarrow> request_id list \<Rightarrow> db \<Rightarrow> (service_error, nat) result \<times> db" where
  "deny_each app reason by_whom now [] s = (Ok 0, s)"
| "deny_each app reason by_whom now (i # is) s =
     (case run_tx (decide_inner app i (Decider_containment by_whom) None (deny_decision reason) (RuleId 0) (GrantId []) now now) s of
        (Ok g, s') \<Rightarrow> (case deny_each app reason by_whom now is s' of (r, t) \<Rightarrow> (map_ok (\<lambda>n. n + 1) r, t))
      | (Err (Transition_refused w), s') \<Rightarrow> deny_each app reason by_whom now is s'
      | (Err e, s') \<Rightarrow> (Err e, s'))"

definition deny_pending ::
  "app_state \<Rightarrow> agent_id list \<Rightarrow> string \<Rightarrow> string \<Rightarrow> int \<Rightarrow> db \<Rightarrow> (service_error, nat) result \<times> db" where
  "deny_pending app agents reason by_whom now s =
     (if agents = [] then (Ok 0, s) else deny_each app reason by_whom now (decidable_of agents s) s)"

section \<open>A new rule and what waits\<close>

text \<open>The requests a new rule is tried on: none unless it approves and is live.\<close>

definition waiting_for_rule :: "rule_id \<Rightarrow> int \<Rightarrow> db \<Rightarrow> (rule_row \<times> bool \<times> request_id list) option" where
  "waiting_for_rule rid now s =
     (case find_rule rid s of
        None \<Rightarrow> None
      | Some rule \<Rightarrow>
          if ru_action rule \<noteq> AutoApprove \<or> \<not> rule_is_live rule now then None
          else Some (rule, is_window (ru_authority rule), map rr_id (awaiting_human_on (ru_platform rule) s)))"

definition apply_one :: "app_state \<Rightarrow> request_id \<Rightarrow> rule_row \<Rightarrow> bool \<Rightarrow> grant_id \<Rightarrow> int \<Rightarrow> grant_id option option tx" where
  "apply_one app i rule window gid now =
     tx_bind (tx_get (\<lambda>s.
       case opt_filter (\<lambda>r. rr_status r = AwaitingHuman) (find_request i s) of
         None \<Rightarrow> None
       | Some r \<Rightarrow>
           (case (find_agent (rr_agent r) s, rr_authority r) of
              (Some a, Some auth) \<Rightarrow>
                Some (r, reroute (app_policy app) i a (delegator_of r s) (rr_resource r) auth now s)
            | _ \<Rightarrow> None))) (\<lambda>loaded.
       case loaded of
         None \<Rightarrow> tx_return None
       | Some (r, ro) \<Rightarrow>
           if decision_rule_id (ro_decision ro) \<noteq> Some (ru_id rule) then tx_return None
           else case ro_route ro of
             Some (RApprove clearance) \<Rightarrow>
               tx_bind (step r (Enter_approved (approval_auto clearance
                   (if window then ''window:'' @ rule_id_text (ru_id rule) else ''rule'')
                   (if window then ''approve-all window'' else ''matched saved rule'')
                   (policy_cap (app_policy app) (clamp_duration (rr_requested_secs r)) (map_option clamp_duration (ru_max_secs rule))))) now) (\<lambda>approved.
               tx_bind (begin_provision approved gid now) (\<lambda>grant. tx_return (Some grant)))
           | _ \<Rightarrow> tx_return None)"

section \<open>The reviewer\<close>

datatype llm_verdict = Llm_approve string "nat option" | Llm_deny string | Llm_error

text \<open>What the task keeps from its first transaction while the reviewer is asked.\<close>

record review =
  rv_request :: request_row
  rv_agent :: agent_row
  rv_max :: nat
  rv_model :: string
  rv_budget :: nat

definition review_read :: "app_state \<Rightarrow> request_id \<Rightarrow> int \<Rightarrow> db \<Rightarrow> (service_error, review option) result" where
  "review_read app i now s =
     (case opt_filter (\<lambda>r. rr_status r = LlmEvaluating) (find_request i s) of
        None \<Rightarrow> Ok None
      | Some r \<Rightarrow>
          bind (ok_or (find_agent (rr_agent r) s) (Transition_refused ''unknown agent'')) (\<lambda>a.
          bind (ok_or (rr_authority r) NO_AUTHORITY) (\<lambda>auth.
          (let d = ro_decision (reroute (app_policy app) i a (delegator_of r s) (rr_resource r) auth now s) in
           Ok (Some \<lparr>rv_request = r, rv_agent = a,
                 rv_max = policy_cap (app_policy app) (clamp_duration (rr_requested_secs r)) (Some (pd_max_duration d)),
                 rv_model = pd_llm_model d, rv_budget = pd_retry_budget d\<rparr>)))))"

fun verdict_row :: "review \<Rightarrow> llm_verdict \<Rightarrow> nat \<Rightarrow> int \<Rightarrow> evaluation_row option" where
  "verdict_row rv (Llm_approve reasoning suggested) attempt now =
     Some \<lparr>ev_request = rr_id (rv_request rv), ev_attempt = attempt, ev_model = rv_model rv, ev_verdict = Verdict_approve,
       ev_reasoning = reasoning, ev_suggested = suggested, ev_at = now\<rparr>"
| "verdict_row rv (Llm_deny reasoning) attempt now =
     Some \<lparr>ev_request = rr_id (rv_request rv), ev_attempt = attempt, ev_model = rv_model rv, ev_verdict = Verdict_deny,
       ev_reasoning = reasoning, ev_suggested = None, ev_at = now\<rparr>"
| "verdict_row rv Llm_error attempt now = None"

definition ERROR_REASONING :: string where
  "ERROR_REASONING = ''LLM evaluation failed; escalating to human review''"

definition llm_secs :: "review \<Rightarrow> nat \<Rightarrow> nat option \<Rightarrow> nat" where
  "llm_secs rv max_now suggested =
     (let dur = min max_now (rv_max rv) in
      case opt_filter (\<lambda>n. n > 0) suggested of None \<Rightarrow> dur | Some n \<Rightarrow> min dur n)"

definition act_approve ::
  "app_state \<Rightarrow> review \<Rightarrow> request_row \<Rightarrow> string \<Rightarrow> nat option \<Rightarrow> grant_id \<Rightarrow> int \<Rightarrow> (request_status \<times> grant_id option) tx" where
  "act_approve app rv current reasoning suggested gid now =
     tx_bind (tx_lift (ok_or (rr_authority current) NO_AUTHORITY)) (\<lambda>auth.
     tx_bind (tx_get (\<lambda>s. (holding (rv_agent rv) s,
        reroute (app_policy app) (rr_id current) (rv_agent rv) (delegator_of current s) (rr_resource current) auth now s))) (\<lambda>(held, ro).
       case (ro_route ro, held) of
         (Some (RLlm clearance), None) \<Rightarrow>
           tx_bind (step current (Enter_approved (approval_llm clearance (rv_model rv) reasoning
               (llm_secs rv (policy_cap (app_policy app) (clamp_duration (rr_requested_secs current))
                                (Some (pd_max_duration (ro_decision ro)))) suggested))) now) (\<lambda>approved.
           tx_bind (begin_provision approved gid now) (\<lambda>grant. tx_return (Provisioning, grant)))
       | _ \<Rightarrow>
           tx_bind (step current (Enter_human (Some (cps
               (''LLM approved, but the policy no longer routes this to the LLM: '' @ reasoning)))) now)
             (\<lambda>_. tx_return (AwaitingHuman, None))))"

definition act_deny :: "review \<Rightarrow> request_row \<Rightarrow> string \<Rightarrow> int \<Rightarrow> (request_status \<times> grant_id option) tx" where
  "act_deny rv current reasoning now =
     (if rr_attempt current \<ge> rv_budget rv then
        tx_bind (step current (Enter_human (Some (cps (''LLM denied (attempt '' @ show_nat (rr_attempt current) @ ''/''
            @ show_nat (rv_budget rv) @ ''): '' @ reasoning)))) now) (\<lambda>_. tx_return (AwaitingHuman, None))
      else
        tx_bind (step current (Enter_llm_denied (rv_model rv) reasoning) now) (\<lambda>_. tx_return (LlmDenied, None)))"

text \<open>\<open>None\<close>: someone decided meanwhile, or a newer round runs.\<close>

definition review_act ::
  "app_state \<Rightarrow> review \<Rightarrow> llm_verdict \<Rightarrow> grant_id \<Rightarrow> int \<Rightarrow> (request_status \<times> grant_id option) option tx" where
  "review_act app rv verdict gid now =
     tx_bind (tx_get (\<lambda>s. opt_filter (\<lambda>r. rr_status r = LlmEvaluating \<and> rr_attempt r = rr_attempt (rv_request rv))
         (find_request (rr_id (rv_request rv)) s))) (\<lambda>found.
       case found of
         None \<Rightarrow> tx_return None
       | Some current \<Rightarrow>
           tx_bind (case verdict_row rv verdict (rr_attempt current) now of
               None \<Rightarrow> tx_return () | Some e \<Rightarrow> insert_evaluation e) (\<lambda>_.
           tx_bind (case verdict of
               Llm_approve reasoning suggested \<Rightarrow> act_approve app rv current reasoning suggested gid now
             | Llm_deny reasoning \<Rightarrow> act_deny rv current reasoning now
             | Llm_error \<Rightarrow> tx_bind (step current (Enter_human (Some (cps ERROR_REASONING))) now)
                             (\<lambda>_. tx_return (AwaitingHuman, None))) (\<lambda>after. tx_return (Some after))))"

text \<open>From the reviewer to a human; a request that moved meanwhile is left as it is.\<close>

definition escalate_from_llm :: "request_id \<Rightarrow> string \<Rightarrow> int \<Rightarrow> unit tx" where
  "escalate_from_llm i note_text now =
     tx_bind (tx_get (\<lambda>s. opt_filter (\<lambda>r. rr_status r = LlmEvaluating) (find_request i s))) (\<lambda>found.
       case found of
         None \<Rightarrow> tx_return ()
       | Some r \<Rightarrow> tx_bind (transition r (Enter_human (Some (cps note_text))) now) (\<lambda>_. tx_return ()))"

definition refuse_if_held :: "agent_id \<Rightarrow> int \<Rightarrow> unit tx" where
  "refuse_if_held agent now =
     tx_bind (tx_get (check agent now)) (\<lambda>held.
       case held of Ok a \<Rightarrow> tx_return () | Err h \<Rightarrow> tx_fail (Transition_refused (held_why_text h)))"

definition own_denied :: "agent_caller \<Rightarrow> request_id \<Rightarrow> string \<Rightarrow> int \<Rightarrow> request_row tx" where
  "own_denied caller i verb now =
     (let me = ag_id (caller_agent caller) in
      tx_bind (tx_get (\<lambda>s. opt_filter (\<lambda>r. rr_agent r = me) (find_request i s))) (\<lambda>found.
      tx_bind (tx_lift (ok_or found UNKNOWN_REQUEST)) (\<lambda>r.
      tx_bind (tx_unless (rr_status r \<noteq> LlmDenied)
        (Transition_refused (''cannot '' @ verb @ '' from status '' @ request_status_as_str (rr_status r)))) (\<lambda>_.
      tx_bind (refuse_if_held me now) (\<lambda>_. tx_return r)))))"

definition decided_concurrently :: "(lost, request_row) result \<Rightarrow> request_row tx" where
  "decided_concurrently moved = tx_lift (map_err (\<lambda>l. Transition_refused ''request was decided concurrently'') moved)"

definition retry :: "app_state \<Rightarrow> agent_caller \<Rightarrow> request_id \<Rightarrow> string \<Rightarrow> int \<Rightarrow> request_row tx" where
  "retry app caller i justification now =
     tx_bind (own_denied caller i ''retry'' now) (\<lambda>denied.
     tx_bind (tx_lift (ok_or (rr_authority denied) NO_AUTHORITY)) (\<lambda>auth.
     tx_bind (tx_get (\<lambda>s. reroute (app_policy app) i (caller_agent caller) (delegator_of denied s) (rr_resource denied) auth now s)) (\<lambda>ro.
     tx_bind (tx_unless (rr_attempt denied \<ge> pd_retry_budget (ro_decision ro))
        (Transition_refused ''retry budget exhausted; use escalate'')) (\<lambda>_.
       case ro_route ro of
         Some (RLlm clearance) \<Rightarrow>
           tx_bind (transition denied (Enter_llm clearance (Some justification)) now) decided_concurrently
       | _ \<Rightarrow> tx_fail (Transition_refused ''the policy no longer routes this request to LLM review; use escalate'')))))"

definition escalate :: "agent_caller \<Rightarrow> request_id \<Rightarrow> int \<Rightarrow> request_row tx" where
  "escalate caller i now =
     tx_bind (own_denied caller i ''escalate'' now) (\<lambda>denied.
     tx_bind (transition denied (Enter_human (Some (cps (''escalated by agent after LLM denial: ''
        @ (case rr_reason denied of None \<Rightarrow> [] | Some t \<Rightarrow> t))))) now) decided_concurrently)"

end
