(* ===== verification/Store_Laws.thy ===== *)
theory Store_Laws
  imports Store_Grants
begin

text \<open>
  What the store's operations amount to. A table with a key is an interface (\<open>keyed_table\<close>) that the
  requests, grants, agents and rules provide: looking a row up after a conditional update or an insert.
  On it rest the laws of the compare-and-swap: a successful \<open>transition\<close> is one row put in place, once.
\<close>

named_theorems frame_simps \<open>what an operation on one table leaves alone\<close>

section \<open>Tables with a key\<close>

locale keyed_table =
  fixes key :: "'row \<Rightarrow> 'k"
    and table :: "db \<Rightarrow> 'row list"
    and set_table :: "'row list \<Rightarrow> db \<Rightarrow> db"
  assumes table_set [simp]: "table (set_table xs s) = xs"
    and set_set [simp]: "set_table xs (set_table ys s) = set_table xs s"
    and set_same [simp]: "set_table (table s) s = s"
begin

definition look :: "'k \<Rightarrow> db \<Rightarrow> 'row option" where
  "look k s = find (\<lambda>r. key r = k) (table s)"

definition keys_ok :: "db \<Rightarrow> bool" where
  "keys_ok s = distinct (map key (table s))"

definition put :: "'row \<Rightarrow> db \<Rightarrow> db" where
  "put r s = set_table
     (if look (key r) s = None then table s @ [r] else map (\<lambda>x. if key x = key r then r else x) (table s)) s"

lemma find_map_update:
  assumes "\<And>r. key (f r) = key r"
  shows "find (\<lambda>r. key r = k) (map (\<lambda>r. if key r = i \<and> P r then f r else r) xs)
    = (if k = i then map_option (\<lambda>r. if P r then f r else r) (find (\<lambda>r. key r = k) xs) else find (\<lambda>r. key r = k) xs)"
  by (induction xs) (auto simp: assms)

lemma find_append_row:
  "find (\<lambda>r. key r = k) (xs @ [n]) =
     (case find (\<lambda>r. key r = k) xs of Some r \<Rightarrow> Some r | None \<Rightarrow> if key n = k then Some n else None)"
  by (induction xs) auto

lemma look_key: "look k s = Some r \<Longrightarrow> key r = k"
  by (auto simp: look_def find_Some_iff)

lemma look_in: "look k s = Some r \<Longrightarrow> r \<in> set (table s)"
  by (auto simp: look_def find_Some_iff)

lemma look_None: "look k s = None \<longleftrightarrow> (\<forall>r \<in> set (table s). key r \<noteq> k)"
  by (auto simp: look_def find_None_iff)

lemma in_look: "keys_ok s \<Longrightarrow> r \<in> set (table s) \<Longrightarrow> look (key r) s = Some r"
proof -
  assume d: "keys_ok s" and r: "r \<in> set (table s)"
  obtain r' where r': "look (key r) s = Some r'" using r look_None by (cases "look (key r) s") auto
  have "inj_on key (set (table s))" using d by (simp add: keys_ok_def distinct_map)
  with r look_key[OF r'] look_in[OF r'] have "r' = r" by (auto simp: inj_on_def)
  with r' show ?thesis by simp
qed

lemma look_iff: "keys_ok s \<Longrightarrow> (look k s = Some r) = (r \<in> set (table s) \<and> key r = k)"
  using in_look look_in look_key by blast

lemma keys_put [simp]: "keys_ok (put r s) = keys_ok s"
proof -
  have "key \<circ> (\<lambda>x. if key x = key r then r else x) = key" by auto
  then show ?thesis by (auto simp: keys_ok_def put_def look_None)
qed

lemma look_put [simp]: "look k (put r s) = (if k = key r then Some r else look k s)"
proof (cases "look (key r) s")
  case None
  then show ?thesis by (auto simp: look_def put_def find_append_row split: option.splits)
next
  case (Some x)
  have "find (\<lambda>y. key y = k) (map (\<lambda>y. if key y = key r then r else y) xs)
      = (if k = key r then map_option (\<lambda>_. r) (find (\<lambda>y. key y = k) xs) else find (\<lambda>y. key y = k) xs)" for xs
    by (induction xs) auto
  with Some show ?thesis by (auto simp: look_def put_def)
qed

lemma put_put: "key r = key r' \<Longrightarrow> put r (put r' s) = put r s"
proof (cases "look (key r) s")
  case None
  moreover assume "key r = key r'"
  moreover have "map (\<lambda>x. if key x = key r then r else x) (table s) = table s"
    using None by (auto simp: look_None intro: map_idI)
  ultimately show ?thesis by (simp add: put_def look_def find_append_row)
next
  case (Some x)
  moreover assume k: "key r = key r'"
  moreover have "look (key r) (put r' s) = Some r'" using k by simp
  moreover have "(\<lambda>x. if key x = key r' then r else x) \<circ> (\<lambda>x. if key x = key r' then r' else x)
      = (\<lambda>x. if key x = key r' then r else x)" by auto
  ultimately show ?thesis by (simp add: put_def)
qed

text \<open>An update of the one row with a key, by key and a condition it meets, puts the changed row in place.\<close>

lemma update_is_put:
  assumes "keys_ok s" and r: "look i s = Some r" and P: "P r" and key: "key (f r) = key r"
  shows "set_table (map (\<lambda>x. if key x = i \<and> P x then f x else x) (table s)) s = put (f r) s"
proof -
  have "(if key x = i \<and> P x then f x else x) = (if key x = key (f r) then f r else x)" if "x \<in> set (table s)" for x
    using in_look[OF assms(1) that] r P key look_key[OF r] by auto
  then show ?thesis
    using r key look_key[OF r] by (auto simp: put_def intro!: arg_cong2[where f = set_table])
qed

lemma put_same: "keys_ok s \<Longrightarrow> look (key r) s = Some r \<Longrightarrow> put r s = s"
proof -
  assume keys: "keys_ok s" and r: "look (key r) s = Some r"
  have "(if key x = key r then r else x) = x" if "x \<in> set (table s)" for x
    using in_look[OF keys that] r by (metis option.inject)
  then have "map (\<lambda>x. if key x = key r then r else x) (table s) = table s" by (rule map_idI)
  with r show ?thesis by (simp only: put_def option.distinct if_False set_same)
qed

lemma set_put: "keys_ok s \<Longrightarrow> set (table (put r s)) = insert r {x \<in> set (table s). key x \<noteq> key r}"
  by (auto simp: put_def look_None)

end

interpretation requests: keyed_table rr_id db_requests "\<lambda>xs s. s\<lparr>db_requests := xs\<rparr>"
  by unfold_locales simp_all

interpretation grants: keyed_table gr_id db_grants "\<lambda>xs s. s\<lparr>db_grants := xs\<rparr>"
  by unfold_locales simp_all

interpretation rules: keyed_table ru_id db_rules "\<lambda>xs s. s\<lparr>db_rules := xs\<rparr>"
  by unfold_locales simp_all

interpretation agents: keyed_table ag_id db_agents "\<lambda>xs s. s\<lparr>db_agents := xs\<rparr>"
  by unfold_locales simp_all

text \<open>The model's lookups are the interface's.\<close>

lemma find_is_look:
  "find_request i s = requests.look i s" "find_grant g s = grants.look g s"
  "find_rule n s = rules.look n s" "find_agent a s = agents.look a s"
  by (simp_all add: find_request_def find_grant_def find_rule_def find_agent_def
      requests.look_def grants.look_def rules.look_def agents.look_def)

lemma put_frame [frame_simps, simp]:
  "db_grants (requests.put r s) = db_grants s" "db_agents (requests.put r s) = db_agents s"
  "db_threads (requests.put r s) = db_threads s" "db_entries (requests.put r s) = db_entries s"
  "db_rules (requests.put r s) = db_rules s" "db_evaluations (requests.put r s) = db_evaluations s"
  "db_aliases (requests.put r s) = db_aliases s" "db_daemons (requests.put r s) = db_daemons s"
  "db_requests (grants.put g s) = db_requests s" "db_agents (grants.put g s) = db_agents s"
  "db_threads (grants.put g s) = db_threads s" "db_entries (grants.put g s) = db_entries s"
  "db_rules (grants.put g s) = db_rules s" "db_evaluations (grants.put g s) = db_evaluations s"
  "db_aliases (grants.put g s) = db_aliases s" "db_daemons (grants.put g s) = db_daemons s"
  by (simp_all add: requests.put_def grants.put_def)

lemma look_frame [simp]:
  "grants.look i (requests.put r s) = grants.look i s" "requests.look j (grants.put g s) = requests.look j s"
  "agents.look a (requests.put r s) = agents.look a s" "agents.look a (grants.put g s) = agents.look a s"
  "grants.keys_ok (requests.put r s) = grants.keys_ok s" "requests.keys_ok (grants.put g s) = requests.keys_ok s"
  by (simp_all add: grants.look_def requests.look_def agents.look_def grants.keys_ok_def requests.keys_ok_def)

text \<open>The containment check reads agents and entries only.\<close>

lemma check_cong: "db_agents s = db_agents t \<Longrightarrow> db_entries s = db_entries t \<Longrightarrow> check a now s = check a now t"
  by (simp add: check_def chain_def find_agent_def cong: option.case_cong)

lemma check_frame [simp]:
  "check a now (requests.put r s) = check a now s" "check a now (grants.put g s) = check a now s"
  by (rule check_cong; simp)+

section \<open>Transitions\<close>

lemma apply_changes_keeps [simp]:
  "rr_id (apply_changes e now r) = rr_id r" "rr_agent (apply_changes e now r) = rr_agent r"
  "rr_platform (apply_changes e now r) = rr_platform r" "rr_authority (apply_changes e now r) = rr_authority r"
  "rr_resource (apply_changes e now r) = rr_resource r" "rr_delegation (apply_changes e now r) = rr_delegation r"
  "rr_edit (apply_changes e now r) = rr_edit r" "rr_status (apply_changes e now r) = target e"
  "rr_requested_secs (apply_changes e now r) = rr_requested_secs r" "rr_session (apply_changes e now r) = rr_session r"
  by (simp_all add: apply_changes_def Let_def)

text \<open>What a transition asks of the row it finds.\<close>

definition may_enter :: "entry \<Rightarrow> int \<Rightarrow> request_row \<Rightarrow> bool" where
  "may_enter e now r =
     (is_none_or (\<lambda>p. proof_ok p r) (ch_proof (changes_of e))
      \<and> is_none_or (\<lambda>n. n \<le> I32_MAX) (ch_approved_secs (changes_of e))
      \<and> rr_attempt (apply_changes e now r) \<le> I32_MAX)"

lemma transition_Ok:
  assumes keys: "requests.keys_ok s" and r: "requests.look (rr_id r) s = Some r"
  shows "(transition r e now s = Inr (x, s')) =
    (may_enter e now r \<and> x = Inr (apply_changes e now r) \<and> s' = requests.put (apply_changes e now r) s)"
proof -
  have upd: "update_requests (\<lambda>x. rr_id x = rr_id r \<and> rr_status x = rr_status r) (apply_changes e now) s
      = requests.put (apply_changes e now r) s"
    using requests.update_is_put[OF keys r, of "\<lambda>x. rr_status x = rr_status r" "apply_changes e now"]
    by (simp add: update_requests_def)
  show ?thesis
    using r by (auto simp: transition_def Let_def may_enter_def find_is_look upd opt_to_i32_def to_i32_def
        is_some_and_def is_none_or_def result_simps split: option.splits if_splits)
qed

lemma insert_request_Ok:
  "(insert_request n s = Inr (r, s')) =
     (is_none_or (\<lambda>a. authority_platform a = nr_platform n) (nr_authority n) \<and> nr_requested_secs n \<le> I32_MAX
      \<and> requests.look (nr_id n) s = None \<and> r = new_row n \<and> s' = requests.put (new_row n) s)"
proof -
  have "requests.look (nr_id n) s = None \<Longrightarrow> s\<lparr>db_requests := db_requests s @ [new_row n]\<rparr> = requests.put (new_row n) s"
    by (simp add: requests.put_def new_row_def)
  then show ?thesis
    by (auto simp: insert_request_def find_is_look to_i32_def is_none_or_def is_some_and_def split: option.splits if_splits)
qed

section \<open>Grants\<close>

lemma find_thread_frame [simp]:
  "find_thread t (requests.put r s) = find_thread t s" "find_thread t (grants.put g s) = find_thread t s"
  by (simp_all add: find_thread_def)

lemma delegation_backing_frame [simp]: "delegation_backing d now (requests.put r s) = delegation_backing d now s"
  by (simp add: delegation_backing_def find_is_look cong: option.case_cong)

lemma insert_grant_Ok:
  "(insert_grant g s = Inr (u, s')) =
     (grants.look (gr_id g) s = None \<and> (\<forall>h \<in> set (db_grants s). gr_request h \<noteq> gr_request g) \<and> s' = grants.put g s)"
  by (auto simp: insert_grant_def list_ex_iff grants.look_None grants.put_def)

text \<open>When a grant is made, and with which end.\<close>

definition grant_cap :: "request_row \<Rightarrow> int \<Rightarrow> db \<Rightarrow> (begin_refused, int option) result" where
  "grant_cap r now s = (case rr_delegation r of None \<Rightarrow> Ok None | Some d \<Rightarrow> delegation_backing d now s)"

lemma grant_cap_frame [simp]: "grant_cap r now (requests.put q s) = grant_cap r now s"
  by (simp add: grant_cap_def split: option.splits)

definition granted :: "request_row \<Rightarrow> grant_id \<Rightarrow> int \<Rightarrow> int option \<Rightarrow> grant_row \<Rightarrow> bool" where
  "granted r i now cap g =
     (\<exists>auth n own. final_authority r = Some auth \<and> rr_approved_secs r = Some n \<and> checked_add_secs now n = Some own
        \<and> g = new_grant r auth i now (case cap of None \<Rightarrow> own | Some e \<Rightarrow> min own e))"

lemma begin_grant_Ok:
  assumes "begin_grant r a i now s = Inr (x, s')"
  shows "ag_id a = rr_agent r \<and>
    ((\<exists>why. x = Inl why \<and> grant_cap r now s = Err why \<and> s' = s)
     \<or> (\<exists>g cap. x = Inr g \<and> grant_cap r now s = Ok cap \<and> granted r i now cap g \<and> grants.look i s = None
          \<and> (\<forall>h \<in> set (db_grants s). gr_request h \<noteq> rr_id r) \<and> s' = grants.put g s))"
proof (cases "grant_cap r now s")
  case (Inl why)
  then show ?thesis
    using assms by (auto simp: begin_grant_def verify_not_held_def grant_cap_def[symmetric])
next
  case (Inr cap)
  then show ?thesis
    using assms by (auto simp: begin_grant_def verify_not_held_def grant_cap_def[symmetric] granted_def Let_def
        insert_grant_Ok result_simps new_grant_def)
qed

lemma move_grant_Ok:
  assumes keys: "grants.keys_ok s" and f: "\<And>g. gr_id (f g) = gr_id g"
  shows "(move_grant i from f s = Inr (x, s')) =
    (case opt_filter (\<lambda>g. gr_status g = from) (grants.look i s) of
       None \<Rightarrow> x = Inl (GrantLost i) \<and> s' = s
     | Some g \<Rightarrow> x = Inr (f g) \<and> s' = grants.put (f g) s)"
proof (cases "opt_filter (\<lambda>g. gr_status g = from) (grants.look i s)")
  case None
  then show ?thesis by (auto simp: move_grant_def find_is_look)
next
  case (Some g)
  then have g: "grants.look i s = Some g" "gr_status g = from" by (auto simp: opt_filter_Some_iff)
  have "update_grants (\<lambda>g. gr_id g = i \<and> gr_status g = from) f s = grants.put (f g) s"
    using grants.update_is_put[OF keys g(1), of "\<lambda>g. gr_status g = from" f] g(2) f by (simp add: update_grants_def)
  with Some show ?thesis by (auto simp: move_grant_def find_is_look)
qed

text \<open>An update of many grants that keeps ids and requests.\<close>

lemma touch_grants_Ok:
  "(touch_grants P f s = Inr (n, s')) = (n = length (filter P (db_grants s)) \<and> s' = update_grants P f s)"
  by (auto simp: touch_grants_def)

lemma update_grants_frame [simp]:
  "db_requests (update_grants P f s) = db_requests s" "db_agents (update_grants P f s) = db_agents s"
  "db_grants (update_grants P f s) = map (\<lambda>g. if P g then f g else g) (db_grants s)"
  "db_entries (update_grants P f s) = db_entries s" "db_threads (update_grants P f s) = db_threads s"
  "db_evaluations (update_grants P f s) = db_evaluations s"
  by (simp_all add: update_grants_def)

section \<open>Compare-and-swap\<close>

text \<open>A request is moved once. When two parties hold the same row of a request and both move it, on any
  database where the row is still the current one, the second is told it lost and changes nothing,
  whatever each wanted (no edge of the state machine leaves the status as it was).\<close>

theorem transition_once:
  assumes "requests.keys_ok s" "find_request (rr_id r) s = Some r"
    and "transition r e now s = Inr (Inr r', s')"
    and "target e \<noteq> rr_status r"
    and "transition r e' later s' = Inr (x, s'')"
  shows "x = Inl (Lost (rr_id r)) \<and> s'' = s'"
proof -
  have "s' = requests.put (apply_changes e now r) s"
    using assms(2,3) transition_Ok[OF assms(1)] by (simp add: find_is_look)
  then show ?thesis
    using assms(4,5) by (auto simp: transition_def Let_def find_is_look)
qed

end
