(* ===== verification/Service_Laws.thy ===== *)
theory Service_Laws
  imports Service_Decide Store_Laws
begin

text \<open>
  What the service's transactions do to the requests and grants, said once for all of them: one request
  moves along edges of the state machine (\<open>row_moves\<close>), every other row stays, and a grant row is added
  exactly when the request ends in provisioning (\<open>effect\<close>, \<open>row_settled\<close>). The lemmas on the single operations
  add what a grant took: which clearance, whose decision, and the containment check in that
  transaction.
\<close>

section \<open>How one request moves\<close>

text \<open>Columns that no update of the service touches in what a grant is made from.\<close>

definition same_spec :: "request_row \<Rightarrow> request_row \<Rightarrow> bool" where
  "same_spec r r' = (rr_id r' = rr_id r \<and> rr_agent r' = rr_agent r \<and> rr_platform r' = rr_platform r
     \<and> rr_resource r' = rr_resource r \<and> rr_authority r' = rr_authority r \<and> rr_delegation r' = rr_delegation r
     \<and> rr_requested_secs r' = rr_requested_secs r \<and> rr_session r' = rr_session r)"

inductive row_moves :: "request_row \<Rightarrow> request_row \<Rightarrow> bool" for r :: request_row where
  stay: "row_moves r r"
| move: "\<lbrakk>row_moves r r'; may_enter e now r'; can_transition (rr_status r') (target e)\<rbrakk>
           \<Longrightarrow> row_moves r (apply_changes e now r')"
| edit: "\<lbrakk>row_moves r r'; rr_status r' = Approved; authority_platform (ed_authority ed) = rr_platform r'\<rbrakk>
           \<Longrightarrow> row_moves r (r'\<lparr>rr_edit := Some ed, rr_updated_at := clock\<rparr>)"

lemma row_moves_spec: "row_moves r r' \<Longrightarrow> same_spec r r'"
  by (induction rule: row_moves.induct) (auto simp: same_spec_def)

lemma row_moves_trans: "row_moves r' r'' \<Longrightarrow> row_moves r r' \<Longrightarrow> row_moves r r''"
  by (induction rule: row_moves.induct) (auto intro: row_moves.intros)

lemma row_moves_path: "row_moves r r' \<Longrightarrow> can_transition\<^sup>*\<^sup>* (rr_status r) (rr_status r')"
  by (induction rule: row_moves.induct) (auto intro: rtranclp.rtrancl_into_rtrancl)

section \<open>Steps\<close>

lemma requests_put_put [simp]: "rr_id r = rr_id r' \<Longrightarrow> requests.put r (requests.put r' s) = requests.put r s"
  by (rule requests.put_put)

lemma step_Ok:
  assumes "requests.keys_ok s" "requests.look (rr_id r) s = Some r"
  shows "(step r e now s = Inr (r', s')) =
    (may_enter e now r \<and> r' = apply_changes e now r \<and> s' = requests.put r' s)"
  using assms by (auto simp: step_def transition_Ok result_simps)

lemmas step_put_Ok = step_Ok[of "requests.put r s" "r" for r s, simplified]

text \<open>A request on its way to a grant, and what \<open>begin_provision\<close> makes of it.\<close>

definition effect :: "db \<Rightarrow> request_row \<Rightarrow> grant_row option \<Rightarrow> db \<Rightarrow> bool" where
  "effect s r' go s' = (db_requests s' = db_requests (requests.put r' s)
     \<and> db_grants s' = db_grants s @ (case go of None \<Rightarrow> [] | Some g \<Rightarrow> [g])
     \<and> db_agents s' = db_agents s \<and> db_entries s' = db_entries s \<and> db_threads s' = db_threads s)"

text \<open>How the transaction leaves the request: never half decided, in provisioning exactly with its grant.\<close>

definition row_settled :: "db \<Rightarrow> request_row \<Rightarrow> grant_row option \<Rightarrow> int \<Rightarrow> bool" where
  "row_settled s r' go now =
     (rr_status r' \<notin> {Pending, Approved, Granted}
      \<and> (case go of
           None \<Rightarrow> rr_status r' \<noteq> Provisioning
         | Some g \<Rightarrow> rr_status r' = Provisioning \<and> is_ok (check (rr_agent r') now s)
             \<and> grants.look (gr_id g) s = None \<and> (\<forall>h \<in> set (db_grants s). gr_request h \<noteq> rr_id r')
             \<and> (\<exists>cap. grant_cap r' now s = Ok cap \<and> granted r' (gr_id g) now cap g)))"

lemma granted_same:
  "granted r i now cap g \<Longrightarrow> gr_id g = i \<and> gr_request g = rr_id r \<and> gr_agent g = rr_agent r \<and> gr_platform g = rr_platform r
     \<and> gr_status g = GProvisioning \<and> Some (gr_authority g) = final_authority r \<and> gr_resource g = final_resource r
     \<and> gr_granted_at g = now \<and> gr_delegation g = rr_delegation r \<and> gr_revoked_at g = None"
  by (auto simp: granted_def new_grant_def)

lemma insert_is_append: "grants.look (gr_id g) s = None \<Longrightarrow> db_grants (grants.put g s) = db_grants s @ [g]"
  by (simp add: grants.put_def)

lemma begin_provision_Ok:
  assumes keys: "requests.keys_ok s" and r: "requests.look (rr_id r) s = Some r" and st: "rr_status r = Approved"
    and run: "begin_provision r gid now s = Inr (go, s')"
  shows "\<exists>r' go'. row_moves r r' \<and> effect s r' go' s' \<and> row_settled s r' go' now \<and> go = map_option gr_id go'
    \<and> rr_approved_secs r' = rr_approved_secs r \<and> rr_edit r' = rr_edit r"
proof -
  define rp where "rp = apply_changes Enter_provisioning now r"
  have may: "may_enter Enter_provisioning now r"
    and rest: "(case check (rr_agent rp) now s of
         Inl h \<Rightarrow> tx_bind (step rp (Enter_failed (held_why_text h)) now) (\<lambda>_. tx_return None)
       | Inr a \<Rightarrow> tx_bind (begin_grant rp a gid now) (\<lambda>b. case b of Inr g \<Rightarrow> tx_return (Some (gr_id g))
           | Inl why \<Rightarrow> tx_bind (step rp (Enter_failed (begin_refused_text why)) now) (\<lambda>_. tx_return None)))
         (requests.put rp s) = Inr (go, s')"
    using run unfolding rp_def by (auto simp: begin_provision_def step_Ok[OF keys r])
  have moved: "row_moves r rp"
    using may st unfolding rp_def by (intro row_moves.move row_moves.stay) (simp_all add: can_transition_def)
  have id: "rr_id rp = rr_id r" and pst: "rr_status rp = Provisioning" and secs: "rr_approved_secs rp = rr_approved_secs r" and ed: "rr_edit rp = rr_edit r"
    by (simp_all add: rp_def apply_changes_def no_changes_def coalesce_def)
  have failed: ?thesis if "tx_bind (step rp (Enter_failed why) now) (\<lambda>_. tx_return None) (requests.put rp s) = Inr (go, s')" for why
  proof -
    have "may_enter (Enter_failed why) now rp" "go = None" "s' = requests.put (apply_changes (Enter_failed why) now rp) s"
      using that keys by (auto simp: step_put_Ok)
    moreover have "row_moves r (apply_changes (Enter_failed why) now rp)"
      using moved calculation(1) pst by (intro row_moves.move) (simp_all add: can_transition_def)
    moreover have "rr_approved_secs (apply_changes (Enter_failed why) now rp) = rr_approved_secs r"
      using secs by (simp add: apply_changes_def no_changes_def coalesce_def)
    ultimately show ?thesis
      by (intro exI[of _ "apply_changes (Enter_failed why) now rp"] exI[of _ None]) (simp add: effect_def row_settled_def ed)
  qed
  show ?thesis
  proof (cases "check (rr_agent rp) now s")
    case (Inl h)
    with rest show ?thesis by (intro failed[of "held_why_text h"]) simp
  next
    case (Inr a)
    then obtain b t where b: "begin_grant rp a gid now (requests.put rp s) = Inr (b, t)"
      and after: "(case b of Inr g \<Rightarrow> tx_return (Some (gr_id g))
           | Inl why \<Rightarrow> tx_bind (step rp (Enter_failed (begin_refused_text why)) now) (\<lambda>_. tx_return None)) t = Inr (go, s')"
      using rest by auto
    show ?thesis
    proof (cases b)
      case (Inl why)
      then have "t = requests.put rp s" using begin_grant_Ok[OF b] by auto
      with after Inl show ?thesis by (intro failed[of "begin_refused_text why"]) simp
    next
      case (Inr g)
      then obtain cap where g: "grant_cap rp now s = Ok cap" "granted rp gid now cap g" "grants.look gid s = None"
        "\<forall>h \<in> set (db_grants s). gr_request h \<noteq> rr_id rp" "t = grants.put g (requests.put rp s)"
        using begin_grant_Ok[OF b] by auto
      have gid: "gr_id g = gid" using granted_same[OF g(2)] by simp
      have s': "go = Some gid" "s' = t" using after Inr gid by auto
      have "db_grants s' = db_grants s @ [g]" "db_requests s' = db_requests (requests.put rp s)"
        using s' g(3,5) gid insert_is_append[of g "requests.put rp s"] by auto
      then have "effect s rp (Some g) s'" using s' g(5) by (simp add: effect_def)
      moreover have "row_settled s rp (Some g) now"
        using g gid pst \<open>check (rr_agent rp) now s = Inr a\<close> by (auto simp: row_settled_def)
      ultimately show ?thesis using moved secs ed s' gid by (intro exI[of _ rp] exI[of _ "Some g"]) simp
    qed
  qed
qed

section \<open>Approving\<close>

lemma effect_put [simp]: "rr_id q = rr_id r' \<Longrightarrow> effect (requests.put q s) r' go s' = effect s r' go s'"
  by (simp add: effect_def)

lemma settled_put [simp]: "row_settled (requests.put q s) r' go now = row_settled s r' go now"
  by (simp add: row_settled_def cong: option.case_cong)

lemma row_moves_id: "row_moves r r' \<Longrightarrow> rr_id r' = rr_id r"
  using row_moves_spec by (simp add: same_spec_def)

lemma simple_step:
  assumes "requests.keys_ok s" "requests.look (rr_id p) s = Some p" "can_transition (rr_status p) (target e)"
    and "target e \<notin> {Pending, Approved, Granted, Provisioning}" and "step p e now s = Inr (r', s')"
  shows "row_moves p r' \<and> effect s r' None s' \<and> row_settled s r' None now \<and> r' = apply_changes e now p"
  using assms by (auto simp: step_Ok effect_def row_settled_def intro: row_moves.intros)

lemma approve_then_provision:
  assumes keys: "requests.keys_ok s" and p: "requests.look (rr_id p) s = Some p"
    and edge: "can_transition (rr_status p) Approved"
    and run: "step p (Enter_approved ap) now s = Inr (q, t)" "begin_provision q gid now t = Inr (go, s')"
  shows "\<exists>r' go'. row_moves p r' \<and> effect s r' go' s' \<and> row_settled s r' go' now \<and> go = map_option gr_id go'
    \<and> rr_approved_secs r' = Some (ap_secs ap) \<and> rr_edit r' = rr_edit p \<and> requests.look (rr_id p) s' = Some r'"
proof -
  have may: "may_enter (Enter_approved ap) now p" and q: "q = apply_changes (Enter_approved ap) now p" "t = requests.put q s"
    using run(1) by (auto simp: step_Ok[OF keys p])
  obtain r' go' where r': "row_moves q r'" "effect t r' go' s'" "row_settled t r' go' now" "go = map_option gr_id go'"
    "rr_approved_secs r' = rr_approved_secs q" "rr_edit r' = rr_edit q"
    using begin_provision_Ok[OF _ _ _ run(2)] keys q by auto
  have "row_moves p q" using may edge q by (auto intro: row_moves.intros)
  with r'(1) have "row_moves p r'" by (rule row_moves_trans)
  moreover have "effect s r' go' s'" "row_settled s r' go' now"
    using r'(2,3) q row_moves_id[OF r'(1)] by auto
  moreover have "rr_approved_secs r' = Some (ap_secs ap)"
    using r'(5) q(1) by (simp add: apply_changes_def no_changes_def coalesce_def)
  moreover have "rr_edit r' = rr_edit p" using r'(6) q(1) by simp
  moreover have "requests.look (rr_id p) s' = Some r'"
    using \<open>effect s r' go' s'\<close> row_moves_id[OF \<open>row_moves p r'\<close>]
      requests.look_put[of "rr_id p" r' s] by (simp add: effect_def requests.look_def)
  ultimately show ?thesis using r'(4) by blast
qed

section \<open>Creating a request\<close>

lemma check_Ok: "check i now s = Inr a \<Longrightarrow> agents.look i s = Some a"
  by (auto simp: check_def Let_def find_is_look split: option.splits)

lemma take_route_Ok:
  assumes keys: "requests.keys_ok s" and p: "requests.look (rr_id p) s = Some p" "rr_status p = Pending"
    and run: "take_route app p requested d route gid now s = Inr ((row, aft, go), s')"
  shows "\<exists>go'. row_moves p row \<and> effect s row go' s' \<and> row_settled s row go' now \<and> go = map_option gr_id go'
    \<and> (go' \<noteq> None \<longrightarrow> (\<exists>c. route = RApprove c) \<and> rr_edit row = rr_edit p
        \<and> rr_approved_secs row = Some (policy_cap (app_policy app) (clamp_duration requested) (Some (pd_max_duration d))))"
proof -
  have plain: ?thesis if "step p e now s = Inr (row, s')" "target e \<in> {Denied, LlmEvaluating, AwaitingHuman}" "go = None" for e
    using simple_step[OF keys p(1) _ _ that(1)] p(2) that(2,3) by (auto simp: can_transition_def intro!: exI[of _ None])
  show ?thesis
  proof (cases route)
    case RDeny
    with run obtain e where "step p e now s = Inr (row, s')" "target e \<in> {Denied, LlmEvaluating, AwaitingHuman}" "go = None"
      by (fastforce simp: take_route_def)
    then show ?thesis by (rule plain)
  next
    case RSurface
    with run obtain e where "step p e now s = Inr (row, s')" "target e \<in> {Denied, LlmEvaluating, AwaitingHuman}" "go = None"
      by (fastforce simp: take_route_def)
    then show ?thesis by (rule plain)
  next
    case (RLlm c)
    with run obtain e where "step p e now s = Inr (row, s')" "target e \<in> {Denied, LlmEvaluating, AwaitingHuman}" "go = None"
      by (fastforce simp: take_route_def split: if_splits)
    then show ?thesis by (rule plain)
  next
    case (RApprove c)
    then obtain q t where run': "step p (Enter_approved (approval_auto c (window_or_policy d) (pd_reason d)
            (policy_cap (app_policy app) (clamp_duration requested) (Some (pd_max_duration d))))) now s = Inr (q, t)"
        "begin_provision q gid now t = Inr (go, s')" "requests.look (rr_id q) s' = Some row"
      using run by (auto simp: take_route_def find_is_look result_simps)
    have "can_transition (rr_status p) Approved" using p(2) by (simp add: can_transition_def)
    note prov = approve_then_provision[OF keys p(1) this run'(1,2)]
    have "rr_id q = rr_id p" using run'(1) by (auto simp: step_Ok[OF keys p(1)])
    with prov run'(3) RApprove show ?thesis by (auto simp: approval_auto_def)
  qed
qed

lemma new_row_simps [simp]:
  "rr_id (new_row n) = nr_id n" "rr_status (new_row n) = Pending" "rr_agent (new_row n) = nr_agent n"
  "rr_platform (new_row n) = nr_platform n" "rr_authority (new_row n) = nr_authority n"
  "rr_resource (new_row n) = nr_resource n" "rr_delegation (new_row n) = nr_delegation n"
  "rr_edit (new_row n) = None" "rr_requested_secs (new_row n) = nr_requested_secs n"
  by (simp_all add: new_row_def)

text \<open>Where a request starts: a fresh row of its agent's, with an authority of its platform.\<close>

definition fresh_row :: "db \<Rightarrow> request_id \<Rightarrow> agent_id \<Rightarrow> request_row \<Rightarrow> bool" where
  "fresh_row s rid agent r =
     (requests.look rid s = None \<and> rr_agent r = agent
      \<and> (\<exists>n. r = new_row n \<and> nr_id n = rid \<and> is_none_or (\<lambda>a. authority_platform a = nr_platform n) (nr_authority n)))"

text \<open>What stands behind an automatic grant: the clearance of a routing with all the gates, now.\<close>

definition cleared :: "app_state \<Rightarrow> db \<Rightarrow> request_row \<Rightarrow> agent_row \<Rightarrow> int \<Rightarrow> rerouted \<Rightarrow> bool" where
  "cleared app s r a now ro =
     (\<exists>auth c. rr_authority r = Some auth \<and> ro_route ro = Some (RApprove c)
        \<and> ro = reroute (app_policy app) (rr_id r) a (delegator_of r s) (rr_resource r) auth now s)"

lemma draft_insert_Ok:
  assumes "draft_insert d resource auth s = Inr (r, s')"
  shows "fresh_row s (dr_id d) (ag_id (dr_agent d)) r \<and> rr_authority r = auth \<and> rr_resource r = resource
    \<and> rr_delegation r = dr_delegation d \<and> rr_requested_secs r = rc_secs (dr_body d) \<and> rr_id r = dr_id d
    \<and> rr_status r = Pending \<and> s' = requests.put r s"
  using assms unfolding draft_insert_def insert_request_Ok fresh_row_def by auto

lemma refused_Ok:
  assumes "requests.keys_ok s" and "created_refused d resource auth reason s = Inr ((row, aft, go), s')"
  shows "\<exists>r. fresh_row s (dr_id d) (ag_id (dr_agent d)) r \<and> row_moves r row \<and> effect s row None s'
    \<and> row_settled s row None (dr_now d) \<and> go = None \<and> rr_status row = Denied"
proof -
  define e where "e = Enter_denied \<lparr>dn_source = Policy_source, dn_decided_by = None, dn_reason = reason\<rparr>"
  obtain r t where ins: "draft_insert d resource auth s = Inr (r, t)" and run: "step r e (dr_now d) t = Inr (row, s')" and go: "go = None"
    using assms(2) by (auto simp: created_refused_def refuse_def e_def)
  note r = draft_insert_Ok[OF ins]
  have "row_moves r row \<and> effect t row None s' \<and> row_settled t row None (dr_now d) \<and> row = apply_changes e (dr_now d) r"
    using run assms(1) r by (intro simple_step) (auto simp: can_transition_def e_def)
  with r go show ?thesis using row_moves_id by (intro exI[of _ r]) (auto simp: e_def)
qed

text \<open>What creating leaves behind: the new row, moved, and a grant only behind a clearance.\<close>

definition created_ok :: "app_state \<Rightarrow> db \<Rightarrow> request_id \<Rightarrow> agent_row \<Rightarrow> int \<Rightarrow> request_row \<Rightarrow> grant_id option \<Rightarrow> db \<Rightarrow> bool" where
  "created_ok app s rid a now row go s' =
     (\<exists>r go'. fresh_row s rid (ag_id a) r \<and> row_moves r row \<and> effect s row go' s' \<and> row_settled s row go' now
        \<and> go = map_option gr_id go' \<and> (rr_authority r = None \<longrightarrow> rr_status row = Denied)
        \<and> (go' \<noteq> None \<longrightarrow> (\<exists>ro. cleared app s r a now ro \<and> rr_edit row = rr_edit r
             \<and> rr_approved_secs row = Some (policy_cap (app_policy app) (clamp_duration (rr_requested_secs r))
                  (Some (pd_max_duration (ro_decision ro)))))))"

lemma refused_created:
  "requests.keys_ok s \<Longrightarrow> created_refused d resource auth reason s = Inr ((row, aft, go), s') \<Longrightarrow>
   created_ok app s (dr_id d) (dr_agent d) (dr_now d) row go s'"
  unfolding created_ok_def using refused_Ok by (metis option.simps(8))

lemma create_validated_Ok:
  assumes keys: "requests.keys_ok s"
    and del: "del = (case dr_delegation d of None \<Rightarrow> No_delegator | Some x \<Rightarrow> load_delegator (del_delegator x) s)"
    and run: "create_validated app d del v gid s = Inr ((row, aft, go), s')"
  shows "created_ok app s (dr_id d) (dr_agent d) (dr_now d) row go s'"
proof (cases "zone_check_db (app_policy app) (dr_agent d) (va_authority v) (va_resource v) s")
  case (Inl denied)
  then show ?thesis using run refused_created[OF keys] by (auto simp: create_validated_def Let_def)
next
  case (Inr z)
  define i where "i = subject_input (dr_agent d) del (va_resource v) (va_authority v)"
  define saved where "saved = saved_rules (rc_platform (dr_body d)) (dr_now d) s"
  obtain dec routed0 where er: "evaluate_and_route (app_policy app) (dr_id d) i saved z (dr_now d) = (dec, routed0)"
    by (cases "evaluate_and_route (app_policy app) (dr_id d) i saved z (dr_now d)")
  define routed where "routed = stored_gates (dr_agent d) (va_authority v) (va_resource v) s routed0"
  have pf: "authority_platform (va_authority v) = rc_platform (dr_body d)"
    and rest: "tx_bind (draft_insert (d\<lparr>dr_notes := dr_notes d @ va_notes v @ rq_notes routed\<rparr>) (va_resource v) (Some (va_authority v)))
              (\<lambda>pending. take_route app pending (rc_secs (dr_body d)) dec (rq_route routed) gid (dr_now d)) s = Inr ((row, aft, go), s')"
    using run Inr er by (auto simp: create_validated_def Let_def i_def saved_def routed_def)
  obtain r t where ins: "draft_insert (d\<lparr>dr_notes := dr_notes d @ va_notes v @ rq_notes routed\<rparr>) (va_resource v) (Some (va_authority v)) s = Inr (r, t)"
    and taken: "take_route app r (rc_secs (dr_body d)) dec (rq_route routed) gid (dr_now d) t = Inr ((row, aft, go), s')"
    using rest by auto
  have r: "fresh_row s (dr_id d) (ag_id (dr_agent d)) r" "rr_authority r = Some (va_authority v)"
      "rr_resource r = va_resource v" "rr_delegation r = dr_delegation d" "rr_requested_secs r = rc_secs (dr_body d)"
      "rr_id r = dr_id d" "rr_status r = Pending" "t = requests.put r s"
    using draft_insert_Ok[OF ins] by simp_all
  obtain go' where go': "row_moves r row" "effect t row go' s'" "row_settled t row go' (dr_now d)"
      "go = map_option gr_id go'"
      "go' \<noteq> None \<longrightarrow> (\<exists>c. rq_route routed = RApprove c) \<and> rr_edit row = rr_edit r \<and> rr_approved_secs row
         = Some (policy_cap (app_policy app) (clamp_duration (rc_secs (dr_body d))) (Some (pd_max_duration dec)))"
    using take_route_Ok[OF _ _ r(7) taken] keys r(8) by auto
  define ro where "ro = reroute (app_policy app) (dr_id d) (dr_agent d) del (va_resource v) (va_authority v) (dr_now d) s"
  have ro: "ro_decision ro = dec" "ro_route ro = Some (rq_route routed)"
    using er Inr pf by (simp_all add: ro_def reroute_def Let_def i_def saved_def routed_def ro_route_def)
  have "del = delegator_of r s" using del r(4) by (simp add: delegator_of_def)
  then have "cleared app s r (dr_agent d) (dr_now d) ro" if "rq_route routed = RApprove c" for c
    using that r ro by (auto simp: cleared_def ro_def)
  then show ?thesis
    unfolding created_ok_def using r go' ro row_moves_id[OF go'(1)] by (intro exI[of _ r] exI[of _ go']) auto
qed

lemma create_delegated_Ok:
  assumes keys: "requests.keys_ok s"
    and del: "del = (case dr_delegation d of None \<Rightarrow> No_delegator | Some x \<Rightarrow> load_delegator (del_delegator x) s)"
    and run: "create_delegated app d del gid s = Inr ((row, aft, go), s')"
  shows "created_ok app s (dr_id d) (dr_agent d) (dr_now d) row go s'"
proof (cases "from_wire (app_time app) (rc_platform (dr_body d)) (rc_capability (dr_body d)) (rc_scope (dr_body d))")
  case (Inl e)
  then show ?thesis using run refused_created[OF keys] by (auto simp: create_delegated_def Let_def)
next
  case (Inr auth)
  then obtain outcome where "(case outcome of Inl why \<Rightarrow> created_refused d (rc_resource (dr_body d)) (Some auth) (''validator: '' @ why)
        | Inr v \<Rightarrow> create_validated app d del v gid) s = Inr ((row, aft, go), s')"
    using run by (auto simp: create_delegated_def Let_def simp del: append.simps append_Cons)
  then show ?thesis using refused_created[OF keys] create_validated_Ok[OF keys del] by (cases outcome) simp_all
qed

lemma create_Ok:
  assumes keys: "requests.keys_ok s" and run: "create app caller body rid gid now s = Inr ((row, aft, go), s')"
  shows "\<exists>a. ag_id a = ag_id (caller_agent caller) \<and> (go \<noteq> None \<longrightarrow> agents.look (ag_id a) s = Some a)
    \<and> created_ok app s rid a now row go s'"
proof (cases "check (ag_id (caller_agent caller)) now s")
  case (Inl h)
  then show ?thesis
    using run refused_created[OF keys, where d = "\<lparr>dr_id = rid, dr_agent = caller_agent caller, dr_session = caller_session caller,
        dr_delegation = None, dr_body = body, dr_notes = [], dr_now = now\<rparr>"] refused_Ok[OF keys]
    by (intro exI[of _ "caller_agent caller"]) (fastforce simp: create_def Let_def)
next
  case (Inr a)
  note a = check_Ok[OF Inr] agents.look_key[OF check_Ok[OF Inr]]
  define d where "d = \<lparr>dr_id = rid, dr_agent = a, dr_session = caller_session caller, dr_delegation = None,
               dr_body = body, dr_notes = [], dr_now = now\<rparr>"
  have "created_ok app s rid a now row go s'"
  proof (cases "opt_filter (\<lambda>t. t \<noteq> []) (rc_thread body)")
    case None
    then have "create_delegated app d No_delegator gid s = Inr ((row, aft, go), s')"
      using run Inr by (simp add: create_def Let_def d_def)
    from create_delegated_Ok[OF keys _ this] show ?thesis by (simp add: d_def)
  next
    case (Some cited)
    show ?thesis
    proof (cases "resolve_delegation app caller (rc_platform body) cited s")
      case (Inl problem)
      then have "created_refused d (rc_resource body) None (''delegation: '' @ problem) s = Inr ((row, aft, go), s')"
        using run Inr Some by (simp add: create_def Let_def d_def)
      from refused_created[OF keys this] show ?thesis by (simp add: d_def)
    next
      case (Inr x)
      obtain del note' where x: "x = (del, note')" by (cases x)
      have "create_delegated app (d\<lparr>dr_delegation := Some del, dr_notes := [note']\<rparr>) (load_delegator (del_delegator del) s) gid s
          = Inr ((row, aft, go), s')"
        using run \<open>check (ag_id (caller_agent caller)) now s = Inr a\<close> Some Inr x by (simp add: create_def Let_def d_def)
      from create_delegated_Ok[OF keys _ this] show ?thesis by (simp add: d_def)
    qed
  qed
  with a show ?thesis by auto
qed

section \<open>Deciding a request\<close>

definition same_tables :: "db \<Rightarrow> db \<Rightarrow> bool" where
  "same_tables s t = (db_requests s = db_requests t \<and> db_grants s = db_grants t \<and> db_agents s = db_agents t
     \<and> db_entries s = db_entries t \<and> db_threads s = db_threads t)"

lemma same_look:
  "same_tables s t \<Longrightarrow> requests.look i s = requests.look i t" "same_tables s t \<Longrightarrow> grants.look g s = grants.look g t"
  "same_tables s t \<Longrightarrow> agents.look a s = agents.look a t" "same_tables s t \<Longrightarrow> find_thread th s = find_thread th t"
  "same_tables s t \<Longrightarrow> requests.keys_ok s = requests.keys_ok t" "same_tables s t \<Longrightarrow> check a now s = check a now t"
  by (auto simp: same_tables_def requests.look_def grants.look_def agents.look_def find_thread_def requests.keys_ok_def
      intro: check_cong)

lemma same_effect: "same_tables s t \<Longrightarrow> effect s r' go s' = effect t r' go s'"
  by (auto simp: effect_def same_tables_def requests.put_def requests.look_def)

lemma same_settled: "same_tables s t \<Longrightarrow> row_settled s r' go now = row_settled t r' go now"
proof -
  assume st: "same_tables s t"
  have "delegation_backing d now s = delegation_backing d now t" for d
    by (simp add: delegation_backing_def find_is_look same_look[OF st] cong: option.case_cong)
  then have "grant_cap r' now s = grant_cap r' now t" by (simp add: grant_cap_def cong: option.case_cong)
  then show ?thesis
    using st same_look[OF st] by (simp add: row_settled_def same_tables_def cong: option.case_cong)
qed

lemma insert_rule_same: "insert_rule r s = Inr (x, s') \<Longrightarrow> same_tables s' s"
  by (auto simp: insert_rule_def same_tables_def)

lemma insert_evaluation_same: "insert_evaluation e s = Inr (x, s') \<Longrightarrow> same_tables s' s"
  by (auto simp: insert_evaluation_def same_tables_def)

text \<open>What a transaction on a request that is there leaves behind.\<close>

definition moved_ok :: "db \<Rightarrow> int \<Rightarrow> request_id \<Rightarrow> request_row \<Rightarrow> request_row \<Rightarrow> grant_row option \<Rightarrow> db \<Rightarrow> bool" where
  "moved_ok s now i r r' go s' =
     (requests.look i s = Some r \<and> row_moves r r' \<and> effect s r' go s' \<and> row_settled s r' go now)"

lemma moved_plain:
  assumes "requests.keys_ok s" "requests.look i s = Some r" "can_transition (rr_status r) (target e)"
    and "target e \<in> {Denied, LlmEvaluating, LlmDenied, AwaitingHuman}" "step r e now s = Inr (r', s')"
  shows "moved_ok s now i r r' None s'"
  using simple_step[OF assms(1) _ assms(3) _ assms(5)] assms(2,4) requests.look_key[OF assms(2)]
  by (auto simp: moved_ok_def)

lemma to_human_Ok:
  assumes keys: "requests.keys_ok s" and r: "requests.look (rr_id r) s = Some r"
    and run: "to_human r now s = Inr (w, t)"
  shows "is_human_decidable (rr_status r) \<and> row_moves r w \<and> rr_status w = AwaitingHuman
    \<and> (t = s \<and> w = r \<or> t = requests.put w s) \<and> requests.keys_ok t \<and> requests.look (rr_id w) t = Some w"
  using run keys r by (auto simp: to_human_def step_Ok can_transition_def split: if_splits intro!: row_moves.intros)

lemma transition_updated: "transition (r\<lparr>rr_updated_at := c\<rparr>) e now = transition r e now"
  by (simp add: transition_def proof_ok_def cong: option.case_cong)

lemma begin_provision_updated: "begin_provision (r\<lparr>rr_updated_at := c\<rparr>) gid now = begin_provision r gid now"
  by (simp add: begin_provision_def step_def transition_updated)

lemma set_approved_edit_Ok:
  assumes keys: "requests.keys_ok s" and q: "requests.look (rr_id q) s = Some q" "rr_status q = Approved"
    and run: "set_approved_edit q e clock s = Inr (Inr q', s')"
  shows "authority_platform (ed_authority e) = rr_platform q \<and> q' = q\<lparr>rr_edit := Some e\<rparr>
    \<and> s' = requests.put (q\<lparr>rr_edit := Some e, rr_updated_at := clock\<rparr>) s"
proof -
  have "update_requests (\<lambda>x. rr_id x = rr_id q \<and> rr_status x = Approved) (\<lambda>x. x\<lparr>rr_edit := Some e, rr_updated_at := clock\<rparr>) s
      = requests.put (q\<lparr>rr_edit := Some e, rr_updated_at := clock\<rparr>) s"
    using requests.update_is_put[OF keys q(1), of "\<lambda>x. rr_status x = Approved" "\<lambda>x. x\<lparr>rr_edit := Some e, rr_updated_at := clock\<rparr>"] q(2)
    by (simp add: update_requests_def)
  with run q show ?thesis by (auto simp: set_approved_edit_def find_is_look)
qed

text \<open>A human's approval from a waiting request to its grant, in a database that may have gained a rule.\<close>

lemma human_grant:
  assumes keys: "requests.keys_ok s" and w: "requests.look (rr_id w) s = Some w" "rr_status w = AwaitingHuman"
    and run: "approve_human w who attested reason dur now s = Inr (q, t)" "set_approved_edit q e clock t = Inr (Inr q', u)"
      "begin_provision q' gid now u = Inr (go, s')"
  shows "\<exists>r' go'. row_moves w r' \<and> effect s r' go' s' \<and> row_settled s r' go' now \<and> go = map_option gr_id go'
    \<and> rr_approved_secs r' = Some dur \<and> rr_edit r' = Some e
    \<and> is_none_or (\<lambda>a. approved_request a = rr_id w \<and> decided_by a = who) attested"
proof -
  obtain h where h: "step w (Enter_approved (approval_human h reason dur)) now s = Inr (q, t)"
      "is_none_or (\<lambda>a. approved_request a = rr_id w \<and> decided_by a = who) attested"
    using run(1) by (auto simp: approve_human_def result_simps split: option.splits if_splits)
  have may: "may_enter (Enter_approved (approval_human h reason dur)) now w"
    and q: "q = apply_changes (Enter_approved (approval_human h reason dur)) now w" "t = requests.put q s"
    using h(1) by (auto simp: step_Ok[OF keys w(1)])
  define q2 where "q2 = q\<lparr>rr_edit := Some e, rr_updated_at := clock\<rparr>"
  have e: "authority_platform (ed_authority e) = rr_platform q" "q' = q\<lparr>rr_edit := Some e\<rparr>" "u = requests.put q2 t"
    using set_approved_edit_Ok[OF _ _ _ run(2)] keys q unfolding q2_def by auto
  have u: "u = requests.put q2 s" using e(3) q by (simp add: q2_def)
  have "begin_provision q2 gid now u = Inr (go, s')"
    using run(3) e(2) begin_provision_updated[where r = "q\<lparr>rr_edit := Some e\<rparr>" and c = clock] by (simp add: q2_def)
  moreover have "rr_status q2 = Approved" using q by (simp add: q2_def)
  ultimately obtain r' go' where r': "row_moves q2 r'" "effect u r' go' s'" "row_settled u r' go' now" "go = map_option gr_id go'"
      "rr_approved_secs r' = rr_approved_secs q2" "rr_edit r' = rr_edit q2"
    using begin_provision_Ok[of u q2 gid now go s'] keys u by auto
  have "row_moves w q" using may w(2) unfolding q(1) by (intro row_moves.move row_moves.stay) (simp_all add: can_transition_def)
  then have "row_moves w q2" using e(1) q unfolding q2_def by (intro row_moves.edit) simp_all
  with r'(1) have "row_moves w r'" by (rule row_moves_trans)
  moreover have "effect s r' go' s'" "row_settled s r' go' now"
    using r'(2,3) u row_moves_id[OF r'(1)] by auto
  moreover have "rr_approved_secs r' = Some dur" "rr_edit r' = Some e"
    using r'(5,6) q(1) by (simp_all add: q2_def apply_changes_def no_changes_def coalesce_def approval_human_def)
  ultimately show ?thesis using r'(4) h(2) by blast
qed

text \<open>What stands behind a human's grant: an approving person, the request's agent, and the final resource and
  authority as the validators passed them just now.\<close>

definition human_decided ::
  "app_state \<Rightarrow> request_row \<Rightarrow> decider \<Rightarrow> human_approval option \<Rightarrow> human_decision \<Rightarrow> int \<Rightarrow> db \<Rightarrow> request_row \<Rightarrow> bool" where
  "human_decided app r who attested decision now s r' =
     (hd_approve decision \<and> (\<exists>h. who = Decider_human h
          \<and> is_none_or (\<lambda>a. approved_request a = rr_id r \<and> decided_by a = h) attested)
      \<and> (\<exists>a w t e. agents.look (rr_agent r) s = Some a \<and> row_moves r w \<and> (t = s \<or> t = requests.put w s)
           \<and> revalidate app a w decision now t = Ok e \<and> rr_edit r' = Some e)
      \<and> rr_approved_secs r' = Some (human_secs app decision r))"

lemma human_secs_moves: "row_moves r w \<Longrightarrow> human_secs app decision w = human_secs app decision r"
  using row_moves_spec[of r w] by (simp add: human_secs_def same_spec_def split: option.splits)

lemma decide_inner_Ok:
  assumes keys: "requests.keys_ok s"
    and run: "decide_inner app i who attested decision rid gid now clock s = Inr (go, s')"
  shows "\<exists>r r' go'. moved_ok s now i r r' go' s' \<and> is_human_decidable (rr_status r) \<and> go = map_option gr_id go'
    \<and> (go' \<noteq> None \<longrightarrow> human_decided app r who attested decision now s r')"
proof -
  define approving where "approving = (case who of Decider_human h \<Rightarrow> hd_approve decision | Decider_containment h \<Rightarrow> False)"
  obtain r w t where r: "requests.look i s = Some r" and tw: "to_human r now s = Inr (w, t)"
    using run by (auto simp: decide_inner_def find_is_look result_simps)
  have id: "rr_id r = i" using requests.look_key[OF r] .
  note th = to_human_Ok[OF keys _ tw, unfolded id, OF r]
  obtain a edit u where a: "agents.look (rr_agent w) t = Some a"
    and edit: "edit = None \<and> \<not> approving \<or> (\<exists>e. edit = Some e \<and> approving \<and> revalidate app a w decision now t = Inr e)"
    and same: "same_tables u t"
    and fin: "(case edit of
         Some e \<Rightarrow>
           tx_bind (approve_human w (decider_label who) attested (hd_reason decision) (human_secs app decision w) now) (\<lambda>approved.
           tx_bind (set_approved_edit approved e clock) (\<lambda>set.
           tx_bind (tx_lift (map_err (\<lambda>l. Transition_refused CONCURRENT) set)) (\<lambda>edited.
           begin_provision edited gid now)))
       | None \<Rightarrow>
           tx_bind (step w (Enter_denied \<lparr>dn_source = Human_source, dn_decided_by = Some (decider_label who),
              dn_reason = hd_reason decision\<rparr>) now) (\<lambda>_. tx_return None)) u = Inr (go, s')"
    using run r tw insert_rule_same
    by (fastforce simp: decide_inner_def find_is_look result_simps approving_def Let_def same_tables_def
        split: option.splits if_splits)
  have ukeys: "requests.keys_ok u" "requests.look (rr_id w) u = Some w" using th same_look[OF same] by auto
  have widr: "rr_id w = rr_id r" using th row_moves_id by blast
  have from_u: "effect s r' go' s' \<and> row_settled s r' go' now" if "row_moves w r'" "effect u r' go' s'" "row_settled u r' go' now" for r' go'
  proof -
    have "effect t r' go' s'" "row_settled t r' go' now" using that same_effect[OF same] same_settled[OF same] by auto
    then show ?thesis using th row_moves_id[OF that(1)] by auto
  qed
  show ?thesis
  proof (cases edit)
    case None
    then obtain r' where st: "step w (Enter_denied \<lparr>dn_source = Human_source, dn_decided_by = Some (decider_label who),
              dn_reason = hd_reason decision\<rparr>) now u = Inr (r', s')" "go = None"
      using fin by auto
    have "row_moves w r' \<and> effect u r' None s' \<and> row_settled u r' None now"
      using simple_step[OF ukeys _ _ st(1)] th by (auto simp: can_transition_def)
    with from_u[of r' None] th r st(2) show ?thesis
      by (intro exI[of _ r] exI[of _ r'] exI[of _ None]) (auto simp: moved_ok_def intro: row_moves_trans)
  next
    case (Some e)
    with edit obtain h where h: "who = Decider_human h" "hd_approve decision" "revalidate app a w decision now t = Inr e"
      by (auto simp: approving_def split: decider.splits)
    obtain q v q' x where "approve_human w h attested (hd_reason decision) (human_secs app decision w) now u = Inr (q, v)"
        "set_approved_edit q e clock v = Inr (Inr q', x)" "begin_provision q' gid now x = Inr (go, s')"
      using fin Some h(1) by (auto simp: result_simps)
    from human_grant[OF ukeys _ this] th obtain r' go' where r': "row_moves w r'" "effect u r' go' s'" "row_settled u r' go' now"
        "go = map_option gr_id go'" "rr_approved_secs r' = Some (human_secs app decision w)" "rr_edit r' = Some e"
        "is_none_or (\<lambda>a. approved_request a = rr_id w \<and> decided_by a = h) attested"
      by blast
    have "agents.look (rr_agent r) s = Some a"
      using a th row_moves_spec[of r w] by (auto simp: same_spec_def)
    then have "human_decided app r who attested decision now s r'"
      unfolding human_decided_def using h r'(5,6,7) th widr human_secs_moves by auto
    moreover have "moved_ok s now i r r' go' s'"
      using r from_u[OF r'(1-3)] row_moves_trans[OF r'(1)] th by (simp add: moved_ok_def)
    ultimately show ?thesis using th r'(4) by blast
  qed
qed

end
