(* ===== verification/Review_Laws.thy ===== *)
theory Review_Laws
  imports Service_Laws
begin

text \<open>
  What a new rule applied to waiting requests, the reviewer's verdict, a retry and an escalation leave behind,
  in the terms of \<open>Service_Laws\<close>.
\<close>

section \<open>A new rule on waiting requests\<close>

lemma apply_one_Ok:
  assumes keys: "requests.keys_ok s" and run: "apply_one app i rule window gid now s = Inr (out, s')"
  shows "(out = None \<and> s' = s) \<or> (\<exists>r r' go' a ro. out = Some (map_option gr_id go') \<and> moved_ok s now i r r' go' s'
    \<and> rr_status r = AwaitingHuman \<and> agents.look (rr_agent r) s = Some a \<and> cleared app s r a now ro
    \<and> rr_edit r' = rr_edit r \<and> decision_rule_id (ro_decision ro) = Some (ru_id rule)
    \<and> rr_approved_secs r' = Some (policy_cap (app_policy app) (clamp_duration (rr_requested_secs r))
         (map_option clamp_duration (ru_max_secs rule))))"
proof (cases "out = None")
  case True
  with run show ?thesis by (auto simp: apply_one_def split: option.splits route.splits if_splits)
next
  case False
  with run obtain r a auth ro c q t go where r: "requests.look i s = Some r" "rr_status r = AwaitingHuman"
      and a: "agents.look (rr_agent r) s = Some a" "rr_authority r = Some auth"
      and ro: "ro = reroute (app_policy app) i a (delegator_of r s) (rr_resource r) auth now s"
        "decision_rule_id (ro_decision ro) = Some (ru_id rule)" "ro_route ro = Some (RApprove c)"
      and steps: "step r (Enter_approved (approval_auto c (if window then ''window:'' @ rule_id_text (ru_id rule) else ''rule'')
             (if window then ''approve-all window'' else ''matched saved rule'')
             (policy_cap (app_policy app) (clamp_duration (rr_requested_secs r)) (map_option clamp_duration (ru_max_secs rule))))) now s
           = Inr (q, t)" "begin_provision q gid now t = Inr (go, s')" and out: "out = Some go"
    unfolding apply_one_def
    by (auto simp: find_is_look opt_filter_Some_iff split: option.splits route.splits if_splits simp del: append.simps append_Cons)
  have id: "rr_id r = i" using requests.look_key[OF r(1)] .
  have "can_transition (rr_status r) Approved" using r(2) by (simp add: can_transition_def)
  from approve_then_provision[OF keys _ this steps] id r obtain r' go' where "row_moves r r'" "effect s r' go' s'"
      "row_settled s r' go' now" "go = map_option gr_id go'" "rr_edit r' = rr_edit r"
      "rr_approved_secs r' = Some (policy_cap (app_policy app) (clamp_duration (rr_requested_secs r)) (map_option clamp_duration (ru_max_secs rule)))"
    by (auto simp: approval_auto_def)
  then show ?thesis
    using r a ro out id unfolding moved_ok_def cleared_def
    by (intro disjI2 exI[of _ r] exI[of _ r'] exI[of _ go'] exI[of _ a] exI[of _ ro]) auto
qed

section \<open>The reviewer\<close>

text \<open>What stands behind a grant the reviewer gave: the policy still routes the request to it with today's
  rules and zones, no entry holds the agent, and the duration is within both readings of the cap.\<close>

definition reviewed :: "app_state \<Rightarrow> db \<Rightarrow> review \<Rightarrow> request_row \<Rightarrow> nat option \<Rightarrow> int \<Rightarrow> request_row \<Rightarrow> bool" where
  "reviewed app s rv r suggested now r' =
     (\<exists>auth c ro. rr_authority r = Some auth
        \<and> ro = reroute (app_policy app) (rr_id r) (rv_agent rv) (delegator_of r s) (rr_resource r) auth now s
        \<and> ro_route ro = Some (RLlm c) \<and> holding (rv_agent rv) s = None \<and> rr_edit r' = rr_edit r
        \<and> rr_approved_secs r' = Some (llm_secs rv (policy_cap (app_policy app) (clamp_duration (rr_requested_secs r))
             (Some (pd_max_duration (ro_decision ro)))) suggested))"

lemma act_approve_Ok:
  assumes keys: "requests.keys_ok s" and r: "requests.look (rr_id r) s = Some r" "rr_status r = LlmEvaluating"
    and run: "act_approve app rv r reasoning suggested gid now s = Inr ((st, go), s')"
  shows "\<exists>r' go'. moved_ok s now (rr_id r) r r' go' s' \<and> go = map_option gr_id go'
    \<and> (go' \<noteq> None \<longrightarrow> reviewed app s rv r suggested now r')"
proof -
  obtain auth where auth: "rr_authority r = Some auth" using run by (auto simp: act_approve_def result_simps)
  define ro where "ro = reroute (app_policy app) (rr_id r) (rv_agent rv) (delegator_of r s) (rr_resource r) auth now s"
  have human: ?thesis if asked: "tx_bind (step r (Enter_human n) now) (\<lambda>_. tx_return (AwaitingHuman, None)) s = Inr ((st, go), s')" for n
  proof -
    obtain r' where "step r (Enter_human n) now s = Inr (r', s')" "go = None" using asked by auto
    with moved_plain[OF keys r(1) _ _ this(1)] r(2) show ?thesis by (auto simp: can_transition_def)
  qed
  show ?thesis
  proof (cases "\<exists>c. ro_route ro = Some (RLlm c) \<and> holding (rv_agent rv) s = None")
    case False
    then obtain n where "tx_bind (step r (Enter_human n) now) (\<lambda>_. tx_return (AwaitingHuman, None)) s = Inr ((st, go), s')"
      using run auth unfolding act_approve_def
      by (auto simp: ro_def[symmetric] split: option.splits route.splits prod.splits simp del: append.simps append_Cons)
    then show ?thesis by (rule human)
  next
    case True
    define dur where "dur = llm_secs rv (policy_cap (app_policy app) (clamp_duration (rr_requested_secs r))
             (Some (pd_max_duration (ro_decision ro)))) suggested"
    from True run auth obtain c q t where c: "ro_route ro = Some (RLlm c)" "holding (rv_agent rv) s = None"
        and steps: "step r (Enter_approved (approval_llm c (rv_model rv) reasoning dur)) now s = Inr (q, t)"
        "begin_provision q gid now t = Inr (go, s')"
      unfolding act_approve_def by (auto simp: ro_def[symmetric] dur_def)
    have "can_transition (rr_status r) Approved" using r(2) by (simp add: can_transition_def)
    from approve_then_provision[OF keys r(1) this steps] c auth r(1) show ?thesis
      by (auto simp: moved_ok_def reviewed_def ro_def dur_def approval_llm_def)
  qed
qed

text \<open>Recording a verdict touches nothing that routing or the check reads.\<close>

lemma evaluations_frame [simp]:
  "find_agent i (s\<lparr>db_evaluations := x\<rparr>) = find_agent i s" "agent_by_name n (s\<lparr>db_evaluations := x\<rparr>) = agent_by_name n s"
  "list_in_sandbox d (s\<lparr>db_evaluations := x\<rparr>) = list_in_sandbox d s" "live_for p now (s\<lparr>db_evaluations := x\<rparr>) = live_for p now s"
  "alias_creator n (s\<lparr>db_evaluations := x\<rparr>) = alias_creator n s"
  "chain a (s\<lparr>db_evaluations := x\<rparr>) = chain a s" "delegator_of r (s\<lparr>db_evaluations := x\<rparr>) = delegator_of r s"
  by (simp_all add: find_agent_def agent_by_name_def list_in_sandbox_def live_for_def alias_creator_def
      chain_def delegator_of_def load_delegator_def cong: option.case_cong)

lemma reroute_frame [simp]: "reroute p i a d res auth now (s\<lparr>db_evaluations := x\<rparr>) = reroute p i a d res auth now s"
proof -
  have "zone_check_db p a auth res (s\<lparr>db_evaluations := x\<rparr>) = zone_check_db p a auth res s"
    by (simp add: zone_check_db_def zone_facts_of_def daemon_name_def cong: option.case_cong platform.case_cong)
  moreover have "created_for_another (ag_id a) auth res (s\<lparr>db_evaluations := x\<rparr>) = created_for_another (ag_id a) auth res s"
    by (simp add: created_for_another_def cong: option.case_cong if_cong)
  then have "stored_gates a auth res (s\<lparr>db_evaluations := x\<rparr>) = stored_gates a auth res s"
    by (intro ext) (simp add: stored_gates_def)
  ultimately show ?thesis by (simp add: reroute_def saved_rules_def cong: sum.case_cong)
qed

lemma reviewed_frame [simp]: "reviewed app (s\<lparr>db_evaluations := x\<rparr>) rv r sg now r' = reviewed app s rv r sg now r'"
  by (simp add: reviewed_def holding_def)

lemma insert_evaluation_Ok: "insert_evaluation e s = Inr (u, s') \<Longrightarrow> \<exists>x. s' = s\<lparr>db_evaluations := x\<rparr>"
  by (auto simp: insert_evaluation_def)

lemma act_deny_Ok:
  assumes "requests.keys_ok s" "requests.look (rr_id r) s = Some r" "rr_status r = LlmEvaluating"
    and "act_deny rv r reasoning now s = Inr ((st, go), s')"
  shows "\<exists>r'. moved_ok s now (rr_id r) r r' None s' \<and> go = None"
proof -
  from assms(4) obtain e r' where "step r e now s = Inr (r', s')" "target e \<in> {Denied, LlmEvaluating, LlmDenied, AwaitingHuman}"
      "can_transition (rr_status r) (target e)" "go = None"
    using assms(3) by (fastforce simp: act_deny_def can_transition_def split: if_splits)
  with moved_plain[OF assms(1,2)] show ?thesis by blast
qed

lemma review_act_Ok:
  assumes keys: "requests.keys_ok s" and run: "review_act app rv verdict gid now s = Inr (out, s')"
  shows "(out = None \<and> s' = s) \<or> (\<exists>r r' go' st. out = Some (st, map_option gr_id go')
    \<and> moved_ok s now (rr_id (rv_request rv)) r r' go' s' \<and> rr_status r = LlmEvaluating
    \<and> rr_attempt r = rr_attempt (rv_request rv)
    \<and> (go' \<noteq> None \<longrightarrow> (\<exists>reasoning suggested. verdict = Llm_approve reasoning suggested \<and> reviewed app s rv r suggested now r')))"
proof (cases "opt_filter (\<lambda>r. rr_status r = LlmEvaluating \<and> rr_attempt r = rr_attempt (rv_request rv))
         (requests.look (rr_id (rv_request rv)) s)")
  case None
  with run show ?thesis by (auto simp: review_act_def find_is_look)
next
  case (Some r)
  then have r: "requests.look (rr_id (rv_request rv)) s = Some r" "rr_status r = LlmEvaluating"
      "rr_attempt r = rr_attempt (rv_request rv)" by (auto simp: opt_filter_Some_iff)
  have id: "rr_id (rv_request rv) = rr_id r" using requests.look_key[OF r(1)] by simp
  obtain t u st go where ins: "(case verdict_row rv verdict (rr_attempt r) now of
               None \<Rightarrow> tx_return () | Some e \<Rightarrow> insert_evaluation e) s = Inr (u, t)" and out: "out = Some (st, go)"
    and run2: "(case verdict of
               Llm_approve reasoning suggested \<Rightarrow> act_approve app rv r reasoning suggested gid now
             | Llm_deny reasoning \<Rightarrow> act_deny rv r reasoning now
             | Llm_error \<Rightarrow> tx_bind (step r (Enter_human (Some (cps ERROR_REASONING))) now)
                             (\<lambda>_. tx_return (AwaitingHuman, None))) t = Inr ((st, go), s')"
    using run r by (auto simp: review_act_def find_is_look)
  have t: "t = s \<or> (\<exists>x. t = s\<lparr>db_evaluations := x\<rparr>)"
    using ins by (auto split: option.splits dest: insert_evaluation_Ok)
  have same: "same_tables t s" using t by (auto simp: same_tables_def)
  have tkeys: "requests.keys_ok t" "requests.look (rr_id r) t = Some r" using keys r id same_look[OF same] by auto
  have "\<exists>r' go'. moved_ok t now (rr_id r) r r' go' s' \<and> go = map_option gr_id go'
      \<and> (go' \<noteq> None \<longrightarrow> (\<exists>reasoning suggested. verdict = Llm_approve reasoning suggested \<and> reviewed app t rv r suggested now r'))"
  proof (cases verdict)
    case (Llm_approve reasoning suggested)
    with run2 act_approve_Ok[OF tkeys r(2)] show ?thesis by fastforce
  next
    case (Llm_deny reasoning)
    with run2 act_deny_Ok[OF tkeys r(2)] show ?thesis by fastforce
  next
    case Llm_error
    with run2 obtain r' where "step r (Enter_human (Some (cps ERROR_REASONING))) now t = Inr (r', s')" "go = None" by auto
    with moved_plain[OF tkeys _ _ this(1)] r(2) show ?thesis by (auto simp: can_transition_def)
  qed
  then obtain r' go' where "moved_ok s now (rr_id r) r r' go' s'" "go = map_option gr_id go'"
      "go' \<noteq> None \<longrightarrow> (\<exists>reasoning suggested. verdict = Llm_approve reasoning suggested \<and> reviewed app s rv r suggested now r')"
    using t by (auto simp: moved_ok_def same_look[OF same] same_effect[OF same] same_settled[OF same])
  with out r show ?thesis unfolding id
    by (intro disjI2 exI[of _ r] exI[of _ r'] exI[of _ go'] exI[of _ st]) auto
qed

section \<open>Retrying and escalating\<close>

lemma own_denied_Ok:
  assumes "own_denied caller i verb now s = Inr (r, s')"
  shows "s' = s \<and> requests.look i s = Some r \<and> rr_agent r = ag_id (caller_agent caller) \<and> rr_status r = LlmDenied
    \<and> is_ok (check (rr_agent r) now s)"
  using assms by (auto simp: own_denied_def Let_def find_is_look result_simps opt_filter_Some_iff refuse_if_held_def
      split: sum.splits)

lemma moved_transition:
  assumes keys: "requests.keys_ok s" and r: "requests.look i s = Some r" and edge: "can_transition (rr_status r) (target e)"
    and tgt: "target e \<in> {LlmEvaluating, AwaitingHuman}" and run: "transition r e now s = Inr (x, s')"
  shows "\<exists>r'. x = Inr r' \<and> moved_ok s now i r r' None s' \<and> r' = apply_changes e now r \<and> may_enter e now r"
proof -
  have "requests.look (rr_id r) s = Some r" using r requests.look_key[OF r] by simp
  then show ?thesis
    using run tgt edge r by (auto simp: transition_Ok[OF keys] moved_ok_def effect_def row_settled_def intro: row_moves.intros)
qed

lemma escalate_from_llm_Ok:
  assumes keys: "requests.keys_ok s" and run: "escalate_from_llm i n now s = Inr (u, s')"
  shows "s' = s \<or> (\<exists>r r'. moved_ok s now i r r' None s' \<and> rr_status r = LlmEvaluating)"
proof (cases "opt_filter (\<lambda>r. rr_status r = LlmEvaluating) (requests.look i s)")
  case None
  with run show ?thesis by (auto simp: escalate_from_llm_def find_is_look)
next
  case (Some r)
  then have r: "requests.look i s = Some r" "rr_status r = LlmEvaluating" by (auto simp: opt_filter_Some_iff)
  obtain x where "transition r (Enter_human (Some (cps n))) now s = Inr (x, s')"
    using run Some by (auto simp: escalate_from_llm_def find_is_look)
  moreover have "can_transition (rr_status r) (target (Enter_human (Some (cps n))))" using r(2) by (simp add: can_transition_def)
  ultimately show ?thesis using moved_transition[OF keys r(1)] r(2) by fastforce
qed

lemma escalate_Ok:
  assumes keys: "requests.keys_ok s" and run: "escalate caller i now s = Inr (row, s')"
  shows "\<exists>r. moved_ok s now i r row None s' \<and> rr_status r = LlmDenied"
proof -
  obtain r n x t u where r0: "own_denied caller i ''escalate'' now s = Inr (r, t)"
    and t0: "transition r (Enter_human n) now t = Inr (x, u)" "decided_concurrently x u = Inr (row, s')"
    using run unfolding escalate_def tx_bind_Ok by blast
  have r: "own_denied caller i ''escalate'' now s = Inr (r, s)" using own_denied_Ok[OF r0] r0 by simp
  have t: "transition r (Enter_human n) now s = Inr (x, s')" "x = Inr row"
    using t0 own_denied_Ok[OF r0] by (simp_all add: decided_concurrently_def result_simps)
  note o = own_denied_Ok[OF r]
  have "can_transition (rr_status r) (target (Enter_human n))" using o by (simp add: can_transition_def)
  with moved_transition[OF keys _ this _ t(1)] o t(2) show ?thesis by auto
qed

text \<open>A retry needs an attempt left in the budget of today's policy, and its route to the reviewer.\<close>

lemma retry_Ok:
  assumes keys: "requests.keys_ok s" and run: "retry app caller i justification now s = Inr (row, s')"
  shows "\<exists>r auth ro c. moved_ok s now i r row None s' \<and> rr_status r = LlmDenied \<and> rr_authority r = Some auth
    \<and> ro = reroute (app_policy app) i (caller_agent caller) (delegator_of r s) (rr_resource r) auth now s
    \<and> ro_route ro = Some (RLlm c) \<and> rr_attempt r < pd_retry_budget (ro_decision ro) \<and> rr_attempt row = rr_attempt r + 1"
proof -
  obtain r t where r0: "own_denied caller i ''retry'' now s = Inr (r, t)" using run by (auto simp: retry_def)
  have r: "own_denied caller i ''retry'' now s = Inr (r, s)" using own_denied_Ok[OF r0] r0 by simp
  obtain auth where auth: "rr_authority r = Some auth" using run r by (auto simp: retry_def result_simps)
  define ro where "ro = reroute (app_policy app) i (caller_agent caller) (delegator_of r s) (rr_resource r) auth now s"
  obtain c x where ro: "rr_attempt r < pd_retry_budget (ro_decision ro)" "ro_route ro = Some (RLlm c)"
    and t: "transition r (Enter_llm c (Some justification)) now s = Inr (x, s')" "x = Inr row"
    using run r auth
    by (auto simp: retry_def decided_concurrently_def result_simps not_le ro_def[symmetric] split: option.splits route.splits)
  note o = own_denied_Ok[OF r]
  have "can_transition (rr_status r) (target (Enter_llm c (Some justification)))" using o by (simp add: can_transition_def)
  with moved_transition[OF keys _ this _ t(1)] o t(2) have "moved_ok s now i r row None s'"
      "row = apply_changes (Enter_llm c (Some justification)) now r" by auto
  moreover from this have "rr_attempt row = rr_attempt r + 1" by (simp add: apply_changes_def no_changes_def)
  ultimately show ?thesis using o auth ro ro_def by blast
qed

end
