(* ===== verification/Grant_Laws.thy ===== *)
theory Grant_Laws
  imports Review_Laws
begin

text \<open>
  What the finishing phase, the reaper, a revoke and the expiry pass do to a grant and its request: the grant
  keeps who holds it and what it gives, its end only moves earlier, its status only along the edges of
  its state machine, and the request follows it.
\<close>

section \<open>How a grant changes\<close>

definition grant_evolves :: "grant_row \<Rightarrow> grant_row \<Rightarrow> bool" where
  "grant_evolves g g' =
     (gr_id g' = gr_id g \<and> gr_request g' = gr_request g \<and> gr_agent g' = gr_agent g \<and> gr_platform g' = gr_platform g
      \<and> gr_authority g' = gr_authority g \<and> gr_delegation g' = gr_delegation g \<and> gr_granted_at g' = gr_granted_at g
      \<and> gr_expires_at g' \<le> gr_expires_at g \<and> grant_can_transition\<^sup>*\<^sup>* (gr_status g) (gr_status g')
      \<and> (gr_status g' \<in> {GExpired, GRevoked} \<longrightarrow> gr_status g = gr_status g' \<and> gr_revoked_at g' = gr_revoked_at g
           \<or> gr_revoked_at g' \<noteq> None))"

lemma grant_evolves_refl [simp]: "grant_evolves g g"
  by (simp add: grant_evolves_def)

text \<open>The status of the request that goes with a grant's.\<close>

fun follows :: "grant_status \<Rightarrow> request_status" where
  "follows GProvisioning = Provisioning"
| "follows GActive = Granted"
| "follows GExpired = Granted"
| "follows GRevoked = Granted"
| "follows GProvisionFailed = ProvisionFailed"

definition grant_effect :: "db \<Rightarrow> grant_row \<Rightarrow> request_row \<Rightarrow> db \<Rightarrow> bool" where
  "grant_effect s g' r' s' =
     (db_grants s' = db_grants (grants.put g' s) \<and> db_requests s' = db_requests (requests.put r' s)
      \<and> db_agents s' = db_agents s \<and> db_entries s' = db_entries s \<and> db_threads s' = db_threads s)"

lemma grants_put_put [simp]: "gr_id g = gr_id g' \<Longrightarrow> grants.put g (grants.put g' s) = grants.put g s"
  by (rule grants.put_put)

lemma grants_put_cong: "db_grants s = db_grants t \<Longrightarrow> db_grants (grants.put g s) = db_grants (grants.put g t)"
  by (simp add: grants.put_def grants.look_def)

lemma requests_put_cong: "db_requests s = db_requests t \<Longrightarrow> db_requests (requests.put r s) = db_requests (requests.put r t)"
  by (simp add: requests.put_def requests.look_def)

lemma move_provisioning_Ok:
  assumes keys: "requests.keys_ok s" and r: "requests.look i s = Some r" "rr_status r = Provisioning"
    and run: "move_provisioning i e now s = Inr (u, s')"
  shows "may_enter e now r \<and> s' = requests.put (apply_changes e now r) s"
proof -
  have "requests.look (rr_id r) s = Some r" using r requests.look_key[OF r(1)] by simp
  with run r show ?thesis by (auto simp: move_provisioning_def find_is_look step_Ok[OF keys])
qed

text \<open>A provisioner's own writes: at most the address of a grant still being provisioned.\<close>

lemma provisioner_writes_Ok:
  assumes keys: "grants.keys_ok s" and g: "grants.look (gr_id g) s = Some g" "gr_status g = GProvisioning"
    and run: "provisioner_writes g created s = Inr (u, t)"
  shows "\<exists>g1 al. g1 = g\<lparr>gr_resource := gr_resource g1\<rparr> \<and> t = grants.put g1 s\<lparr>db_aliases := al\<rparr>"
proof (cases created)
  case None
  have "grants.put g s = s" using grants.put_same[OF keys g(1)] .
  with None run show ?thesis by (intro exI[of _ g] exI[of _ "db_aliases s"]) (auto simp: provisioner_writes_def)
next
  case (Some address)
  define al where "al = (if map_of (db_aliases s) (to_lowercase address) = None
       then db_aliases s @ [(to_lowercase address, gr_agent g)] else db_aliases s)"
  have "update_grants (\<lambda>h. gr_id h = gr_id g \<and> gr_status h = GProvisioning) (\<lambda>h. h\<lparr>gr_resource := address\<rparr>) s
      = grants.put (g\<lparr>gr_resource := address\<rparr>) s"
    using grants.update_is_put[OF keys g(1), of "\<lambda>h. gr_status h = GProvisioning" "\<lambda>h. h\<lparr>gr_resource := address\<rparr>"] g(2)
    by (simp add: update_grants_def)
  moreover have "update_grants P f (s\<lparr>db_aliases := al\<rparr>) = update_grants P f s\<lparr>db_aliases := al\<rparr>" for P f
    by (simp add: update_grants_def)
  moreover have "t = update_grants (\<lambda>h. gr_id h = gr_id g \<and> gr_status h = GProvisioning) (\<lambda>h. h\<lparr>gr_resource := address\<rparr>) (s\<lparr>db_aliases := al\<rparr>)"
    using run Some unfolding al_def by (simp add: provisioner_writes_def set_created_alias_def)
  ultimately have "t = grants.put (g\<lparr>gr_resource := address\<rparr>) s\<lparr>db_aliases := al\<rparr>" by simp
  then show ?thesis by (intro exI[of _ "g\<lparr>gr_resource := address\<rparr>"] exI[of _ al]) simp
qed

text \<open>A database where a grant is being provisioned, and its request with it.\<close>

definition provisioning_pair :: "db \<Rightarrow> grant_row \<Rightarrow> request_row \<Rightarrow> bool" where
  "provisioning_pair s g r =
     (requests.keys_ok s \<and> grants.keys_ok s \<and> grants.look (gr_id g) s = Some g \<and> gr_status g = GProvisioning
      \<and> requests.look (gr_request g) s = Some r \<and> rr_status r = Provisioning)"

lemma pair_put:
  assumes "provisioning_pair s g r" "g1 = g\<lparr>gr_resource := gr_resource g1\<rparr>"
  shows "provisioning_pair (grants.put g1 s\<lparr>db_aliases := al\<rparr>) g1 r"
proof -
  have f: "gr_id g1 = gr_id g" "gr_request g1 = gr_request g" "gr_status g1 = gr_status g"
    using arg_cong[OF assms(2), of gr_id] arg_cong[OF assms(2), of gr_request] arg_cong[OF assms(2), of gr_status] by simp_all
  define t where "t = grants.put g1 s"
  have "grants.look (gr_id g1) t = Some g1" "requests.look (gr_request g) t = Some r" "requests.keys_ok t" "grants.keys_ok t"
    using assms(1) by (auto simp: provisioning_pair_def t_def)
  then show ?thesis
    using assms(1) f by (simp add: provisioning_pair_def t_def grants.look_def requests.look_def requests.keys_ok_def grants.keys_ok_def)
qed

definition failed_grant :: "grant_row \<Rightarrow> grant_row \<Rightarrow> bool" where
  "failed_grant g g' = (grant_evolves g g' \<and> gr_status g' = GProvisionFailed)"

lemma fail_pair_Ok:
  assumes pair: "provisioning_pair s g r"
    and run: "fail_provisioning g why reverted s = Inr (x, t)" "fail_request (gr_request g) why2 now t = Inr (u, s')"
  shows "\<exists>g' r'. x = Inr g' \<and> grant_effect s g' r' s' \<and> failed_grant g g' \<and> r' = apply_changes (Enter_failed why2) now r
    \<and> may_enter (Enter_failed why2) now r"
proof -
  note p = pair[unfolded provisioning_pair_def]
  define g' where "g' = g\<lparr>gr_status := GProvisionFailed, gr_revoke_reason := Some why, gr_revoked_at := coalesce reverted (gr_revoked_at g)\<rparr>"
  have t: "x = Inr g'" "t = grants.put g' s"
    using run(1) p by (auto simp: fail_provisioning_def move_grant_Ok g'_def)
  have rr: "may_enter (Enter_failed why2) now r \<and> s' = requests.put (apply_changes (Enter_failed why2) now r) t"
    using move_provisioning_Ok[of t "gr_request g" r] run(2) p t by (simp add: fail_request_def)
  have "failed_grant g g'" using p by (auto simp: failed_grant_def grant_evolves_def g'_def)
  moreover have "grant_effect s g' (apply_changes (Enter_failed why2) now r) s'"
    using rr t by (auto simp: grant_effect_def intro: requests_put_cong)
  ultimately show ?thesis using rr t by blast
qed

lemma grant_effect_trans:
  assumes "grant_effect t g' r' s'" "t = grants.put g1 s\<lparr>db_aliases := al\<rparr>" "gr_id g' = gr_id g1"
  shows "grant_effect s g' r' s'"
proof -
  have "db_grants (grants.put g' t) = db_grants (grants.put g' (grants.put g1 s))"
    using assms(2) by (intro grants_put_cong) simp
  moreover have "db_requests (requests.put r' t) = db_requests (requests.put r' s)"
    using assms(2) by (intro requests_put_cong) simp
  ultimately show ?thesis using assms by (simp add: grant_effect_def)
qed

end
