(* ===== verification/Broker_State.thy ===== *)
theory Broker_State
  imports Grant_Laws
begin

text \<open>
  The state every committed transaction of the broker leaves: the constraints of the database's schema
  (\<open>store/migrations\<close>), kept by the code itself rather than by the database refusing, and more: no request
  rests half decided, and a request and its grant always agree.
\<close>

section \<open>Finishing, reaping, ending\<close>

text \<open>The finishing phase on a grant being provisioned: it stays as it is, fails with its request, or becomes active
  with its request granted, for an agent that is not held at that moment.\<close>

definition finished :: "db \<Rightarrow> grant_row \<Rightarrow> request_row \<Rightarrow> int \<Rightarrow> db \<Rightarrow> bool" where
  "finished s g r now s' =
     (\<exists>g' r'. grant_effect s g' r' s'
        \<and> (failed_grant g g' \<and> (\<exists>why. r' = apply_changes (Enter_failed why) now r \<and> may_enter (Enter_failed why) now r)
           \<or> grant_evolves g g' \<and> gr_status g' = GActive \<and> r' = apply_changes Enter_granted now r
             \<and> may_enter Enter_granted now r \<and> is_ok (check (gr_agent g) now s)))"

lemma evolves_resource:
  assumes "g1 = g\<lparr>gr_resource := gr_resource g1\<rparr>"
  shows "grant_evolves g1 g' = grant_evolves g g'" "failed_grant g1 g' = failed_grant g g'"
proof -
  have f: "gr_id g1 = gr_id g" "gr_request g1 = gr_request g" "gr_agent g1 = gr_agent g" "gr_platform g1 = gr_platform g"
    "gr_authority g1 = gr_authority g" "gr_delegation g1 = gr_delegation g" "gr_granted_at g1 = gr_granted_at g"
    "gr_expires_at g1 = gr_expires_at g" "gr_status g1 = gr_status g" "gr_revoked_at g1 = gr_revoked_at g"
    by (subst assms; simp)+
  then show "grant_evolves g1 g' = grant_evolves g g'" by (simp add: grant_evolves_def)
  then show "failed_grant g1 g' = failed_grant g g'" by (simp add: failed_grant_def)
qed

lemma record_failure_finished:
  assumes pair: "provisioning_pair s g r" and t: "provisioner_writes g created s = Inr (u, t)"
    and run: "record_failure g why reverted now t = Inr (v, s')"
  shows "finished s g r now s'"
proof -
  have g: "grants.keys_ok s" "grants.look (gr_id g) s = Some g" "gr_status g = GProvisioning"
    using pair by (simp_all add: provisioning_pair_def)
  obtain g1 al where g1: "g1 = g\<lparr>gr_resource := gr_resource g1\<rparr>" "t = grants.put g1 s\<lparr>db_aliases := al\<rparr>"
    using provisioner_writes_Ok[OF g t] by auto
  have id: "gr_id g1 = gr_id g" "gr_request g1 = gr_request g" by (subst g1(1); simp)+
  obtain x w where "fail_provisioning g1 why reverted t = Inr (x, w)" "fail_request (gr_request g1) why now w = Inr (v, s')"
    using run unfolding record_failure_def fail_provisioning_def tx_bind_Ok id by blast
  from fail_pair_Ok[OF pair_put[OF pair g1(1), of al, folded g1(2)] this] obtain g' r' where
    e: "grant_effect t g' r' s'" "failed_grant g1 g'" "r' = apply_changes (Enter_failed why) now r" "may_enter (Enter_failed why) now r"
    by blast
  have "gr_id g' = gr_id g1" using e(2) by (simp add: failed_grant_def grant_evolves_def)
  with e(1) g1(2) have "grant_effect s g' r' s'" by (rule grant_effect_trans)
  moreover have "failed_grant g g'" using e(2) evolves_resource[OF g1(1)] by simp
  ultimately show ?thesis unfolding finished_def using e(3,4) by blast
qed

lemma activate_finished:
  assumes pair: "provisioning_pair s g r" and t: "provisioner_writes g created s = Inr (u, t)"
    and held: "check (gr_agent g) now s = Inr a"
    and run: "activate g a st t = Inr (x, w)"
      "(case x of Inr g' \<Rightarrow> grant_succeeded (gr_request g) now | Inl l \<Rightarrow> tx_return ()) w = Inr (v, s')"
  shows "finished s g r now s'"
proof -
  have g: "grants.keys_ok s" "grants.look (gr_id g) s = Some g" "gr_status g = GProvisioning"
    using pair by (simp_all add: provisioning_pair_def)
  obtain g1 al where g1: "g1 = g\<lparr>gr_resource := gr_resource g1\<rparr>" "t = grants.put g1 s\<lparr>db_aliases := al\<rparr>"
    using provisioner_writes_Ok[OF g t] by auto
  have id: "gr_id g1 = gr_id g" "gr_request g1 = gr_request g" by (subst g1(1); simp)+
  note p = pair_put[OF pair g1(1), of al, folded g1(2), unfolded provisioning_pair_def]
  define g' where "g' = g1\<lparr>gr_status := GActive, gr_state := st\<rparr>"
  have w: "x = Inr g'" "w = grants.put g' t"
    using run(1) p id by (auto simp: activate_def verify_not_held_def move_grant_Ok g'_def)
  have "move_provisioning (gr_request g1) Enter_granted now w = Inr (v, s')"
    using run(2) w(1) id by (simp add: grant_succeeded_def)
  then have s': "may_enter Enter_granted now r" "s' = requests.put (apply_changes Enter_granted now r) w"
    using move_provisioning_Ok[of w "gr_request g1" r] p w(2) by auto
  have "grant_effect t g' (apply_changes Enter_granted now r) s'"
    using s' w by (auto simp: grant_effect_def intro: requests_put_cong)
  then have "grant_effect s g' (apply_changes Enter_granted now r) s'"
    using g1(2) by (rule grant_effect_trans) (simp add: g'_def)
  moreover have "grant_evolves g1 g'" using p by (auto simp: grant_evolves_def g'_def)
  ultimately show ?thesis
    unfolding finished_def using s'(1) held evolves_resource[OF g1(1)]
    by (intro exI[of _ g'] exI[of _ "apply_changes Enter_granted now r"]) (simp add: g'_def)
qed

lemma provisioner_writes_none: "provisioner_writes g None s = Inr ((), s)"
  by (simp add: provisioner_writes_def)

lemma record_failure_fresh_Ok:
  assumes pair: "provisioning_pair s g r" and run: "record_failure_fresh (gr_id g) (gr_request g) why now s = Inr (u, s')"
  shows "finished s g r now s'"
proof -
  have "load_provisioning (gr_id g) s = Some g" using pair by (simp add: load_provisioning_def find_is_look provisioning_pair_def)
  with run have "record_failure g why None now s = Inr (u, s')" by (auto simp: record_failure_fresh_def record_failure_def)
  with record_failure_finished[OF pair provisioner_writes_none] show ?thesis by blast
qed

lemma finish_inner_Ok:
  assumes pair: "provisioning_pair s g r" and run: "finish_inner app (gr_id g) outcome created now s = Inr (u, s')"
  shows "s' = s \<or> finished s g r now s'"
proof -
  have g: "load_provisioning (gr_id g) s = Some g" "find_grant (gr_id g) s = Some g"
    using pair by (simp_all add: load_provisioning_def find_is_look provisioning_pair_def)
  note plain = record_failure_finished[OF pair provisioner_writes_none]
  show ?thesis
  proof (cases "check (gr_agent g) now s")
    case (Inl h)
    with run g plain show ?thesis by (auto simp: finish_inner_def)
  next
    case (Inr a)
    show ?thesis
    proof (cases "gr_platform g \<in> set (app_platforms app)")
      case False
      with run g Inr plain show ?thesis by (auto simp: finish_inner_def)
    next
      case True
      show ?thesis
      proof (cases outcome)
        case (Timed_out undone)
        with run g Inr True show ?thesis using record_failure_finished[OF pair] by (auto simp: finish_inner_def split: if_splits)
      next
        case (Provisioned st)
        with run g Inr True obtain t x w where "provisioner_writes g created s = Inr ((), t)" "activate g a st t = Inr (x, w)"
            "(case x of Inr g' \<Rightarrow> grant_succeeded (gr_request g) now | Inl l \<Rightarrow> tx_return ()) w = Inr (u, s')"
          by (auto simp: finish_inner_def)
        with activate_finished[OF pair _ Inr] show ?thesis by blast
      next
        case (Provision_failed e)
        show ?thesis
        proof (cases "tx_bind (provisioner_writes g created) (\<lambda>_. record_failure g (agent_visible e) None now) s")
          case (Inl broken)
          with run g \<open>check (gr_agent g) now s = Inr a\<close> True Provision_failed
          have "record_failure_fresh (gr_id g) (gr_request g) (agent_visible e) now s = Inr (u, s')"
            by (simp add: finish_inner_def)
          with record_failure_fresh_Ok[OF pair] show ?thesis by blast
        next
          case (Inr done')
          with run g \<open>check (gr_agent g) now s = Inr a\<close> True Provision_failed
          have "tx_bind (provisioner_writes g created) (\<lambda>_. record_failure g (agent_visible e) None now) s = Inr (u, s')"
            by (simp add: finish_inner_def)
          then obtain t where "provisioner_writes g created s = Inr ((), t)" "record_failure g (agent_visible e) None now t = Inr (u, s')"
            by auto
          with record_failure_finished[OF pair] show ?thesis by blast
        qed
      qed
    qed
  qed
qed

lemma finish_inner_other:
  assumes "load_provisioning gid s = None" "finish_inner app gid outcome created now s = Inr (u, s')"
  shows "s' = s"
  using assms by (auto simp: finish_inner_def split: option.splits sum.splits)

lemma reap_one_Ok:
  assumes pair: "provisioning_pair s g r" and run: "reap_one app (gr_id g) answer why now s = Inr (x, s')"
  shows "finished s g r now s'"
proof -
  have g: "load_provisioning (gr_id g) s = Some g"
    using pair by (simp add: load_provisioning_def find_is_look provisioning_pair_def)
  obtain external moved t where fail: "fail_provisioning g (if external then why_grant why else RETIRED) (Some now) s = Inr (moved, t)"
      and rest: "(case moved of Inl l \<Rightarrow> tx_return None
        | Inr g' \<Rightarrow> tx_bind (fail_request (gr_request g) (why_request why) now) (\<lambda>_. tx_return (Some (gr_request g)))) t = Inr (x, s')"
    using run g by (simp add: reap_one_def) blast
  obtain m where m: "moved = Inr m"
    using fail pair by (auto simp: fail_provisioning_def provisioning_pair_def move_grant_Ok)
  obtain v where "fail_request (gr_request g) (why_request why) now t = Inr (v, s')" using rest m by auto
  from fail_pair_Ok[OF pair fail this] show ?thesis unfolding finished_def by blast
qed

lemma reap_one_other: "load_provisioning gid s = None \<Longrightarrow> reap_one app gid answer why now s = Inr (x, s') \<Longrightarrow> s' = s"
  by (auto simp: reap_one_def)

section \<open>The invariant\<close>

text \<open>The schema's checks on one request that any sequence of moves keeps.\<close>

definition columns_ok :: "request_row \<Rightarrow> bool" where
  "columns_ok r =
     (is_none_or (\<lambda>a. authority_platform a = rr_platform r) (rr_authority r)
      \<and> is_none_or (\<lambda>e. authority_platform (ed_authority e) = rr_platform r) (rr_edit r)
      \<and> (rr_edit r \<noteq> None \<longrightarrow> rr_status r \<in> {Approved, Provisioning, Granted, ProvisionFailed})
      \<and> (rr_status r \<in> {Approved, Provisioning, Granted, ProvisionFailed} \<longrightarrow>
           rr_approved_secs r \<noteq> None \<and> rr_source r \<noteq> None \<and> rr_decided_at r \<noteq> None)
      \<and> (rr_status r = Denied \<longrightarrow> rr_source r \<noteq> None \<and> rr_decided_at r \<noteq> None)
      \<and> (rr_status r \<in> {LlmEvaluating, LlmDenied} \<longrightarrow> 1 \<le> rr_attempt r)
      \<and> rr_attempt r \<le> I32_MAX \<and> is_none_or (\<lambda>n. n \<le> I32_MAX) (rr_approved_secs r))"

text \<open>A request at rest: it was decided or waits, and past the reviewer and the human it has an authority.\<close>

definition row_ok :: "request_row \<Rightarrow> bool" where
  "row_ok r = (columns_ok r \<and> rr_status r \<notin> {Pending, Approved} \<and> (rr_authority r = None \<longrightarrow> rr_status r = Denied))"

definition grant_matches :: "grant_row \<Rightarrow> request_row \<Rightarrow> bool" where
  "grant_matches g r =
     (rr_agent r = gr_agent g \<and> rr_platform r = gr_platform g \<and> rr_delegation r = gr_delegation g
      \<and> rr_status r = follows (gr_status g) \<and> final_authority r = Some (gr_authority g)
      \<and> (\<exists>n. rr_approved_secs r = Some n \<and> gr_expires_at g \<le> gr_granted_at g + int n * 1000000000)
      \<and> (gr_status g \<in> {GExpired, GRevoked} \<longrightarrow> gr_revoked_at g \<noteq> None))"

definition store_ok :: "db \<Rightarrow> bool" where
  "store_ok s =
     (requests.keys_ok s \<and> grants.keys_ok s \<and> distinct (map gr_request (db_grants s))
      \<and> (\<forall>i r. requests.look i s = Some r \<longrightarrow> row_ok r
           \<and> (rr_status r \<in> {Provisioning, Granted} \<longrightarrow> (\<exists>g \<in> set (db_grants s). gr_request g = i)))
      \<and> (\<forall>g \<in> set (db_grants s). \<exists>r. requests.look (gr_request g) s = Some r \<and> grant_matches g r))"

lemma new_row_columns: "fresh_row s rid a r \<Longrightarrow> columns_ok r"
  by (auto simp: fresh_row_def columns_ok_def new_row_def is_none_or_def split: option.splits)

lemma enter_columns:
  assumes "columns_ok r" "may_enter e now r" "can_transition (rr_status r) (target e)"
  shows "columns_ok (apply_changes e now r)"
proof -
  have plain: "is_none_or (\<lambda>a. authority_platform a = rr_platform r) (rr_authority r)"
    "is_none_or (\<lambda>e. authority_platform (ed_authority e) = rr_platform r) (rr_edit r)"
    "rr_attempt (apply_changes e now r) \<le> I32_MAX"
    using assms by (simp_all add: columns_ok_def may_enter_def)
  moreover have "is_none_or (\<lambda>n. n \<le> I32_MAX) (rr_approved_secs (apply_changes e now r))"
    using assms by (cases e) (auto simp: columns_ok_def may_enter_def apply_changes_def no_changes_def coalesce_def)
  moreover have "target e \<in> {Approved, Provisioning, Granted, ProvisionFailed} \<longrightarrow>
      rr_approved_secs (apply_changes e now r) \<noteq> None \<and> rr_source (apply_changes e now r) \<noteq> None
      \<and> rr_decided_at (apply_changes e now r) \<noteq> None"
    using assms(1,3) by (cases e; cases "rr_status r")
      (auto simp: columns_ok_def apply_changes_def no_changes_def coalesce_def can_transition_def)
  moreover have "target e = Denied \<longrightarrow> rr_source (apply_changes e now r) \<noteq> None \<and> rr_decided_at (apply_changes e now r) \<noteq> None"
    by (cases e) (auto simp: apply_changes_def no_changes_def coalesce_def)
  moreover have "rr_edit r \<noteq> None \<longrightarrow> target e \<in> {Approved, Provisioning, Granted, ProvisionFailed}"
    using assms(1,3) by (cases "rr_status r") (auto simp: columns_ok_def can_transition_def)
  moreover have "target e \<in> {LlmEvaluating, LlmDenied} \<longrightarrow> 1 \<le> rr_attempt (apply_changes e now r)"
    using assms(1,3) by (cases e; cases "rr_status r") (auto simp: columns_ok_def apply_changes_def no_changes_def can_transition_def)
  ultimately show ?thesis by (simp add: columns_ok_def)
qed

lemma row_moves_columns: "row_moves r r' \<Longrightarrow> columns_ok r \<Longrightarrow> columns_ok r'"
proof (induction rule: row_moves.induct)
  case (move r' e now)
  then show ?case by (intro enter_columns) auto
next
  case (edit r' ed clock)
  then show ?case by (auto simp: columns_ok_def)
qed

lemma settled_grant_matches:
  assumes "row_settled s r' (Some g) now" "columns_ok r'"
  shows "grant_matches g r' \<and> gr_request g = rr_id r'"
proof -
  from assms obtain cap where st: "rr_status r' = Provisioning" and gr: "granted r' (gr_id g) now cap g" by (auto simp: row_settled_def)
  from gr obtain auth n own where n: "final_authority r' = Some auth" "rr_approved_secs r' = Some n"
      "checked_add_secs now n = Some own" "g = new_grant r' auth (gr_id g) now (case cap of None \<Rightarrow> own | Some e \<Rightarrow> min own e)"
    by (auto simp: granted_def)
  have "gr_expires_at g \<le> gr_granted_at g + int n * 1000000000"
    using n(3) by (subst (1 2) n(4)) (auto simp: new_grant_def checked_add_secs_def Let_def split: option.splits if_splits)
  then show ?thesis using st n(2) granted_same[OF gr] by (auto simp: grant_matches_def)
qed

text \<open>A transaction that moves one request, new or waiting.\<close>

lemma effect_keeps:
  assumes ok: "store_ok s" and start: "requests.look (rr_id r) s = None \<and> columns_ok r
      \<or> requests.look (rr_id r) s = Some r \<and> is_human_decidable (rr_status r)"
    and moves: "row_moves r r'" and eff: "effect s r' go s'" and sett: "row_settled s r' go now"
    and auth: "rr_authority r = None \<longrightarrow> rr_status r' = Denied"
  shows "store_ok s'"
proof -
  note o = ok[unfolded store_ok_def]
  have id: "rr_id r' = rr_id r" and spec: "rr_authority r' = rr_authority r"
    using row_moves_spec[OF moves] by (simp_all add: same_spec_def)
  have "columns_ok r" using start o by (auto simp: row_ok_def)
  then have f: "columns_ok r'" using row_moves_columns[OF moves] by simp
  have row: "row_ok r'" using f auth spec sett by (auto simp: row_ok_def row_settled_def)
  have look: "requests.look i s' = (if i = rr_id r' then Some r' else requests.look i s)" for i
    using eff requests.look_put[of i r' s] by (simp add: effect_def requests.look_def)
  have none: "gr_request g \<noteq> rr_id r" if g: "g \<in> set (db_grants s)" for g
  proof
    assume eq: "gr_request g = rr_id r"
    then obtain q where "requests.look (rr_id r) s = Some q" "grant_matches g q" using o g by metis
    with start show False by (cases "gr_status g") (auto simp: grant_matches_def)
  qed
  have keys: "requests.keys_ok s'" using eff o requests.keys_put[of r' s] by (simp add: effect_def requests.keys_ok_def)
  have grants: "db_grants s' = db_grants s @ (case go of None \<Rightarrow> [] | Some g \<Rightarrow> [g])" using eff by (simp add: effect_def)
  have new: "grant_matches g r' \<and> gr_request g = rr_id r' \<and> grants.look (gr_id g) s = None" if "go = Some g" for g
    using settled_grant_matches[of s r' g now] f sett that by (auto simp: row_settled_def)
  have gkeys: "grants.keys_ok s'"
    using o new by (auto simp: grants.keys_ok_def grants grants.look_None split: option.splits)
  have gdist: "distinct (map gr_request (db_grants s'))"
  proof (cases go)
    case (Some g)
    have "\<forall>h \<in> set (db_grants s). gr_request h \<noteq> gr_request g" using none new[OF Some] id by simp
    then have "gr_request g \<notin> gr_request ` set (db_grants s)" by fastforce
    with Some o show ?thesis by (simp add: grants)
  qed (use o in \<open>simp add: grants\<close>)
  have "row_ok q \<and> (rr_status q \<in> {Provisioning, Granted} \<longrightarrow> (\<exists>g \<in> set (db_grants s'). gr_request g = i))"
    if q: "requests.look i s' = Some q" for i q
  proof (cases "i = rr_id r'")
    case True
    then have "q = r'" using q look by simp
    with row new True sett show ?thesis by (cases go) (auto simp: row_settled_def grants)
  next
    case False
    then have "requests.look i s = Some q" using q look by simp
    then show ?thesis using o by (auto simp: grants)
  qed
  moreover have "\<exists>q. requests.look (gr_request g) s' = Some q \<and> grant_matches g q" if g: "g \<in> set (db_grants s')" for g
  proof (cases "g \<in> set (db_grants s)")
    case True
    then show ?thesis using o none[OF True] id look by auto
  next
    case False
    then have "go = Some g" using g by (auto simp: grants split: option.splits)
    then show ?thesis using new look by auto
  qed
  ultimately show ?thesis using keys gkeys gdist by (auto simp: store_ok_def)
qed

text \<open>Grants that change without their requests: ended, brought to an end, renamed.\<close>

definition grants_evolve :: "db \<Rightarrow> db \<Rightarrow> bool" where
  "grants_evolve s s' =
     (db_requests s' = db_requests s
      \<and> list_all2 (\<lambda>g g'. grant_evolves g g' \<and> follows (gr_status g') = follows (gr_status g)) (db_grants s) (db_grants s'))"

lemma evolves_keys:
  assumes "list_all2 (\<lambda>g g'. grant_evolves g g' \<and> P g g') xs ys"
  shows "map gr_id ys = map gr_id xs" "map gr_request ys = map gr_request xs"
  using assms by (induction rule: list_all2_induct) (auto simp: grant_evolves_def)

lemma list_all2_back: "list_all2 P xs ys \<Longrightarrow> y \<in> set ys \<Longrightarrow> \<exists>x \<in> set xs. P x y"
  by (induction rule: list_all2_induct) auto

lemma evolves_matches:
  assumes "grant_evolves g g'" "grant_matches g r" "rr_status r' = follows (gr_status g')"
    and "rr_agent r' = rr_agent r" "rr_platform r' = rr_platform r" "rr_delegation r' = rr_delegation r"
      "final_authority r' = final_authority r" "rr_approved_secs r' = rr_approved_secs r"
  shows "grant_matches g' r'"
  using assms by (fastforce simp: grant_evolves_def grant_matches_def)

lemma grants_evolve_keeps:
  assumes ok: "store_ok s" and ev: "grants_evolve s s'"
  shows "store_ok s'"
proof -
  note o = ok[unfolded store_ok_def]
  have l2: "list_all2 (\<lambda>g g'. grant_evolves g g' \<and> follows (gr_status g') = follows (gr_status g)) (db_grants s) (db_grants s')"
    and rq: "db_requests s' = db_requests s" using ev by (simp_all add: grants_evolve_def)
  have look: "requests.look i s' = requests.look i s" for i using rq by (simp add: requests.look_def)
  note maps = evolves_keys[OF l2]
  have reqs: "gr_request ` set (db_grants s') = gr_request ` set (db_grants s)" using maps(2) by (metis set_map)
  have "\<exists>r. requests.look (gr_request g') s = Some r \<and> grant_matches g' r" if g': "g' \<in> set (db_grants s')" for g'
  proof -
    obtain g where g: "g \<in> set (db_grants s)" "grant_evolves g g'" "follows (gr_status g') = follows (gr_status g)"
      using list_all2_back[OF l2 g'] by blast
    then obtain r where "requests.look (gr_request g) s = Some r" "grant_matches g r" using o by blast
    moreover from this g have "grant_matches g' r"
      by (intro evolves_matches[OF g(2)]) (auto simp: grant_matches_def)
    ultimately show ?thesis using g(2) by (auto simp: grant_evolves_def)
  qed
  moreover have "\<exists>g' \<in> set (db_grants s'). gr_request g' = i" if "\<exists>g \<in> set (db_grants s). gr_request g = i" for i
    using that reqs by (metis imageE imageI)
  ultimately show ?thesis
    using o maps rq by (simp add: store_ok_def look grants.keys_ok_def requests.keys_ok_def)
qed

lemma put_evolve:
  assumes keys: "grants.keys_ok s" and g: "grants.look (gr_id g) s = Some g" and ev: "grant_evolves g g'" and P: "P g g'" "\<And>h. P h h"
  shows "list_all2 (\<lambda>h h'. grant_evolves h h' \<and> P h h') (db_grants s) (db_grants (grants.put g' s))"
proof -
  have id: "gr_id g' = gr_id g" using ev by (simp add: grant_evolves_def)
  have "h = g" if "h \<in> set (db_grants s)" "gr_id h = gr_id g" for h using grants.in_look[OF keys that(1)] that(2) g by simp
  then show ?thesis
    using g id ev P by (auto simp: grants.put_def list_all2_map2 intro!: list.rel_refl_strong)
qed

text \<open>The finishing phase: the grant and its request move together.\<close>

lemma finished_keeps:
  assumes ok: "store_ok s" and pair: "provisioning_pair s g r" and fin: "finished s g r now s'"
  shows "store_ok s'"
proof -
  note o = ok[unfolded store_ok_def] and p = pair[unfolded provisioning_pair_def]
  obtain g' r' e where eff: "grant_effect s g' r' s'" and ev: "grant_evolves g g'" and r': "r' = apply_changes e now r" "may_enter e now r"
      and st: "target e = follows (gr_status g')" "target e \<in> {Granted, ProvisionFailed}"
      and secs: "rr_approved_secs r' = rr_approved_secs r" "rr_edit r' = rr_edit r"
  proof -
    obtain g' r' where eff: "grant_effect s g' r' s'" and cases: "failed_grant g g'
        \<and> (\<exists>why. r' = apply_changes (Enter_failed why) now r \<and> may_enter (Enter_failed why) now r)
      \<or> grant_evolves g g' \<and> gr_status g' = GActive \<and> r' = apply_changes Enter_granted now r \<and> may_enter Enter_granted now r"
      using fin unfolding finished_def by blast
    have secs: "rr_approved_secs (apply_changes e now r) = rr_approved_secs r" if "ch_approved_secs (changes_of e) = None" for e
      using that by (simp add: apply_changes_def coalesce_def Let_def)
    from cases show thesis
    proof (elim disjE conjE exE)
      fix why assume "failed_grant g g'" "r' = apply_changes (Enter_failed why) now r" "may_enter (Enter_failed why) now r"
      then show thesis
        using that[OF eff, of "Enter_failed why"] secs[of "Enter_failed why"] by (simp add: failed_grant_def no_changes_def)
    next
      assume "grant_evolves g g'" "gr_status g' = GActive" "r' = apply_changes Enter_granted now r" "may_enter Enter_granted now r"
      then show thesis using that[OF eff, of Enter_granted] secs[of Enter_granted] by (simp add: no_changes_def)
    qed
  qed
  have row: "row_ok r" using o p by blast
  then have row': "row_ok r'"
    using enter_columns[of r e now] p st r' by (auto simp: row_ok_def can_transition_def)
  have rid: "rr_id r = gr_request g" using requests.look_key p by blast
  have id: "gr_id g' = gr_id g" "gr_request g' = gr_request g" using ev by (simp_all add: grant_evolves_def)
  have gin: "g \<in> set (db_grants s)" using grants.look_in p by blast
  have l2: "list_all2 (\<lambda>h h'. grant_evolves h h' \<and> (h = h' \<or> h' = g' \<and> h = g)) (db_grants s) (db_grants s')"
    using eff put_evolve[of s g g' "\<lambda>h h'. h = h' \<or> h' = g' \<and> h = g"] p ev by (simp add: grant_effect_def)
  note maps = evolves_keys[OF l2]
  have reqs: "gr_request ` set (db_grants s') = gr_request ` set (db_grants s)" using maps(2) by (metis set_map)
  have look: "requests.look i s' = (if i = gr_request g then Some r' else requests.look i s)" for i
    using eff requests.look_put[of i r' s] rid r'(1) by (simp add: grant_effect_def requests.look_def)
  have keys: "requests.keys_ok s'" "grants.keys_ok s'" "distinct (map gr_request (db_grants s'))"
    using eff o requests.keys_put[of r' s] maps by (simp_all add: grant_effect_def requests.keys_ok_def grants.keys_ok_def)
  have other: "h = g" if "h \<in> set (db_grants s)" "gr_request h = gr_request g" for h
    using o that gin by (auto simp: distinct_map inj_on_def)
  have match: "grant_matches g' r'"
  proof -
    have "grant_matches g r" using o gin p by fastforce
    then show ?thesis using r' st secs by (intro evolves_matches[OF ev]) (simp_all add: final_authority_def split: option.splits)
  qed
  have "\<exists>q. requests.look (gr_request h') s' = Some q \<and> grant_matches h' q" if h': "h' \<in> set (db_grants s')" for h'
  proof -
    obtain h where h: "h \<in> set (db_grants s)" "h = h' \<or> h' = g' \<and> h = g"
      using list_all2_back[OF l2 h'] by blast
    show ?thesis
    proof (cases "h' = g'")
      case True
      then show ?thesis using match look id by simp
    next
      case False
      then have hh: "h' \<in> set (db_grants s)" using h by simp
      show ?thesis
      proof (cases "gr_request h' = gr_request g")
        case True
        then have "h' = g" using other hh by simp
        moreover have "grants.look (gr_id g) s' = Some g'"
          using grants.look_put[of "gr_id g" g' s] eff id by (simp add: grants.look_def grant_effect_def)
        then have "g = g'" using grants.in_look[OF keys(2), of h'] h' \<open>h' = g\<close> by simp
        ultimately show ?thesis using False by simp
      next
        case False
        then show ?thesis using hh o look by auto
      qed
    qed
  qed
  moreover have "row_ok q \<and> (rr_status q \<in> {Provisioning, Granted} \<longrightarrow> (\<exists>h \<in> set (db_grants s'). gr_request h = i))"
    if "requests.look i s' = Some q" for i q
  proof (cases "i = gr_request g")
    case True
    moreover have "gr_request g \<in> gr_request ` set (db_grants s')" using gin unfolding reqs by simp
    ultimately show ?thesis using that look row' by auto
  next
    case False
    then have q: "requests.look i s = Some q" using that look by simp
    have "\<exists>h \<in> set (db_grants s'). gr_request h = i" if "\<exists>h \<in> set (db_grants s). gr_request h = i"
    proof -
      from that have "i \<in> gr_request ` set (db_grants s')" unfolding reqs by auto
      then show ?thesis by auto
    qed
    with q o show ?thesis by blast
  qed
  ultimately show ?thesis using keys by (auto simp: store_ok_def)
qed

end
