(* ===== verification/Broker.thy ===== *)
theory Broker
  imports Broker_State
begin

text \<open>
  The broker as a whole: any interleaving of the transactions of its request service, of its schedulers and of
  everything else that writes the other tables. Between the transactions of one operation (the approval
  gate is asked, the reviewer is asked, a provisioner works) others run. What every reachable state
  satisfies, and what every new grant took, are proved over this step relation.
\<close>

section \<open>Single grants\<close>

lemma transition_once_grant [simp]:
  "grant_can_transition\<^sup>*\<^sup>* GActive GRevoked" "grant_can_transition\<^sup>*\<^sup>* GActive GExpired"
  by (auto intro!: r_into_rtranclp)

lemma update_evolve:
  assumes "\<And>g. P g \<Longrightarrow> grant_evolves g (f g) \<and> follows (gr_status (f g)) = follows (gr_status g)"
  shows "grants_evolve s (update_grants P f s)"
  using assms by (auto simp: grants_evolve_def list_all2_map2 intro!: list.rel_refl_strong)

lemma touch_evolve:
  assumes "touch_grants P f s = Inr (n, s')" "\<And>g. P g \<Longrightarrow> grant_evolves g (f g) \<and> follows (gr_status (f g)) = follows (gr_status g)"
  shows "grants_evolve s s'"
  using assms by (auto simp: touch_grants_Ok intro: update_evolve)

lemma grants_evolve_refl [simp]: "grants_evolve s s"
  by (auto simp: grants_evolve_def intro!: list.rel_refl_strong)

lemma end_grant_evolve:
  assumes keys: "grants.keys_ok s" and run: "end_grant gid how now s = Inr (x, s')"
  shows "grants_evolve s s'"
proof -
  obtain st reason where move: "move_grant gid GActive (\<lambda>g. g\<lparr>gr_status := st, gr_revoked_at := Some now, gr_revoke_reason := Some reason\<rparr>) s
      = Inr (x, s')" "st = GRevoked \<or> st = GExpired"
    using run by (auto simp: end_grant_def split: grant_end.splits)
  show ?thesis
  proof (cases "opt_filter (\<lambda>g. gr_status g = GActive) (grants.look gid s)")
    case None
    with move keys show ?thesis by (simp add: move_grant_Ok)
  next
    case (Some g)
    define g' where "g' = g\<lparr>gr_status := st, gr_revoked_at := Some now, gr_revoke_reason := Some reason\<rparr>"
    have g: "grants.look gid s = Some g" "gr_status g = GActive" "gr_id g = gid"
      using Some grants.look_key by (auto simp: opt_filter_Some_iff)
    have "s' = grants.put g' s" using move keys Some by (simp add: move_grant_Ok g'_def)
    moreover have "grant_evolves g g' \<and> follows (gr_status g') = follows (gr_status g)"
      using g move(2) by (auto simp: grant_evolves_def g'_def)
    ultimately show ?thesis
      using put_evolve[of s g g' "\<lambda>h h'. follows (gr_status h') = follows (gr_status h)"] keys g by (simp add: grants_evolve_def)
  qed
qed

lemma expire_evolves [simp]: "gr_status g = GActive \<Longrightarrow> grant_evolves g (g\<lparr>gr_expires_at := min (gr_expires_at g) now\<rparr>)"
  by (simp add: grant_evolves_def)

lemma expire_now_evolve: "expire_now gid now s = Inr (x, s') \<Longrightarrow> grants_evolve s s'"
  by (auto simp: expire_now_def intro: touch_evolve)

lemma revoke_grant_evolve:
  assumes ok: "store_ok s" and run: "revoke_grant app gid reason by_whom answer now s = (x, s')"
  shows "grants_evolve s s'"
proof -
  have keys: "grants.keys_ok s" using ok by (simp add: store_ok_def)
  have inner: "y = Inl e \<and> t = s \<or> grants_evolve s t" if "revoke_inner app gid reason by_whom answer now s = Inr (y, t)" for y t e
    using that keys by (auto simp: revoke_inner_def result_simps split: option.splits sum.splits dest: end_grant_evolve)
  have stay: "t = s" if "revoke_inner app gid reason by_whom answer now s = Inr (Inl e, t)" for e t
    using that by (auto simp: revoke_inner_def result_simps split: option.splits sum.splits)
  show ?thesis
  proof (cases "revoke_inner app gid reason by_whom answer now s")
    case (Inl e)
    with run show ?thesis by (simp add: revoke_grant_def run_tx_def)
  next
    case (Inr yt)
    obtain y t where yt: "yt = (y, t)" by (cases yt)
    show ?thesis
    proof (cases y)
      case (Inl e)
      with Inr yt stay have "t = s" by simp
      with run Inr yt Inl show ?thesis
        by (cases "expire_now gid now s") (auto simp: revoke_grant_def run_tx_def dest: expire_now_evolve)
    next
      case (Inr g)
      with run \<open>revoke_inner app gid reason by_whom answer now s = Inr yt\<close> yt inner show ?thesis
        by (fastforce simp: revoke_grant_def run_tx_def)
    qed
  qed
qed

lemma expire_one_evolve:
  assumes "grants.keys_ok s" "expire_one app gid answer now s = Inr (x, s')"
  shows "grants_evolve s s'"
  using assms by (auto simp: expire_one_def split: option.splits if_splits dest: end_grant_evolve)

section \<open>Steps of the broker\<close>

record broker =
  br_db :: db
  br_reviews :: "review list"
  br_passed :: "(request_id \<times> human_decision) list"

definition broker_init :: "broker" where
  "broker_init = \<lparr>br_db = \<lparr>db_requests = [], db_grants = [], db_agents = [], db_threads = [], db_messages = [], db_entries = [], db_rules = [],
     db_evaluations = [], db_daemons = [], db_aliases = []\<rparr>, br_reviews = [], br_passed = []\<rparr>"

definition other_writes :: "db \<Rightarrow> db \<Rightarrow> bool" where
  "other_writes s s' = (db_requests s' = db_requests s \<and> db_grants s' = db_grants s)"

inductive broker_step :: "app_state \<Rightarrow> broker \<Rightarrow> broker \<Rightarrow> bool" for app :: app_state and b :: broker where
  created: "create app caller body rid gid now (br_db b) = Inr (out, s') \<Longrightarrow> broker_step app b (b\<lparr>br_db := s'\<rparr>)"
| gate_passed: "run_gate app i d now (br_db b) = Inr asked \<Longrightarrow> broker_step app b (b\<lparr>br_passed := (i, d) # br_passed b\<rparr>)"
| decided: "\<lbrakk>hd_approve d \<longrightarrow> (i, d) \<in> set (br_passed b);
     decide_inner app i (Decider_human who) attested d rid gid now clock (br_db b) = Inr (out, s')\<rbrakk>
     \<Longrightarrow> broker_step app b (b\<lparr>br_db := s'\<rparr>)"
| contained: "decide_inner app i (Decider_containment by_whom) None (deny_decision reason) rid gid now clock (br_db b) = Inr (out, s')
     \<Longrightarrow> broker_step app b (b\<lparr>br_db := s'\<rparr>)"
| rule_applied: "apply_one app i rule window gid now (br_db b) = Inr (out, s') \<Longrightarrow> broker_step app b (b\<lparr>br_db := s'\<rparr>)"
| review_started: "review_read app i now (br_db b) = Inr (Some rv) \<Longrightarrow> broker_step app b (b\<lparr>br_reviews := rv # br_reviews b\<rparr>)"
| review_ended: "\<lbrakk>rv \<in> set (br_reviews b); review_act app rv verdict gid now (br_db b) = Inr (out, s')\<rbrakk>
     \<Longrightarrow> broker_step app b (b\<lparr>br_db := s'\<rparr>)"
| review_crashed: "escalate_from_llm i why now (br_db b) = Inr (out, s') \<Longrightarrow> broker_step app b (b\<lparr>br_db := s'\<rparr>)"
| retried: "retry app caller i justification now (br_db b) = Inr (out, s') \<Longrightarrow> broker_step app b (b\<lparr>br_db := s'\<rparr>)"
| escalated: "escalate caller i now (br_db b) = Inr (out, s') \<Longrightarrow> broker_step app b (b\<lparr>br_db := s'\<rparr>)"
| provisioned: "finish_inner app gid outcome address now (br_db b) = Inr (out, s') \<Longrightarrow> broker_step app b (b\<lparr>br_db := s'\<rparr>)"
| reaped: "reap_one app gid answer why now (br_db b) = Inr (out, s') \<Longrightarrow> broker_step app b (b\<lparr>br_db := s'\<rparr>)"
| revoked: "revoke_grant app gid reason by_whom answer now (br_db b) = (out, s') \<Longrightarrow> broker_step app b (b\<lparr>br_db := s'\<rparr>)"
| expired: "expire_one app gid answer now (br_db b) = Inr (out, s') \<Longrightarrow> broker_step app b (b\<lparr>br_db := s'\<rparr>)"
| cut_short: "expire_now gid now (br_db b) = Inr (out, s') \<Longrightarrow> broker_step app b (b\<lparr>br_db := s'\<rparr>)"
| cut_short_all: "expire_now_of_agent agent now (br_db b) = Inr (n, s') \<Longrightarrow> broker_step app b (b\<lparr>br_db := s'\<rparr>)"
| state_kept: "set_provisioner_state gid st (br_db b) = Inr (out, s') \<Longrightarrow> broker_step app b (b\<lparr>br_db := s'\<rparr>)"
| target_renamed: "rename_a2a_target old new (br_db b) = Inr (n, s') \<Longrightarrow> broker_step app b (b\<lparr>br_db := s'\<rparr>)"
| noted: "append_note i line clock (br_db b) = Inr (out, s') \<Longrightarrow> broker_step app b (b\<lparr>br_db := s'\<rparr>)"
| carded: "set_discord i refs (br_db b) = Inr (out, s') \<Longrightarrow> broker_step app b (b\<lparr>br_db := s'\<rparr>)"
| elsewhere: "other_writes (br_db b) s' \<Longrightarrow> broker_step app b (b\<lparr>br_db := s'\<rparr>)"

text \<open>What one step does to requests and grants, whichever it is.\<close>

definition annotated :: "request_row \<Rightarrow> request_row \<Rightarrow> bool" where
  "annotated r q = (q = r\<lparr>rr_notes := rr_notes q, rr_discord := rr_discord q, rr_updated_at := rr_updated_at q\<rparr>)"

definition annotates :: "db \<Rightarrow> db \<Rightarrow> bool" where
  "annotates s s' = (db_grants s' = db_grants s
     \<and> (\<exists>f. (\<forall>r. annotated r (f r)) \<and> db_requests s' = map f (db_requests s)))"

definition request_moved :: "db \<Rightarrow> db \<Rightarrow> request_row \<Rightarrow> request_row \<Rightarrow> grant_row option \<Rightarrow> int \<Rightarrow> bool" where
  "request_moved s s' r r' go now =
     ((requests.look (rr_id r) s = None \<and> columns_ok r \<and> rr_status r = Pending
        \<or> requests.look (rr_id r) s = Some r \<and> is_human_decidable (rr_status r))
      \<and> row_moves r r' \<and> effect s r' go s' \<and> row_settled s r' go now \<and> (rr_authority r = None \<longrightarrow> rr_status r' = Denied))"

text \<open>The three ways a grant comes about.\<close>

definition grant_basis :: "app_state \<Rightarrow> broker \<Rightarrow> request_row \<Rightarrow> request_row \<Rightarrow> int \<Rightarrow> bool" where
  "grant_basis app b r r' now =
     ((\<exists>a ro. cleared app (br_db b) r a now ro \<and> agents.look (rr_agent r) (br_db b) = Some a \<and> rr_edit r' = rr_edit r)
      \<or> (\<exists>who attested d. (rr_id r, d) \<in> set (br_passed b)
           \<and> human_decided app r (Decider_human who) attested d now (br_db b) r')
      \<or> (\<exists>rv suggested. rv \<in> set (br_reviews b) \<and> rr_id (rv_request rv) = rr_id r
           \<and> rr_attempt (rv_request rv) = rr_attempt r \<and> rr_status r = LlmEvaluating
           \<and> reviewed app (br_db b) rv r suggested now r'))"

inductive broker_change :: "app_state \<Rightarrow> broker \<Rightarrow> db \<Rightarrow> bool" for app b s' where
  one_request: "\<lbrakk>request_moved (br_db b) s' r r' go now; go \<noteq> None \<longrightarrow> grant_basis app b r r' now\<rbrakk> \<Longrightarrow> broker_change app b s'"
| one_grant: "\<lbrakk>provisioning_pair (br_db b) g r; finished (br_db b) g r now s'\<rbrakk> \<Longrightarrow> broker_change app b s'"
| grants_only: "grants_evolve (br_db b) s' \<Longrightarrow> broker_change app b s'"
| notes_only: "annotates (br_db b) s' \<Longrightarrow> broker_change app b s'"

lemma unchanged [simp]: "broker_change app b (br_db b)"
  by (rule grants_only) simp

lemma moved_change:
  assumes ok: "store_ok (br_db b)" and m: "moved_ok (br_db b) now i r r' go s'" and st: "is_human_decidable (rr_status r)"
    and basis: "go \<noteq> None \<longrightarrow> grant_basis app b r r' now"
  shows "broker_change app b s'"
proof -
  have id: "rr_id r = i" using m requests.look_key by (auto simp: moved_ok_def)
  have "row_ok r" using ok m by (auto simp: moved_ok_def store_ok_def)
  then have "rr_authority r \<noteq> None" using st by (auto simp: row_ok_def)
  then have "request_moved (br_db b) s' r r' go now" using m st id by (auto simp: request_moved_def moved_ok_def)
  with basis show ?thesis by (intro one_request)
qed

lemma load_pair:
  assumes ok: "store_ok s" and g: "load_provisioning gid s = Some g"
  obtains r where "provisioning_pair s g r" "gr_id g = gid"
proof -
  have look: "grants.look gid s = Some g" "gr_status g = GProvisioning"
    using g by (auto simp: load_provisioning_def find_is_look opt_filter_Some_iff)
  then have id: "gr_id g = gid" using grants.look_key by blast
  obtain r where "requests.look (gr_request g) s = Some r" "grant_matches g r"
    using ok grants.look_in[OF look(1)] by (auto simp: store_ok_def)
  with look id ok show thesis by (intro that) (auto simp: provisioning_pair_def store_ok_def grant_matches_def)
qed

lemma update_annotates:
  assumes "\<And>r. annotated r (f r)"
  shows "annotates s (update_requests P f s)"
proof -
  have "annotated r (if P r then f r else r)" for r using assms by (auto simp: annotated_def)
  then show ?thesis
    unfolding annotates_def update_requests_def by (intro conjI exI[of _ "\<lambda>r. if P r then f r else r"]) simp_all
qed

lemma step_change:
  assumes ok: "store_ok (br_db b)" and step: "broker_step app b b'"
  shows "broker_change app b (br_db b')"
proof -
  have keys: "requests.keys_ok (br_db b)" "grants.keys_ok (br_db b)" using ok by (simp_all add: store_ok_def)
  show ?thesis using step
  proof (cases rule: broker_step.cases)
    case (created caller body rid gid now out s')
    obtain row aft go where out: "out = (row, aft, go)" by (cases out)
    from create_Ok[OF keys(1) created(2)[unfolded out]] obtain a
      where a: "ag_id a = ag_id (caller_agent caller)" "go \<noteq> None \<longrightarrow> agents.look (ag_id a) (br_db b) = Some a"
        and co: "created_ok app (br_db b) rid a now row go s'" by blast
    then obtain r go' where c: "fresh_row (br_db b) rid (ag_id a) r" "row_moves r row" "effect (br_db b) row go' s'" "row_settled (br_db b) row go' now"
          "go = map_option gr_id go'" "rr_authority r = None \<longrightarrow> rr_status row = Denied"
          "go' \<noteq> None \<longrightarrow> (\<exists>ro. cleared app (br_db b) r a now ro) \<and> rr_edit row = rr_edit r"
      unfolding created_ok_def by (elim exE conjE) (rule that, assumption+, blast)
    have r: "requests.look (rr_id r) (br_db b) = None" "rr_status r = Pending" "rr_agent r = ag_id a" "columns_ok r"
      using c(1) new_row_columns[OF c(1)] by (auto simp: fresh_row_def)
    have "grant_basis app b r row now" if "go' \<noteq> None"
      using that a c(5,7) r(3) by (auto simp: grant_basis_def)
    moreover have "request_moved (br_db b) s' r row go' now" using c r by (simp add: request_moved_def)
    ultimately show ?thesis using created(1) by (auto intro: one_request)
  next
    case (gate_passed i d now asked)
    then show ?thesis by simp
  next
    case (decided d i who attested rid gid now clock out s')
    from decide_inner_Ok[OF keys(1) decided(3)] obtain r r' go' where d: "moved_ok (br_db b) now i r r' go' s'"
        "is_human_decidable (rr_status r)" "go' \<noteq> None \<longrightarrow> human_decided app r (Decider_human who) attested d now (br_db b) r'" by blast
    have id: "rr_id r = i" using d(1) requests.look_key by (auto simp: moved_ok_def)
    have "grant_basis app b r r' now" if "go' \<noteq> None"
    proof -
      have h: "human_decided app r (Decider_human who) attested d now (br_db b) r'" using that d(3) by blast
      then have "(rr_id r, d) \<in> set (br_passed b)" using decided(2) id by (simp add: human_decided_def)
      with h show ?thesis unfolding grant_basis_def by blast
    qed
    with moved_change[OF ok d(1,2)] decided(1) show ?thesis by simp
  next
    case (contained i by_whom reason rid gid now clock out s')
    from decide_inner_Ok[OF keys(1) contained(2)] obtain r r' go' where d: "moved_ok (br_db b) now i r r' go' s'"
        "is_human_decidable (rr_status r)" "go' = None" by (auto simp: human_decided_def)
    with moved_change[OF ok d(1,2)] contained(1) show ?thesis by simp
  next
    case (rule_applied i rule window gid now out s')
    from apply_one_Ok[OF keys(1) rule_applied(2)] show ?thesis
    proof (elim disjE conjE exE)
      assume "s' = br_db b"
      then show ?thesis using rule_applied(1) by simp
    next
      fix r r' go' a ro assume m: "moved_ok (br_db b) now i r r' go' s'" "rr_status r = AwaitingHuman"
        "agents.look (rr_agent r) (br_db b) = Some a" "cleared app (br_db b) r a now ro" "rr_edit r' = rr_edit r"
      then have "grant_basis app b r r' now" by (auto simp: grant_basis_def)
      with moved_change[OF ok m(1)] m(2) rule_applied(1) show ?thesis by simp
    qed
  next
    case (review_started i now rv)
    then show ?thesis by simp
  next
    case (review_ended rv verdict gid now out s')
    from review_act_Ok[OF keys(1) review_ended(3)] show ?thesis
    proof (elim disjE conjE exE)
      assume "s' = br_db b"
      then show ?thesis using review_ended(1) by simp
    next
      fix r r' go' st assume m: "moved_ok (br_db b) now (rr_id (rv_request rv)) r r' go' s'" "rr_status r = LlmEvaluating"
        "rr_attempt r = rr_attempt (rv_request rv)"
        "go' \<noteq> None \<longrightarrow> (\<exists>reasoning suggested. verdict = Llm_approve reasoning suggested \<and> reviewed app (br_db b) rv r suggested now r')"
      have "rr_id r = rr_id (rv_request rv)" using m(1) requests.look_key by (auto simp: moved_ok_def)
      then have "grant_basis app b r r' now" if "go' \<noteq> None"
        using that m review_ended(2) unfolding grant_basis_def by fastforce
      with moved_change[OF ok m(1)] m(2) review_ended(1) show ?thesis by simp
    qed
  next
    case (review_crashed i why now out s')
    from escalate_from_llm_Ok[OF keys(1) review_crashed(2)] show ?thesis
    proof (elim disjE conjE exE)
      assume "s' = br_db b"
      then show ?thesis using review_crashed(1) by simp
    next
      fix r r' assume m: "moved_ok (br_db b) now i r r' None s'" "rr_status r = LlmEvaluating"
      with moved_change[OF ok m(1)] review_crashed(1) show ?thesis by simp
    qed
  next
    case (retried caller i justification now out s')
    from retry_Ok[OF keys(1) retried(2)] obtain r where "moved_ok (br_db b) now i r out None s'" "rr_status r = LlmDenied" by blast
    with moved_change[OF ok this(1)] retried(1) show ?thesis by simp
  next
    case (escalated caller i now out s')
    from escalate_Ok[OF keys(1) escalated(2)] obtain r where "moved_ok (br_db b) now i r out None s'" "rr_status r = LlmDenied" by blast
    with moved_change[OF ok this(1)] escalated(1) show ?thesis by simp
  next
    case (provisioned gid outcome address now out s')
    show ?thesis
    proof (cases "load_provisioning gid (br_db b)")
      case None
      with finish_inner_other[OF None provisioned(2)] provisioned(1) show ?thesis by simp
    next
      case (Some g)
      then obtain r where p: "provisioning_pair (br_db b) g r" "gr_id g = gid" using load_pair[OF ok] by blast
      have "s' = br_db b \<or> finished (br_db b) g r now s'" using finish_inner_Ok[OF p(1)] provisioned(2) p(2) by blast
      with one_grant[OF p(1)] provisioned(1) show ?thesis by auto
    qed
  next
    case (reaped gid answer why now out s')
    show ?thesis
    proof (cases "load_provisioning gid (br_db b)")
      case None
      with reap_one_other[OF None reaped(2)] reaped(1) show ?thesis by simp
    next
      case (Some g)
      then obtain r where p: "provisioning_pair (br_db b) g r" "gr_id g = gid" using load_pair[OF ok] by blast
      have "finished (br_db b) g r now s'" using reap_one_Ok[OF p(1)] reaped(2) p(2) by blast
      with one_grant[OF p(1)] reaped(1) show ?thesis by auto
    qed
  next
    case (revoked gid reason by_whom answer now out s')
    then show ?thesis using revoke_grant_evolve[OF ok revoked(2)] by (simp add: grants_only)
  next
    case (expired gid answer now out s')
    then show ?thesis using expire_one_evolve[OF keys(2) expired(2)] by (simp add: grants_only)
  next
    case (cut_short gid now out s')
    then show ?thesis using expire_now_evolve by (simp add: grants_only)
  next
    case (cut_short_all agent now n s')
    have "grants_evolve (br_db b) s'" using cut_short_all(2) unfolding expire_now_of_agent_def by (rule touch_evolve) simp
    then show ?thesis using cut_short_all(1) by (simp add: grants_only)
  next
    case (state_kept gid st out s')
    have "grants_evolve (br_db b) s'" using state_kept(2) unfolding set_provisioner_state_def
      by (auto intro!: touch_evolve simp: grant_evolves_def)
    then show ?thesis using state_kept(1) by (simp add: grants_only)
  next
    case (target_renamed old new n s')
    have "grants_evolve (br_db b) s'" using target_renamed(2) unfolding rename_a2a_target_def
      by (rule touch_evolve) (simp add: grant_evolves_def)
    then show ?thesis using target_renamed(1) by (simp add: grants_only)
  next
    case (noted i line clock out s')
    have "annotates (br_db b) s'" using noted(2) by (auto simp: append_note_def annotated_def intro!: update_annotates)
    then show ?thesis using noted(1) by (simp add: notes_only)
  next
    case (carded i refs out s')
    have "annotates (br_db b) s'" using carded(2) by (auto simp: set_discord_def annotated_def intro!: update_annotates)
    then show ?thesis using carded(1) by (simp add: notes_only)
  next
    case (elsewhere s')
    then have "annotates (br_db b) s'"
      unfolding other_writes_def annotates_def by (intro conjI exI[of _ id]) (auto simp: annotated_def)
    then show ?thesis using elsewhere(1) by (simp add: notes_only)
  qed
qed

end
