(* ===== verification/Broker_Run.thy ===== *)
theory Broker_Run
  imports Broker
begin

text \<open>
  Two short histories of a small broker, evaluated: a request that a saved rule approves and that is provisioned,
  and a request for a shell that waits for a person, passes the gate with a code and is approved.
\<close>

definition sample_policy :: policy where
  "sample_policy = default_policy\<lparr>pol_defaults := \<lparr>d_action = Surface, d_max_duration = 3600\<rparr>\<rparr>"

definition sample_app :: app_state where
  "sample_app = \<lparr>app_policy = sample_policy, app_time = \<lparr>print_ymd = \<lambda>_. [], read_ymd = \<lambda>_. None\<rparr>,
     app_platforms = [Google, Hostexec_platform], app_retired = [],
     app_validate = \<lambda>p a res auth now s. Ok (Ok \<lparr>va_resource = res, va_authority = auth, va_notes = []\<rparr>),
     app_parse_thread = \<lambda>t. Some (ThreadId t), app_error_text = \<lambda>e. [], app_llm = False, app_gates = [Hostexec_platform]\<rparr>"

definition sample_agent :: agent_row where
  "sample_agent = \<lparr>ag_id = AgentId ''a'', ag_name = ''ci'', ag_disabled = False, ag_disabled_reason = None, ag_kind = agent_kind.Service,
     ag_parent = None, ag_sandbox = None, ag_runtime = None, ag_project = None, ag_host = None, ag_placement = Host_placement,
     ag_lease_expires_at = None, ag_created_at = 0\<rparr>"

definition sample_rule_row :: rule_row where
  "sample_rule_row = \<lparr>ru_id = RuleId 7, ru_action = AutoApprove, ru_agent_pattern = ''ci'', ru_delegator_pattern = None,
     ru_platform = Google, ru_resource_pattern = ''me'', ru_authority = Some (AuthGoogle ''drive.read''), ru_max_secs = None,
     ru_enabled = True, ru_created_by = ''me'', ru_notes = [], ru_expires_at = None, ru_created_at = 1\<rparr>"

definition sample_operator :: agent_row where
  "sample_operator = \<lparr>ag_id = AgentId ''o'', ag_name = ''op'', ag_disabled = False, ag_disabled_reason = None, ag_kind = Operator,
     ag_parent = None, ag_sandbox = None, ag_runtime = None, ag_project = None, ag_host = None, ag_placement = Host_placement,
     ag_lease_expires_at = None, ag_created_at = 0\<rparr>"

definition sample_thread :: thread_row where
  "sample_thread = \<lparr>th_id = ThreadId ''t'', th_initiator = AgentId ''o'', th_initiator_session = None, th_responder = AgentId ''a'',
     th_responder_session = None, th_topic = None, th_grant = None, th_state = Open_thread, th_accepted_at = Some 3, th_closed_at = None,
     th_close_reason = None, th_closed_by = None, th_close_note = None, th_last_activity_at = 3, th_last_seq = 1, th_created_at = 2\<rparr>"

definition sample_broker :: broker where
  "sample_broker = broker_init\<lparr>br_db := (br_db broker_init)\<lparr>db_agents := [sample_agent, sample_operator], db_threads := [sample_thread],
     db_rules := [sample_rule_row]\<rparr>\<rparr>"

definition sample_body :: request_create where
  "sample_body = \<lparr>rc_platform = Google, rc_resource = ''me'', rc_capability = ''drive.read'', rc_scope = [],
     rc_justification = ''backup'', rc_secs = 600, rc_thread = None\<rparr>"

definition sample_caller :: agent_caller where
  "sample_caller = \<lparr>caller_agent = sample_agent, caller_session = None\<rparr>"

definition sample_request :: policy_input where
  "sample_request = subject_input sample_agent No_delegator ''me'' (AuthGoogle ''drive.read'')"

definition sample_decision :: policy_decision where
  "sample_decision = saved_decision sample_policy sample_request (saved_rule_of sample_rule_row)"

definition sample_pending :: request_row where
  "sample_pending = new_row \<lparr>nr_id = RequestId ''r'', nr_agent = AgentId ''a'', nr_session = None, nr_delegation = None,
       nr_platform = Google, nr_resource = ''me'', nr_capability = ''drive.read'',
       nr_scope = JObj [], nr_authority = Some (AuthGoogle ''drive.read''), nr_justification = ''backup'',
       nr_requested_secs = 600, nr_notes = rq_notes (route_request sample_policy (RequestId ''r'') sample_request sample_decision \<lparr>human_note = None\<rparr>), nr_now = 5\<rparr>"

definition sample_row :: request_row where
  "sample_row = apply_changes Enter_provisioning 5 (apply_changes (Enter_approved (approval_auto
      \<lparr>auto_request = RequestId ''r'', auto_authority = AuthGoogle ''drive.read'', auto_source = Rule_source\<rparr> (window_or_policy sample_decision)
      (pd_reason sample_decision) 600)) 5 sample_pending)"

definition sample_grant :: grant_row where
  "sample_grant = \<lparr>gr_id = GrantId ''g'', gr_request = RequestId ''r'', gr_agent = AgentId ''a'', gr_session = None,
     gr_delegation = None, gr_platform = Google, gr_resource = ''me'', gr_authority = AuthGoogle ''drive.read'',
     gr_granted_at = 5, gr_expires_at = 600000000005, gr_status = GProvisioning, gr_state = JObj [], gr_revoked_at = None,
     gr_revoke_reason = None, gr_created_at = 5\<rparr>"

definition sample_made :: broker where
  "sample_made = sample_broker\<lparr>br_db := (br_db sample_broker)\<lparr>db_requests := [sample_row], db_grants := [sample_grant]\<rparr>\<rparr>"

definition sample_active :: broker where
  "sample_active = sample_broker\<lparr>br_db := (br_db sample_broker)\<lparr>db_requests := [apply_changes Enter_granted 6 sample_row],
     db_grants := [sample_grant\<lparr>gr_status := GActive\<rparr>]\<rparr>\<rparr>"

definition gate_code :: human_decision where
  "gate_code = \<lparr>hd_approve = True, hd_reason = ''ok'', hd_secs = None, hd_resource = None, hd_scope = None, hd_rule = None,
     hd_totp = Some ''123456'', hd_desk = None\<rparr>"

definition shell_authority :: authority where
  "shell_authority = AuthHostexec (Shell User Watched)"

definition shell_body :: request_create where
  "shell_body = \<lparr>rc_platform = Hostexec_platform, rc_resource = ''box'', rc_capability = ''shell'', rc_scope = [(''tier'', JStr ''user'')],
     rc_justification = ''look'', rc_secs = 600, rc_thread = Some ''t''\<rparr>"

definition shell_subject :: policy_input where
  "shell_subject = subject_input sample_agent (Delegator_agent sample_operator) ''box'' shell_authority"

definition shell_delegation :: store_delegation where
  "shell_delegation = \<lparr>del_thread = ThreadId ''t'', del_delegator = AgentId ''o''\<rparr>"

definition shell_note :: codepoints where
  "shell_note = cps (''on behalf of '' @ ag_name sample_operator @ '' (a2a thread topic '') @ topic_text (th_topic sample_thread) @ cps '')''"

definition shell_decision :: policy_decision where
  "shell_decision = default_decision sample_policy shell_subject"

definition shell_pending :: request_row where
  "shell_pending = new_row \<lparr>nr_id = RequestId ''s'', nr_agent = AgentId ''a'', nr_session = None, nr_delegation = Some shell_delegation,
       nr_platform = Hostexec_platform, nr_resource = ''box'', nr_capability = ''shell'',
       nr_scope = JObj [(''tier'', JStr ''user'')], nr_authority = Some shell_authority, nr_justification = ''look'',
       nr_requested_secs = 600, nr_notes = shell_note # rq_notes (route_request sample_policy (RequestId ''s'')
         shell_subject shell_decision \<lparr>human_note = None\<rparr>), nr_now = 5\<rparr>"

definition shell_row :: request_row where
  "shell_row = apply_changes (Enter_human None) 5 shell_pending"

definition shell_waits :: broker where
  "shell_waits = sample_broker\<lparr>br_db := (br_db sample_broker)\<lparr>db_requests := [shell_row]\<rparr>\<rparr>"

definition shell_passed :: broker where
  "shell_passed = shell_waits\<lparr>br_passed := [(RequestId ''s'', gate_code)]\<rparr>"

definition shell_granted_row :: request_row where
  "shell_granted_row = apply_changes Enter_provisioning 7 ((apply_changes (Enter_approved
      (approval_human (attest (RequestId ''s'') ''me'') ''ok'' 600)) 7 shell_row)
      \<lparr>rr_edit := Some \<lparr>ed_resource = ''box'', ed_authority = shell_authority\<rparr>, rr_updated_at := 7\<rparr>)"

definition shell_grant :: grant_row where
  "shell_grant = \<lparr>gr_id = GrantId ''h'', gr_request = RequestId ''s'', gr_agent = AgentId ''a'', gr_session = None,
     gr_delegation = Some shell_delegation, gr_platform = Hostexec_platform, gr_resource = ''box'', gr_authority = shell_authority,
     gr_granted_at = 7, gr_expires_at = 600000000007, gr_status = GProvisioning, gr_state = JObj [], gr_revoked_at = None,
     gr_revoke_reason = None, gr_created_at = 7\<rparr>"

definition shell_made :: broker where
  "shell_made = shell_passed\<lparr>br_db := (br_db sample_broker)\<lparr>db_requests := [shell_granted_row], db_grants := [shell_grant]\<rparr>\<rparr>"

definition sample_entry :: containment_entry where
  "sample_entry = \<lparr>ce_id = ''0a1b2c3d'', ce_match = JObj [], ce_reason = ''odd'', ce_evidence = [], ce_by = ''me'', ce_source = From_operator, ce_at = 8\<rparr>"

definition sample_contained :: broker where
  "sample_contained = sample_active\<lparr>br_db := (br_db sample_active)\<lparr>db_entries := [sample_entry]\<rparr>\<rparr>"

section \<open>A rule approves\<close>

lemmas tx_defs = tx_bind_def tx_get_def tx_put_def tx_return_def tx_lift_def tx_unless_def tx_fail_def

lemma sample_app_parts:
  "app_platforms sample_app = [Google, Hostexec_platform]" "app_policy sample_app = sample_policy" "app_gates sample_app = [Hostexec_platform]"
  "app_validate sample_app p a res auth now s = Ok (Ok \<lparr>va_resource = res, va_authority = auth, va_notes = []\<rparr>)"
  by (simp_all add: sample_app_def)

lemma sample_zone: "zone_check_db sample_policy a auth resource s = Inr \<lparr>human_note = None\<rparr>"
  by (simp add: zone_check_db_def zone_check_def sample_policy_def default_policy_def)

lemma sample_check: "db_agents s = [sample_agent, sample_operator] \<Longrightarrow> db_entries s = [] \<Longrightarrow> check (AgentId ''a'') now s = Inr sample_agent"
  by (simp add: check_def find_agent_def agent_held_def first_holding_def Let_def sample_agent_def)

lemma sample_rows: "db_agents (br_db sample_broker) = [sample_agent, sample_operator]" "db_threads (br_db sample_broker) = [sample_thread]" "db_entries (br_db sample_broker) = []"
    "db_requests (br_db sample_broker) = []" "db_grants (br_db sample_broker) = []" "ag_id sample_agent = AgentId ''a''"
  by (simp_all add: sample_broker_def broker_init_def sample_agent_def)

lemma sample_decides: "evaluate sample_policy sample_request (saved_rules Google 5 (br_db sample_broker)) 5 = sample_decision"
proof -
  have saved: "saved_rules Google 5 (br_db sample_broker) = [saved_rule_of sample_rule_row]"
    by (simp add: saved_rules_def live_for_def newest_first_def sort_saved_rules_def sample_broker_def broker_init_def
        sample_rule_row_def rule_is_live_def)
  have "saved_matches sample_request 5 (saved_rule_of sample_rule_row)" by code_simp
  then show ?thesis by (simp add: evaluate_def match_saved_def saved sample_decision_def)
qed

lemma sample_routed: "rq_route (route_request sample_policy (RequestId ''r'') sample_request sample_decision \<lparr>human_note = None\<rparr>)
   = RApprove \<lparr>auto_request = RequestId ''r'', auto_authority = AuthGoogle ''drive.read'', auto_source = Rule_source\<rparr>"
proof -
  have "human_only (AuthGoogle ''drive.read'') = False" "is_web (agent_ref_of sample_agent) = False" "same_resource Google ''me'' ''me''" by code_simp+
  then show ?thesis
    by (simp add: route_request_def sample_decision_def saved_decision_def sample_request_def subject_input_def gate_def policy_gate_facts_def
      saved_rule_of_def sample_rule_row_def proposed_def seal_def saved_strength_def Let_def in_platform_def
      clears_sensitive_def is_auto_def)
qed

lemma sample_create_routes:
  "create sample_app sample_caller sample_body (RequestId ''r'') (GrantId ''g'') 5 (br_db sample_broker)
     = take_route sample_app sample_pending 600 sample_decision (RApprove \<lparr>auto_request = RequestId ''r'', auto_authority = AuthGoogle ''drive.read'', auto_source = Rule_source\<rparr>)
         (GrantId ''g'') 5 ((br_db sample_broker)\<lparr>db_requests := [sample_pending]\<rparr>)"
proof -
  have wire: "only_keys [] [] m = Inr ()" for m
    by (simp add: only_keys_def)
  show ?thesis
    by (simp add: tx_defs create_def sample_caller_def sample_body_def sample_check sample_rows Let_def create_delegated_def wire create_validated_def sample_zone
        sample_app_parts evaluate_and_route_def stored_gates_def created_for_another_def sample_decides[unfolded sample_request_def] draft_insert_def insert_request_def
        find_request_def to_i32_def I32_MAX_def sample_routed[unfolded sample_request_def] sample_pending_def[unfolded sample_request_def])
qed

lemma sample_cap: "policy_cap sample_policy (clamp_duration 600) (Some (pd_max_duration sample_decision)) = 600"
  by (simp add: policy_cap_def sample_decision_def saved_decision_def Let_def saved_rule_of_def sample_rule_row_def cap_duration_def sample_policy_def
    clamp_duration_def from_secs_def MAX_DURATION_SECS_def)

lemma sample_create_grants: "\<exists>aft. take_route sample_app sample_pending 600 sample_decision (RApprove \<lparr>auto_request = RequestId ''r'', auto_authority = AuthGoogle ''drive.read'', auto_source = Rule_source\<rparr>)
         (GrantId ''g'') 5 ((br_db sample_broker)\<lparr>db_requests := [sample_pending]\<rparr>)
   = Inr ((sample_row, aft, Some (GrantId ''g'')), (br_db sample_broker)\<lparr>db_requests := [sample_row], db_grants := [sample_grant]\<rparr>)"
proof -
  have p: "rr_id sample_pending = RequestId ''r''" "rr_status sample_pending = Pending" "rr_authority sample_pending = Some (AuthGoogle ''drive.read'')"
    "rr_attempt sample_pending = 0" "rr_agent sample_pending = AgentId ''a''" "rr_platform sample_pending = Google" "rr_delegation sample_pending = None"
     "rr_session sample_pending = None" "rr_resource sample_pending = ''me''" "rr_edit sample_pending = None"
    by (simp_all add: sample_pending_def new_row_def)
  show ?thesis
    by (simp add: take_route_def tx_defs step_def transition_def Let_def p approval_auto_def proof_ok_def opt_to_i32_def to_i32_def sample_app_parts sample_cap I32_MAX_def
      find_request_def update_requests_def begin_provision_def sample_check sample_rows begin_grant_def verify_not_held_def insert_grant_def find_grant_def
      sample_row_def sample_grant_def new_grant_def checked_add_secs_def TIME_MAX_def final_authority_def final_resource_def
      apply_changes_def no_changes_def coalesce_def)
qed

lemma broker_starts: "broker_step sample_app broker_init sample_broker"
proof -
  have "br_reviews sample_broker = br_reviews broker_init" "br_passed sample_broker = br_passed broker_init"
    by (simp_all add: sample_broker_def)
  then have "sample_broker = broker_init\<lparr>br_db := br_db sample_broker\<rparr>" by simp
  moreover have "other_writes (br_db broker_init) (br_db sample_broker)" by (simp add: other_writes_def sample_broker_def)
  ultimately show ?thesis using broker_step.elsewhere[of broker_init "br_db sample_broker"] by simp
qed

lemma broker_makes: "broker_step sample_app sample_broker sample_made"
proof -
  obtain aft where "create sample_app sample_caller sample_body (RequestId ''r'') (GrantId ''g'') 5 (br_db sample_broker)
     = Inr ((sample_row, aft, Some (GrantId ''g'')), br_db sample_made)"
    using sample_create_routes sample_create_grants by (auto simp: sample_made_def)
  from broker_step.created[OF this] show ?thesis by (simp add: sample_made_def)
qed

lemma broker_activates: "broker_step sample_app sample_made sample_active"
proof -
  have row: "rr_id sample_row = RequestId ''r''" "rr_status sample_row = Provisioning" "rr_attempt sample_row = 0"
    by (simp_all add: sample_row_def sample_pending_def new_row_def apply_changes_def no_changes_def)
  have "finish_inner sample_app (GrantId ''g'') (Provisioned (JObj [])) None 6 (br_db sample_made) = Inr ((), br_db sample_active)"
    by (simp add: finish_inner_def tx_defs load_provisioning_def find_grant_def sample_check sample_rows sample_made_def sample_active_def
        sample_grant_def sample_app_def provisioner_writes_def activate_def verify_not_held_def move_grant_def update_grants_def
        grant_succeeded_def move_provisioning_def find_request_def row step_def transition_def Let_def no_changes_def apply_changes_def
        opt_to_i32_def update_requests_def I32_MAX_def)
  from broker_step.provisioned[OF this] show ?thesis by (simp add: sample_made_def sample_active_def)
qed

section \<open>A person approves a shell\<close>

lemma shell_surfaces:
  "evaluate sample_policy shell_subject (saved_rules Hostexec_platform 5 (br_db sample_broker)) 5 = shell_decision"
  "rq_route (route_request sample_policy (RequestId ''s'') shell_subject shell_decision
     \<lparr>human_note = None\<rparr>) = RSurface"
proof -
  have "saved_rules Hostexec_platform 5 (br_db sample_broker) = []"
    by (simp add: saved_rules_def live_for_def newest_first_def sort_saved_rules_def sample_broker_def broker_init_def sample_rule_row_def)
  then show "evaluate sample_policy shell_subject (saved_rules Hostexec_platform 5 (br_db sample_broker)) 5 = shell_decision"
    by (simp add: evaluate_def match_saved_def shell_decision_def sample_policy_def default_policy_def)
  show "rq_route (route_request sample_policy (RequestId ''s'') shell_subject shell_decision
     \<lparr>human_note = None\<rparr>) = RSurface"
    by (simp add: route_request_def shell_decision_def default_decision_def default_action_def sample_policy_def shell_subject_def subject_input_def
      proposed_def seal_def Let_def gate_def is_auto_def)
qed

lemma shell_row_parts:
  "rr_id shell_row = RequestId ''s''" "rr_status shell_row = AwaitingHuman" "rr_attempt shell_row = 0" "rr_authority shell_row = Some shell_authority"
  "rr_agent shell_row = AgentId ''a''" "rr_platform shell_row = Hostexec_platform" "rr_resource shell_row = ''box''"
  "rr_requested_secs shell_row = 600" "rr_delegation shell_row = Some shell_delegation" "rr_session shell_row = None"
  by (simp_all add: shell_row_def shell_pending_def new_row_def apply_changes_def no_changes_def)

lemma broker_shell_asked: "broker_step sample_app sample_broker shell_waits"
proof -
  have wire: "from_wire (app_time sample_app) Hostexec_platform ''shell'' [(''tier'', JStr ''user'')] = Inr shell_authority"
    by (simp add: hostexec_from_wire_def only_keys_def shell_mode_from_def shell_authority_def tier_parse_def)
  have p: "authority_platform shell_authority = Hostexec_platform" "mail_action_of shell_authority = None" by (simp_all add: shell_authority_def)
  have del: "resolve_delegation sample_app sample_caller Hostexec_platform ''t'' (br_db sample_broker) = Inr (shell_delegation, shell_note)"
    by (simp add: resolve_delegation_def sample_caller_def sample_app_def find_thread_def sample_rows find_agent_def shell_delegation_def
      shell_note_def sample_thread_def sample_operator_def)
  have by_whom: "load_delegator (AgentId ''o'') (br_db sample_broker) = Delegator_agent sample_operator"
    by (simp add: load_delegator_def find_agent_def sample_rows sample_operator_def)
  have o: "del_delegator shell_delegation = AgentId ''o''" by (simp add: shell_delegation_def)
  have "create sample_app sample_caller shell_body (RequestId ''s'') (GrantId ''h'') 5 (br_db sample_broker)
      = Inr ((shell_row, After_surface, None), br_db shell_waits)"
    by (simp add: tx_defs create_def del[unfolded sample_caller_def] by_whom o sample_caller_def shell_body_def sample_check sample_rows Let_def
        create_delegated_def shell_subject_def[symmetric]
        wire[unfolded from_wire.simps] create_validated_def sample_zone p
        sample_app_parts evaluate_and_route_def stored_gates_def created_for_another_def shell_surfaces draft_insert_def insert_request_def
        find_request_def to_i32_def I32_MAX_def shell_pending_def[symmetric] take_route_def step_def transition_def
        no_changes_def opt_to_i32_def shell_row_def[symmetric] shell_row_parts update_requests_def shell_waits_def)
  from broker_step.created[OF this] show ?thesis by (simp add: shell_waits_def)
qed

lemma broker_shell_gate: "broker_step sample_app shell_waits shell_passed"
proof -
  have "trim ''123456'' \<noteq> []" by code_simp
  then have "run_gate sample_app (RequestId ''s'') gate_code 6 (br_db shell_waits) = Inr (Some (shell_row, sample_agent))"
    by (simp add: run_gate_def find_request_def shell_waits_def shell_row_parts sample_app_parts sample_check sample_rows find_agent_def
      gate_code_def)
  from broker_step.gate_passed[OF this] show ?thesis by (simp add: shell_passed_def shell_waits_def sample_broker_def broker_init_def)
qed

lemma broker_shell_decided: "broker_step sample_app shell_passed shell_made"
proof -
  have p: "authority_platform shell_authority = Hostexec_platform" by (simp add: shell_authority_def)
  have backing: "delegation_backing shell_delegation 7 (s\<lparr>db_requests := x\<rparr>) = Inr None"
    if "db_threads s = [sample_thread]" "db_agents s = [sample_agent, sample_operator]" for s x
    using that by (simp add: delegation_backing_def find_thread_def find_agent_def shell_delegation_def sample_thread_def sample_operator_def sample_agent_def)
  have secs: "human_secs sample_app gate_code shell_row = 600"
    by (simp add: human_secs_def gate_code_def sample_app_parts shell_row_parts policy_cap_def cap_duration_def sample_policy_def
      clamp_duration_def from_secs_def MAX_DURATION_SECS_def Let_def)
  have edit: "revalidate sample_app sample_agent shell_row gate_code 7 s = Inr \<lparr>ed_resource = ''box'', ed_authority = shell_authority\<rparr>" for s
    by (simp add: revalidate_def shell_row_parts gate_code_def sample_app_parts p sample_zone)
  have "decide_inner sample_app (RequestId ''s'') (Decider_human ''me'') None gate_code (RuleId 1) (GrantId ''h'') 7 7 (br_db shell_passed)
      = Inr (Some (GrantId ''h''), br_db shell_made)"
    by (simp add: decide_inner_def tx_defs find_request_def shell_passed_def shell_waits_def shell_made_def shell_row_parts to_human_def
      find_agent_def sample_rows Let_def gate_code_def edit[unfolded gate_code_def] approve_human_def secs[unfolded gate_code_def]
      step_def transition_def approval_human_def proof_ok_def attest_def opt_to_i32_def to_i32_def I32_MAX_def update_requests_def
      set_approved_edit_def p backing begin_provision_def sample_check begin_grant_def verify_not_held_def insert_grant_def find_grant_def
      shell_granted_row_def shell_grant_def new_grant_def checked_add_secs_def TIME_MAX_def final_authority_def final_resource_def
      apply_changes_def no_changes_def coalesce_def)
  then show ?thesis
    using broker_step.decided[of gate_code "RequestId ''s''" shell_passed sample_app "''me''" None "RuleId 1" "GrantId ''h''" 7 7
        "Some (GrantId ''h'')" "br_db shell_made"]
    by (simp add: shell_passed_def shell_made_def)
qed

section \<open>Contained\<close>

lemma broker_contains: "broker_step sample_app sample_active sample_contained"
  unfolding sample_contained_def by (rule broker_step.elsewhere) (simp add: other_writes_def)

lemma sample_held: "find_agent (AgentId ''a'') (br_db sample_contained) = Some sample_agent" "holding sample_agent (br_db sample_contained) = Some sample_entry"
proof -
  show "find_agent (AgentId ''a'') (br_db sample_contained) = Some sample_agent"
    by (simp add: find_agent_def sample_contained_def sample_active_def sample_rows)
  have "Containment.holds (JObj []) (facts_with sample_agent x)" for x
    by (simp add: Containment.holds_def facts_with_def facts_def sample_agent_def)
  then show "holding sample_agent (br_db sample_contained) = Some sample_entry"
    by (simp add: holding_def first_holding_def sample_contained_def sample_entry_def)
qed

lemma broker_lifts: "broker_step sample_app sample_contained sample_active"
proof -
  have "sample_active = sample_contained\<lparr>br_db := br_db sample_active\<rparr>" by (simp add: sample_contained_def)
  moreover have "other_writes (br_db sample_contained) (br_db sample_active)" by (simp add: other_writes_def sample_contained_def)
  ultimately show ?thesis using broker_step.elsewhere[of sample_contained "br_db sample_active"] by simp
qed

end
