(* ===== verification/Broker_Safety.thy ===== *)
theory Broker_Safety
  imports Broker_Run
begin

text \<open>
  The broker's guarantees, over every history of its steps: the state of the database, what a grant took, what
  becomes of grants and requests, and that a shell is never granted without a code or its desk.
\<close>

inductive broker_reach :: "app_state \<Rightarrow> broker \<Rightarrow> bool" for app :: app_state where
  start: "broker_reach app broker_init"
| next_step: "\<lbrakk>broker_reach app b; broker_step app b b'\<rbrakk> \<Longrightarrow> broker_reach app b'"

section \<open>One step\<close>

lemma annotated_keeps:
  assumes "annotated r q"
  shows "rr_id q = rr_id r" "rr_agent q = rr_agent r" "rr_platform q = rr_platform r" "rr_resource q = rr_resource r"
    "rr_authority q = rr_authority r" "rr_delegation q = rr_delegation r" "rr_requested_secs q = rr_requested_secs r"
    "rr_session q = rr_session r" "rr_status q = rr_status r" "rr_approved_secs q = rr_approved_secs r" "rr_edit q = rr_edit r"
    "rr_source q = rr_source r" "rr_decided_at q = rr_decided_at r" "rr_attempt q = rr_attempt r"
  by (subst assms[unfolded annotated_def]; simp)+

lemma annotated_row:
  assumes "annotated r q"
  shows "row_ok q = row_ok r" "grant_matches g q = grant_matches g r" "same_spec r q"
  using annotated_keeps[OF assms]
  by (simp_all add: row_ok_def columns_ok_def grant_matches_def final_authority_def same_spec_def cong: option.case_cong)

lemma annotates_look:
  assumes "annotates s s'"
  shows "(requests.look i s = None \<longrightarrow> requests.look i s' = None)
    \<and> (\<forall>r. requests.look i s = Some r \<longrightarrow> (\<exists>q. requests.look i s' = Some q \<and> annotated r q))"
    and "requests.keys_ok s' = requests.keys_ok s"
proof -
  obtain f where f: "\<forall>r. annotated r (f r)" "db_requests s' = map f (db_requests s)" using assms by (auto simp: annotates_def)
  have id: "rr_id (f r) = rr_id r" for r using f(1) annotated_keeps by blast
  have "find (\<lambda>r. rr_id r = i) (map f xs) = map_option f (find (\<lambda>r. rr_id r = i) xs)" for xs
    by (induction xs) (auto simp: id)
  then have look: "requests.look i s' = map_option f (requests.look i s)" by (simp add: requests.look_def f(2))
  then show "(requests.look i s = None \<longrightarrow> requests.look i s' = None)
    \<and> (\<forall>r. requests.look i s = Some r \<longrightarrow> (\<exists>q. requests.look i s' = Some q \<and> annotated r q))" using f(1) by simp
  have "rr_id \<circ> f = rr_id" using id by auto
  then show "requests.keys_ok s' = requests.keys_ok s" by (simp add: requests.keys_ok_def f(2))
qed

lemma annotates_keeps:
  assumes ok: "store_ok s" and an: "annotates s s'"
  shows "store_ok s'"
proof -
  note o = ok[unfolded store_ok_def] and look = annotates_look[OF an]
  have gr: "db_grants s' = db_grants s" using an by (simp add: annotates_def)
  have "row_ok q \<and> (rr_status q \<in> {Provisioning, Granted} \<longrightarrow> (\<exists>g \<in> set (db_grants s). gr_request g = i))"
    if q: "requests.look i s' = Some q" for i q
  proof -
    have "requests.look i s \<noteq> None" using look(1)[of i] q by (metis option.distinct(1))
    then obtain r where r: "requests.look i s = Some r" by blast
    then have a: "annotated r q" using look(1)[of i] q by (metis option.inject)
    have "row_ok r \<and> (rr_status r \<in> {Provisioning, Granted} \<longrightarrow> (\<exists>g \<in> set (db_grants s). gr_request g = i))"
      using o r by blast
    then show ?thesis unfolding annotated_row(1)[OF a] annotated_keeps(9)[OF a] .
  qed
  moreover have "\<exists>q. requests.look (gr_request g) s' = Some q \<and> grant_matches g q" if g: "g \<in> set (db_grants s)" for g
  proof -
    obtain r where r: "requests.look (gr_request g) s = Some r" "grant_matches g r" using o g by blast
    then obtain q where "requests.look (gr_request g) s' = Some q" "annotated r q" using look(1) by blast
    with r(2) annotated_row(2) show ?thesis by blast
  qed
  moreover have "requests.keys_ok s'" using o look(2) by blast
  moreover have "grants.keys_ok s'" "distinct (map gr_request (db_grants s))" using o unfolding grants.keys_ok_def gr by blast+
  ultimately show ?thesis unfolding store_ok_def gr by blast
qed

lemma change_keeps:
  assumes ok: "store_ok (br_db b)" and ch: "broker_change app b s'"
  shows "store_ok s'"
  using ch
proof (cases rule: broker_change.cases)
  case (one_request r r' go now)
  then show ?thesis using effect_keeps[OF ok, of r r' go s' now] by (auto simp: request_moved_def)
next
  case (one_grant g r now)
  then show ?thesis by (rule finished_keeps[OF ok])
next
  case grants_only
  then show ?thesis by (rule grants_evolve_keeps[OF ok])
next
  case notes_only
  then show ?thesis by (rule annotates_keeps[OF ok])
qed

lemma reach_ok: "broker_reach app b \<Longrightarrow> store_ok (br_db b)"
proof (induction rule: broker_reach.induct)
  case start
  show ?case
    by (simp add: broker_init_def store_ok_def requests.keys_ok_def grants.keys_ok_def requests.look_def)
next
  case (next_step b b')
  then show ?case using change_keeps step_change by blast
qed

lemma reach_change: "broker_reach app b \<Longrightarrow> broker_step app b b' \<Longrightarrow> broker_change app b (br_db b')"
  by (rule step_change[OF reach_ok])

lemma ended_stays: "grant_can_transition\<^sup>*\<^sup>* x y \<Longrightarrow> x \<in> {GExpired, GRevoked, GProvisionFailed} \<Longrightarrow> y = x"
  by (erule converse_rtranclpE) (auto elim: grant_can_transition.elims)

text \<open>The grants after a change: each old one evolved, and at most one new one, for the request that moved.\<close>

lemma change_grants:
  assumes ok: "store_ok (br_db b)" and ch: "broker_change app b s'"
  shows "(\<exists>r r' g now. request_moved (br_db b) s' r r' (Some g) now \<and> grant_basis app b r r' now
      \<and> db_grants s' = db_grants (br_db b) @ [g])
    \<or> list_all2 (\<lambda>g g'. grant_evolves g g' \<and> (gr_status g' = GActive \<longrightarrow> gr_status g = GActive
         \<or> gr_status g = GProvisioning \<and> (\<exists>now. is_ok (check (gr_agent g) now (br_db b))))) (db_grants (br_db b)) (db_grants s')"
    (is "?new \<or> list_all2 ?P _ _")
  using ch
proof (cases rule: broker_change.cases)
  case (one_request r r' go now)
  show ?thesis
  proof (cases go)
    case None
    then have "db_grants s' = db_grants (br_db b)" using one_request(1) by (simp add: request_moved_def effect_def)
    then show ?thesis by (auto intro!: list.rel_refl_strong)
  next
    case (Some g)
    then have "db_grants s' = db_grants (br_db b) @ [g]" using one_request(1) by (simp add: request_moved_def effect_def)
    with Some one_request have ?new by blast
    then show ?thesis ..
  qed
next
  case (one_grant g r now)
  note p = one_grant(1)[unfolded provisioning_pair_def]
  obtain g' r' where g': "grant_effect (br_db b) g' r' s'" "grant_evolves g g'"
      "gr_status g' = GActive \<longrightarrow> is_ok (check (gr_agent g) now (br_db b))"
    using one_grant(2) by (auto simp: finished_def failed_grant_def)
  have "list_all2 ?P (db_grants (br_db b)) (db_grants (grants.put g' (br_db b)))"
    using p g'(2,3) by (intro put_evolve[of _ g]) auto
  with g'(1) show ?thesis by (simp add: grant_effect_def)
next
  case grants_only
  have "gr_status g' = GActive \<Longrightarrow> follows (gr_status g') = follows (gr_status g) \<Longrightarrow> grant_evolves g g' \<Longrightarrow> gr_status g = GActive" for g g'
    using ended_stays[of "gr_status g" "gr_status g'"] by (cases "gr_status g") (auto simp: grant_evolves_def)
  then have "list_all2 ?P (db_grants (br_db b)) (db_grants s')"
    using grants_only unfolding grants_evolve_def by (elim conjE list_all2_mono) auto
  then show ?thesis ..
next
  case notes_only
  then show ?thesis by (auto simp: annotates_def intro!: list.rel_refl_strong)
qed

lemma sample_reach: "broker_reach sample_app sample_broker" "broker_reach sample_app sample_made" "broker_reach sample_app sample_active"
  by (blast intro: broker_reach.intros broker_starts broker_makes broker_activates)+

lemma shell_reach: "broker_reach sample_app shell_passed"
  by (blast intro: broker_reach.intros broker_starts broker_shell_asked broker_shell_gate)

lemma sample_new: "sample_grant \<in> set (db_grants (br_db sample_made))" "find_grant (gr_id sample_grant) (br_db sample_broker) = None"
  by (simp_all add: sample_made_def find_grant_def sample_rows)

lemma shell_new: "shell_grant \<in> set (db_grants (br_db shell_made))" "find_grant (gr_id shell_grant) (br_db shell_passed) = None"
  by (simp_all add: shell_made_def find_grant_def shell_passed_def shell_waits_def sample_rows)

section \<open>What a grant took\<close>



lemma new_grant_moved:
  assumes "broker_reach app b" "broker_step app b b'"
    and "g \<in> set (db_grants (br_db b'))" "find_grant (gr_id g) (br_db b) = None"
  shows "\<exists>r r' now. request_moved (br_db b) (br_db b') r r' (Some g) now \<and> grant_basis app b r r' now"
proof -
  have ok: "store_ok (br_db b)" by (rule reach_ok[OF assms(1)])
  from change_grants[OF ok reach_change[OF assms(1,2)]] show ?thesis
  proof (elim disjE exE conjE)
    fix r r' h now assume m: "request_moved (br_db b) (br_db b') r r' (Some h) now" "grant_basis app b r r' now"
      "db_grants (br_db b') = db_grants (br_db b) @ [h]"
    have "g \<notin> set (db_grants (br_db b))" using assms(4) by (auto simp: find_is_look grants.look_None)
    then have "h = g" using m(3) assms(3) by auto
    with m(1,2) show ?thesis by blast
  next
    assume l2: "list_all2 (\<lambda>g g'. grant_evolves g g' \<and> (gr_status g' = GActive \<longrightarrow> gr_status g = GActive
         \<or> gr_status g = GProvisioning \<and> (\<exists>now. is_ok (check (gr_agent g) now (br_db b))))) (db_grants (br_db b)) (db_grants (br_db b'))"
    have "gr_id g \<in> gr_id ` set (db_grants (br_db b))"
      using assms(3) evolves_keys(1)[OF l2] by (metis image_eqI list.set_map)
    then show ?thesis using assms(4) by (auto simp: find_is_look grants.look_None)
  qed
qed

lemma new_grant_cases:
  assumes "broker_reach app b" "broker_step app b b'"
    and "g \<in> set (db_grants (br_db b'))" "find_grant (gr_id g) (br_db b) = None"
  shows "\<exists>r r' now. gr_request g = rr_id r \<and> find_request (rr_id r) (br_db b') = Some r' \<and> row_moves r r'
    \<and> (find_request (rr_id r) (br_db b) = None \<or> find_request (rr_id r) (br_db b) = Some r \<and> is_human_decidable (rr_status r))
    \<and> rr_status r' = Provisioning \<and> gr_status g = GProvisioning \<and> gr_agent g = rr_agent r
    \<and> final_authority r' = Some (gr_authority g) \<and> is_ok (check (gr_agent g) now (br_db b)) \<and> grant_basis app b r r' now"
proof -
  from new_grant_moved[OF assms] obtain r r' now where m: "request_moved (br_db b) (br_db b') r r' (Some g) now" "grant_basis app b r r' now"
    by blast
  have mv: "row_moves r r'" "effect (br_db b) r' (Some g) (br_db b')" "row_settled (br_db b) r' (Some g) now"
    using m(1) by (auto simp: request_moved_def)
  have spec: "rr_id r' = rr_id r" "rr_agent r' = rr_agent r" using row_moves_spec[OF mv(1)] by (simp_all add: same_spec_def)
  obtain cap where g: "granted r' (gr_id g) now cap g" "rr_status r' = Provisioning" "is_ok (check (rr_agent r') now (br_db b))"
    using mv(3) by (auto simp: row_settled_def)
  have "requests.look (rr_id r) (br_db b') = Some r'"
    using mv(2) spec requests.look_put[of "rr_id r" r' "br_db b"] by (simp add: effect_def requests.look_def)
  then show ?thesis
    using m(1,2) mv(1) g spec granted_same[OF g(1)]
    by (intro exI[of _ r] exI[of _ r'] exI[of _ now]) (auto simp: find_is_look request_moved_def)
qed



lemma activation_cases:
  assumes "broker_reach app b" "broker_step app b b'"
    and "g' \<in> set (db_grants (br_db b'))" "gr_status g' = GActive"
    and "\<not> is_some_and (\<lambda>g. gr_status g = GActive) (find_grant (gr_id g') (br_db b))"
  shows "\<exists>g now. find_grant (gr_id g') (br_db b) = Some g \<and> gr_status g = GProvisioning
    \<and> gr_agent g' = gr_agent g \<and> is_ok (check (gr_agent g) now (br_db b))"
proof -
  have ok: "store_ok (br_db b)" by (rule reach_ok[OF assms(1)])
  from change_grants[OF ok reach_change[OF assms(1,2)]] show ?thesis
  proof (elim disjE exE conjE)
    fix r r' h now assume m: "request_moved (br_db b) (br_db b') r r' (Some h) now" "db_grants (br_db b') = db_grants (br_db b) @ [h]"
    obtain cap where "granted r' (gr_id h) now cap h" using m(1) by (auto simp: request_moved_def row_settled_def)
    from granted_same[OF this] have "gr_status h = GProvisioning" by simp
    then have "g' \<in> set (db_grants (br_db b))" using assms(3,4) m(2) by auto
    then show ?thesis using assms(4,5) ok grants.in_look[of "br_db b" g'] by (simp add: find_is_look store_ok_def)
  next
    assume l2: "list_all2 (\<lambda>g g'. grant_evolves g g' \<and> (gr_status g' = GActive \<longrightarrow> gr_status g = GActive
         \<or> gr_status g = GProvisioning \<and> (\<exists>now. is_ok (check (gr_agent g) now (br_db b))))) (db_grants (br_db b)) (db_grants (br_db b'))"
    obtain g where g: "g \<in> set (db_grants (br_db b))" "grant_evolves g g'" "gr_status g = GActive
         \<or> gr_status g = GProvisioning \<and> (\<exists>now. is_ok (check (gr_agent g) now (br_db b)))"
      using list_all2_back[OF l2 assms(3)] assms(4) by blast
    have "find_grant (gr_id g') (br_db b) = Some g"
      using ok grants.in_look[OF _ g(1)] g(2) by (simp add: find_is_look store_ok_def grant_evolves_def)
    then show ?thesis using g assms(5) by (auto simp: grant_evolves_def)
  qed
qed

text \<open>C16: A grant becomes active only from provisioning, in a transaction in which its agent passed the containment
  check; an ended or failed grant never becomes active again.\<close>

theorem activation_checked:
  assumes "broker_reach app b" "broker_step app b b'"
    and "g' \<in> set (db_grants (br_db b'))" "gr_status g' = GActive"
    and "\<not> is_some_and (\<lambda>g. gr_status g = GActive) (find_grant (gr_id g') (br_db b))"
  shows "\<exists>g now. find_grant (gr_id g') (br_db b) = Some g \<and> gr_status g = GProvisioning
    \<and> gr_agent g' = gr_agent g \<and> is_ok (check (gr_agent g) now (br_db b))"
  using activation_cases[OF assms] .

theorem activation_checked_witness:
  "broker_step sample_app sample_made sample_active
   \<and> (\<exists>g now. find_grant (GrantId ''g'') (br_db sample_made) = Some g \<and> gr_status g = GProvisioning
        \<and> is_ok (check (gr_agent g) now (br_db sample_made)))"
proof -
  have a: "sample_grant\<lparr>gr_status := GActive\<rparr> \<in> set (db_grants (br_db sample_active))"
    "\<not> is_some_and (\<lambda>g. gr_status g = GActive) (find_grant (gr_id (sample_grant\<lparr>gr_status := GActive\<rparr>)) (br_db sample_made))"
    by (simp_all add: sample_active_def sample_made_def sample_grant_def find_grant_def)
  show ?thesis using activation_checked[OF sample_reach(2) broker_activates a(1) _ a(2)] broker_activates by (auto simp: sample_grant_def)
qed

section \<open>Histories\<close>

lemma grant_evolves_trans: "grant_evolves g g' \<Longrightarrow> grant_evolves g' g'' \<Longrightarrow> grant_evolves g g''"
  unfolding grant_evolves_def by (auto intro: rtranclp_trans)

lemma list_all2_forth: "list_all2 P xs ys \<Longrightarrow> x \<in> set xs \<Longrightarrow> \<exists>y \<in> set ys. P x y"
  by (induction rule: list_all2_induct) auto

lemma step_grants:
  assumes "broker_reach app b" "broker_step app b b'" "g \<in> set (db_grants (br_db b))"
  shows "\<exists>g' \<in> set (db_grants (br_db b')). grant_evolves g g'"
  using change_grants[OF reach_ok reach_change, OF assms(1) assms(1,2)]
proof (elim disjE exE conjE)
  fix h assume "db_grants (br_db b') = db_grants (br_db b) @ [h]"
  then show ?thesis using assms(3) by (auto intro: bexI[of _ g])
next
  assume "list_all2 (\<lambda>g g'. grant_evolves g g' \<and> (gr_status g' = GActive \<longrightarrow> gr_status g = GActive
         \<or> gr_status g = GProvisioning \<and> (\<exists>now. is_ok (check (gr_agent g) now (br_db b))))) (db_grants (br_db b)) (db_grants (br_db b'))"
  from list_all2_forth[OF this assms(3)] show ?thesis by blast
qed

definition request_evolves :: "request_row \<Rightarrow> request_row \<Rightarrow> bool" where
  "request_evolves r r' = (same_spec r r' \<and> can_transition\<^sup>*\<^sup>* (rr_status r) (rr_status r'))"

lemma request_evolves_trans: "request_evolves r r' \<Longrightarrow> request_evolves r' r'' \<Longrightarrow> request_evolves r r''"
  by (auto simp: request_evolves_def same_spec_def intro: rtranclp_trans)

lemma request_evolves_refl [simp]: "request_evolves r r"
  by (simp add: request_evolves_def same_spec_def)

lemma finished_request:
  assumes pair: "provisioning_pair s g r" and fin: "finished s g r now s'" and q: "requests.look i s = Some q"
  shows "\<exists>q'. requests.look i s' = Some q' \<and> request_evolves q q'"
proof -
  note p = pair[unfolded provisioning_pair_def]
  obtain g' r' e where e: "grant_effect s g' r' s'" "r' = apply_changes e now r" "target e \<in> {Granted, ProvisionFailed}"
    using fin unfolding finished_def by (metis insertCI target.simps(7,8))
  have id: "rr_id r = gr_request g" using requests.look_key p by blast
  have look: "requests.look j s' = (if j = gr_request g then Some r' else requests.look j s)" for j
    using requests.look_put[of j r' s] e(1,2) id by (simp add: grant_effect_def requests.look_def)
  have "can_transition\<^sup>*\<^sup>* (rr_status r) (rr_status r')"
    using p e(2,3) by (intro r_into_rtranclp) (auto simp: can_transition_def)
  then have "request_evolves r r'" using e(2) by (simp add: request_evolves_def same_spec_def)
  then show ?thesis using q p look by (cases "i = gr_request g") auto
qed

lemma step_requests:
  assumes "broker_reach app b" "broker_step app b b'" and r: "requests.look i (br_db b) = Some r"
  shows "\<exists>r'. requests.look i (br_db b') = Some r' \<and> request_evolves r r'"
  using reach_change[OF assms(1,2)]
proof (cases rule: broker_change.cases)
  case (one_request q q' go now)
  then have q: "requests.look (rr_id q) (br_db b) = None \<or> requests.look (rr_id q) (br_db b) = Some q" "row_moves q q'"
      "effect (br_db b) q' go (br_db b')" by (auto simp: request_moved_def)
  have id: "rr_id q' = rr_id q" using row_moves_id[OF q(2)] .
  have look: "requests.look i (br_db b') = (if i = rr_id q then Some q' else requests.look i (br_db b))"
    using requests.look_put[of i q' "br_db b"] q(3) id by (simp add: effect_def requests.look_def)
  have "request_evolves q q'" using row_moves_spec[OF q(2)] row_moves_path[OF q(2)] by (simp add: request_evolves_def)
  then show ?thesis using r q(1) look by (cases "i = rr_id q") auto
next
  case (one_grant g q now)
  then show ?thesis using r by (rule finished_request)
next
  case grants_only
  then have "requests.look i (br_db b') = Some r" using r by (simp add: grants_evolve_def requests.look_def)
  then show ?thesis by auto
next
  case notes_only
  then obtain r' where "requests.look i (br_db b') = Some r'" "annotated r r'" using annotates_look(1) r by blast
  then show ?thesis using annotated_row(3)[of r r'] annotated_keeps(9)[of r r'] by (auto simp: request_evolves_def)
qed

text \<open>C17: Over any further history, a grant keeps its agent, request, platform, authority and delegation, its end
  only moves earlier, its status follows the grant state machine (so an ended or failed grant stays
  so), and once ended it says when.\<close>

theorem grants_only_shrink:
  assumes "broker_reach app b" "(broker_step app)\<^sup>*\<^sup>* b b'" "g \<in> set (db_grants (br_db b))"
  shows "\<exists>g' \<in> set (db_grants (br_db b')). gr_id g' = gr_id g \<and> grant_evolves g g'
    \<and> (gr_status g \<in> {GExpired, GRevoked, GProvisionFailed} \<longrightarrow> gr_status g' = gr_status g)"
proof -
  have "broker_reach app b' \<and> (\<exists>g' \<in> set (db_grants (br_db b')). grant_evolves g g')"
    using assms(2)
  proof (induction rule: rtranclp_induct)
    case base
    show ?case using assms(1,3) by (auto intro: bexI[of _ g])
  next
    case (step c c')
    then obtain g1 where g1: "g1 \<in> set (db_grants (br_db c))" "grant_evolves g g1" and c: "broker_reach app c" by blast
    obtain g2 where "g2 \<in> set (db_grants (br_db c'))" "grant_evolves g1 g2" using step_grants[OF c step.hyps(2) g1(1)] by blast
    then show ?case using g1(2) grant_evolves_trans broker_reach.next_step[OF c step.hyps(2)] by blast
  qed
  then obtain g' where g': "g' \<in> set (db_grants (br_db b'))" "grant_evolves g g'" by blast
  then have "grant_can_transition\<^sup>*\<^sup>* (gr_status g) (gr_status g')" "gr_id g' = gr_id g" by (simp_all add: grant_evolves_def)
  with g' ended_stays[of "gr_status g" "gr_status g'"] show ?thesis by blast
qed

theorem grants_only_shrink_witness:
  "\<exists>g' \<in> set (db_grants (br_db sample_active)). gr_id g' = GrantId ''g'' \<and> grant_evolves sample_grant g'"
proof -
  have "sample_grant \<in> set (db_grants (br_db sample_made))" by (simp add: sample_made_def)
  from grants_only_shrink[OF sample_reach(2) r_into_rtranclp[of "broker_step sample_app", OF broker_activates] this]
  show ?thesis by (auto simp: sample_grant_def)
qed

text \<open>C19: Over any further history, a request keeps its agent, platform, resource, authority, delegation and
  requested duration, and its status follows the edges of the request state machine; a denied,
  granted or failed request stays so.\<close>

theorem requests_follow_machine:
  assumes "broker_reach app b" "(broker_step app)\<^sup>*\<^sup>* b b'" "find_request i (br_db b) = Some r"
  shows "\<exists>r'. find_request i (br_db b') = Some r' \<and> same_spec r r' \<and> can_transition\<^sup>*\<^sup>* (rr_status r) (rr_status r')
    \<and> (is_terminal (rr_status r) \<longrightarrow> rr_status r' = rr_status r)"
proof -
  have "broker_reach app b' \<and> (\<exists>r'. requests.look i (br_db b') = Some r' \<and> request_evolves r r')"
    using assms(2)
  proof (induction rule: rtranclp_induct)
    case base
    show ?case using assms(1,3) by (auto simp: find_is_look)
  next
    case (step c c')
    then obtain r1 where r1: "requests.look i (br_db c) = Some r1" "request_evolves r r1" and c: "broker_reach app c" by blast
    obtain r2 where "requests.look i (br_db c') = Some r2" "request_evolves r1 r2" using step_requests[OF c step.hyps(2) r1(1)] by blast
    then show ?case using r1(2) request_evolves_trans broker_reach.next_step[OF c step.hyps(2)] by blast
  qed
  then obtain r' where r': "requests.look i (br_db b') = Some r'" "request_evolves r r'" by blast
  have "rr_status r' = rr_status r" if t: "is_terminal (rr_status r)"
  proof -
    have "can_transition\<^sup>*\<^sup>* (rr_status r) (rr_status r')" using r'(2) by (simp add: request_evolves_def)
    then show ?thesis by (cases rule: converse_rtranclpE) (use t in \<open>auto simp: is_terminal_def can_transition_def\<close>)
  qed
  then show ?thesis using r' by (auto simp: find_is_look request_evolves_def)
qed

theorem requests_follow_machine_witness:
  "\<exists>r'. find_request (RequestId ''r'') (br_db sample_active) = Some r' \<and> same_spec sample_row r'
     \<and> can_transition\<^sup>*\<^sup>* (rr_status sample_row) (rr_status r')"
proof -
  have "rr_id sample_row = RequestId ''r''"
    by (simp add: sample_row_def sample_pending_def new_row_def apply_changes_def no_changes_def)
  then have "find_request (RequestId ''r'') (br_db sample_made) = Some sample_row" by (simp add: sample_made_def find_request_def)
  from requests_follow_machine[OF sample_reach(2) r_into_rtranclp[of "broker_step sample_app", OF broker_activates] this]
  show ?thesis by blast
qed

end
