(* ===== verification/Broker_Gates.thy ===== *)
theory Broker_Gates
  imports Broker_Safety
begin

text \<open>
  Composition with the policy and the approval gate: what the policy's guarantees mean for the grants the broker
  makes, and when a credential is issued for one.
\<close>

section \<open>Automatic clearances\<close>

text \<open>What holds of a request that some routing let through without a person.\<close>

definition auto_cleared :: "policy \<Rightarrow> db \<Rightarrow> agent_row \<Rightarrow> delegator \<Rightarrow> string \<Rightarrow> authority \<Rightarrow> int \<Rightarrow> bool" where
  "auto_cleared p s a d resource auth now =
     (zone_check_db p a auth resource s = Ok \<lparr>human_note = None\<rparr> \<and> \<not> human_only auth
      \<and> \<not> is_web (agent_ref_of a) \<and> \<not> delegation_is_web (as_policy d)
      \<and> created_for_another (ag_id a) auth resource s = None
      \<and> justified p (subject_input a d resource auth) (saved_rules (authority_platform auth) now s) now)"

lemma stored_gates_auto:
  assumes "is_auto (route_action (rq_route (stored_gates a auth resource s routed)))"
  shows "created_for_another (ag_id a) auth resource s = None \<and> stored_gates a auth resource s routed = routed"
  using assms by (auto simp: stored_gates_def split: option.splits if_splits)

lemma reroute_auto_cleared:
  assumes "ro_route (reroute p req a d resource auth now s) = Some route" "is_auto (route_action route)"
  shows "auto_cleared p s a d resource auth now"
proof -
  define i where "i = subject_input a d resource auth"
  define saved where "saved = saved_rules (authority_platform auth) now s"
  obtain zone where zone: "zone_check_db p a auth resource s = Ok zone"
    using assms(1) by (auto simp: reroute_def ro_route_def Let_def split: sum.splits)
  define routed where "routed = snd (evaluate_and_route p req i saved zone now)"
  have route: "route = rq_route (stored_gates a auth resource s routed)"
    using assms(1) zone by (auto simp: reroute_def ro_route_def Let_def routed_def i_def saved_def split: prod.splits)
  note g = stored_gates_auto[OF assms(2)[unfolded route]]
  have "clears routed" using assms(2) route g by (simp add: clears_def)
  then have auto: "is_auto (fst (proposed i (pd_sealed (evaluate p i saved now))))"
    and clear: "may_auto_clear (snd (proposed i (pd_sealed (evaluate p i saved now)))) (policy_gate_facts p i zone)"
    by (simp_all add: routed_def clears_evaluate_and_route Let_def)
  have "justified p i saved now" using clears_justified[OF evaluate_decides auto clear] .
  then show ?thesis
    using clear zone g by (cases zone) (auto simp: auto_cleared_def may_auto_clear_facts i_def saved_def subject_input_def)
qed

text \<open>Who the request was judged for: the agent as it is, or the row the reviewer's task read when its round began.\<close>

definition judged_as :: "broker \<Rightarrow> request_row \<Rightarrow> agent_row \<Rightarrow> bool" where
  "judged_as b r a =
     (ag_id a = rr_agent r
      \<and> (find_agent (rr_agent r) (br_db b) = Some a
         \<or> (\<exists>rv \<in> set (br_reviews b). rv_agent rv = a \<and> rr_id (rv_request rv) = rr_id r \<and> rr_attempt (rv_request rv) = rr_attempt r)))"

lemma review_read_agent:
  assumes "review_read app i now s = Inr (Some rv)"
  shows "ag_id (rv_agent rv) = rr_agent (rv_request rv) \<and> requests.look (rr_id (rv_request rv)) s = Some (rv_request rv)"
  using assms requests.look_key[of i s] agents.look_key
  by (auto simp: review_read_def find_is_look opt_filter_Some_iff result_simps Let_def split: option.splits)

lemma reach_reviews:
  assumes "broker_reach app b" "rv \<in> set (br_reviews b)"
  shows "ag_id (rv_agent rv) = rr_agent (rv_request rv)
    \<and> (\<exists>r. requests.look (rr_id (rv_request rv)) (br_db b) = Some r \<and> rr_agent r = rr_agent (rv_request rv))"
  using assms
proof (induction rule: broker_reach.induct)
  case start
  then show ?case by (simp add: broker_init_def)
next
  case (next_step b b')
  show ?case
  proof (cases "rv \<in> set (br_reviews b)")
    case True
    from next_step.IH[OF True] obtain r where r: "ag_id (rv_agent rv) = rr_agent (rv_request rv)"
      "requests.look (rr_id (rv_request rv)) (br_db b) = Some r" "rr_agent r = rr_agent (rv_request rv)" by blast
    obtain r' where "requests.look (rr_id (rv_request rv)) (br_db b') = Some r'" "request_evolves r r'"
      using step_requests[OF next_step.hyps r(2)] by blast
    then show ?thesis using r by (simp add: request_evolves_def same_spec_def)
  next
    case False
    with next_step(2,4) obtain i now where "review_read app i now (br_db b) = Inr (Some rv)" "br_db b' = br_db b"
      by (auto elim!: broker_step.cases)
    with review_read_agent show ?thesis by simp
  qed
qed

lemma basis_split:
  assumes "broker_reach app b" "grant_basis app b r r' now"
    and "find_request (rr_id r) (br_db b) = None \<or> find_request (rr_id r) (br_db b) = Some r"
  shows "(\<exists>who attested d. (rr_id r, d) \<in> set (br_passed b)
       \<and> human_decided app r (Decider_human who) attested d now (br_db b) r')
    \<or> rr_edit r' = rr_edit r \<and> (\<exists>a auth. rr_authority r = Some auth \<and> judged_as b r a
         \<and> auto_cleared (app_policy app) (br_db b) a (delegator_of r (br_db b)) (rr_resource r) auth now)"
proof -
  have c: "\<exists>auth. rr_authority r = Some auth \<and> auto_cleared (app_policy app) (br_db b) a (delegator_of r (br_db b)) (rr_resource r) auth now"
    if "cleared app (br_db b) r a now ro" for a ro
    using that reroute_auto_cleared[of "app_policy app" "rr_id r" a "delegator_of r (br_db b)" "rr_resource r"]
    unfolding cleared_def by (metis not_is_auto(3) route_action.simps(3))
  have v: "\<exists>auth. rr_authority r = Some auth \<and> auto_cleared (app_policy app) (br_db b) (rv_agent rv) (delegator_of r (br_db b)) (rr_resource r) auth now"
    if "reviewed app (br_db b) rv r sg now r'" for rv sg
    using that reroute_auto_cleared[of "app_policy app" "rr_id r" "rv_agent rv" "delegator_of r (br_db b)" "rr_resource r"]
    unfolding reviewed_def by (metis not_is_auto(4) route_action.simps(4))
  from assms(2)[unfolded grant_basis_def] show ?thesis
  proof (elim disjE exE conjE)
    fix a ro assume h: "cleared app (br_db b) r a now ro" "agents.look (rr_agent r) (br_db b) = Some a" "rr_edit r' = rr_edit r"
    then have "judged_as b r a" using agents.look_key by (auto simp: judged_as_def find_is_look)
    with c[OF h(1)] h(3) show ?thesis by blast
  next
    fix rv sg assume h: "rv \<in> set (br_reviews b)" "rr_id (rv_request rv) = rr_id r" "rr_attempt (rv_request rv) = rr_attempt r"
      "reviewed app (br_db b) rv r sg now r'"
    have "judged_as b r (rv_agent rv)"
      using reach_reviews[OF assms(1) h(1)] h(1-3) assms(3) by (auto simp: judged_as_def find_is_look)
    moreover have "rr_edit r' = rr_edit r" using h(4) by (auto simp: reviewed_def)
    ultimately show ?thesis using v[OF h(4)] by blast
  qed blast
qed

lemma moved_edit:
  assumes "store_ok s" "request_moved s s' r r' go now"
  shows "rr_edit r = None"
proof -
  have "columns_ok r \<and> (rr_status r = Pending \<or> is_human_decidable (rr_status r))"
    using assms by (auto simp: request_moved_def store_ok_def row_ok_def)
  then show ?thesis by (cases "rr_status r") (auto simp: columns_ok_def)
qed

text \<open>C3: The policy's guarantees hold for the grants themselves. Behind a new grant stands the request it is for, as that was
  before the step (or as it was created in it), of the same agent and delegation, and the row this request has become.
  Either a person approved it through the gate. Or the authority and resource the grant itself carries were let
  through, at the moment the grant was made, by zones that ask for nobody, as an authority that is not
  human-only, without a web connector on either side, not on a mail alias made for someone else, and with a live rule to
  vouch for it wherever the policy demands one (sensitive, to be named, delegated). It was judged for the grant's
  agent: as its row was then or, after a review, as the reviewer's task had read it when that round began.\<close>

theorem automatic_grants_justified:
  assumes "broker_reach app b" "broker_step app b b'"
    and "g \<in> set (db_grants (br_db b'))" "find_grant (gr_id g) (br_db b) = None"
  shows "\<exists>r r'. gr_request g = rr_id r \<and> gr_agent g = rr_agent r \<and> gr_delegation g = rr_delegation r
    \<and> (find_request (gr_request g) (br_db b) = None \<or> find_request (gr_request g) (br_db b) = Some r)
    \<and> find_request (gr_request g) (br_db b') = Some r' \<and> row_moves r r' \<and> final_authority r' = Some (gr_authority g) \<and>
    ((\<exists>who attested d. (gr_request g, d) \<in> set (br_passed b)
        \<and> human_decided app r (Decider_human who) attested d (gr_granted_at g) (br_db b) r')
     \<or> (\<exists>a. ag_id a = gr_agent g \<and> judged_as b r a
          \<and> auto_cleared (app_policy app) (br_db b) a (delegator_of r (br_db b)) (gr_resource g) (gr_authority g) (gr_granted_at g)))"
proof -
  from new_grant_moved[OF assms] obtain r r' now where m: "request_moved (br_db b) (br_db b') r r' (Some g) now" "grant_basis app b r r' now"
    by blast
  have mv: "row_moves r r'" "effect (br_db b) r' (Some g) (br_db b')" "row_settled (br_db b) r' (Some g) now"
      "find_request (rr_id r) (br_db b) = None \<or> find_request (rr_id r) (br_db b) = Some r"
    using m(1) by (auto simp: request_moved_def find_is_look)
  have spec: "rr_id r' = rr_id r" "rr_agent r' = rr_agent r" "rr_delegation r' = rr_delegation r"
      "rr_authority r' = rr_authority r" "rr_resource r' = rr_resource r"
    using row_moves_spec[OF mv(1)] by (simp_all add: same_spec_def)
  obtain cap where "granted r' (gr_id g) now cap g" using mv(3) by (auto simp: row_settled_def)
  note g = granted_same[OF this]
  have look: "find_request (rr_id r) (br_db b') = Some r'"
    using mv(2) spec requests.look_put[of "rr_id r" r' "br_db b"] by (simp add: effect_def requests.look_def find_is_look)
  have plain: "auth = gr_authority g \<and> rr_resource r = gr_resource g" if "rr_edit r' = rr_edit r" "rr_authority r = Some auth" for auth
    using that g spec moved_edit[OF reach_ok[OF assms(1)] m(1)] by (simp add: final_authority_def final_resource_def)
  have ids: "gr_request g = rr_id r" "gr_agent g = rr_agent r" "gr_delegation g = rr_delegation r" "gr_granted_at g = now"
    "final_authority r' = Some (gr_authority g)" using g spec by simp_all
  from basis_split[OF assms(1) m(2) mv(4)] show ?thesis
  proof (elim disjE exE conjE)
    fix who attested d assume "(rr_id r, d) \<in> set (br_passed b)" "human_decided app r (Decider_human who) attested d now (br_db b) r'"
    then show ?thesis using ids mv(1,4) look by (intro exI[of _ r] exI[of _ r']) auto
  next
    fix a auth assume h: "rr_edit r' = rr_edit r" "rr_authority r = Some auth" "judged_as b r a"
      "auto_cleared (app_policy app) (br_db b) a (delegator_of r (br_db b)) (rr_resource r) auth now"
    have "ag_id a = gr_agent g" using h(3) ids(2) by (simp add: judged_as_def)
    then show ?thesis using ids mv(1,4) look plain[OF h(1,2)] h(3,4) by (intro exI[of _ r] exI[of _ r']) auto
  qed
qed

theorem automatic_grants_justified_witness:
  "\<exists>r a. rr_id r = RequestId ''r'' \<and> judged_as sample_broker r a \<and> ag_id a = AgentId ''a''
     \<and> auto_cleared sample_policy (br_db sample_broker) a (delegator_of r (br_db sample_broker)) ''me'' (AuthGoogle ''drive.read'') 5"
proof -
  have "br_passed sample_broker = []" "gr_request sample_grant = RequestId ''r''" "app_policy sample_app = sample_policy"
      "gr_agent sample_grant = AgentId ''a''" "gr_resource sample_grant = ''me''" "gr_authority sample_grant = AuthGoogle ''drive.read''"
      "gr_granted_at sample_grant = 5"
    by (simp_all add: sample_broker_def broker_init_def sample_grant_def sample_app_def)
  with automatic_grants_justified[OF sample_reach(1) broker_makes sample_new] obtain r a where
    "rr_id r = RequestId ''r''" "judged_as sample_broker r a" "ag_id a = AgentId ''a''"
    "auto_cleared sample_policy (br_db sample_broker) a (delegator_of r (br_db sample_broker)) ''me'' (AuthGoogle ''drive.read'') 5" by auto
  then show ?thesis by blast
qed

section \<open>The approval gate\<close>

text \<open>What passing the gate meant for a request, whenever it was.\<close>

definition gate_ok :: "app_state \<Rightarrow> request_row \<Rightarrow> human_decision \<Rightarrow> bool" where
  "gate_ok app r d =
     ((asks_shell (rr_authority r) \<longrightarrow> hd_desk d = Some (rr_resource r) \<or> is_some_and (\<lambda>t. trim t \<noteq> []) (hd_totp d))
      \<and> (rr_platform r = Hostexec_platform \<longrightarrow> Hostexec_platform \<in> set (app_gates app)))"

lemma run_gate_ok:
  assumes "run_gate app i d now s = Inr asked"
  shows "\<exists>r. requests.look i s = Some r \<and> gate_ok app r d"
  using assms by (auto simp: run_gate_def gate_ok_def find_is_look is_none_or_def is_some_and_def
      split: option.splits if_splits)

lemma gate_ok_evolves: "request_evolves r r' \<Longrightarrow> gate_ok app r' d = gate_ok app r d"
  by (simp add: request_evolves_def same_spec_def gate_ok_def)

lemma reach_gates:
  assumes "broker_reach app b" "(i, d) \<in> set (br_passed b)"
  shows "\<exists>r. requests.look i (br_db b) = Some r \<and> gate_ok app r d"
  using assms
proof (induction rule: broker_reach.induct)
  case start
  then show ?case by (simp add: broker_init_def)
next
  case (next_step b b')
  have kept: ?case if "(i, d) \<in> set (br_passed b)"
    using next_step.IH[OF that] step_requests[OF next_step.hyps] gate_ok_evolves by metis
  show ?case
  proof (cases "(i, d) \<in> set (br_passed b)")
    case False
    with next_step(2,4) obtain now asked where "run_gate app i d now (br_db b) = Inr asked" "br_db b' = br_db b"
      by (auto elim!: broker_step.cases)
    with run_gate_ok show ?thesis by metis
  qed (rule kept)
qed

text \<open>C9: Nobody gets a shell by policy, rule or reviewer: whenever a grant row is made for a request that asks for a
  shell on a host, a person approved it, and either gave a code for that host or decided at the
  desk of that very host; and the broker had a host gate running to hand it to.\<close>

theorem shell_grants_need_a_code:
  assumes "broker_reach app b" "broker_step app b b'"
    and "g \<in> set (db_grants (br_db b'))" "find_grant (gr_id g) (br_db b) = None"
    and "find_request (gr_request g) (br_db b') = Some r'" "asks_shell (rr_authority r')" "rr_platform r' = Hostexec_platform"
  shows "\<exists>d. (gr_request g, d) \<in> set (br_passed b) \<and> hd_approve d
    \<and> (hd_desk d = Some (rr_resource r') \<or> is_some_and (\<lambda>t. trim t \<noteq> []) (hd_totp d))
    \<and> Hostexec_platform \<in> set (app_gates app)"
proof -
  from new_grant_cases[OF assms(1-4)] obtain r q now where r: "gr_request g = rr_id r" "find_request (rr_id r) (br_db b') = Some q"
    "row_moves r q" "grant_basis app b r q now"
    "find_request (rr_id r) (br_db b) = None \<or> find_request (rr_id r) (br_db b) = Some r" by blast
  have q: "q = r'" using r(1,2) assms(5) by simp
  have spec: "rr_authority r' = rr_authority r" using row_moves_spec[OF r(3)] q by (simp add: same_spec_def)
  have "human_only auth" if "rr_authority r = Some auth" for auth
    using assms(6) spec that by (cases "Some auth" rule: asks_shell.cases) auto
  then obtain who attested d where d: "(rr_id r, d) \<in> set (br_passed b)"
      "human_decided app r (Decider_human who) attested d now (br_db b) q"
    using basis_split[OF assms(1) r(4,5)] by (auto simp: auto_cleared_def)
  have "broker_reach app b'" using assms(1,2) by (rule broker_reach.next_step)
  have "\<exists>r0. requests.look (rr_id r) (br_db b) = Some r0 \<and> gate_ok app r0 d" using reach_gates[OF assms(1) d(1)] .
  then obtain r0 where r0: "requests.look (rr_id r) (br_db b) = Some r0" "gate_ok app r0 d" by blast
  obtain r1 where "requests.look (rr_id r) (br_db b') = Some r1" "request_evolves r0 r1"
    using step_requests[OF assms(1,2) r0(1)] by blast
  then have "gate_ok app r' d" using r(2) q r0(2) gate_ok_evolves by (simp add: find_is_look)
  then show ?thesis using d r(1) assms(6,7) by (auto simp: gate_ok_def human_decided_def)
qed

theorem shell_grants_need_a_code_witness:
  "\<exists>d. (RequestId ''s'', d) \<in> set (br_passed shell_passed) \<and> hd_approve d
     \<and> (hd_desk d = Some ''box'' \<or> is_some_and (\<lambda>t. trim t \<noteq> []) (hd_totp d))"
proof -
  have row: "rr_id shell_granted_row = RequestId ''s''" "rr_authority shell_granted_row = Some shell_authority"
    "rr_platform shell_granted_row = Hostexec_platform" "rr_resource shell_granted_row = ''box''"
    by (simp_all add: shell_granted_row_def apply_changes_def no_changes_def shell_row_parts)
  have asked: "find_request (gr_request shell_grant) (br_db shell_made) = Some shell_granted_row" "asks_shell (rr_authority shell_granted_row)"
    by (simp_all add: shell_made_def find_request_def shell_grant_def row shell_authority_def)
  from shell_grants_need_a_code[OF shell_reach broker_shell_decided shell_new asked row(3)] show ?thesis
    by (auto simp: shell_grant_def row)
qed

end
