(* ===== verification/Broker_Issue.thy ===== *)
theory Broker_Issue
  imports Broker_Gates
begin

text \<open>
  What the broker's history means at the moment a credential is asked for, and what containment stops: the
  composition of the grants' life with the check of \<open>store/src/lockdown.rs\<close> and with
  \<open>issuable\<close> of \<open>store/src/grants.rs\<close>.
\<close>

lemma held_not_ok:
  assumes "find_agent i s = Some a" "holding a s = Some e"
  shows "\<not> is_ok (check i now s)"
  using assms by (auto simp: check_def agent_held_def holding_def Let_def)

lemma issuable_Ok:
  assumes "issuable i gid now s = Inr g"
  shows "get_owned_grant i gid s = Some g \<and> is_ok (check i now s) \<and> grant_is_live g now
    \<and> is_none_or (\<lambda>d. is_some_and (\<lambda>t. thread_backed t now s) (find_thread (del_thread d) s)) (gr_delegation g)"
  using assms by (auto simp: issuable_def is_some_and_def is_none_or_def split: option.splits sum.splits if_splits)

lemma owned_is_found:
  assumes "grants.keys_ok s" "get_owned_grant i gid s = Some g"
  shows "find_grant gid s = Some g \<and> gr_agent g = i \<and> g \<in> set (db_grants s)"
proof -
  have g: "g \<in> set (db_grants s)" "gr_id g = gid" "gr_agent g = i"
    using assms(2) by (auto simp: get_owned_grant_def find_Some_iff)
  then show ?thesis using grants.in_look[OF assms(1) g(1)] by (simp add: find_is_look)
qed

lemma thread_backed_by:
  assumes "grants.keys_ok s" "thread_backed t now s"
  shows "th_state t = Open_thread
    \<and> (case th_grant t of
         None \<Rightarrow> \<exists>o' \<in> set (db_agents s). ag_id o' = th_initiator t \<and> ag_kind o' = Operator
       | Some k \<Rightarrow> \<exists>h. find_grant k s = Some h \<and> gr_status h = GActive \<and> now < gr_expires_at h)"
  using assms(2) grants.in_look[OF assms(1)]
  by (auto simp: thread_backed_def list_ex_iff find_is_look split: option.splits)

text \<open>C4: Containment stops everything an agent could gain. While an entry holds the agent, no step of the broker,
  whoever takes it, makes a grant for it or activates one it has, and no credential is issued for any
  of its grants at any time.\<close>

theorem contained_agents_gain_nothing:
  assumes "broker_reach app b" "broker_step app b b'"
    and "find_agent i (br_db b) = Some a" "holding a (br_db b) = Some e"
  shows "(\<forall>g' \<in> set (db_grants (br_db b')). gr_agent g' = i \<longrightarrow>
      (\<exists>g. find_grant (gr_id g') (br_db b) = Some g \<and> (gr_status g' = GActive \<longrightarrow> gr_status g = GActive)))
    \<and> (\<forall>gid now. \<not> is_ok (issuable i gid now (br_db b)))"
proof (intro conjI ballI impI allI)
  fix g' assume g': "g' \<in> set (db_grants (br_db b'))" "gr_agent g' = i"
  note held = held_not_ok[OF assms(3,4)]
  have "find_grant (gr_id g') (br_db b) \<noteq> None"
    using new_grant_cases[OF assms(1,2) g'(1)] held g'(2) by auto
  then obtain g where g: "find_grant (gr_id g') (br_db b) = Some g" by blast
  have "gr_status g = GActive" if act: "gr_status g' = GActive"
  proof (rule ccontr)
    assume "gr_status g \<noteq> GActive"
    then have "\<not> is_some_and (\<lambda>g. gr_status g = GActive) (find_grant (gr_id g') (br_db b))" using g by simp
    from activation_cases[OF assms(1,2) g'(1) act this] show False using held g'(2) by auto
  qed
  with g show "\<exists>g. find_grant (gr_id g') (br_db b) = Some g \<and> (gr_status g' = GActive \<longrightarrow> gr_status g = GActive)" by blast
next
  fix gid now
  show "\<not> is_ok (issuable i gid now (br_db b))"
    using issuable_Ok[of i gid now "br_db b"] held_not_ok[OF assms(3,4), of now]
    by (cases "issuable i gid now (br_db b)") auto
qed

theorem contained_agents_gain_nothing_witness:
  "holding sample_agent (br_db sample_contained) = Some sample_entry
   \<and> \<not> is_ok (issuable (AgentId ''a'') (GrantId ''g'') 9 (br_db sample_contained))"
  using contained_agents_gain_nothing[OF broker_reach.next_step[OF sample_reach(3) broker_contains] broker_lifts sample_held] sample_held(2) by blast

text \<open>C7: A credential is issued only on a decided, unexpired grant. In any reachable state, when the broker would
  issue a credential to an agent, the grant is the agent's own and active, its agent is enabled and
  held by no entry, it has not reached its end, which lies within the duration approved for its
  request, that request is granted with exactly this authority, and a delegated grant's thread is
  open and either the operator's own, with no grant behind it, or backed by an active grant that has not reached its end.\<close>

theorem credentials_rest_on_grants:
  assumes "broker_reach app b" "issuable i gid now (br_db b) = Inr g"
  shows "find_grant gid (br_db b) = Some g \<and> gr_agent g = i \<and> gr_status g = GActive \<and> now < gr_expires_at g
    \<and> (\<exists>a. find_agent i (br_db b) = Some a \<and> \<not> ag_disabled a \<and> holding a (br_db b) = None)
    \<and> (\<exists>r n. find_request (gr_request g) (br_db b) = Some r \<and> rr_status r = Granted \<and> rr_agent r = i
         \<and> final_authority r = Some (gr_authority g) \<and> rr_source r \<noteq> None \<and> rr_approved_secs r = Some n
         \<and> now < gr_granted_at g + int n * 1000000000)
    \<and> (\<forall>d. gr_delegation g = Some d \<longrightarrow> (\<exists>t. find_thread (del_thread d) (br_db b) = Some t \<and> th_state t = Open_thread
         \<and> (case th_grant t of
              None \<Rightarrow> \<exists>o' \<in> set (db_agents (br_db b)). ag_id o' = th_initiator t \<and> ag_kind o' = Operator
            | Some k \<Rightarrow> \<exists>h. find_grant k (br_db b) = Some h \<and> gr_status h = GActive \<and> now < gr_expires_at h)))"
proof -
  have ok: "store_ok (br_db b)" by (rule reach_ok[OF assms(1)])
  note iss = issuable_Ok[OF assms(2)]
  have found: "find_grant gid (br_db b) = Some g" "gr_agent g = i" "g \<in> set (db_grants (br_db b))"
    using owned_is_found[of "br_db b" i gid g] ok iss by (simp_all add: store_ok_def)
  have live: "gr_status g = GActive" "now < gr_expires_at g" using iss by (simp_all add: grant_is_live_def)
  have agent: "\<exists>a. find_agent i (br_db b) = Some a \<and> \<not> ag_disabled a \<and> holding a (br_db b) = None"
    using iss by (auto simp: check_def agent_held_def holding_def Let_def split: option.splits if_splits sum.splits)
  obtain r where r: "requests.look (gr_request g) (br_db b) = Some r" "grant_matches g r" "row_ok r"
    using ok found(3) unfolding store_ok_def by metis
  then obtain n where n: "rr_approved_secs r = Some n" "gr_expires_at g \<le> gr_granted_at g + int n * 1000000000"
    by (auto simp: grant_matches_def)
  have "rr_status r = Granted" using r(2) live(1) by (simp add: grant_matches_def)
  moreover from this have "rr_source r \<noteq> None" using r(3) by (auto simp: row_ok_def columns_ok_def)
  ultimately have req: "\<exists>r n. find_request (gr_request g) (br_db b) = Some r \<and> rr_status r = Granted \<and> rr_agent r = i
         \<and> final_authority r = Some (gr_authority g) \<and> rr_source r \<noteq> None \<and> rr_approved_secs r = Some n
         \<and> now < gr_granted_at g + int n * 1000000000"
    using r n live(2) found(2) by (intro exI[of _ r] exI[of _ n]) (auto simp: find_is_look grant_matches_def)
  have del: "\<exists>t. find_thread (del_thread d) (br_db b) = Some t \<and> thread_backed t now (br_db b)" if "gr_delegation g = Some d" for d
    using iss that by (auto simp: is_none_or_def is_some_and_def split: option.splits)
  have "\<forall>d. gr_delegation g = Some d \<longrightarrow> (\<exists>t. find_thread (del_thread d) (br_db b) = Some t \<and> th_state t = Open_thread
         \<and> (case th_grant t of
              None \<Rightarrow> \<exists>o' \<in> set (db_agents (br_db b)). ag_id o' = th_initiator t \<and> ag_kind o' = Operator
            | Some k \<Rightarrow> \<exists>h. find_grant k (br_db b) = Some h \<and> gr_status h = GActive \<and> now < gr_expires_at h))"
    using del thread_backed_by[OF conjunct1[OF conjunct2[OF ok[unfolded store_ok_def]]]] by blast
  then show ?thesis using found(1,2) live agent req by blast
qed

theorem credentials_rest_on_grants_witness:
  "issuable (AgentId ''a'') (GrantId ''g'') 7 (br_db sample_active) = Inr (sample_grant\<lparr>gr_status := GActive\<rparr>)
   \<and> (\<exists>r. find_request (RequestId ''r'') (br_db sample_active) = Some r \<and> rr_status r = Granted)"
proof -
  have "issuable (AgentId ''a'') (GrantId ''g'') 7 (br_db sample_active) = Inr (sample_grant\<lparr>gr_status := GActive\<rparr>)"
    by (simp add: issuable_def get_owned_grant_def sample_active_def sample_check sample_rows sample_grant_def grant_is_live_def)
  with credentials_rest_on_grants[OF sample_reach(3) this] show ?thesis by (auto simp: sample_grant_def)
qed

text \<open>C18: A delegated grant never outlives what it is delegated over: when a grant row is made for a request on behalf
  of another agent, that agent is enabled, the thread is open, and it is either a thread the
  operator opened or one backed by an active grant, whose end the new grant does not pass.\<close>

theorem delegated_grants_capped:
  assumes "broker_reach app b" "broker_step app b b'"
    and "g \<in> set (db_grants (br_db b'))" "find_grant (gr_id g) (br_db b) = None" "gr_delegation g = Some d"
  shows "\<exists>t a. find_thread (del_thread d) (br_db b) = Some t \<and> th_state t = Open_thread
    \<and> find_agent (del_delegator d) (br_db b) = Some a \<and> \<not> ag_disabled a
    \<and> (case th_grant t of
         None \<Rightarrow> ag_kind a = Operator \<and> th_initiator t = del_delegator d
       | Some k \<Rightarrow> \<exists>h. find_grant k (br_db b) = Some h \<and> gr_status h = GActive \<and> gr_expires_at g \<le> gr_expires_at h)"
proof -
  from new_grant_moved[OF assms(1-4)] obtain r r' now where "request_moved (br_db b) (br_db b') r r' (Some g) now" by blast
  then obtain cap where cap: "grant_cap r' now (br_db b) = Ok cap" "granted r' (gr_id g) now cap g"
    by (auto simp: request_moved_def row_settled_def)
  have del: "rr_delegation r' = Some d" using granted_same[OF cap(2)] assms(5) by simp
  have backing: "delegation_backing d now (br_db b) = Inr cap"
    using cap(1) del by (simp add: grant_cap_def)
  from cap(2) obtain auth own where g: "g = new_grant r' auth (gr_id g) now (case cap of None \<Rightarrow> own | Some e \<Rightarrow> min own e)"
    by (auto simp: granted_def)
  have "gr_expires_at g = (case cap of None \<Rightarrow> own | Some e \<Rightarrow> min own e)" by (subst g) (simp add: new_grant_def)
  then have "is_none_or (\<lambda>e. gr_expires_at g \<le> e) cap" by (simp add: is_none_or_def split: option.splits)
  with backing show ?thesis
    by (auto simp: delegation_backing_def opt_filter_Some_iff is_none_or_def split: option.splits if_splits)
qed

theorem delegated_grants_capped_witness:
  "gr_delegation shell_grant = Some shell_delegation
   \<and> (\<exists>t a. find_thread (ThreadId ''t'') (br_db shell_passed) = Some t \<and> th_state t = Open_thread
        \<and> find_agent (AgentId ''o'') (br_db shell_passed) = Some a \<and> \<not> ag_disabled a)"
proof -
  have d: "gr_delegation shell_grant = Some shell_delegation" by (simp add: shell_grant_def)
  have i: "del_thread shell_delegation = ThreadId ''t''" "del_delegator shell_delegation = AgentId ''o''" by (simp_all add: shell_delegation_def)
  show ?thesis using delegated_grants_capped[OF shell_reach broker_shell_decided shell_new d] d unfolding i by blast
qed

end
