(* ===== verification/Store_Threads.thy ===== *)
theory Store_Threads
  imports Store_Laws
begin

text \<open>
  Conversations between agents (\<open>store/src/a2a.rs\<close>): threads, their messages and how they close. A proof
  \<open>PairClear\<close> that both agents may talk is the pair of rows \<open>check_pair\<close> read in the same transaction. Rows
  that a statement returns come in the order of the table. The lemmas say what each operation
  leaves behind; what holds over their histories is in \<open>A2a_History\<close>.
\<close>

section \<open>Threads\<close>

definition peer_of :: "thread_row \<Rightarrow> agent_id \<Rightarrow> agent_id" where
  "peer_of t me = (if me = th_initiator t then th_responder t else th_initiator t)"

text \<open>\<open>UPDATE a2a_threads SET \<dots> WHERE \<dots> RETURNING *\<close>\<close>

definition update_threads :: "(thread_row \<Rightarrow> bool) \<Rightarrow> (thread_row \<Rightarrow> thread_row) \<Rightarrow> thread_row list tx" where
  "update_threads P f =
     tx_bind (tx_get (\<lambda>s. map f (filter P (db_threads s)))) (\<lambda>out.
     tx_bind (tx_put (\<lambda>s. s\<lparr>db_threads := map (\<lambda>t. if P t then f t else t) (db_threads s)\<rparr>)) (\<lambda>_. tx_return out))"

definition verify_pair :: "agent_row \<times> agent_row \<Rightarrow> agent_id \<Rightarrow> agent_id \<Rightarrow> unit tx" where
  "verify_pair clear x y =
     (let (a, b) = clear in
      tx_unless (\<not> (ag_id a = x \<and> ag_id b = y \<or> ag_id a = y \<and> ag_id b = x)) (Store WrongProof))"

record new_thread =
  nt_id :: thread_id
  nt_initiator :: agent_id
  nt_initiator_session :: "session_id option"
  nt_responder :: agent_id
  nt_topic :: "string option"
  nt_grant :: "grant_id option"
  nt_message :: message_id
  nt_payload :: string
  nt_now :: int

datatype grant_not_live = GrantNotLive

definition thread_of :: "new_thread \<Rightarrow> thread_row" where
  "thread_of n = \<lparr>th_id = nt_id n, th_initiator = nt_initiator n, th_initiator_session = nt_initiator_session n,
     th_responder = nt_responder n, th_responder_session = None, th_topic = nt_topic n, th_grant = nt_grant n,
     th_state = PendingOpen, th_accepted_at = None, th_closed_at = None, th_close_reason = None, th_closed_by = None,
     th_close_note = None, th_last_activity_at = nt_now n, th_last_seq = 1, th_created_at = nt_now n\<rparr>"

definition first_message :: "new_thread \<Rightarrow> message_row" where
  "first_message n = \<lparr>ms_id = nt_message n, ms_thread = nt_id n, ms_seq = 1, ms_sender = nt_initiator n,
     ms_sender_session = nt_initiator_session n, ms_recipient = nt_responder n, ms_grant = nt_grant n,
     ms_payload = nt_payload n, ms_created_at = nt_now n\<rparr>"

definition insert_thread :: "thread_row \<Rightarrow> unit tx" where
  "insert_thread t =
     tx_bind (tx_get (find_thread (th_id t))) (\<lambda>taken.
     tx_bind (tx_unless (taken \<noteq> None) (Store Unique_violation)) (\<lambda>_.
     tx_put (\<lambda>s. s\<lparr>db_threads := db_threads s @ [t]\<rparr>)))"

text \<open>Two unique keys: the id, and the number within the thread.\<close>

definition insert_message :: "message_row \<Rightarrow> unit tx" where
  "insert_message m =
     tx_bind (tx_get (\<lambda>s. list_ex (\<lambda>x. ms_id x = ms_id m \<or> ms_thread x = ms_thread m \<and> ms_seq x = ms_seq m) (db_messages s))) (\<lambda>taken.
     tx_bind (tx_unless taken (Store Unique_violation)) (\<lambda>_.
     tx_put (\<lambda>s. s\<lparr>db_messages := db_messages s @ [m]\<rparr>)))"

definition backs :: "agent_id \<Rightarrow> string \<Rightarrow> int \<Rightarrow> grant_row \<Rightarrow> bool" where
  "backs initiator responder_name now g =
     (gr_status g = GActive \<and> gr_expires_at g > now \<and> gr_platform g = A2a \<and> gr_agent g = initiator \<and> gr_resource g = responder_name)"

definition open_thread :: "agent_row \<times> agent_row \<Rightarrow> new_thread \<Rightarrow> (grant_not_live, thread_row \<times> message_row) result tx" where
  "open_thread clear n =
     tx_bind (verify_pair clear (nt_initiator n) (nt_responder n)) (\<lambda>_.
     (let (a, b) = clear; responder_name = (if ag_id a = nt_responder n then ag_name a else ag_name b) in
      tx_bind (tx_get (\<lambda>s. is_some_and (\<lambda>g. \<not> is_some_and (backs (nt_initiator n) responder_name (nt_now n)) (find_grant g s)) (nt_grant n))) (\<lambda>dead.
        if dead then tx_return (Err GrantNotLive)
        else tx_bind (insert_thread (thread_of n)) (\<lambda>_.
             tx_bind (insert_message (first_message n)) (\<lambda>_.
             tx_return (Ok (thread_of n, first_message n)))))))"

definition accepted :: "session_id option \<Rightarrow> int \<Rightarrow> thread_row \<Rightarrow> thread_row" where
  "accepted session now t = t\<lparr>th_state := Open_thread, th_accepted_at := Some now, th_last_activity_at := now,
     th_responder_session := (case th_responder_session t of Some x \<Rightarrow> Some x | None \<Rightarrow> session)\<rparr>"

definition accept_thread :: "agent_row \<times> agent_row \<Rightarrow> thread_id \<Rightarrow> session_id option \<Rightarrow> int \<Rightarrow> thread_row option tx" where
  "accept_thread clear i session now =
     tx_bind (tx_get (find_thread i)) (\<lambda>found.
       case found of
         None \<Rightarrow> tx_return None
       | Some p \<Rightarrow>
           tx_bind (verify_pair clear (th_initiator p) (th_responder p)) (\<lambda>_.
           tx_bind (update_threads (\<lambda>t. th_id t = i \<and> th_state t = PendingOpen) (accepted session now)) (\<lambda>out.
           tx_return (case out of [] \<Rightarrow> None | t # _ \<Rightarrow> Some t))))"

section \<open>Messages\<close>

record new_message =
  nm_thread :: thread_id
  nm_id :: message_id
  nm_sender :: agent_id
  nm_sender_session :: "session_id option"
  nm_payload :: string
  nm_now :: int

datatype append_refused = Append_not_open | Append_grant_not_live

definition lock_backing_grant :: "grant_id \<Rightarrow> int \<Rightarrow> db \<Rightarrow> bool" where
  "lock_backing_grant g now s = is_some_and (\<lambda>r. gr_status r = GActive \<and> gr_expires_at r > now) (find_grant g s)"

definition recipient_of :: "thread_row \<Rightarrow> agent_id \<Rightarrow> agent_id option" where
  "recipient_of t sender =
     (if th_initiator t = sender then Some (th_responder t)
      else if th_responder t = sender then Some (th_initiator t) else None)"

definition bumped :: "int \<Rightarrow> thread_row \<Rightarrow> thread_row" where
  "bumped now t = t\<lparr>th_last_seq := th_last_seq t + 1, th_last_activity_at := now\<rparr>"

definition message_of :: "new_message \<Rightarrow> thread_row \<Rightarrow> agent_id \<Rightarrow> message_row" where
  "message_of n t recipient = \<lparr>ms_id = nm_id n, ms_thread = nm_thread n, ms_seq = th_last_seq t, ms_sender = nm_sender n,
     ms_sender_session = nm_sender_session n, ms_recipient = recipient, ms_grant = th_grant t, ms_payload = nm_payload n,
     ms_created_at = nm_now n\<rparr>"

definition append_message :: "agent_row \<times> agent_row \<Rightarrow> new_message \<Rightarrow> (append_refused, message_row) result tx" where
  "append_message clear n =
     tx_bind (tx_get (find_thread (nm_thread n))) (\<lambda>found.
       case found of
         None \<Rightarrow> tx_return (Err Append_not_open)
       | Some p \<Rightarrow>
           (case recipient_of p (nm_sender n) of
              None \<Rightarrow> tx_return (Err Append_not_open)
            | Some recipient \<Rightarrow>
                tx_bind (verify_pair clear (nm_sender n) recipient) (\<lambda>_.
                tx_bind (tx_get (\<lambda>s. is_some_and (\<lambda>g. \<not> lock_backing_grant g (nm_now n) s) (th_grant p))) (\<lambda>dead.
                  if dead then tx_return (Err Append_grant_not_live)
                  else if th_state p = Open_thread \<and> th_last_seq p \<ge> I32_MAX then tx_fail (Store Integer_out_of_range)
                  else tx_bind (update_threads (\<lambda>t. th_id t = nm_thread n \<and> th_state t = Open_thread) (bumped (nm_now n))) (\<lambda>out.
                    case out of
                      [] \<Rightarrow> tx_return (Err Append_not_open)
                    | b # _ \<Rightarrow>
                        tx_bind (insert_message (message_of n b recipient)) (\<lambda>_.
                        tx_return (Ok (message_of n b recipient))))))))"

section \<open>Closing\<close>

definition closed_row :: "close_reason \<Rightarrow> agent_id option \<Rightarrow> string option \<Rightarrow> int \<Rightarrow> thread_row \<Rightarrow> thread_row" where
  "closed_row reason by_whom line now t = t\<lparr>th_state := Closed_thread, th_closed_at := Some now, th_close_reason := Some reason,
     th_closed_by := by_whom, th_close_note := line, th_last_activity_at := now\<rparr>"

definition close_thread ::
  "thread_id \<Rightarrow> close_reason \<Rightarrow> agent_id option \<Rightarrow> string option \<Rightarrow> int \<Rightarrow> thread_row option tx" where
  "close_thread i reason by_whom line now =
     tx_bind (update_threads (\<lambda>t. th_id t = i \<and> th_state t \<noteq> Closed_thread) (closed_row reason by_whom line now)) (\<lambda>out.
     tx_return (case out of [] \<Rightarrow> None | t # _ \<Rightarrow> Some t))"

definition close_for_sessions :: "session_id list \<Rightarrow> agent_id option \<Rightarrow> int \<Rightarrow> thread_row list tx" where
  "close_for_sessions sessions by_whom now =
     update_threads (\<lambda>t. th_state t \<noteq> Closed_thread
         \<and> (is_some_and (\<lambda>x. x \<in> set sessions) (th_initiator_session t) \<or> is_some_and (\<lambda>x. x \<in> set sessions) (th_responder_session t)))
       (closed_row Close_peer_gone by_whom None now)"

definition close_open_timeouts :: "int \<Rightarrow> int \<Rightarrow> thread_row list tx" where
  "close_open_timeouts cutoff now =
     update_threads (\<lambda>t. th_state t = PendingOpen \<and> th_created_at t < cutoff) (closed_row Close_open_timeout None None now)"

definition close_idle :: "int \<Rightarrow> int \<Rightarrow> thread_row list tx" where
  "close_idle cutoff now =
     update_threads (\<lambda>t. th_state t = Open_thread \<and> th_last_activity_at t < cutoff) (closed_row Close_idle_timeout None None now)"

definition close_dead_grants :: "int \<Rightarrow> thread_row list tx" where
  "close_dead_grants now =
     tx_bind (tx_get db_grants) (\<lambda>gs.
     update_threads (\<lambda>t. th_state t \<noteq> Closed_thread
         \<and> list_ex (\<lambda>g. th_grant t = Some (gr_id g) \<and> (gr_status g \<noteq> GActive \<or> gr_expires_at g \<le> now)) gs)
       (closed_row Close_grant_revoked None None now))"

definition involves :: "agent_id \<Rightarrow> thread_row \<Rightarrow> bool" where
  "involves agent t = (th_initiator t = agent \<or> th_responder t = agent)"

definition close_all_for :: "agent_id \<Rightarrow> string \<Rightarrow> int \<Rightarrow> thread_row list tx" where
  "close_all_for agent line now =
     update_threads (\<lambda>t. th_state t \<noteq> Closed_thread \<and> involves agent t) (closed_row Close_closed None (Some line) now)"

definition close_for_agent :: "agent_id \<Rightarrow> int \<Rightarrow> thread_row list tx" where
  "close_for_agent agent now =
     update_threads (\<lambda>t. th_state t \<noteq> Closed_thread \<and> involves agent t) (closed_row Close_peer_gone None None now)"

definition orphan_inbound :: "agent_id \<Rightarrow> int \<Rightarrow> thread_row list tx" where
  "orphan_inbound agent now =
     update_threads (\<lambda>t. th_state t \<noteq> Closed_thread \<and> th_responder t = agent) (closed_row Close_peer_gone None None now)"

section \<open>What the operations do\<close>

interpretation threads: keyed_table th_id db_threads "\<lambda>xs s. s\<lparr>db_threads := xs\<rparr>"
  by unfold_locales simp_all

lemma find_thread_is_look: "find_thread i s = threads.look i s"
  by (simp add: find_thread_def threads.look_def)

definition set_threads :: "(thread_row \<Rightarrow> bool) \<Rightarrow> (thread_row \<Rightarrow> thread_row) \<Rightarrow> db \<Rightarrow> db" where
  "set_threads P f s = s\<lparr>db_threads := map (\<lambda>t. if P t then f t else t) (db_threads s)\<rparr>"

lemma update_threads_Ok [simp]:
  "(update_threads P f s = Inr (out, s')) = (out = map f (filter P (db_threads s)) \<and> s' = set_threads P f s)"
  by (auto simp: update_threads_def set_threads_def)

lemma verify_pair_Ok [simp]:
  "(verify_pair (a, b) x y s = Inr (u, s')) = (s' = s \<and> (ag_id a = x \<and> ag_id b = y \<or> ag_id a = y \<and> ag_id b = x))"
  by (auto simp: verify_pair_def)

lemma set_threads_frame [simp]:
  "db_messages (set_threads P f s) = db_messages s" "db_grants (set_threads P f s) = db_grants s"
  "db_agents (set_threads P f s) = db_agents s" "db_entries (set_threads P f s) = db_entries s"
  "db_requests (set_threads P f s) = db_requests s"
  by (simp_all add: set_threads_def)

text \<open>The messages of one thread, as they were appended.\<close>

definition log :: "thread_id \<Rightarrow> db \<Rightarrow> message_row list" where
  "log i s = filter (\<lambda>m. ms_thread m = i) (db_messages s)"

lemma insert_message_Ok:
  "(insert_message m s = Inr (u, s')) =
     (s' = s\<lparr>db_messages := db_messages s @ [m]\<rparr>
      \<and> (\<forall>x \<in> set (db_messages s). ms_id x \<noteq> ms_id m \<and> (ms_thread x = ms_thread m \<longrightarrow> ms_seq x \<noteq> ms_seq m)))"
  by (auto simp: insert_message_def list_ex_iff)

lemma insert_thread_Ok:
  "(insert_thread t s = Inr (u, s')) = (s' = s\<lparr>db_threads := db_threads s @ [t]\<rparr> \<and> threads.look (th_id t) s = None)"
  by (auto simp: insert_thread_def find_thread_is_look)

lemma open_thread_Ok:
  assumes "open_thread (a, b) n s = Inr (out, s')"
  shows "out = Inl GrantNotLive \<and> s' = s
    \<or> (ag_id a = nt_initiator n \<and> ag_id b = nt_responder n \<or> ag_id a = nt_responder n \<and> ag_id b = nt_initiator n)
       \<and> is_none_or (\<lambda>g. is_some_and (backs (nt_initiator n) (if ag_id a = nt_responder n then ag_name a else ag_name b) (nt_now n)) (find_grant g s)) (nt_grant n)
       \<and> out = Inr (thread_of n, first_message n) \<and> threads.look (nt_id n) s = None
       \<and> (\<forall>x \<in> set (db_messages s). ms_id x \<noteq> nt_message n)
       \<and> s' = s\<lparr>db_threads := db_threads s @ [thread_of n], db_messages := db_messages s @ [first_message n]\<rparr>"
  using assms
  by (auto simp: open_thread_def insert_thread_Ok insert_message_Ok thread_of_def first_message_def is_some_and_def is_none_or_def
      split: if_splits option.splits)

lemma accept_thread_Ok:
  assumes "accept_thread (a, b) i session now s = Inr (out, s')"
  shows "threads.look i s = None \<and> s' = s \<and> out = None
    \<or> (\<exists>t. threads.look i s = Some t \<and> (ag_id a = th_initiator t \<and> ag_id b = th_responder t \<or> ag_id a = th_responder t \<and> ag_id b = th_initiator t)
         \<and> s' = set_threads (\<lambda>t. th_id t = i \<and> th_state t = PendingOpen) (accepted session now) s)"
  using assms by (auto simp: accept_thread_def find_thread_is_look split: option.splits)

lemma rows_with_id:
  assumes "threads.keys_ok s" "threads.look i s = Some p"
  shows "filter (\<lambda>t. th_id t = i \<and> P t) (db_threads s) = (if P p then [p] else [])"
proof -
  have "distinct (map th_id xs) \<Longrightarrow> find (\<lambda>t. th_id t = i) xs = Some p \<Longrightarrow> filter (\<lambda>t. th_id t = i \<and> P t) xs = (if P p then [p] else [])" for xs
  proof (induction xs)
    case (Cons x xs)
    show ?case
    proof (cases "th_id x = i")
      case True
      then have "th_id u \<noteq> i" if "u \<in> set xs" for u
        using Cons.prems(1) that by (metis distinct.simps(2) image_eqI list.set_map list.simps(9))
      then have "filter (\<lambda>t. th_id t = i \<and> P t) xs = []" by (simp add: filter_empty_conv)
      with True Cons.prems(2) show ?thesis by auto
    qed (use Cons in auto)
  qed simp
  then show ?thesis using assms by (simp add: threads.keys_ok_def threads.look_def)
qed

lemma append_message_Ok:
  assumes keys: "threads.keys_ok s" and run: "append_message (a, b) n s = Inr (out, s')"
  shows "(\<exists>why. out = Inl why) \<and> s' = s
    \<or> (\<exists>t recipient. threads.look (nm_thread n) s = Some t \<and> th_state t = Open_thread \<and> th_last_seq t < I32_MAX
         \<and> recipient_of t (nm_sender n) = Some recipient
         \<and> (ag_id a = nm_sender n \<and> ag_id b = recipient \<or> ag_id a = recipient \<and> ag_id b = nm_sender n)
         \<and> is_none_or (\<lambda>g. lock_backing_grant g (nm_now n) s) (th_grant t)
         \<and> (\<forall>x \<in> set (db_messages s). ms_id x \<noteq> nm_id n)
         \<and> out = Inr (message_of n (bumped (nm_now n) t) recipient)
         \<and> s' = (set_threads (\<lambda>t. th_id t = nm_thread n \<and> th_state t = Open_thread) (bumped (nm_now n)) s)
                  \<lparr>db_messages := db_messages s @ [message_of n (bumped (nm_now n) t) recipient]\<rparr>)"
proof (cases "threads.look (nm_thread n) s")
  case None
  then show ?thesis using run by (auto simp: append_message_def find_thread_is_look)
next
  case (Some t)
  have none: "filter (\<lambda>t. th_id t = nm_thread n \<and> th_state t = Open_thread) (db_threads s) = []"
    and same: "set_threads (\<lambda>t. th_id t = nm_thread n \<and> th_state t = Open_thread) (bumped (nm_now n)) s = s"
    if "th_state t \<noteq> Open_thread"
  proof -
    show f: "filter (\<lambda>t. th_id t = nm_thread n \<and> th_state t = Open_thread) (db_threads s) = []"
      using rows_with_id[OF keys Some, of "\<lambda>t. th_state t = Open_thread"] that by simp
    have "map (\<lambda>t. if th_id t = nm_thread n \<and> th_state t = Open_thread then bumped (nm_now n) t else t) (db_threads s) = db_threads s"
      using f by (intro map_idI) (auto simp: filter_empty_conv)
    then show "set_threads (\<lambda>t. th_id t = nm_thread n \<and> th_state t = Open_thread) (bumped (nm_now n)) s = s"
      by (simp add: set_threads_def)
  qed
  have one: "filter (\<lambda>t. th_id t = nm_thread n \<and> th_state t = Open_thread) (db_threads s) = [t]" if "th_state t = Open_thread"
    using rows_with_id[OF keys Some, of "\<lambda>t. th_state t = Open_thread"] that by simp
  show ?thesis
    using run Some none same one
    by (cases "th_state t = Open_thread")
      (auto simp: append_message_def find_thread_is_look insert_message_Ok message_of_def is_some_and_def is_none_or_def
        split: option.splits if_splits)
qed

end
