(* ===== verification/A2a_History.thy ===== *)
theory A2a_History
  imports Store_Threads Broker_Run "HOL-Library.Sublist"
begin

text \<open>
  Conversations over every history of the operations of \<open>Store_Threads\<close>, interleaved with anything that happens to
  the other tables: messages are numbered from one without a gap, threads keep their parties, a closed thread is
  final, and a message passes only between two agents that are both free to talk.
\<close>

section \<open>Steps\<close>

inductive a2a_step :: "db \<Rightarrow> db \<Rightarrow> bool" for s :: db where
  opened: "\<lbrakk>check_pair x y now s = Inr clear; open_thread clear n s = Inr (out, s')\<rbrakk> \<Longrightarrow> a2a_step s s'"
| taken_up: "\<lbrakk>check_pair x y now s = Inr clear; accept_thread clear i session now s = Inr (out, s')\<rbrakk> \<Longrightarrow> a2a_step s s'"
| sent: "\<lbrakk>check_pair x y now s = Inr clear; append_message clear n s = Inr (out, s')\<rbrakk> \<Longrightarrow> a2a_step s s'"
| closed: "close_thread i reason by_whom line now s = Inr (out, s') \<Longrightarrow> a2a_step s s'"
| sessions_ended: "close_for_sessions sessions by_whom now s = Inr (out, s') \<Longrightarrow> a2a_step s s'"
| timed_out: "close_open_timeouts cutoff now s = Inr (out, s') \<Longrightarrow> a2a_step s s'"
| idled: "close_idle cutoff now s = Inr (out, s') \<Longrightarrow> a2a_step s s'"
| unbacked: "close_dead_grants now s = Inr (out, s') \<Longrightarrow> a2a_step s s'"
| contained: "close_all_for agent line now s = Inr (out, s') \<Longrightarrow> a2a_step s s'"
| disabled: "close_for_agent agent now s = Inr (out, s') \<Longrightarrow> a2a_step s s'"
| orphaned: "orphan_inbound agent now s = Inr (out, s') \<Longrightarrow> a2a_step s s'"
| elsewhere: "\<lbrakk>db_threads s' = db_threads s; db_messages s' = db_messages s\<rbrakk> \<Longrightarrow> a2a_step s s'"

definition thread_ok :: "thread_row \<Rightarrow> bool" where
  "thread_ok t =
     (th_initiator t \<noteq> th_responder t \<and> 1 \<le> th_last_seq t \<and> th_last_seq t \<le> I32_MAX
      \<and> (th_state t = Closed_thread \<longleftrightarrow> th_closed_at t \<noteq> None \<and> th_close_reason t \<noteq> None)
      \<and> (th_state t = Open_thread \<longrightarrow> th_accepted_at t \<noteq> None))"

definition message_ok :: "message_row \<Rightarrow> thread_row \<Rightarrow> bool" where
  "message_ok m t = ((ms_sender m = th_initiator t \<and> ms_recipient m = th_responder t
      \<or> ms_sender m = th_responder t \<and> ms_recipient m = th_initiator t) \<and> ms_grant m = th_grant t)"

definition threads_ok :: "db \<Rightarrow> bool" where
  "threads_ok s =
     (threads.keys_ok s \<and> distinct (map ms_id (db_messages s))
      \<and> (\<forall>t \<in> set (db_threads s). thread_ok t \<and> map ms_seq (log (th_id t) s) = [1..<Suc (th_last_seq t)])
      \<and> (\<forall>m \<in> set (db_messages s). \<exists>t. threads.look (ms_thread m) s = Some t \<and> message_ok m t))"

inductive a2a_reach :: "db \<Rightarrow> bool" where
  start: "db_threads s = [] \<Longrightarrow> db_messages s = [] \<Longrightarrow> a2a_reach s"
| next_step: "\<lbrakk>a2a_reach s; a2a_step s s'\<rbrakk> \<Longrightarrow> a2a_reach s'"

section \<open>A short conversation\<close>

definition talk_new :: new_thread where
  "talk_new = \<lparr>nt_id = ThreadId ''t'', nt_initiator = AgentId ''o'', nt_initiator_session = None, nt_responder = AgentId ''a'',
     nt_topic = None, nt_grant = None, nt_message = MessageId ''m'', nt_payload = ''{}'', nt_now = 2\<rparr>"

definition talk_reply :: new_message where
  "talk_reply = \<lparr>nm_thread = ThreadId ''t'', nm_id = MessageId ''k'', nm_sender = AgentId ''a'', nm_sender_session = None,
     nm_payload = ''{}'', nm_now = 4\<rparr>"

definition talk_start :: db where
  "talk_start = (br_db broker_init)\<lparr>db_agents := [sample_agent, sample_operator]\<rparr>"

definition talk_opened :: db where
  "talk_opened = talk_start\<lparr>db_threads := [thread_of talk_new], db_messages := [first_message talk_new]\<rparr>"

definition talk_accepted :: db where
  "talk_accepted = talk_start\<lparr>db_threads := [accepted None 3 (thread_of talk_new)], db_messages := [first_message talk_new]\<rparr>"

definition talk_said :: message_row where
  "talk_said = message_of talk_reply (bumped 4 (accepted None 3 (thread_of talk_new))) (AgentId ''o'')"

definition talk_answered :: db where
  "talk_answered = talk_start\<lparr>db_threads := [bumped 4 (accepted None 3 (thread_of talk_new))], db_messages := [first_message talk_new, talk_said]\<rparr>"

section \<open>What a step changes\<close>

fun rank :: "thread_state \<Rightarrow> nat" where
  "rank PendingOpen = 0"
| "rank Open_thread = 1"
| "rank Closed_thread = 2"

text \<open>How a thread may change: what the schema's trigger allows.\<close>

definition thread_evolves :: "thread_row \<Rightarrow> thread_row \<Rightarrow> bool" where
  "thread_evolves t t' =
     (th_id t' = th_id t \<and> th_initiator t' = th_initiator t \<and> th_initiator_session t' = th_initiator_session t
      \<and> th_responder t' = th_responder t \<and> th_topic t' = th_topic t \<and> th_grant t' = th_grant t \<and> th_created_at t' = th_created_at t
      \<and> (th_responder_session t \<noteq> None \<longrightarrow> th_responder_session t' = th_responder_session t)
      \<and> th_last_seq t \<le> th_last_seq t' \<and> rank (th_state t) \<le> rank (th_state t')
      \<and> (th_state t = Closed_thread \<longrightarrow> t' = t))"

lemma thread_evolves_refl [simp]: "thread_evolves t t"
  by (simp add: thread_evolves_def)

lemma thread_evolves_trans: "thread_evolves t t' \<Longrightarrow> thread_evolves t' t'' \<Longrightarrow> thread_evolves t t''"
  unfolding thread_evolves_def by (cases "th_responder_session t"; cases "th_state t") auto

inductive a2a_change :: "db \<Rightarrow> db \<Rightarrow> bool" for s s' :: db where
  rows: "\<lbrakk>\<And>t. P t \<Longrightarrow> thread_ok t \<Longrightarrow> thread_ok (f t) \<and> thread_evolves t (f t) \<and> th_last_seq (f t) = th_last_seq t;
     db_threads s' = db_threads (set_threads P f s); db_messages s' = db_messages s\<rbrakk> \<Longrightarrow> a2a_change s s'"
| fresh: "\<lbrakk>thread_ok (thread_of n); threads.look (nt_id n) s = None; \<forall>x \<in> set (db_messages s). ms_id x \<noteq> nt_message n;
     db_threads s' = db_threads s @ [thread_of n]; db_messages s' = db_messages s @ [first_message n]\<rbrakk> \<Longrightarrow> a2a_change s s'"
| said: "\<lbrakk>threads.look (nm_thread n) s = Some t; th_state t = Open_thread; th_last_seq t < I32_MAX;
     recipient_of t (nm_sender n) = Some r; \<forall>x \<in> set (db_messages s). ms_id x \<noteq> nm_id n;
     db_threads s' = db_threads (threads.put (bumped (nm_now n) t) s);
     db_messages s' = db_messages s @ [message_of n (bumped (nm_now n) t) r]\<rbrakk> \<Longrightarrow> a2a_change s s'"

lemma closed_row_ok: "thread_ok t \<Longrightarrow> th_state t \<noteq> Closed_thread \<Longrightarrow>
    thread_ok (closed_row reason w l now t) \<and> thread_evolves t (closed_row reason w l now t)
      \<and> th_last_seq (closed_row reason w l now t) = th_last_seq t"
  by (cases "th_state t") (simp_all add: thread_ok_def thread_evolves_def closed_row_def)

lemma accepted_ok: "thread_ok t \<Longrightarrow> th_state t = PendingOpen \<Longrightarrow>
    thread_ok (accepted x now t) \<and> thread_evolves t (accepted x now t) \<and> th_last_seq (accepted x now t) = th_last_seq t"
  by (auto simp: thread_ok_def thread_evolves_def accepted_def)

lemma closing_change:
  assumes "s' = set_threads P (closed_row reason w l now) s" "\<And>t. P t \<Longrightarrow> th_state t \<noteq> Closed_thread"
  shows "a2a_change s s'"
  using assms closed_row_ok by (intro rows[of P "closed_row reason w l now"]) auto

lemma check_pair_Ok:
  assumes "check_pair x y now s = Inr clear"
  shows "\<exists>a b. clear = (a, b) \<and> ag_id a \<noteq> ag_id b \<and> find_agent (ag_id a) s = Some a \<and> find_agent (ag_id b) s = Some b
    \<and> \<not> ag_disabled a \<and> \<not> ag_disabled b
    \<and> (ag_kind a = Operator \<or> ag_kind b = Operator \<or> holding a s = None \<and> holding b s = None)"
proof -
  have key: "ag_id r = i" if "find_agent i s = Some r" for i r
    using that agents.look_key by (simp add: find_is_look)
  obtain a b where ab: "find_agent x s = Some a" "x \<noteq> y" "find_agent y s = Some b"
    using assms by (auto simp: check_pair_def split: option.splits if_splits)
  have "clear = (a, b)" "\<not> ag_disabled a" "\<not> ag_disabled b"
    "ag_kind a = Operator \<or> ag_kind b = Operator \<or> holding a s = None \<and> holding b s = None"
    using assms ab by (auto simp: check_pair_def agent_held_def holding_def Let_def split: option.splits if_splits)
  with ab key[OF ab(1)] key[OF ab(3)] show ?thesis by blast
qed

lemma bump_is_put:
  assumes keys: "threads.keys_ok s" and t: "threads.look i s = Some t" "th_state t = Open_thread"
  shows "db_threads (set_threads (\<lambda>t. th_id t = i \<and> th_state t = Open_thread) (bumped now) s) = db_threads (threads.put (bumped now t) s)"
proof -
  have id: "th_id t = i" using threads.look_key[OF t(1)] .
  have "u = t" if "u \<in> set (db_threads s)" "th_id u = i" for u using threads.in_look[OF keys that(1)] that(2) t(1) by simp
  then show ?thesis using t id by (auto simp: set_threads_def threads.put_def bumped_def)
qed

lemma step_is_change:
  assumes ok: "threads_ok s" and step: "a2a_step s s'"
  shows "a2a_change s s'"
proof -
  have keys: "threads.keys_ok s" using ok by (simp add: threads_ok_def)
  have same: "a2a_change s t" if "db_threads t = db_threads s" "db_messages t = db_messages s" for t
    using that by (intro rows[of "\<lambda>_. False" id]) (simp_all add: set_threads_def)
  show ?thesis using step
  proof (cases rule: a2a_step.cases)
    case (opened x y now clear n out)
    obtain a b where ab: "clear = (a, b)" "ag_id a \<noteq> ag_id b" using check_pair_Ok[OF opened(1)] by blast
    from open_thread_Ok[OF opened(2)[unfolded ab(1)]] show ?thesis
    proof (elim disjE conjE)
      assume "s' = s"
      then show ?thesis by (simp add: same)
    qed (use ab(2) in \<open>auto intro!: fresh[of n] simp: thread_ok_def thread_of_def I32_MAX_def\<close>)
  next
    case (taken_up x y now clear i session out)
    obtain a b where ab: "clear = (a, b)" using check_pair_Ok[OF taken_up(1)] by blast
    from accept_thread_Ok[OF taken_up(2)[unfolded ab]]
    have "s' = s \<or> s' = set_threads (\<lambda>t. th_id t = i \<and> th_state t = PendingOpen) (accepted session now) s" by blast
    then show ?thesis
    proof
      assume "s' = s"
      then show ?thesis by (simp add: same)
    next
      assume "s' = set_threads (\<lambda>t. th_id t = i \<and> th_state t = PendingOpen) (accepted session now) s"
      then show ?thesis using accepted_ok
        by (intro rows[of "\<lambda>t. th_id t = i \<and> th_state t = PendingOpen" "accepted session now"]) auto
    qed
  next
    case (sent x y now clear n out)
    obtain a b where ab: "clear = (a, b)" using check_pair_Ok[OF sent(1)] by blast
    show ?thesis
    proof (cases "s' = s")
      case True
      then show ?thesis by (simp add: same)
    next
      case False
      with append_message_Ok[OF keys sent(2)[unfolded ab]] obtain t r where "threads.look (nm_thread n) s = Some t" "th_state t = Open_thread"
        "th_last_seq t < I32_MAX" "recipient_of t (nm_sender n) = Some r" "\<forall>x \<in> set (db_messages s). ms_id x \<noteq> nm_id n"
        "s' = (set_threads (\<lambda>t. th_id t = nm_thread n \<and> th_state t = Open_thread) (bumped (nm_now n)) s)
                  \<lparr>db_messages := db_messages s @ [message_of n (bumped (nm_now n) t) r]\<rparr>" by blast
      then show ?thesis using bump_is_put[OF keys] by (intro said) auto
    qed
  next
    case (closed i reason by_whom line now out)
    then show ?thesis by (auto simp: close_thread_def intro!: closing_change)
  next
    case (unbacked now out)
    then show ?thesis by (auto simp: close_dead_grants_def intro!: closing_change)
  next
    case elsewhere
    then show ?thesis by (rule same)
  qed (auto simp: close_for_sessions_def close_open_timeouts_def close_idle_def close_all_for_def close_for_agent_def
      orphan_inbound_def intro!: closing_change)
qed

section \<open>The invariant\<close>

lemma log_append: "db_messages s' = db_messages s @ [m] \<Longrightarrow> log i s' = log i s @ (if ms_thread m = i then [m] else [])"
  by (simp add: log_def)

lemma log_same: "db_messages s' = db_messages s \<Longrightarrow> log i s' = log i s"
  by (simp add: log_def)

lemma rows_look:
  assumes "\<And>t. t \<in> set (db_threads s) \<Longrightarrow> P t \<Longrightarrow> th_id (f t) = th_id t" "db_threads s' = db_threads (set_threads P f s)"
  shows "threads.look i s' = map_option (\<lambda>t. if P t then f t else t) (threads.look i s)"
    and "threads.keys_ok s' = threads.keys_ok s"
proof -
  have "(\<forall>t \<in> set xs. P t \<longrightarrow> th_id (f t) = th_id t) \<Longrightarrow>
      find (\<lambda>t. th_id t = i) (map (\<lambda>t. if P t then f t else t) xs) = map_option (\<lambda>t. if P t then f t else t) (find (\<lambda>t. th_id t = i) xs)" for xs
    by (induction xs) auto
  then show "threads.look i s' = map_option (\<lambda>t. if P t then f t else t) (threads.look i s)"
    using assms by (simp add: threads.look_def set_threads_def)
  have "map th_id (db_threads s') = map th_id (db_threads s)" using assms by (auto simp: set_threads_def)
  then show "threads.keys_ok s' = threads.keys_ok s" by (simp add: threads.keys_ok_def)
qed

lemma message_ok_evolves: "thread_evolves t t' \<Longrightarrow> message_ok m t' = message_ok m t"
  by (simp add: thread_evolves_def message_ok_def)

lemma talk_change_keeps:
  assumes ok: "threads_ok s" and ch: "a2a_change s s'"
  shows "threads_ok s'"
  using ch
proof (cases rule: a2a_change.cases)
  case (rows P f)
  note o = ok[unfolded threads_ok_def]
  have ev: "thread_ok (f t) \<and> thread_evolves t (f t) \<and> th_last_seq (f t) = th_last_seq t" if "t \<in> set (db_threads s)" "P t" for t
    using rows(1) that o by blast
  then have id: "th_id (f t) = th_id t" if "t \<in> set (db_threads s)" "P t" for t using that by (simp add: thread_evolves_def)
  note look = rows_look[OF id rows(2)]
  have threads: "thread_ok t' \<and> map ms_seq (log (th_id t') s') = [1..<Suc (th_last_seq t')]" if t': "t' \<in> set (db_threads s')" for t'
  proof -
    obtain t where t: "t \<in> set (db_threads s)" "t' = (if P t then f t else t)" using t' rows(2) by (auto simp: set_threads_def)
    then show ?thesis using o ev[OF t(1)] id[OF t(1)] log_same[OF rows(3)] by auto
  qed
  have messages: "\<exists>t. threads.look (ms_thread m) s' = Some t \<and> message_ok m t" if m: "m \<in> set (db_messages s')" for m
  proof -
    obtain t where t: "threads.look (ms_thread m) s = Some t" "message_ok m t" using o m rows(3) by auto
    then have "message_ok m (if P t then f t else t)" using ev[OF threads.look_in[OF t(1)]] message_ok_evolves by auto
    then show ?thesis using look(1)[of "ms_thread m"] t(1) by simp
  qed
  show ?thesis using o look(2) threads messages rows(3) by (simp add: threads_ok_def)
next
  case (fresh n)
  note o = ok[unfolded threads_ok_def]
  have new: "th_id t \<noteq> nt_id n" if "t \<in> set (db_threads s)" for t using fresh(2) that by (auto simp: threads.look_None)
  have nolog: "log (nt_id n) s = []" using o fresh(2) by (auto simp: log_def filter_empty_conv)
  have look: "threads.look i s' = (case threads.look i s of Some t \<Rightarrow> Some t | None \<Rightarrow> if nt_id n = i then Some (thread_of n) else None)" for i
    using threads.find_append_row[of i "db_threads s" "thread_of n"] fresh(4) by (simp add: threads.look_def thread_of_def)
  have threads: "thread_ok t \<and> map ms_seq (log (th_id t) s') = [1..<Suc (th_last_seq t)]" if "t \<in> set (db_threads s')" for t
  proof (cases "t \<in> set (db_threads s)")
    case True
    then show ?thesis using o new[OF True] log_append[OF fresh(5)] by (simp add: first_message_def)
  next
    case False
    then have "t = thread_of n" using that fresh(4) by simp
    then show ?thesis using fresh(1) nolog log_append[OF fresh(5)] by (simp add: first_message_def thread_of_def)
  qed
  have messages: "\<exists>t. threads.look (ms_thread m) s' = Some t \<and> message_ok m t" if m: "m \<in> set (db_messages s')" for m
  proof (cases "m \<in> set (db_messages s)")
    case True
    then show ?thesis using o look by (metis option.simps(5))
  next
    case False
    then have "m = first_message n" using m fresh(5) by auto
    then show ?thesis using look[of "nt_id n"] fresh(2) by (simp add: first_message_def thread_of_def message_ok_def)
  qed
  have "nt_id n \<notin> th_id ` set (db_threads s)" using new by (metis imageE)
  then have "threads.keys_ok s'" using o fresh(4) by (simp add: threads.keys_ok_def thread_of_def)
  moreover have "nt_message n \<notin> ms_id ` set (db_messages s)" using fresh(3) by (metis imageE)
  then have "distinct (map ms_id (db_messages s'))" using o fresh(5) by (simp add: first_message_def)
  ultimately show ?thesis using threads messages by (simp add: threads_ok_def)
next
  case (said n t r)
  note o = ok[unfolded threads_ok_def]
  define t' where "t' = bumped (nm_now n) t"
  have id: "th_id t = nm_thread n" "th_id t' = nm_thread n" "th_last_seq t' = Suc (th_last_seq t)"
    using threads.look_key[OF said(1)] by (simp_all add: t'_def bumped_def)
  have tin: "t \<in> set (db_threads s)" by (rule threads.look_in[OF said(1)])
  have ev: "thread_ok t'" "thread_evolves t t'" using o tin said(2,3) by (auto simp: t'_def bumped_def thread_ok_def thread_evolves_def)
  have look: "threads.look i s' = (if i = nm_thread n then Some t' else threads.look i s)" for i
    using threads.look_put[of i t' s] said(6) id by (simp add: threads.look_def t'_def)
  have keys: "threads.keys_ok s'" using threads.keys_put[of t' s] said(6) o by (simp add: threads.keys_ok_def t'_def)
  define m0 where "m0 = message_of n t' r"
  have msgs: "db_messages s' = db_messages s @ [m0]" "ms_thread m0 = nm_thread n" "ms_seq m0 = Suc (th_last_seq t)" "ms_id m0 = nm_id n"
    using said(7) id(3) by (simp_all add: m0_def message_of_def t'_def)
  have seqs: "map ms_seq (log (th_id u) s) = [1..<Suc (th_last_seq u)]" if "u \<in> set (db_threads s)" for u using o that by blast
  have threads: "thread_ok u \<and> map ms_seq (log (th_id u) s') = [1..<Suc (th_last_seq u)]" if "u \<in> set (db_threads s')" for u
  proof (cases "th_id u = nm_thread n")
    case True
    then have "u = t'" using threads.in_look[OF keys that] look by simp
    then show ?thesis using ev(1) seqs[OF tin] id log_append[OF msgs(1)] msgs(2,3) by simp
  next
    case False
    then have "threads.look (th_id u) s = Some u" using threads.in_look[OF keys that] look by simp
    from threads.look_in[OF this] show ?thesis using o False log_append[OF msgs(1)] msgs(2) by simp
  qed
  have m0_ok: "message_ok m0 t'"
    using said(4) by (auto simp: m0_def message_of_def message_ok_def t'_def bumped_def recipient_of_def split: if_splits)
  have messages: "\<exists>u. threads.look (ms_thread m) s' = Some u \<and> message_ok m u" if m: "m \<in> set (db_messages s')" for m
  proof (cases "m = m0")
    case True
    then show ?thesis using m0_ok look msgs(2) by simp
  next
    case False
    then obtain u where u: "threads.look (ms_thread m) s = Some u" "message_ok m u" using m msgs(1) o by auto
    then show ?thesis using look said(1) message_ok_evolves[OF ev(2)] by (cases "ms_thread m = nm_thread n") auto
  qed
  have "nm_id n \<notin> ms_id ` set (db_messages s)" using said(5) by (metis imageE)
  then have "distinct (map ms_id (db_messages s'))" using o msgs by simp
  then show ?thesis using keys threads messages by (simp add: threads_ok_def)
qed

lemma a2a_ok: "a2a_reach s \<Longrightarrow> threads_ok s"
proof (induction rule: a2a_reach.induct)
  case (start s)
  then show ?case by (simp add: threads_ok_def threads.keys_ok_def)
next
  case (next_step s s')
  then show ?case using talk_change_keeps step_is_change by blast
qed

lemma talk_free: "db_agents s = [sample_agent, sample_operator] \<Longrightarrow>
    check_pair (AgentId ''o'') (AgentId ''a'') now s = Inr (sample_operator, sample_agent)"
  by (simp add: check_pair_def find_agent_def sample_agent_def sample_operator_def agent_held_def first_holding_def Let_def)

lemma talk_agents: "db_agents talk_start = [sample_agent, sample_operator]" "db_threads talk_start = []" "db_messages talk_start = []"
  by (simp_all add: talk_start_def broker_init_def)

lemmas talk_defs = tx_defs find_thread_def verify_pair_def sample_agent_def sample_operator_def update_threads_def insert_message_def
  talk_new_def talk_reply_def thread_of_def first_message_def accepted_def

lemma talk_steps: "a2a_step talk_start talk_opened" "a2a_step talk_opened talk_accepted"
proof -
  have "open_thread (sample_operator, sample_agent) talk_new talk_start = Inr (Inr (thread_of talk_new, first_message talk_new), talk_opened)"
    by (simp add: open_thread_def insert_thread_def talk_opened_def talk_agents talk_defs)
  then show "a2a_step talk_start talk_opened" using a2a_step.opened[OF talk_free[OF talk_agents(1)]] by blast
  have "accept_thread (sample_operator, sample_agent) (ThreadId ''t'') None 3 talk_opened = Inr (Some (accepted None 3 (thread_of talk_new)), talk_accepted)"
    by (simp add: accept_thread_def talk_opened_def talk_accepted_def talk_agents talk_defs)
  then show "a2a_step talk_opened talk_accepted"
    using a2a_step.taken_up[OF talk_free[of talk_opened 3]] by (simp add: talk_opened_def talk_agents)
qed

lemma talk_answer: "append_message (sample_operator, sample_agent) talk_reply talk_accepted = Inr (Inr talk_said, talk_answered)"
  by (simp add: append_message_def talk_accepted_def talk_answered_def talk_said_def talk_agents recipient_of_def bumped_def message_of_def I32_MAX_def talk_defs)

lemma talk_reach: "a2a_reach talk_accepted" "a2a_step talk_accepted talk_answered"
proof -
  have "a2a_reach talk_start" by (rule a2a_reach.start) (simp_all add: talk_agents)
  then show "a2a_reach talk_accepted" using talk_steps by (blast intro: a2a_reach.next_step)
  show "a2a_step talk_accepted talk_answered"
    using a2a_step.sent[OF talk_free talk_answer] by (simp add: talk_accepted_def talk_agents)
qed

section \<open>Histories\<close>

lemma change_thread:
  assumes ok: "threads_ok s" and ch: "a2a_change s s'" and t: "threads.look i s = Some t"
  shows "\<exists>t'. threads.look i s' = Some t' \<and> thread_evolves t t' \<and> prefix (log i s) (log i s')
    \<and> (th_state t = Closed_thread \<longrightarrow> log i s' = log i s)"
  using ch
proof (cases rule: a2a_change.cases)
  case (rows P f)
  have ev: "thread_evolves u (f u)" if "u \<in> set (db_threads s)" "P u" for u using rows(1) that ok by (auto simp: threads_ok_def)
  then have "th_id (f u) = th_id u" if "u \<in> set (db_threads s)" "P u" for u using that by (simp add: thread_evolves_def)
  from rows_look(1)[OF this rows(2)] show ?thesis using t ev[OF threads.look_in[OF t]] log_same[OF rows(3)] by auto
next
  case (fresh n)
  have "threads.look i s' = Some t"
    using threads.find_append_row[of i "db_threads s" "thread_of n"] fresh(4) t by (simp add: threads.look_def)
  moreover have "nt_id n \<noteq> i" using fresh(2) t by auto
  ultimately show ?thesis using log_append[OF fresh(5)] by (simp add: first_message_def)
next
  case (said n u r)
  have id: "th_id (bumped (nm_now n) u) = nm_thread n" using threads.look_key[OF said(1)] by (simp add: bumped_def)
  have look: "threads.look i s' = (if i = nm_thread n then Some (bumped (nm_now n) u) else threads.look i s)"
    using threads.look_put[of i "bumped (nm_now n) u" s] said(6) id by (simp add: threads.look_def)
  have ev: "thread_evolves u (bumped (nm_now n) u)" using said(2) by (simp add: bumped_def thread_evolves_def)
  show ?thesis using look t said(1,2) ev log_append[OF said(7)] by (auto simp: message_of_def)
qed

text \<open>C20: A conversation's record is exact. Over every history of opening, accepting, sending, closing and sweeping,
  the messages of a thread are numbered 1, 2, 3, \<dots> up to the thread's counter, in the order they were
  stored, without a gap or a repetition; every message is between the two parties of its thread; a
  thread has two different parties, is closed exactly when it says when and why, and is open only
  after it was accepted.\<close>

theorem thread_log_exact:
  assumes "a2a_reach s"
  shows "threads_ok s"
  using assms by (rule a2a_ok)

theorem thread_log_exact_witness: "threads_ok talk_answered \<and> length (db_messages talk_answered) = 2"
  using thread_log_exact[OF a2a_reach.next_step[OF talk_reach]] by (simp add: talk_answered_def)

text \<open>C22: Over any further history a thread keeps its parties, its topic, its backing grant and a session once bound,
  its state only moves from pending to open to closed, its messages are only appended to, and once
  closed the thread and its messages never change again.\<close>

theorem threads_only_grow:
  assumes "a2a_reach s" "a2a_step\<^sup>*\<^sup>* s s'" "find_thread i s = Some t"
  shows "\<exists>t'. find_thread i s' = Some t' \<and> thread_evolves t t' \<and> prefix (log i s) (log i s')
    \<and> (th_state t = Closed_thread \<longrightarrow> t' = t \<and> log i s' = log i s)"
proof -
  have "a2a_reach s' \<and> (\<exists>t'. threads.look i s' = Some t' \<and> thread_evolves t t' \<and> prefix (log i s) (log i s')
      \<and> (th_state t = Closed_thread \<longrightarrow> log i s' = log i s))" using assms(2)
  proof (induction rule: rtranclp_induct)
    case base
    show ?case using assms(1,3) by (auto simp: find_thread_is_look)
  next
    case (step u u')
    then obtain t1 where t1: "threads.look i u = Some t1" "thread_evolves t t1" "prefix (log i s) (log i u)"
      "th_state t = Closed_thread \<longrightarrow> log i u = log i s" and u: "a2a_reach u" by blast
    obtain t2 where t2: "threads.look i u' = Some t2" "thread_evolves t1 t2" "prefix (log i u) (log i u')"
      "th_state t1 = Closed_thread \<longrightarrow> log i u' = log i u"
      using change_thread[OF a2a_ok[OF u] step_is_change[OF a2a_ok[OF u] step.hyps(2)] t1(1)] by blast
    have "th_state t = Closed_thread \<longrightarrow> th_state t1 = Closed_thread" using t1(2) by (auto simp: thread_evolves_def)
    with t1 t2 thread_evolves_trans[OF t1(2) t2(2)] a2a_reach.next_step[OF u step.hyps(2)] show ?case
      by (auto intro: prefix_order.trans)
  qed
  then show ?thesis by (auto simp: find_thread_is_look thread_evolves_def)
qed

theorem threads_only_grow_witness:
  "\<exists>t'. find_thread (ThreadId ''t'') talk_answered = Some t' \<and> thread_evolves (accepted None 3 (thread_of talk_new)) t'
     \<and> prefix (log (ThreadId ''t'') talk_accepted) (log (ThreadId ''t'') talk_answered)"
proof -
  have "find_thread (ThreadId ''t'') talk_accepted = Some (accepted None 3 (thread_of talk_new))"
    by (simp add: talk_accepted_def talk_defs)
  from threads_only_grow[OF talk_reach(1) r_into_rtranclp[of a2a_step, OF talk_reach(2)] this] show ?thesis by blast
qed



end
