(* ===== verification/Contain.thy ===== *)
theory Contain
  imports Service_Decide Store_Threads
begin

text \<open>
  Containment as a whole (\<open>broker/src/containment.rs\<close>): an entry is recorded in one transaction that also brings
  the held agents' grants to an end, and then acted on: what waits is denied, what is being set up is
  reverted, what is live is revoked, threads are closed. What the provisioners answer is an argument, one
  answer for each grant; telling the virtual machines, the log and the notifications is not modelled.
\<close>

section \<open>Recording\<close>

datatype contain_error = BadMatch match_error | Unknown_entry string | Contain_service service_error

definition cut :: "string \<Rightarrow> nat \<Rightarrow> string" where
  "cut t n = take n t"

definition U32_CEIL :: nat where "U32_CEIL = 4294967295"

text \<open>Whom an entry holds: with whatever minted it, never the operator. Ancestors are looked up in the list.\<close>

definition held_by :: "json \<Rightarrow> agent_row list \<Rightarrow> agent_row list" where
  "held_by entry all =
     filter (\<lambda>a. ag_kind a \<noteq> Operator
       \<and> Containment.holds entry (facts_with a (map facts (chain_in a (\<lambda>i. find (\<lambda>b. ag_id b = i) all))))) all"

fun expire_all_of :: "agent_row list \<Rightarrow> int \<Rightarrow> unit tx" where
  "expire_all_of [] now = tx_return ()"
| "expire_all_of (a # as) now = tx_bind (expire_now_of_agent (ag_id a) now) (\<lambda>_. expire_all_of as now)"

definition contain_record :: "containment_entry \<Rightarrow> (contain_error, containment_entry \<times> agent_row list) result tx" where
  "contain_record e =
     tx_bind (record_entry e) (\<lambda>recorded.
       case recorded of
         Err m \<Rightarrow> tx_return (Err (BadMatch m))
       | Ok entry \<Rightarrow>
           tx_bind (tx_get list_agents) (\<lambda>all.
           tx_bind (expire_all_of (held_by (ce_match entry) all) (ce_at e)) (\<lambda>_.
           tx_return (Ok (entry, held_by (ce_match entry) all)))))"

section \<open>Acting on it\<close>

record followed =
  fo_revoked :: nat
  fo_denied :: nat
  fo_closed :: nat

fun revoke_held ::
  "app_state \<Rightarrow> (grant_id \<Rightarrow> (provision_error, unit) result) \<Rightarrow> string \<Rightarrow> string \<Rightarrow> int \<Rightarrow> grant_id list \<Rightarrow> db \<Rightarrow> nat \<times> db" where
  "revoke_held app answers why by_whom now [] s = (0, s)"
| "revoke_held app answers why by_whom now (g # gs) s =
     (let (r, s') = revoke_grant app g why by_whom (answers g) now s;
          (n, t) = revoke_held app answers why by_whom now gs s' in
      (case r of Ok x \<Rightarrow> min (n + 1) U32_CEIL | Err e \<Rightarrow> n, t))"

text \<open>One transaction for each agent; a failure stops the loop and leaves what was closed closed.\<close>

fun close_threads :: "agent_row list \<Rightarrow> int \<Rightarrow> db \<Rightarrow> (service_error, nat) result \<times> db" where
  "close_threads [] now s = (Ok 0, s)"
| "close_threads (a # as) now s =
     (case run_tx (close_all_for (ag_id a) ''contained'' now) s of
        (Err e, s') \<Rightarrow> (Err e, s')
      | (Ok out, s') \<Rightarrow>
          (case close_threads as now s' of (r, t) \<Rightarrow> (map_ok (\<lambda>n. min (n + length out) U32_CEIL) r, t)))"

definition follow_up ::
  "app_state \<Rightarrow> (grant_id \<Rightarrow> (provision_error, unit) result) \<Rightarrow> agent_row list \<Rightarrow> string \<Rightarrow> string \<Rightarrow> int \<Rightarrow> db \<Rightarrow> followed \<times> db" where
  "follow_up app answers held reason by_whom now s =
     (let ids = map ag_id held;
          why = ''contained: '' @ cut reason 120;
          (d, s1) = deny_pending app ids why by_whom now s;
          s2 = reap_provisioning_of app answers ids now s1;
          (n, s3) = revoke_held app answers why by_whom now (active_of_agents ids s2) s2;
          (c, s4) = close_threads held now s3 in
      (\<lparr>fo_revoked = n, fo_denied = (case d of Ok k \<Rightarrow> min k U32_CEIL | Err e \<Rightarrow> 0), fo_closed = (case c of Ok k \<Rightarrow> k | Err e \<Rightarrow> 0)\<rparr>, s4))"

definition contain ::
  "app_state \<Rightarrow> (grant_id \<Rightarrow> (provision_error, unit) result) \<Rightarrow> string \<Rightarrow> json \<Rightarrow> string \<Rightarrow> string \<Rightarrow> string \<Rightarrow> containment_source
   \<Rightarrow> int \<Rightarrow> int \<Rightarrow> db \<Rightarrow> (contain_error, containment_entry \<times> string list \<times> followed) result \<times> db" where
  "contain app answers i entry reason evidence by_whom from now later s =
     (let e = \<lparr>ce_id = i, ce_match = entry, ce_reason = cut reason 500, ce_evidence = cut evidence 4000, ce_by = by_whom,
               ce_source = from, ce_at = now\<rparr> in
      case run_tx (contain_record e) s of
        (Err x, s') \<Rightarrow> (Err (Contain_service x), s')
      | (Ok (Err x), s') \<Rightarrow> (Err x, s')
      | (Ok (Ok (recorded, held)), s') \<Rightarrow>
          (let (done_what, t) = follow_up app answers held (cut reason 500) by_whom later s' in
           (Ok (recorded, map ag_name held, done_what), t)))"

section \<open>The sweep and lifting\<close>

definition sweep_found :: "db \<Rightarrow> (grant_id \<times> string) list" where
  "sweep_found s =
     (let all = list_agents s in
      concat (map (\<lambda>a.
        case first_holding (db_entries s) ce_match (facts_with a (map facts (chain_in a (\<lambda>i. find (\<lambda>b. ag_id b = i) all)))) of
          None \<Rightarrow> []
        | Some e \<Rightarrow> map (\<lambda>g. (g, held_text e)) (active_of_agents [ag_id a] s))
        (filter (\<lambda>a. ag_kind a \<noteq> Operator) all)))"

fun sweep_each ::
  "app_state \<Rightarrow> (grant_id \<Rightarrow> (provision_error, unit) result) \<Rightarrow> int \<Rightarrow> (grant_id \<times> string) list \<Rightarrow> db \<Rightarrow> nat \<times> db" where
  "sweep_each app answers now [] s = (0, s)"
| "sweep_each app answers now ((g, why) # rest) s =
     (case revoke_grant app g why ''containment'' (answers g) now s of
        (Ok x, s') \<Rightarrow> (let (n, t) = sweep_each app answers now rest s' in (n + 1, t))
      | (Err (Transition_refused w), s') \<Rightarrow> sweep_each app answers now rest s'
      | (Err e, s') \<Rightarrow> sweep_each app answers now rest (snd (run_tx (expire_now g now) s')))"

definition sweep_held :: "app_state \<Rightarrow> (grant_id \<Rightarrow> (provision_error, unit) result) \<Rightarrow> int \<Rightarrow> db \<Rightarrow> nat \<times> db" where
  "sweep_held app answers now s = (if db_entries s = [] then (0, s) else sweep_each app answers now (sweep_found s) s)"

definition lift_entries :: "string option \<Rightarrow> db \<Rightarrow> (contain_error, containment_entry list) result \<times> db" where
  "lift_entries which s =
     (case lift which s of
        Err e \<Rightarrow> (Err (Contain_service e), s)
      | Ok (lifted, s') \<Rightarrow>
          (case which of
             Some i \<Rightarrow> if lifted = [] then (Err (Unknown_entry i), s) else (Ok lifted, s')
           | None \<Rightarrow> (Ok lifted, s')))"

section \<open>Who may contain\<close>

definition holds_everyone :: "json \<Rightarrow> db \<Rightarrow> bool" where
  "holds_everyone entry s =
     (case agent_match_from_value entry of
        Err e \<Rightarrow> False
      | Ok p \<Rightarrow>
          if match_matches_everyone p then True
          else (let current = filter (\<lambda>a. ag_kind a \<noteq> Operator) (filter (\<lambda>a. \<not> ag_disabled a) (db_agents s)) in
                current \<noteq> [] \<and> list_all (\<lambda>a. agent_match_matches p (agent_ref_of a)) current))"

definition contain_allowed :: "policy \<Rightarrow> agent_row \<Rightarrow> bool" where
  "contain_allowed p a = list_ex (\<lambda>q. pattern_matches q (agent_ref_of a)) (ct_agents (pol_containment p))"

datatype contain_refusal = Refused_not_found | Refused_everyone | Refused_entry contain_error

definition agent_contain ::
  "app_state \<Rightarrow> (grant_id \<Rightarrow> (provision_error, unit) result) \<Rightarrow> agent_row \<Rightarrow> string \<Rightarrow> json_map \<Rightarrow> string \<Rightarrow> string \<Rightarrow> int \<Rightarrow> int \<Rightarrow> db
   \<Rightarrow> (contain_refusal, containment_entry \<times> string list \<times> followed) result \<times> db" where
  "agent_contain app answers caller i entry reason evidence now later s =
     (if \<not> contain_allowed (app_policy app) caller then (Err Refused_not_found, s)
      else if \<not> ct_allow_all (pol_containment (app_policy app)) \<and> holds_everyone (JObj entry) s then (Err Refused_everyone, s)
      else let (r, t) = contain app answers i (JObj entry) reason evidence (ag_name caller) From_agent now later s
           in (map_err Refused_entry r, t))"

end
