(* ===== verification/Contain_Laws.thy ===== *)
theory Contain_Laws
  imports Contain Broker_Issue A2a_History
begin

text \<open>
  What containment does as a whole: its transactions are steps of the broker, after them whoever the entry
  holds has nothing live left but what a provisioner would not take back, and that has ended; and how far the
  check on entries that hold everyone goes.
\<close>

section \<open>Whom an entry holds\<close>

lemma find_by_key:
  assumes "distinct (map f xs)" "distinct (map f ys)" "set xs = set ys"
  shows "find (\<lambda>x. f x = k) xs = find (\<lambda>x. f x = k) ys"
proof -
  have one: "find (\<lambda>x. f x = k) zs = Some z" if "distinct (map f zs)" "z \<in> set zs" "f z = k" for zs z
    using that by (induction zs) (auto simp: image_iff)
  show ?thesis
  proof (cases "find (\<lambda>x. f x = k) xs")
    case None
    then have "find (\<lambda>x. f x = k) ys = None" using assms(3) by (auto simp: find_None_iff)
    with None show ?thesis by simp
  next
    case (Some z)
    then have "z \<in> set ys" "f z = k" using assms(3) by (auto simp: find_Some_iff)
    with Some one[OF assms(2)] show ?thesis by simp
  qed
qed

lemma found_in_list:
  assumes "agents.keys_ok s"
  shows "find (\<lambda>b. ag_id b = i) (list_agents s) = find_agent i s"
proof -
  have "distinct (map ag_id (list_agents s))" using assms by (simp add: agents.keys_ok_def list_agents_def distinct_map)
  with assms show ?thesis unfolding find_agent_def
    by (intro find_by_key) (simp_all add: agents.keys_ok_def list_agents_def)
qed

definition held_now :: "json \<Rightarrow> agent_row \<Rightarrow> db \<Rightarrow> bool" where
  "held_now entry a s = Containment.holds entry (facts_with a (map facts (chain a s)))"

lemma held_by_exact:
  assumes "agents.keys_ok s"
  shows "set (held_by entry (list_agents s)) = {a \<in> set (db_agents s). held_now entry a s}"
proof -
  have "chain_in a (\<lambda>i. find (\<lambda>b. ag_id b = i) (list_agents s)) = chain a s" for a
    by (simp add: chain_in_def chain_def found_in_list[OF assms])
  moreover have "ag_kind a \<noteq> Operator" if "held_now entry a s" for a
    using that by (auto simp: held_now_def Containment.holds_def facts_with_def)
  ultimately show ?thesis by (auto simp: held_by_def held_now_def list_agents_def)
qed

lemma held_now_cong: "db_agents s = db_agents t \<Longrightarrow> held_now entry a s = held_now entry a t"
  by (simp add: held_now_def chain_def find_agent_def)

lemma held_is_holding:
  assumes "held_now (ce_match e) a s" "e \<in> set (db_entries s)"
  shows "holding a s \<noteq> None"
  using assms by (auto simp: holding_def first_holding_def held_now_def find_None_iff)

section \<open>Acting on an entry\<close>

text \<open>What each transaction of the follow-up leaves: the same agents, entries and threads, and of each grant at most what
  there was.\<close>

definition no_more :: "grant_row \<Rightarrow> grant_row \<Rightarrow> bool" where
  "no_more g g' = (gr_id g' = gr_id g \<and> gr_agent g' = gr_agent g \<and> gr_platform g' = gr_platform g
     \<and> gr_expires_at g' \<le> gr_expires_at g \<and> (gr_status g' = GActive \<longrightarrow> gr_status g = GActive))"

definition grants_no_more :: "db \<Rightarrow> db \<Rightarrow> bool" where
  "grants_no_more s s' = (\<forall>g' \<in> set (db_grants s'). \<exists>g \<in> set (db_grants s). no_more g g')"

definition only_less :: "db \<Rightarrow> db \<Rightarrow> bool" where
  "only_less s s' = (db_agents s' = db_agents s \<and> db_entries s' = db_entries s \<and> db_threads s' = db_threads s \<and> grants_no_more s s')"

lemma no_more_refl [simp]: "no_more g g"
  by (simp add: no_more_def)

lemma only_less_refl [simp]: "only_less s s"
  by (auto simp: only_less_def grants_no_more_def intro: no_more_refl)

lemma no_more_trans: "no_more g h \<Longrightarrow> no_more h k \<Longrightarrow> no_more g k"
  by (auto simp: no_more_def)

lemma grants_no_more_trans: "grants_no_more s t \<Longrightarrow> grants_no_more t u \<Longrightarrow> grants_no_more s u"
  unfolding grants_no_more_def by (meson no_more_trans)

lemma only_less_trans: "only_less s t \<Longrightarrow> only_less t u \<Longrightarrow> only_less s u"
  using grants_no_more_trans by (auto simp: only_less_def)

lemma evolve_active:
  assumes "grant_evolves g g'" "follows (gr_status g') = follows (gr_status g)" "gr_status g' = GActive"
  shows "gr_status g = GActive"
proof -
  have star: "grant_can_transition\<^sup>*\<^sup>* (gr_status g) GActive" using assms(1,3) by (simp add: grant_evolves_def)
  have "follows (gr_status g) = Granted" using assms(2,3) by simp
  then have "gr_status g \<in> {GActive, GExpired, GRevoked}" by (cases "gr_status g") simp_all
  with ended_stays[OF star] show ?thesis by auto
qed

lemma evolve_no_more:
  assumes "grants_evolve s s'"
  shows "grants_no_more s s'"
  unfolding grants_no_more_def
proof
  fix g' assume "g' \<in> set (db_grants s')"
  with assms obtain g where g: "g \<in> set (db_grants s)" "grant_evolves g g'" "follows (gr_status g') = follows (gr_status g)"
    unfolding grants_evolve_def using list_all2_back[of _ "db_grants s" "db_grants s'" g'] by blast
  have "no_more g g'" using evolve_active[OF g(2,3)] g(2) unfolding no_more_def grant_evolves_def by blast
  with g(1) show "\<exists>g \<in> set (db_grants s). no_more g g'" by blast
qed

lemma deny_one:
  assumes "requests.keys_ok s"
    and "decide_inner app i (Decider_containment w) None (deny_decision reason) rid gid now clock s = Inr (out, s')"
  shows "only_less s s'"
proof -
  obtain r r' where "moved_ok s now i r r' None s'"
    using decide_inner_Ok[OF assms] by (auto simp: human_decided_def)
  then show ?thesis by (auto simp: moved_ok_def effect_def only_less_def grants_no_more_def intro: no_more_refl)
qed

lemma reap_one_less:
  assumes ok: "store_ok s" and run: "reap_one app gid answer why now s = Inr (x, s')"
  shows "only_less s s'"
proof (cases "load_provisioning gid s")
  case None
  with reap_one_other[OF None run] show ?thesis by simp
next
  case (Some g)
  then obtain r where pair: "provisioning_pair s g r" and id: "gr_id g = gid" using load_pair[OF ok] by blast
  have g: "g \<in> set (db_grants s)" using pair grants.look_in by (auto simp: provisioning_pair_def)
  obtain external moved t where fail: "fail_provisioning g (if external then why_grant why else RETIRED) (Some now) s = Inr (moved, t)"
      and rest: "(case moved of Inl l \<Rightarrow> tx_return None
        | Inr g' \<Rightarrow> tx_bind (fail_request (gr_request g) (why_request why) now) (\<lambda>_. tx_return (Some (gr_request g)))) t = Inr (x, s')"
    using run Some by (simp add: reap_one_def) blast
  obtain m where m: "moved = Inr m"
    using fail pair by (auto simp: fail_provisioning_def provisioning_pair_def move_grant_Ok)
  obtain v where "fail_request (gr_request g) (why_request why) now t = Inr (v, s')" using rest m by auto
  from fail_pair_Ok[OF pair fail this] obtain g' r' where e: "grant_effect s g' r' s'" "failed_grant g g'" by blast
  have "no_more g g'" using e(2) by (simp add: failed_grant_def grant_evolves_def no_more_def)
  moreover have "h = g' \<or> h \<in> set (db_grants s)" if "h \<in> set (db_grants (grants.put g' s))" for h
    using that by (auto simp: grants.put_def split: if_splits)
  ultimately show ?thesis using e(1) g unfolding grant_effect_def only_less_def grants_no_more_def
    by (metis no_more_refl)
qed

lemma end_grant_frame:
  "end_grant gid how now s = Inr (x, s') \<Longrightarrow> db_agents s' = db_agents s \<and> db_entries s' = db_entries s \<and> db_threads s' = db_threads s"
  by (auto simp: end_grant_def move_grant_def Let_def split: grant_end.splits option.splits)

lemma expire_now_frame:
  "expire_now gid now s = Inr (x, s') \<Longrightarrow> db_agents s' = db_agents s \<and> db_entries s' = db_entries s \<and> db_threads s' = db_threads s"
  by (auto simp: expire_now_def touch_grants_Ok)

lemma revoke_grant_cases:
  assumes "revoke_grant app gid reason w answer now s = (x, s')"
  shows "s' = s \<and> opt_filter (\<lambda>g. gr_status g = GActive) (grants.look gid s) = None
    \<or> (\<exists>g. grants.look gid s = Some g \<and> gr_status g = GActive
        \<and> (\<not> is_ok (revoke_external app g answer) \<and> s' = snd (run_tx (expire_now gid now) s)
           \<or> (\<exists>how y. end_grant gid (Revoked_end how) now s = Inr (y, s'))
           \<or> s' = s \<and> (\<exists>how. \<nexists>y t. end_grant gid (Revoked_end how) now s = Inr (Inr y, t))))"
proof (cases "opt_filter (\<lambda>g. gr_status g = GActive) (grants.look gid s)")
  case None
  with assms show ?thesis by (simp add: revoke_grant_def revoke_inner_def run_tx_def find_is_look tx_bind_def)
next
  case (Some g)
  then have g: "grants.look gid s = Some g" "gr_status g = GActive" by (auto simp: opt_filter_Some_iff)
  show ?thesis
  proof (cases "revoke_external app g answer")
    case (Inl e)
    with assms Some g show ?thesis by (simp add: revoke_grant_def revoke_inner_def run_tx_def find_is_look tx_bind_def)
  next
    case (Inr external)
    define how where "how = (if \<not> external then RETIRED else if w = [] then reason else reason @ '' ('' @ w @ '')'')"
    show ?thesis
    proof (cases "end_grant gid (Revoked_end how) now s")
      case e: (Inl e)
      with assms Some Inr have "s' = s"
        by (simp add: revoke_grant_def revoke_inner_def run_tx_def find_is_look tx_bind_def how_def[symmetric])
      moreover have "\<nexists>y t. end_grant gid (Revoked_end how) now s = Inr (Inr y, t)" using e by simp
      ultimately show ?thesis using g by blast
    next
      case y: (Inr yt)
      obtain y t where yt: "yt = (y, t)" by (cases yt)
      show ?thesis
      proof (cases y)
        case (Inl l)
        with assms Some Inr y yt have "s' = s"
          by (simp add: revoke_grant_def revoke_inner_def run_tx_def find_is_look tx_bind_def how_def[symmetric] tx_lift_def)
        moreover have "\<nexists>y t. end_grant gid (Revoked_end how) now s = Inr (Inr y, t)" using y yt Inl by simp
        ultimately show ?thesis using g by blast
      next
        case r: (Inr h)
        with assms Some Inr y yt have "s' = t"
          by (simp add: revoke_grant_def revoke_inner_def run_tx_def find_is_look tx_bind_def how_def[symmetric] tx_lift_def)
        with y yt g show ?thesis by blast
      qed
    qed
  qed
qed

lemma revoke_grant_less:
  assumes ok: "store_ok s" and run: "revoke_grant app gid reason w answer now s = (x, s')"
  shows "only_less s s'"
proof -
  have "db_agents s' = db_agents s \<and> db_entries s' = db_entries s \<and> db_threads s' = db_threads s"
    using revoke_grant_cases[OF run] end_grant_frame expire_now_frame
    by (auto simp: run_tx_def split: sum.splits)
  with evolve_no_more[OF revoke_grant_evolve[OF ok run]] show ?thesis by (simp add: only_less_def)
qed

text \<open>What a revoke leaves active is what its provisioner did not take back, and it has ended.\<close>

lemma revoke_grant_leaves:
  assumes ok: "store_ok s" and run: "revoke_grant app gid reason w answer now s = (x, s')"
    and g': "g' \<in> set (db_grants s')" "gr_id g' = gid" "gr_status g' = GActive"
  shows "\<not> is_ok (revoke_external app g' answer) \<and> gr_expires_at g' \<le> now"
proof -
  have keys: "grants.keys_ok s" using ok by (simp add: store_ok_def)
  obtain g where g: "g \<in> set (db_grants s)" "no_more g g'"
    using revoke_grant_less[OF ok run] g'(1) by (auto simp: only_less_def grants_no_more_def)
  then have look: "grants.look gid s = Some g" "gr_status g = GActive" "gr_platform g = gr_platform g'"
    using grants.in_look[OF keys g(1)] g' by (auto simp: no_more_def)
  have moves: "y = Inr (g\<lparr>gr_status := GRevoked, gr_revoked_at := Some now, gr_revoke_reason := Some how\<rparr>)
      \<and> t = grants.put (g\<lparr>gr_status := GRevoked, gr_revoked_at := Some now, gr_revoke_reason := Some how\<rparr>) s"
    if "end_grant gid (Revoked_end how) now s = Inr (y, t)" for how y t
    using that look keys by (simp add: end_grant_def move_grant_Ok)
  have total: "\<exists>y t. end_grant gid (Revoked_end how) now s = Inr (Inr y, t)" for how
    using look keys move_grant_Ok[OF keys, of "\<lambda>g. g\<lparr>gr_status := GRevoked, gr_revoked_at := Some now, gr_revoke_reason := Some how\<rparr>"]
    by (simp add: end_grant_def)
  have same: "revoke_external app g' answer = revoke_external app g answer" using look by (simp add: revoke_external_def)
  have no_end: "end_grant gid (Revoked_end how) now s \<noteq> Inr (y, s')" for how y
  proof
    assume e: "end_grant gid (Revoked_end how) now s = Inr (y, s')"
    have "grants.keys_ok s'"
        "grants.look gid s' = Some (g\<lparr>gr_status := GRevoked, gr_revoked_at := Some now, gr_revoke_reason := Some how\<rparr>)"
      using moves[OF e] keys grants.look_key[OF look(1)] by auto
    with grants.in_look[of s' g'] g' show False by auto
  qed
  have "\<not> is_ok (revoke_external app g answer) \<and> s' = snd (run_tx (expire_now gid now) s)
      \<or> (\<exists>how y. end_grant gid (Revoked_end how) now s = Inr (y, s'))
      \<or> s' = s \<and> (\<exists>how. \<nexists>y t. end_grant gid (Revoked_end how) now s = Inr (Inr y, t))"
    using revoke_grant_cases[OF run] look by simp
  then have left: "\<not> is_ok (revoke_external app g answer)" "s' = snd (run_tx (expire_now gid now) s)" using no_end total by blast+
  define f where "f = (\<lambda>h :: grant_row. if gr_id h = gid \<and> gr_status h = GActive then h\<lparr>gr_expires_at := min (gr_expires_at h) now\<rparr> else h)"
  have "db_grants s' = map f (db_grants s)"
    unfolding left(2) f_def by (simp add: run_tx_def expire_now_def touch_grants_def tx_bind_def update_grants_def)
  then obtain h where "g' = f h" using g'(1) by auto
  with g'(2,3) have "gr_expires_at g' \<le> now" by (cases "gr_id h = gid \<and> gr_status h = GActive") (simp_all add: f_def)
  with left(1) same show ?thesis by simp
qed

section \<open>The loops\<close>

abbreviation at_db :: "broker \<Rightarrow> db \<Rightarrow> broker" where
  "at_db b s \<equiv> b\<lparr>br_db := s\<rparr>"

lemma reach_store: "broker_reach app (at_db b s) \<Longrightarrow> store_ok s"
  using reach_ok[of app "at_db b s"] by simp

lemma reach_steps:
  assumes "broker_reach app (at_db b s)"
  shows "decide_inner app i (Decider_containment w) None (deny_decision reason) rid gid now clock s = Inr (o1, s') \<Longrightarrow> broker_reach app (at_db b s')"
    and "reap_one app g answer why now s = Inr (o2, s') \<Longrightarrow> broker_reach app (at_db b s')"
    and "revoke_grant app g text_of w answer now s = (o3, s') \<Longrightarrow> broker_reach app (at_db b s')"
    and "expire_now g now s = Inr (o4, s') \<Longrightarrow> broker_reach app (at_db b s')"
    and "expire_now_of_agent a now s = Inr (o5, s') \<Longrightarrow> broker_reach app (at_db b s')"
    and "other_writes s s' \<Longrightarrow> broker_reach app (at_db b s')"
proof -
  have go: "broker_reach app (at_db b s')" if "broker_step app (at_db b s) ((at_db b s)\<lparr>br_db := s'\<rparr>)"
    using broker_reach.next_step[OF assms that] by simp
  show "decide_inner app i (Decider_containment w) None (deny_decision reason) rid gid now clock s = Inr (o1, s') \<Longrightarrow> broker_reach app (at_db b s')"
    by (rule go, rule broker_step.contained) simp
  show "reap_one app g answer why now s = Inr (o2, s') \<Longrightarrow> broker_reach app (at_db b s')"
    by (rule go, rule broker_step.reaped) simp
  show "revoke_grant app g text_of w answer now s = (o3, s') \<Longrightarrow> broker_reach app (at_db b s')"
    by (rule go, rule broker_step.revoked) simp
  show "expire_now g now s = Inr (o4, s') \<Longrightarrow> broker_reach app (at_db b s')"
    by (rule go, rule broker_step.cut_short) simp
  show "expire_now_of_agent a now s = Inr (o5, s') \<Longrightarrow> broker_reach app (at_db b s')"
    by (rule go, rule broker_step.cut_short_all) simp
  show "other_writes s s' \<Longrightarrow> broker_reach app (at_db b s')"
    by (rule go, rule broker_step.elsewhere) simp
qed

lemma deny_each_less:
  assumes "broker_reach app (at_db b s)" "deny_each app reason w now is s = (x, s')"
  shows "broker_reach app (at_db b s') \<and> only_less s s'"
  using assms
proof (induction "is" arbitrary: s x)
  case (Cons i "is")
  define m where "m = decide_inner app i (Decider_containment w) None (deny_decision reason) (RuleId 0) (GrantId []) now now"
  show ?case
  proof (cases "m s")
    case (Inl e)
    with Cons show ?thesis by (cases e) (auto simp: run_tx_def m_def[symmetric])
  next
    case (Inr gt)
    obtain g t where gt: "gt = (g, t)" by (cases gt)
    have one: "broker_reach app (at_db b t)" "only_less s t"
      using reach_steps(1)[OF Cons.prems(1)] deny_one[of s] reach_store[OF Cons.prems(1)] Inr gt
      by (auto simp: m_def store_ok_def)
    obtain y where "deny_each app reason w now is t = (y, s')"
      using Cons.prems(2) Inr gt by (auto simp: run_tx_def m_def[symmetric] split: prod.splits)
    with Cons.IH[OF one(1)] only_less_trans[OF one(2)] show ?thesis by blast
  qed
qed simp

lemma reap_each_less:
  assumes "broker_reach app (at_db b s)" "reap_each app answers why now is s = (x, s')"
  shows "broker_reach app (at_db b s') \<and> only_less s s'"
  using assms
proof (induction "is" arbitrary: s x)
  case (Cons i "is")
  show ?case
  proof (cases "reap_one app i (answers i) why now s")
    case (Inl e)
    with Cons show ?thesis by (simp add: run_tx_def)
  next
    case (Inr gt)
    obtain g t where gt: "gt = (g, t)" by (cases gt)
    have one: "broker_reach app (at_db b t)" "only_less s t"
      using reach_steps(2)[OF Cons.prems(1)] reap_one_less[OF reach_store[OF Cons.prems(1)]] Inr gt by auto
    obtain y where "reap_each app answers why now is t = (y, s')"
      using Cons.prems(2) Inr gt by (auto simp: run_tx_def split: option.splits prod.splits)
    with Cons.IH[OF one(1)] only_less_trans[OF one(2)] show ?thesis by blast
  qed
qed simp

definition left_active :: "app_state \<Rightarrow> (grant_id \<Rightarrow> (provision_error, unit) result) \<Rightarrow> grant_row \<Rightarrow> bool" where
  "left_active app answers g = (gr_status g = GActive \<and> \<not> is_ok (revoke_external app g (answers (gr_id g))))"

lemma left_active_back: "no_more g g' \<Longrightarrow> gr_status g' = GActive \<Longrightarrow> (gr_status g = GActive \<Longrightarrow> left_active app answers g) \<Longrightarrow> left_active app answers g'"
  by (auto simp: left_active_def no_more_def revoke_external_def split: if_splits)

lemma revoke_held_less:
  assumes "broker_reach app (at_db b s)" "revoke_held app answers why w now gs s = (n, s')"
  shows "broker_reach app (at_db b s') \<and> only_less s s'
    \<and> (\<forall>g \<in> set (db_grants s'). gr_id g \<in> set gs \<longrightarrow> gr_status g = GActive \<longrightarrow> left_active app answers g)"
  using assms
proof (induction gs arbitrary: s n)
  case (Cons i gs)
  obtain r t where rt: "revoke_grant app i why w (answers i) now s = (r, t)" by fastforce
  obtain k where rest: "revoke_held app answers why w now gs t = (k, s')"
    using Cons.prems(2) rt by (auto simp: Let_def split: prod.splits)
  note ok = reach_store[OF Cons.prems(1)]
  note IH = Cons.IH[OF reach_steps(3)[OF Cons.prems(1) rt] rest]
  have less: "only_less s s'" using only_less_trans[OF revoke_grant_less[OF ok rt]] IH by blast
  have "left_active app answers g'" if g': "g' \<in> set (db_grants s')" "gr_id g' = i" "gr_status g' = GActive" for g'
  proof -
    obtain g where g: "g \<in> set (db_grants t)" "no_more g g'" using IH g'(1) by (auto simp: only_less_def grants_no_more_def)
    have "left_active app answers g" if "gr_status g = GActive"
      using revoke_grant_leaves[OF ok rt g(1)] g g'(2) that by (auto simp: left_active_def no_more_def)
    with left_active_back[OF g(2) g'(3)] show ?thesis by blast
  qed
  with IH less show ?case by auto
qed simp

lemma close_threads_Ok:
  "\<exists>n s'. close_threads held now s = (n, s') \<and> other_writes s s' \<and> db_agents s' = db_agents s \<and> db_entries s' = db_entries s
     \<and> (\<forall>t \<in> set (db_threads s'). th_state t = Closed_thread \<or> t \<in> set (db_threads s) \<and> (\<forall>a \<in> set held. \<not> involves (ag_id a) t))"
proof (induction held arbitrary: s)
  case (Cons a held)
  define P where "P = (\<lambda>t. th_state t \<noteq> Closed_thread \<and> involves (ag_id a) t)"
  define u where "u = set_threads P (closed_row Close_closed None (Some ''contained'') now) s"
  have "close_all_for (ag_id a) ''contained'' now s = Inr (map (closed_row Close_closed None (Some ''contained'') now) (filter P (db_threads s)), u)"
    by (simp add: close_all_for_def P_def u_def)
  then have one: "run_tx (close_all_for (ag_id a) ''contained'' now) s
      = (Inr (map (closed_row Close_closed None (Some ''contained'') now) (filter P (db_threads s))), u)"
    by (simp add: run_tx_def)
  have rows: "th_state t = Closed_thread \<or> t \<in> set (db_threads s) \<and> \<not> involves (ag_id a) t" if "t \<in> set (db_threads u)" for t
    using that by (auto simp: u_def set_threads_def P_def closed_row_def split: if_splits)
  obtain n s' where "close_threads held now u = (n, s')" "other_writes u s'" "db_agents s' = db_agents u" "db_entries s' = db_entries u"
     "\<forall>t \<in> set (db_threads s'). th_state t = Closed_thread \<or> t \<in> set (db_threads u) \<and> (\<forall>a \<in> set held. \<not> involves (ag_id a) t)"
    using Cons.IH[of u] by blast
  with one rows show ?case by (fastforce simp: u_def other_writes_def)
qed (simp add: other_writes_def)

section \<open>Containment\<close>

lemma expire_all_Ok:
  assumes "broker_reach app (at_db b s)" "expire_all_of as now s = Inr (x, s')"
  shows "broker_reach app (at_db b s') \<and> only_less s s'
    \<and> (\<forall>g \<in> set (db_grants s'). gr_agent g \<in> ag_id ` set as \<longrightarrow> gr_status g = GActive \<longrightarrow> gr_expires_at g \<le> now)"
  using assms
proof (induction as arbitrary: s x)
  case (Cons a as)
  obtain n t where one: "expire_now_of_agent (ag_id a) now s = Inr (n, t)" and rest: "expire_all_of as now t = Inr (x, s')"
    using Cons.prems(2) by auto
  have t: "t = update_grants (\<lambda>g. gr_agent g = ag_id a \<and> gr_status g = GActive) (\<lambda>g. g\<lparr>gr_expires_at := min (gr_expires_at g) now\<rparr>) s"
    using one by (simp add: expire_now_of_agent_def touch_grants_Ok)
  have less: "only_less s t" by (force simp: t only_less_def grants_no_more_def update_grants_def no_more_def)
  have cut: "gr_expires_at g \<le> now" if "g \<in> set (db_grants t)" "gr_agent g = ag_id a" "gr_status g = GActive" for g
    using that by (auto simp: t update_grants_def split: if_splits)
  note IH = Cons.IH[OF reach_steps(5)[OF Cons.prems(1) one] rest]
  have "gr_expires_at g' \<le> now" if g': "g' \<in> set (db_grants s')" "gr_agent g' = ag_id a" "gr_status g' = GActive" for g'
  proof -
    obtain g where "g \<in> set (db_grants t)" "no_more g g'" using IH g'(1) by (auto simp: only_less_def grants_no_more_def)
    with cut[of g] g' show ?thesis by (auto simp: no_more_def)
  qed
  with IH only_less_trans[OF less] show ?case by auto
qed simp

lemma contain_record_Ok:
  assumes "broker_reach app (at_db b s)" "contain_record e s = Inr (out, s')"
  shows "broker_reach app (at_db b s') \<and> grants_no_more s s'
    \<and> (\<forall>entry held. out = Inr (entry, held) \<longrightarrow>
         entry = e \<and> held = held_by (ce_match e) (list_agents s) \<and> db_agents s' = db_agents s \<and> e \<in> set (db_entries s')
         \<and> (\<forall>g \<in> set (db_grants s'). gr_agent g \<in> ag_id ` set held \<longrightarrow> gr_status g = GActive \<longrightarrow> gr_expires_at g \<le> ce_at e))"
proof (cases "cont_parse (ce_match e)")
  case (Inl m)
  with assms show ?thesis by (auto simp: contain_record_def record_entry_def grants_no_more_def intro: no_more_refl)
next
  case (Inr m)
  define t where "t = s\<lparr>db_entries := db_entries s @ [e]\<rparr>"
  have same: "list_agents t = list_agents s" by (simp add: t_def list_agents_def)
  obtain u where run: "expire_all_of (held_by (ce_match e) (list_agents s)) (ce_at e) t = Inr (u, s')"
      and out: "out = Inr (e, held_by (ce_match e) (list_agents s))"
    using assms(2) Inr same by (auto simp: contain_record_def record_entry_def t_def[symmetric])
  have "broker_reach app (at_db b t)" by (rule reach_steps(6)[OF assms(1)]) (simp add: other_writes_def t_def)
  from expire_all_Ok[OF this run] show ?thesis by (auto simp: out only_less_def t_def grants_no_more_def)
qed

lemma follow_up_Ok:
  assumes "broker_reach app (at_db b s)" "follow_up app answers held reason w now s = (x, s')"
  shows "broker_reach app (at_db b s') \<and> db_agents s' = db_agents s \<and> db_entries s' = db_entries s \<and> grants_no_more s s'
    \<and> (\<forall>g \<in> set (db_grants s'). gr_agent g \<in> ag_id ` set held \<longrightarrow> gr_status g = GActive \<longrightarrow> left_active app answers g)
    \<and> (\<forall>t \<in> set (db_threads s'). \<forall>a \<in> set held. involves (ag_id a) t \<longrightarrow> th_state t = Closed_thread)"
proof -
  define ids where "ids = map ag_id held"
  define why where "why = ''contained: '' @ cut reason 120"
  obtain d s1 where d: "deny_pending app ids why w now s = (d, s1)" by fastforce
  define s2 where "s2 = reap_provisioning_of app answers ids now s1"
  obtain n s3 where r: "revoke_held app answers why w now (active_of_agents ids s2) s2 = (n, s3)" by fastforce
  obtain c where c: "close_threads held now s3 = (c, s')"
    using assms(2) d r close_threads_Ok[of held now s3]
    by (auto simp: follow_up_def ids_def why_def s2_def Let_def)
  have s1: "broker_reach app (at_db b s1) \<and> only_less s s1"
    using deny_each_less[OF assms(1)] d assms(1) by (auto simp: deny_pending_def split: if_splits)
  have s2: "broker_reach app (at_db b s2) \<and> only_less s1 s2"
    using reap_each_less[OF conjunct1[OF s1]] unfolding s2_def reap_provisioning_of_def by (metis prod.collapse)
  note s3 = revoke_held_less[OF conjunct1[OF s2] r]
  have closed: "other_writes s3 s' \<and> db_agents s' = db_agents s3 \<and> db_entries s' = db_entries s3
     \<and> (\<forall>t \<in> set (db_threads s'). th_state t = Closed_thread \<or> t \<in> set (db_threads s3) \<and> (\<forall>a \<in> set held. \<not> involves (ag_id a) t))"
    using close_threads_Ok[of held now s3] c by auto
  have less: "only_less s s3" using s1 s2 s3 only_less_trans by blast
  have "left_active app answers g'" if g': "g' \<in> set (db_grants s3)" "gr_agent g' \<in> ag_id ` set held" "gr_status g' = GActive" for g'
  proof -
    obtain g where g: "g \<in> set (db_grants s2)" "no_more g g'" using s3 g'(1) by (auto simp: only_less_def grants_no_more_def)
    then have "gr_id g' \<in> set (active_of_agents ids s2)" using g' by (force simp: active_of_agents_def ids_def no_more_def)
    with s3 g' show ?thesis by blast
  qed
  with closed less reach_steps(6)[OF conjunct1[OF s3]] show ?thesis
    by (auto simp: only_less_def other_writes_def grants_no_more_def)
qed

lemma contain_Ok:
  assumes "contain app answers i entry reason evidence w from now later s = (Inr (e, names, x), s')"
  obtains held t where "contain_record \<lparr>ce_id = i, ce_match = entry, ce_reason = cut reason 500, ce_evidence = cut evidence 4000,
      ce_by = w, ce_source = from, ce_at = now\<rparr> s = Inr (Inr (e, held), t)"
    "follow_up app answers held (cut reason 500) w later t = (x, s')" "names = map ag_name held"
  using assms by (auto simp: contain_def Let_def run_tx_def split: sum.splits prod.splits)

text \<open>C5: Containment takes hold. When the broker has contained on an entry, in any state it can reach, with nothing
  else between, and whatever the provisioners answered: it named exactly the agents the entry holds, themselves or through whoever minted them;
  each of them is refused by the containment check from then on; none of their grants is active unless its
  provisioner failed to take it back, and such a grant has ended by the moment of containment; all their threads
  are closed; and the whole was a sequence of steps of the broker, so that everything that holds of its
  histories holds across it.\<close>

theorem containment_takes_hold:
  assumes "broker_reach app b" "distinct (map ag_id (db_agents (br_db b)))"
    and "contain app answers i entry reason evidence w from now later (br_db b) = (Inr (e, names, x), s')"
  shows "broker_reach app (b\<lparr>br_db := s'\<rparr>) \<and> set names = ag_name ` {a \<in> set (db_agents s'). held_now entry a s'}
    \<and> (\<forall>a \<in> set (db_agents s'). held_now entry a s' \<longrightarrow>
         holding a s' \<noteq> None
         \<and> (\<forall>g \<in> set (db_grants s'). gr_agent g = ag_id a \<longrightarrow> gr_status g = GActive \<longrightarrow>
              gr_expires_at g \<le> now \<and> \<not> is_ok (revoke_external app g (answers (gr_id g))))
         \<and> (\<forall>t \<in> set (db_threads s'). involves (ag_id a) t \<longrightarrow> th_state t = Closed_thread))"
proof -
  from contain_Ok[OF assms(3)] obtain held t where
    rec: "contain_record \<lparr>ce_id = i, ce_match = entry, ce_reason = cut reason 500, ce_evidence = cut evidence 4000,
      ce_by = w, ce_source = from, ce_at = now\<rparr> (br_db b) = Inr (Inr (e, held), t)"
    and fol: "follow_up app answers held (cut reason 500) w later t = (x, s')" and names: "names = map ag_name held" .
  have "broker_reach app (at_db b (br_db b))" using assms(1) by simp
  note r = contain_record_Ok[OF this rec, simplified]
  note f = follow_up_Ok[OF conjunct1[OF r] fol]
  have keys: "agents.keys_ok (br_db b)" using assms(2) by (simp add: agents.keys_ok_def)
  have "db_agents s' = db_agents (br_db b)" using r f by simp
  then have held: "set held = {a \<in> set (db_agents s'). held_now entry a s'}"
    using held_by_exact[OF keys, of entry] held_now_cong[of s' "br_db b" entry] r by auto
  have e: "ce_match e = entry" "e \<in> set (db_entries s')" using r f by auto
  have "gr_expires_at g' \<le> now" if g': "g' \<in> set (db_grants s')" "gr_agent g' \<in> ag_id ` set held" "gr_status g' = GActive" for g'
  proof -
    obtain g where g: "g \<in> set (db_grants t)" "no_more g g'" using f g'(1) by (auto simp: grants_no_more_def)
    then have "gr_expires_at g \<le> now" using r g' by (auto simp: no_more_def)
    with g(2) show ?thesis by (simp add: no_more_def)
  qed
  with f e held names held_is_holding[of e _ s'] show ?thesis by (auto simp: left_active_def)
qed

lemma contain_parsed:
  assumes "cont_parse entry = Inr m" "\<not> list_ex (\<lambda>x. ce_id x = i) (db_entries s)"
  shows "\<exists>e names x s'. contain app answers i entry reason evidence w from now later s = (Inr (e, names, x), s')"
proof -
  have total: "\<exists>u s'. expire_all_of as now t = Inr (u, s')" for as t
    by (induction as arbitrary: t) (simp_all add: tx_bind_def expire_now_of_agent_def touch_grants_def)
  define rec where "rec = \<lparr>ce_id = i, ce_match = entry, ce_reason = cut reason 500, ce_evidence = cut evidence 4000, ce_by = w,
    ce_source = from, ce_at = now\<rparr>"
  define t where "t = s\<lparr>db_entries := db_entries s @ [rec]\<rparr>"
  obtain u s' where "expire_all_of (held_by entry (list_agents t)) now t = Inr (u, s')" using total by blast
  then have "contain_record rec s = Inr (Inr (rec, held_by entry (list_agents t)), s')"
    using assms by (simp add: contain_record_def record_entry_def rec_def t_def tx_bind_def tx_unless_def)
  then show ?thesis by (simp add: contain_def rec_def[symmetric] run_tx_def split: prod.split)
qed

theorem containment_takes_hold_witness:
  "\<exists>e x s'. contain sample_app (\<lambda>_. Inr ()) ''c'' (JObj []) ''odd'' [] ''me'' From_operator 9 9 (br_db sample_active) = (Inr (e, [''ci''], x), s')
     \<and> holding sample_agent s' \<noteq> None \<and> \<not> list_ex (\<lambda>g. gr_agent g = AgentId ''a'' \<and> gr_status g = GActive) (db_grants s')"
proof -
  have active: "db_agents (br_db sample_active) = [sample_agent, sample_operator]" "db_entries (br_db sample_active) = []"
    "db_grants (br_db sample_active) = [sample_grant\<lparr>gr_status := GActive\<rparr>]"
    by (simp_all add: sample_active_def sample_rows)
  have "cont_parse (JObj []) = Inr everyone" by code_simp
  then obtain e names x s' where run: "contain sample_app (\<lambda>_. Inr ()) ''c'' (JObj []) ''odd'' [] ''me'' From_operator 9 9 (br_db sample_active)
      = (Inr (e, names, x), s')"
    using contain_parsed[of "JObj []" everyone "''c''" "br_db sample_active"] by (fastforce simp: active)
  from contain_Ok[OF run] obtain held t where rec: "contain_record \<lparr>ce_id = ''c'', ce_match = JObj [], ce_reason = cut ''odd'' 500,
      ce_evidence = cut [] 4000, ce_by = ''me'', ce_source = From_operator, ce_at = 9\<rparr> (br_db sample_active) = Inr (Inr (e, held), t)"
    "names = map ag_name held" and fol: "follow_up sample_app (\<lambda>_. Inr ()) held (cut ''odd'' 500) ''me'' 9 t = (x, s')" by blast
  have "broker_reach sample_app (at_db sample_active (br_db sample_active))" using sample_reach(3) by simp
  note r = contain_record_Ok[OF this rec(1), simplified]
  have held: "held_by (JObj []) (list_agents (br_db sample_active)) = [sample_agent]"
    by (simp add: list_agents_def active held_by_def sample_agent_def sample_operator_def Containment.holds_def facts_with_def)
  have names: "names = [''ci'']" using r held rec(2) by (simp add: sample_agent_def)
  have keys: "distinct (map ag_id (db_agents (br_db sample_active)))" by (simp add: active sample_agent_def sample_operator_def)
  note main = containment_takes_hold[OF sample_reach(3) keys run]
  have "db_agents s' = [sample_agent, sample_operator]" using r follow_up_Ok[OF conjunct1[OF r] fol] by (simp add: active)
  moreover have "held_now (JObj []) sample_agent s'" by (simp add: held_now_def Containment.holds_def facts_with_def sample_agent_def)
  ultimately have "holding sample_agent s' \<noteq> None \<and> (\<forall>g \<in> set (db_grants s'). gr_agent g = AgentId ''a'' \<longrightarrow> gr_status g = GActive \<longrightarrow>
      \<not> is_ok (revoke_external sample_app g (Inr ())))"
    using main by (simp add: sample_rows)
  moreover have "gr_platform g = Google" if g: "g \<in> set (db_grants s')" for g
  proof -
    have "grants_no_more t s'" using follow_up_Ok[OF conjunct1[OF r] fol] by blast
    then obtain h where h: "h \<in> set (db_grants t)" "gr_platform g = gr_platform h" using g by (auto simp: grants_no_more_def no_more_def)
    have "grants_no_more (br_db sample_active) t" using r by blast
    with h(1) have "gr_platform h = Google" by (auto simp: grants_no_more_def no_more_def active sample_grant_def)
    with h(2) show ?thesis by simp
  qed
  ultimately show ?thesis using run names by (auto simp: revoke_external_def sample_app_def list_ex_iff)
qed

section \<open>The sweep\<close>

lemma sweep_each_Ok:
  assumes "broker_reach app (at_db b s)" "sweep_each app answers now gs s = (n, s')"
  shows "broker_reach app (at_db b s') \<and> only_less s s'
    \<and> (\<forall>g \<in> set (db_grants s'). gr_id g \<in> fst ` set gs \<longrightarrow> gr_status g = GActive \<longrightarrow> gr_expires_at g \<le> now)"
  using assms
proof (induction gs arbitrary: s n)
  case (Cons p gs)
  obtain i why where p: "p = (i, why)" by (cases p)
  obtain r t where rt: "revoke_grant app i why ''containment'' (answers i) now s = (r, t)" by fastforce
  note ok = reach_store[OF Cons.prems(1)]
  have t: "broker_reach app (at_db b t)" "only_less s t" using reach_steps(3)[OF Cons.prems(1) rt] revoke_grant_less[OF ok rt] by auto
  define u where "u = snd (run_tx (expire_now i now) t)"
  have "expire_now i now t = Inr (fst (projr (expire_now i now t)), u)"
    by (simp add: u_def run_tx_def expire_now_def touch_grants_def tx_bind_def)
  then have u: "broker_reach app (at_db b u)" "only_less t u"
    using reach_steps(4)[OF t(1)] expire_now_frame evolve_no_more[OF expire_now_evolve] by (auto simp: only_less_def)
  obtain v k where v: "v = t \<or> v = u" and rest: "sweep_each app answers now gs v = (k, s')"
    using Cons.prems(2) rt by (auto simp: p u_def split: sum.splits service_error.splits prod.splits)
  have vt: "broker_reach app (at_db b v)" "only_less t v" using v t u by auto
  note IH = Cons.IH[OF vt(1) rest]
  have less: "only_less t s'" using only_less_trans[OF vt(2)] IH by blast
  have "gr_expires_at g' \<le> now" if g': "g' \<in> set (db_grants s')" "gr_id g' = i" "gr_status g' = GActive" for g'
  proof -
    obtain g where g: "g \<in> set (db_grants t)" "no_more g g'" using less g'(1) by (auto simp: only_less_def grants_no_more_def)
    have "gr_expires_at g \<le> now" using revoke_grant_leaves[OF ok rt g(1)] g g' by (auto simp: no_more_def)
    with g(2) show ?thesis by (simp add: no_more_def)
  qed
  with IH only_less_trans[OF t(2) less] show ?case by (auto simp: p)
qed simp

lemma sweep_held_less:
  assumes "broker_reach app (at_db b s)"
  shows "only_less s (snd (sweep_held app answers now s))"
  using sweep_each_Ok[OF assms, of answers now "sweep_found s"]
  by (cases "sweep_each app answers now (sweep_found s) s") (simp add: sweep_held_def)

lemma holding_not_operator: "holding a s \<noteq> None \<Longrightarrow> ag_kind a \<noteq> Operator"
  by (auto simp: holding_def first_holding_def find_Some_iff Containment.holds_def facts_with_def)

lemma sweep_found_all:
  assumes "agents.keys_ok s" "a \<in> set (db_agents s)" "holding a s \<noteq> None"
    and "g \<in> set (db_grants s)" "gr_agent g = ag_id a" "gr_status g = GActive"
  shows "gr_id g \<in> fst ` set (sweep_found s)"
proof -
  have chain: "chain_in a (\<lambda>i. find (\<lambda>b. ag_id b = i) (list_agents s)) = chain a s"
    by (simp add: chain_in_def chain_def found_in_list[OF assms(1)])
  obtain e where e: "first_holding (db_entries s) ce_match (facts_with a (map facts (chain a s))) = Some e"
    using assms(3) by (auto simp: holding_def)
  have "gr_id g \<in> set (active_of_agents [ag_id a] s)" using assms(4-6) by (auto simp: active_of_agents_def)
  then have "(gr_id g, held_text e) \<in> set (sweep_found s)"
    using assms(2) holding_not_operator[OF assms(3)] chain e by (force simp: sweep_found_def Let_def list_agents_def)
  then show ?thesis by force
qed

text \<open>C6: The sweep leaves nothing live to anyone held. After a pass of the scheduler's sweep over any state the broker can
  reach, whatever entries there are and whatever the provisioners answer, no grant of an agent an entry holds
  lasts beyond the moment of the sweep, and nothing else was gained on the way.\<close>

theorem sweep_ends_what_is_held:
  assumes "broker_reach app b" "distinct (map ag_id (db_agents (br_db b)))"
    and "sweep_held app answers now (br_db b) = (n, s')"
  shows "broker_reach app (b\<lparr>br_db := s'\<rparr>)
    \<and> (\<forall>a \<in> set (db_agents s'). holding a s' \<noteq> None \<longrightarrow>
         (\<forall>g \<in> set (db_grants s'). gr_agent g = ag_id a \<longrightarrow> gr_status g = GActive \<longrightarrow> gr_expires_at g \<le> now))
    \<and> (\<forall>g' \<in> set (db_grants s'). \<exists>g \<in> set (db_grants (br_db b)). no_more g g')"
proof (cases "db_entries (br_db b) = []")
  case True
  with assms show ?thesis by (auto simp: sweep_held_def holding_def first_holding_def intro: no_more_refl)
next
  case False
  have keys: "agents.keys_ok (br_db b)" using assms(2) by (simp add: agents.keys_ok_def)
  have "sweep_each app answers now (sweep_found (br_db b)) (br_db b) = (n, s')" using assms(3) False by (simp add: sweep_held_def)
  from sweep_each_Ok[OF _ this, of b] assms(1) have s: "broker_reach app (at_db b s')" "only_less (br_db b) s'"
    "\<forall>g \<in> set (db_grants s'). gr_id g \<in> fst ` set (sweep_found (br_db b)) \<longrightarrow> gr_status g = GActive \<longrightarrow> gr_expires_at g \<le> now"
    by simp_all
  have hold: "holding a s' = holding a (br_db b)" for a
    using s(2) by (simp add: holding_def chain_def find_agent_def only_less_def)
  have "gr_expires_at g' \<le> now" if a: "a \<in> set (db_agents s')" "holding a s' \<noteq> None"
    and g': "g' \<in> set (db_grants s')" "gr_agent g' = ag_id a" "gr_status g' = GActive" for a g'
  proof -
    obtain g where "g \<in> set (db_grants (br_db b))" "no_more g g'" using s(2) g'(1) by (auto simp: only_less_def grants_no_more_def)
    then have "gr_id g' \<in> fst ` set (sweep_found (br_db b))"
      using sweep_found_all[OF keys, of a g] a g' s(2) hold by (auto simp: only_less_def no_more_def)
    with s(3) g' show ?thesis by blast
  qed
  with s show ?thesis by (auto simp: only_less_def grants_no_more_def)
qed

theorem sweep_ends_what_is_held_witness:
  "holding sample_agent (br_db sample_contained) \<noteq> None
   \<and> \<not> list_ex (\<lambda>g. gr_status g = GActive \<and> 9 < gr_expires_at g)
       (db_grants (snd (sweep_held sample_app (\<lambda>_. Inl NotImplemented) 9 (br_db sample_contained))))"
proof -
  define out where "out = sweep_held sample_app (\<lambda>_. Inl NotImplemented) 9 (br_db sample_contained)"
  have agents: "db_agents (br_db sample_contained) = [sample_agent, sample_operator]"
    by (simp add: sample_contained_def sample_active_def sample_rows)
  then have keys: "distinct (map ag_id (db_agents (br_db sample_contained)))" by (simp add: sample_agent_def sample_operator_def)
  have reach: "broker_reach sample_app sample_contained" by (rule broker_reach.next_step[OF sample_reach(3) broker_contains])
  note main = sweep_ends_what_is_held[OF reach keys, of "\<lambda>_. Inl NotImplemented" 9 "fst out" "snd out", folded out_def, simplified]
  have less: "only_less (br_db sample_contained) (snd out)"
    using sweep_held_less[of sample_app "br_db sample_contained" sample_contained] reach by (simp add: out_def)
  then have "db_agents (snd out) = db_agents (br_db sample_contained)" "holding sample_agent (snd out) = holding sample_agent (br_db sample_contained)"
    by (simp_all add: only_less_def holding_def chain_def find_agent_def)
  moreover have "gr_agent g = AgentId ''a''" if "g \<in> set (db_grants (snd out))" for g
    using that less by (auto simp: only_less_def grants_no_more_def no_more_def sample_contained_def sample_active_def sample_grant_def)
  ultimately show ?thesis using main agents sample_held(2) sample_rows(6) by (fastforce simp: out_def[symmetric] list_ex_iff)
qed

section \<open>Entries that hold everyone\<close>

definition lead_agent :: agent_row where
  "lead_agent = sample_agent\<lparr>ag_name := ''lead'', ag_kind := Ephemeral\<rparr>"

definition minted_agent :: agent_row where
  "minted_agent = sample_agent\<lparr>ag_id := AgentId ''b'', ag_name := ''worker'', ag_kind := Ephemeral, ag_parent := Some (AgentId ''a'')\<rparr>"

definition lead_db :: db where
  "lead_db = (br_db broker_init)\<lparr>db_agents := [lead_agent, minted_agent, sample_operator]\<rparr>"

definition lead_app :: app_state where
  "lead_app = sample_app\<lparr>app_policy := sample_policy\<lparr>pol_containment := \<lparr>ct_agents = [agent_pattern.Name (Glob ''worker'')], ct_allow_all = False\<rparr>\<rparr>\<rparr>"

lemma contain_names:
  assumes "contain app answers i entry reason evidence w from now later s = (Inr (e, names, x), s')"
  shows "names = map ag_name (held_by entry (list_agents s))"
proof -
  have "held = held_by (ce_match r) (list_agents s)" if "contain_record r s = Inr (Inr (e, held), t)" for r held t
    using that by (auto simp: contain_record_def record_entry_def list_agents_def split: sum.splits)
  with contain_Ok[OF assms] show ?thesis by (metis containment_entry.select_convs(2))
qed

text \<open>The check that keeps an agent from containing everyone looks at each agent's own attributes, where an entry holds
  an agent also through whoever minted it. With two agents, one minted by the other, and a policy that lets the
  second contain but not everyone at once, its entry on the first's name is taken and holds both.\<close>

theorem everyone_held_through_their_parent:
  "\<not> ct_allow_all (pol_containment (app_policy lead_app))
   \<and> filter (\<lambda>a. ag_kind a \<noteq> Operator) (db_agents lead_db) = [lead_agent, minted_agent]
   \<and> (\<exists>e x s'. agent_contain lead_app answers minted_agent ''c'' [(''name'', JStr ''lead'')] reason evidence now later lead_db
        = (Inr (e, [''lead'', ''worker''], x), s'))"
proof (intro conjI)
  have narrow: "\<not> holds_everyone (JObj [(''name'', JStr ''lead'')]) lead_db" by code_simp
  have glob: "glob_matches (Glob ''worker'') ''worker''" by code_simp
  have allowed: "contain_allowed (app_policy lead_app) minted_agent"
    using glob by (simp add: contain_allowed_def lead_app_def agent_ref_of_def minted_agent_def)
  have names: "map ag_name (held_by (JObj [(''name'', JStr ''lead'')]) (list_agents lead_db)) = [''lead'', ''worker'']" by code_simp
  have "is_ok (cont_parse (JObj [(''name'', JStr ''lead'')]))" by code_simp
  then obtain m where "cont_parse (JObj [(''name'', JStr ''lead'')]) = Inr m" by (cases "cont_parse (JObj [(''name'', JStr ''lead'')])") auto
  moreover have "\<not> list_ex (\<lambda>x. ce_id x = ''c'') (db_entries lead_db)" by (simp add: lead_db_def broker_init_def)
  ultimately obtain e ns x s' where run: "contain lead_app answers ''c'' (JObj [(''name'', JStr ''lead'')]) reason evidence (ag_name minted_agent) From_agent
      now later lead_db = (Inr (e, ns, x), s')" using contain_parsed by blast
  then show "\<exists>e x s'. agent_contain lead_app answers minted_agent ''c'' [(''name'', JStr ''lead'')] reason evidence now later lead_db
        = (Inr (e, [''lead'', ''worker''], x), s')"
    using contain_names[OF run] names narrow allowed by (simp add: agent_contain_def)
  show "\<not> ct_allow_all (pol_containment (app_policy lead_app))" by (simp add: lead_app_def)
  show "filter (\<lambda>a. ag_kind a \<noteq> Operator) (db_agents lead_db) = [lead_agent, minted_agent]"
    by (simp add: lead_db_def lead_agent_def minted_agent_def sample_agent_def sample_operator_def)
qed

lemma default_is_everyone: "match_matches_everyone default_match"
  by code_simp

text \<open>What an entry that does not mean everyone holds, by the agents' own attributes and by their ancestors'.\<close>

lemma own_match:
  assumes "json_ok (JObj entry)" "agent_match_from_value (JObj entry) = Inr m" "\<not> match_matches_everyone m" "ag_kind a \<noteq> Operator"
  shows "Containment.holds (JObj entry) (facts a) = agent_match_matches m (agent_ref_of a)"
    and "held_now (JObj entry) a s = (Containment.holds (JObj entry) (facts a)
     \<or> (\<exists>b \<in> set (chain a s). ag_kind b \<noteq> Operator \<and> Containment.holds (JObj entry) (facts b)))"
proof -
  have parsed: "cont_parse (JObj entry) = Inr m" using assms(1,2) cont_parse_agree by blast
  have "entry \<noteq> []" using assms(2,3) default_is_everyone by (auto simp: agent_match_from_value_def)
  then have entry: "\<not> is_falsy (JObj entry)" by (cases entry) simp_all
  have plain: "Containment.holds (JObj entry) (facts b) = (ag_kind b \<noteq> Operator \<and> cont_matches m (facts b))" for b
    using parsed entry by (simp add: Containment.holds_def facts_def)
  then show "Containment.holds (JObj entry) (facts a) = agent_match_matches m (agent_ref_of a)"
    using assms(4) by (simp add: cont_matches_agree facts_def facts_ref_def agent_ref_of_def)
  have "cont_matches m (facts_with a xs) = cont_matches m (facts a)" for xs
    by (simp add: cont_matches_def facts_def facts_with_def)
  then show "held_now (JObj entry) a s = (Containment.holds (JObj entry) (facts a)
     \<or> (\<exists>b \<in> set (chain a s). ag_kind b \<noteq> Operator \<and> Containment.holds (JObj entry) (facts b)))"
    using parsed entry assms(4) plain
    by (auto simp: held_now_def Containment.holds_def[of _ "facts_with a x" for x] list_ex_iff) (auto simp: facts_with_def facts_def)
qed

lemma contain_refused: "contain app answers i entry reason evidence w from now later s = (Inl x, s') \<Longrightarrow> s' = s"
proof -
  assume run: "contain app answers i entry reason evidence w from now later s = (Inl x, s')"
  define rec where "rec = \<lparr>ce_id = i, ce_match = entry, ce_reason = cut reason 500, ce_evidence = cut evidence 4000, ce_by = w,
    ce_source = from, ce_at = now\<rparr>"
  have stays: "t = s" if "contain_record rec s = Inr (Inl y, t)" for y t
    using that by (auto simp: contain_record_def record_entry_def split: sum.splits)
  show "s' = s"
  proof (cases "contain_record rec s")
    case (Inl e)
    with run show ?thesis by (simp add: contain_def rec_def run_tx_def)
  next
    case (Inr out)
    obtain o1 t where out: "out = (o1, t)" by (cases out)
    show ?thesis
    proof (cases o1)
      case (Inl y)
      with run Inr out stays show ?thesis by (simp add: contain_def rec_def[symmetric] run_tx_def)
    next
      case ok: (Inr rh)
      with run Inr out show ?thesis by (cases rh) (simp add: contain_def rec_def[symmetric] run_tx_def split: prod.splits)
    qed
  qed
qed

lemma not_everyone:
  assumes "\<not> holds_everyone (JObj entry) s" "agent_match_from_value (JObj entry) = Inr m"
    and "\<exists>a \<in> set (db_agents s). \<not> ag_disabled a \<and> ag_kind a \<noteq> Operator"
  shows "\<not> match_matches_everyone m
    \<and> (\<exists>a \<in> set (db_agents s). \<not> ag_disabled a \<and> ag_kind a \<noteq> Operator \<and> \<not> agent_match_matches m (agent_ref_of a))"
proof -
  have "filter (\<lambda>a. ag_kind a \<noteq> Operator) (filter (\<lambda>a. \<not> ag_disabled a) (db_agents s)) \<noteq> []"
    using assms(3) by (auto simp: filter_empty_conv)
  with assms(1,2) show ?thesis by (auto simp: holds_everyone_def Let_def list_all_iff split: if_splits)
qed

text \<open>C40: An agent that the policy lets contain, but not everyone at once, cannot contain everyone by what its entry says. When
  the entry is taken, the policy names the agent among those who may contain; and if there are enabled agents other than the
  operator, the entry's own match leaves one of them out, which it then holds only if it matches some agent
  that minted this one. An entry that is refused, for whatever reason, changes nothing.\<close>

theorem agents_cannot_contain_everyone:
  assumes "json_ok (JObj entry)" "\<not> ct_allow_all (pol_containment (app_policy app))"
    and "agent_contain app answers caller i entry reason evidence now later s = (out, s')"
  shows "case out of
      Inl refusal \<Rightarrow> s' = s
    | Inr (e, names, x) \<Rightarrow>
        contain_allowed (app_policy app) caller
        \<and> ((\<exists>a \<in> set (db_agents s). \<not> ag_disabled a \<and> ag_kind a \<noteq> Operator) \<longrightarrow>
            (\<exists>a \<in> set (db_agents s). \<not> ag_disabled a \<and> ag_kind a \<noteq> Operator
               \<and> \<not> Containment.holds (JObj entry) (facts a)
               \<and> held_now (JObj entry) a s = (\<exists>b \<in> set (chain a s). ag_kind b \<noteq> Operator \<and> Containment.holds (JObj entry) (facts b))))"
proof (cases out)
  case (Inl refusal)
  obtain y t where run: "contain app answers i (JObj entry) reason evidence (ag_name caller) From_agent now later s = (y, t)" by fastforce
  have "s' = s"
  proof (cases y)
    case (Inl e)
    with contain_refused[of app answers i "JObj entry"] run have "t = s" by blast
    with assms(3) run show ?thesis by (auto simp: agent_contain_def split: if_splits)
  next
    case (Inr v)
    with assms(3) run \<open>out = Inl refusal\<close> show ?thesis by (auto simp: agent_contain_def split: if_splits)
  qed
  with Inl show ?thesis by simp
next
  case (Inr r)
  obtain e names x where r: "r = (e, names, x)" by (cases r)
  obtain y t where run: "contain app answers i (JObj entry) reason evidence (ag_name caller) From_agent now later s = (y, t)" by fastforce
  have "y = Inr (e, names, x)" using assms(3) run Inr r by (cases y) (auto simp: agent_contain_def split: if_splits)
  with run assms(2,3) Inr have ok: "contain_allowed (app_policy app) caller" "\<not> holds_everyone (JObj entry) s"
    and "contain app answers i (JObj entry) reason evidence (ag_name caller) From_agent now later s = (Inr (e, names, x), t)"
    by (auto simp: agent_contain_def split: if_splits)
  then obtain m where "cont_parse (JObj entry) = Inr m"
    by (auto elim!: contain_Ok simp: contain_record_def record_entry_def split: sum.splits)
  then have m: "agent_match_from_value (JObj entry) = Inr m" using assms(1) cont_parse_agree by blast
  have "\<exists>a \<in> set (db_agents s). \<not> ag_disabled a \<and> ag_kind a \<noteq> Operator \<and> \<not> Containment.holds (JObj entry) (facts a)
      \<and> held_now (JObj entry) a s = (\<exists>b \<in> set (chain a s). ag_kind b \<noteq> Operator \<and> Containment.holds (JObj entry) (facts b))"
    if some: "\<exists>a \<in> set (db_agents s). \<not> ag_disabled a \<and> ag_kind a \<noteq> Operator"
  proof -
    note free = not_everyone[OF ok(2) m some]
    then obtain a where a: "a \<in> set (db_agents s)" "\<not> ag_disabled a" "ag_kind a \<noteq> Operator" "\<not> agent_match_matches m (agent_ref_of a)"
      by blast
    note own = own_match[OF assms(1) m conjunct1[OF free] a(3)]
    show ?thesis using a own(1) own(2)[of s] by (intro bexI[of _ a]) simp_all
  qed
  then show ?thesis using ok(1) Inr r by simp
qed

theorem agents_cannot_contain_everyone_witness:
  "\<exists>e x s'. agent_contain lead_app (\<lambda>_. Inr ()) minted_agent ''c'' [(''name'', JStr ''lead'')] ''odd'' [] 9 9 lead_db = (Inr (e, [''lead'', ''worker''], x), s')
     \<and> (\<exists>a \<in> set (db_agents lead_db). ag_kind a \<noteq> Operator \<and> \<not> Containment.holds (JObj [(''name'', JStr ''lead'')]) (facts a))"
proof -
  have json: "json_ok (JObj [(''name'', JStr ''lead'')])" and narrow: "\<not> ct_allow_all (pol_containment (app_policy lead_app))"
    by (simp_all add: lead_app_def)
  obtain e x s' where run: "agent_contain lead_app (\<lambda>_. Inr ()) minted_agent ''c'' [(''name'', JStr ''lead'')] ''odd'' [] 9 9 lead_db
      = (Inr (e, [''lead'', ''worker''], x), s')"
    using everyone_held_through_their_parent by blast
  have "\<exists>a \<in> set (db_agents lead_db). \<not> ag_disabled a \<and> ag_kind a \<noteq> Operator"
    by (simp add: lead_db_def lead_agent_def sample_agent_def)
  with agents_cannot_contain_everyone[OF json narrow run] run show ?thesis by auto
qed

end
