(* ===== verification/Spec2Isabelle.thy ===== *)
theory Spec2Isabelle
  imports Prelude Glob Lifecycle Pyfmt Json Pool Mail_Authority Authority Routing Durations Names Agents
    Hostexec Policy_Schema Policy_Mail Policy Zones Policy_Eval Containment Totp Hostd Admission Output Sandbox Display
    Canonical_Json Prompt Totp_Code Totp_Store
    Store_Base Store_Requests Store_Lockdown Store_Grants Service_Routing Service Service_Create Service_Decide
    Store_Laws Service_Laws Review_Laws Grant_Laws Broker_State Broker Broker_Run Broker_Safety Broker_Gates Broker_Issue
    Store_Threads A2a_History Contain Contain_Laws
begin

text \<open>
  agent-auth gives agents temporary access to services. An agent sends the broker a request; the broker
  validates it, checks restricted zones, evaluates the operator's policy and its saved rules, and takes one of
  four routes: approve, deny, ask a reviewing model, ask a person. An approved request becomes a grant that a
  provisioner makes real, that expires, and that containment or a person can end at any time. Commands on
  a host go through a daemon of that host, which trusts the broker's word for nothing that its own policy, a
  TOTP code or the person at its desk has to decide. The paths below are under \<open>src/rust/crates\<close>.

  \<^bold>\<open>Shared.\<close> \<open>Prelude\<close> has Rust's \<open>Result\<close> as a sum, \<open>BTreeMap\<close> and \<open>BTreeSet\<close> as strictly sorted lists, the
  string functions the sources call, saturating words, and the interfaces \<open>wire_enum\<close> (a pair of an
  \<open>as_str\<close> and a \<open>parse\<close>), \<open>canonical_form\<close> (a normal form that is a fixed point) and \<open>guarded_machine\<close> (a
  state machine with a guard that its events keep), each interpreted on the code that provides it. \<open>Json\<close> is
  \<open>serde_json::Value\<close>.

  \<^bold>\<open>The policy core\<close> (\<open>core/src\<close>).
  \<open>Glob\<close> (\<open>glob.rs\<close>): patterns and the two-index matcher, which terminates and decides exactly the language of
  the pattern. \<open>Lifecycle\<close> (\<open>lifecycle.rs\<close>, \<open>platform.rs\<close>, \<open>approval.rs\<close>): the status machines.
  \<open>Names\<close>, \<open>Durations\<close>, \<open>Pool\<close>, \<open>Mail_Authority\<close>, \<open>Authority\<close>, \<open>Hostexec\<close>: what is asked for; the wire and stored
  forms round trip, and a rule pinned to an authority covers a request only where it allows no more.
  \<open>Agents\<close> (\<open>policy/agents.rs\<close>), \<open>Policy_Schema\<close>, \<open>Policy_Mail\<close>, \<open>Policy\<close> (\<open>policy/*.rs\<close>): the policy file, loaded,
  normalised and checked. \<open>Zones\<close> (\<open>zones.rs\<close>), \<open>Containment\<close> (\<open>containment.rs\<close>). \<open>Routing\<close> (\<open>routing.rs\<close>): the gates.
  \<open>Policy_Eval\<close> (\<open>policy/eval.rs\<close>): which rule decides, and that what is cleared without a person is
  justified. \<open>Sandbox\<close> (\<open>sandbox.rs\<close>): names and holds of virtual machines. \<open>Pyfmt\<close>, \<open>Canonical_Json\<close>, \<open>Prompt\<close>:
  texts that are shown, hashed or put before a model.

  \<^bold>\<open>The host\<close> (\<open>core/src/hostd\<close>, \<open>crypto/src\<close>, \<open>hostd/src\<close>). \<open>Hostd\<close>, \<open>Admission\<close>: what a job or a command in a shell needs to run, over every
  history of codes, desk answers, arming, jobs and shells; that a closed shell is forgotten is not used. \<open>Totp\<close>, \<open>Totp_Code\<close>, \<open>Totp_Store\<close>: codes are used once,
  wrong ones are counted, and this survives restarts and failing writes. \<open>Output\<close>, \<open>Display\<close>: what comes back and what is shown.

  \<^bold>\<open>The broker's database\<close> (\<open>store/src\<close>). \<open>Store_Base\<close>: rows, transactions and column conversions
  (\<open>values.rs\<close>). \<open>Store_Requests\<close> (\<open>requests.rs\<close>), \<open>Store_Lockdown\<close> (\<open>agents.rs\<close>, \<open>lockdown.rs\<close>), \<open>Store_Grants\<close>
  (\<open>grants.rs\<close>, \<open>rules.rs\<close>, \<open>llm.rs\<close>), \<open>Store_Threads\<close> (\<open>a2a.rs\<close>): one definition per operation. \<open>Store_Laws\<close> states the tables as the
  interface \<open>keyed_table\<close>, interpreted on requests, grants, agents, rules and threads, and on it the laws of the
  compare-and-swap. \<open>A2a_History\<close> takes the conversations of agents through every history: the log of a thread
  has no gap, a closed thread is final, and only agents that are free to talk exchange messages.

  \<^bold>\<open>The broker's request service\<close> (\<open>broker/src/service\<close>). \<open>Service_Routing\<close> (\<open>routing.rs\<close>, \<open>a2a/delegation.rs\<close>), \<open>Service\<close>
  (\<open>provision.rs\<close>), \<open>Service_Create\<close> (\<open>create.rs\<close>), \<open>Service_Decide\<close> (\<open>decide.rs\<close>, \<open>llm_task.rs\<close>): one definition per
  transaction, composed as the code composes them. \<open>Service_Laws\<close>, \<open>Review_Laws\<close> and \<open>Grant_Laws\<close> say what each does
  to requests and grants. \<open>Broker\<close> is the step relation \<open>broker_step\<close>: any interleaving of these transactions,
  and of arbitrary writes to the other tables (\<open>elsewhere\<close>). \<open>Broker_State\<close> and \<open>Broker_Safety\<close>: the invariant of the
  database, what a new grant took, and that grants only shrink and requests follow their machine over every
  history. \<open>Broker_Gates\<close>: the policy's guarantees carried over to the grants, and shells. \<open>Broker_Issue\<close>: containment,
  credentials and delegation. \<open>Broker_Run\<close>: two evaluated histories. \<open>Contain\<close> (\<open>broker/src/containment.rs\<close>) is containment
  as a whole, recording and acting, and the scheduler's sweep; \<open>Contain_Laws\<close> proves that it is made of steps of the
  broker, what it leaves whoever it holds, and how far the check on entries that hold everyone goes.

  \<^bold>\<open>How the code is read.\<close> A text is a \<open>string\<close>, one character for each Rust \<open>char\<close> up to U+00FF; where other
  characters matter (\<open>Pyfmt\<close>, \<open>Display\<close>, \<open>Prompt\<close>, \<open>Canonical_Json\<close>, notes of a request) it is a list of code
  points. \<open>len()\<close> is the length in UTF-8. A validated newtype is its text with the check. A double is its
  shortest decimal. Times are nanoseconds or, on a host, 64-bit words; durations are seconds. An id is a
  constructor around its UUID, a rule's the 128-bit number. Loops are structural or have a measure; no fuel
  is used, and every function is total.
  A transaction is a function of the database that gives a result and the database it commits, or an error, and
  then nothing changed. The row locks and the containment lock make transactions take effect one after the
  other; this is what the model takes from PostgreSQL. A function that reads, waits for someone and then
  writes is two transactions with anything between them. The answers of provisioners, of the reviewer and of
  gates, new ids and the clock are arguments. A database that does not answer
  is not modelled: an operation fails where its own code or a key of a table says so. Writes
  of the other tables are arbitrary in the step relation; where a law needs a key of such a table, as containment needs
  that ids of agents are distinct, it is a hypothesis. A virtual machine freezes and thaws at once when told to. The scheduler's passes over many grants take one time for the
  whole pass; the step relation takes each of their transactions at a time of its own. Of the tables modelled here a provisioner writes only
  the alias it created and the resource of that grant. The checks of the database's schema are not
  enforced by the model; \<open>store_ok\<close> proves that the code never needs them.

  \<^bold>\<open>Parameters.\<close> The regular expressions of templates, the YAML reader and the derived deserialisers of
  the policy's sections, the printing and reading of dates (\<open>time_lib\<close>), the text of JSON (\<open>js_read\<close>, \<open>js_write\<close>),
  HMAC and SHA, the outcome of a file operation, and in \<open>app_state\<close> the validators of the
  platforms, the reading of a thread's UUID and the wording of an authority's error.

  \<^bold>\<open>Not modelled.\<close> The provisioners of the single platforms (GitHub, Kubernetes, Google, LLDAP, mail,
  pools, MCP) and what they send; HTTP handlers, authentication of callers, OAuth, Discord, the mail gateway, the requests
  and waits around a conversation (\<open>broker/src/a2a\<close>), telling virtual machines of a containment, and notifications: input and output around the decisions above. The listing
  queries of the store that only feed a page, and its tables for sessions, mail items,
  OAuth and daemons. MIME and HTML reading (\<open>mail/src\<close>), TLS, key wrapping and the random generator
  (\<open>crypto/src\<close>). The client, the command lines and the tool descriptions (\<open>client\<close>, \<open>cli\<close>, \<open>mcp\<close>, \<open>wire\<close>). The processes,
  sockets and event loops of the daemons (\<open>hostd/src\<close>, \<open>sandboxd/src\<close>). Log lines. The conversions of host
  times to floating-point seconds.
\<close>

end
